(* ===== verification/MA_Prelude.thy ===== *)
theory MA_Prelude
  imports Main "HOL-Library.Word" "HOL-Library.Sublist" "HOL-Library.Code_Target_Nat"
begin

text \<open>
  Shared vocabulary of the development.

  A Rust \<open>String\<close> or \<open>&str\<close> is modelled by the byte sequence it stores, a \<^typ>\<open>string\<close>
  (a HOL \<open>char\<close> is eight bits): \<open>length\<close> is \<open>str::len\<close>, and searching for or splitting at an
  ASCII pattern is the same on bytes and on characters. Where the source works on Unicode
  characters (\<open>trim\<close>, \<open>split_whitespace\<close>, \<open>char::is_whitespace\<close>) the operations below recognise
  the UTF-8 encodings of the \<open>White_Space\<close> characters, and where a slice could fall inside a
  character (\<open>str_slice\<close>) the character-boundary check of Rust is part of the definition.

  The theory holds the string operations of \<open>core::str\<close> the program uses, decimal printing and
  the \<open>FromStr\<close> parsers of the integer types, the result type, and the lemma collections.
\<close>

named_theorems strs \<open>equations of the string operations on concatenations\<close>
named_theorems parses \<open>parser results on printed values\<close>

type_synonym u32 = "32 word"
type_synonym u64 = "64 word"

text \<open>\<open>anyhow::Result\<close>: an error message or a value.\<close>

type_synonym 'a result = "string + 'a"

section \<open>Characters\<close>

abbreviation newline :: char where "newline \<equiv> CHR 0x0A"
abbreviation carriage :: char where "carriage \<equiv> CHR 0x0D"
abbreviation dquote :: char where "dquote \<equiv> CHR 0x22"
abbreviation squote :: char where "squote \<equiv> CHR 0x27"
abbreviation backslash :: char where "backslash \<equiv> CHR 0x5C"

text \<open>The em dash of the operator messages, in UTF-8.\<close>

definition em_dash :: string where
  "em_dash = [CHR 0xE2, CHR 0x80, CHR 0x94]"

definition is_digit :: "char \<Rightarrow> bool" where
  "is_digit c \<longleftrightarrow> 48 \<le> (of_char c :: nat) \<and> (of_char c :: nat) \<le> 57"

definition is_alnum :: "char \<Rightarrow> bool" where
  "is_alnum c \<longleftrightarrow> is_digit c
     \<or> (65 \<le> (of_char c :: nat) \<and> (of_char c :: nat) \<le> 90)
     \<or> (97 \<le> (of_char c :: nat) \<and> (of_char c :: nat) \<le> 122)"

text \<open>Bytes of a multi-byte character: continuation bytes are \<open>10xxxxxx\<close>.\<close>

definition is_ascii :: "char \<Rightarrow> bool" where
  "is_ascii c \<longleftrightarrow> (of_char c :: nat) < 128"

definition is_cont :: "char \<Rightarrow> bool" where
  "is_cont c \<longleftrightarrow> 128 \<le> (of_char c :: nat) \<and> (of_char c :: nat) < 192"

definition lead_len :: "char \<Rightarrow> nat" where
  "lead_len c = (let n = (of_char c :: nat) in
     if n < 128 then 1 else if n < 192 then 0 else if n < 224 then 2 else if n < 240 then 3
     else if n < 248 then 4 else 0)"

text \<open>
  Byte sequences that are cut into characters: every lead byte is followed by the continuation
  bytes it announces; the first argument counts those still due. Every Rust string satisfies it
  (Rust demands more: no overlong forms, no surrogates), so what is proved under this hypothesis
  holds for all of them.
\<close>

fun utf8_run :: "nat \<Rightarrow> string \<Rightarrow> bool" where
  "utf8_run n [] \<longleftrightarrow> n = 0"
| "utf8_run 0 (c # cs) \<longleftrightarrow> 0 < lead_len c \<and> utf8_run (lead_len c - 1) cs"
| "utf8_run (Suc n) (c # cs) \<longleftrightarrow> is_cont c \<and> utf8_run n cs"

definition utf8 :: "string \<Rightarrow> bool" where
  "utf8 s = utf8_run 0 s"

lemma ascii_not_cont [simp]: "is_ascii c \<Longrightarrow> \<not> is_cont c"
  by (simp add: is_ascii_def is_cont_def)

lemma ascii_lead_len [simp]: "is_ascii c \<Longrightarrow> lead_len c = 1"
  by (simp add: is_ascii_def lead_len_def Let_def)

lemma cont_lead_len [simp]: "is_cont c \<Longrightarrow> lead_len c = 0"
  by (simp add: is_cont_def lead_len_def Let_def)

lemma utf8_Nil [simp]: "utf8 []"
  by (simp add: utf8_def)

lemma utf8_all_ascii: "\<forall>c \<in> set s. is_ascii c \<Longrightarrow> utf8 s"
  by (induction s) (auto simp: utf8_def)

lemma utf8_no_cont_head: "utf8 (c # cs) \<Longrightarrow> \<not> is_cont c"
  by (auto simp: utf8_def)

text \<open>An ASCII byte is a whole character: the parts before and after it are well formed.\<close>

lemma utf8_run_split_ascii:
  "is_ascii b \<Longrightarrow> utf8_run n (xs @ b # ys) \<Longrightarrow> utf8_run n xs \<and> utf8_run 0 ys"
  by (induction n xs rule: utf8_run.induct) (auto simp: gr0_conv_Suc elim: utf8_run.elims)

lemma utf8_split_ascii: "is_ascii b \<Longrightarrow> utf8 (xs @ b # ys) \<Longrightarrow> utf8 xs \<and> utf8 ys"
  unfolding utf8_def by (rule utf8_run_split_ascii)

lemma utf8_run_append: "utf8_run n xs \<Longrightarrow> utf8_run n (xs @ ys) = utf8_run 0 ys"
  by (induction n xs rule: utf8_run.induct) auto

lemma utf8_append: "utf8 xs \<Longrightarrow> utf8 (xs @ ys) = utf8 ys"
  unfolding utf8_def by (rule utf8_run_append)

text \<open>More generally a well-formed string may be cut in front of any byte that starts a character.\<close>

lemma utf8_run_split_lead:
  "utf8_run n (xs @ b # ys) \<Longrightarrow> \<not> is_cont b \<Longrightarrow> utf8_run n xs \<and> utf8_run 0 (b # ys)"
  by (induction n xs rule: utf8_run.induct) (auto simp: gr0_conv_Suc elim: utf8_run.elims)

lemma utf8_split_lead: "utf8 (xs @ b # ys) \<Longrightarrow> \<not> is_cont b \<Longrightarrow> utf8 xs \<and> utf8 (b # ys)"
  unfolding utf8_def by (rule utf8_run_split_lead)

lemma utf8_run_cut:
  "utf8_run n cs \<Longrightarrow> n \<le> length cs \<and> utf8_run n (take n cs) \<and> utf8_run 0 (drop n cs)"
  by (induction n arbitrary: cs) (case_tac [2] cs, auto)

lemma utf8_char:
  assumes "utf8 (c # cs)" and "\<not> is_ascii c"
  shows "2 \<le> lead_len c \<and> utf8 (take (lead_len c) (c # cs)) \<and> utf8 (drop (lead_len c) (c # cs))"
proof -
  have l: "0 < lead_len c" "utf8_run (lead_len c - 1) cs" using assms(1) by (auto simp: utf8_def)
  have two: "2 \<le> lead_len c"
    using l(1) assms(2) by (auto simp: lead_len_def is_ascii_def Let_def split: if_splits)
  then obtain k where "lead_len c = Suc (Suc k)" by (metis add_2_eq_Suc le_Suc_ex)
  with l utf8_run_cut [of "lead_len c - 1" cs] show ?thesis by (simp add: utf8_def)
qed

section \<open>Searching, splitting and trimming\<close>

text \<open>\<open>str::find\<close> and \<open>str::rfind\<close> of a string pattern: the byte index of the first or last match.\<close>

fun str_find :: "string \<Rightarrow> string \<Rightarrow> nat option" where
  "str_find pat [] = (if pat = [] then Some 0 else None)"
| "str_find pat (c # cs) =
     (if prefix pat (c # cs) then Some 0 else map_option Suc (str_find pat cs))"

fun str_rfind :: "string \<Rightarrow> string \<Rightarrow> nat option" where
  "str_rfind pat [] = (if pat = [] then Some 0 else None)"
| "str_rfind pat (c # cs) =
     (case str_rfind pat cs of
        Some i \<Rightarrow> Some (Suc i)
      | None \<Rightarrow> if prefix pat (c # cs) then Some 0 else None)"

definition str_contains :: "string \<Rightarrow> string \<Rightarrow> bool" where
  "str_contains pat s \<longleftrightarrow> str_find pat s \<noteq> None"

definition strip_prefix :: "string \<Rightarrow> string \<Rightarrow> string option" where
  "strip_prefix pat s = (if prefix pat s then Some (drop (length pat) s) else None)"

definition strip_suffix :: "string \<Rightarrow> string \<Rightarrow> string option" where
  "strip_suffix pat s =
     (if suffix pat s then Some (take (length s - length pat) s) else None)"

text \<open>\<open>Option::unwrap_or\<close>.\<close>

definition unwrap_or :: "'a \<Rightarrow> 'a option \<Rightarrow> 'a" where
  "unwrap_or d x = (case x of None \<Rightarrow> d | Some v \<Rightarrow> v)"

text \<open>\<open>str::split\<close> at every character that satisfies a predicate on ASCII characters.\<close>

fun split_at :: "(char \<Rightarrow> bool) \<Rightarrow> string \<Rightarrow> string list" where
  "split_at p [] = [[]]"
| "split_at p (c # cs) =
     (if p c then [] # split_at p cs
      else case split_at p cs of w # ws \<Rightarrow> (c # w) # ws | [] \<Rightarrow> [[c]])"

text \<open>
  A slice \<open>&s[i..j]\<close>: \<^term>\<open>None\<close> is the panic, for indices out of order, out of range or inside
  a character.
\<close>

definition char_boundary :: "nat \<Rightarrow> string \<Rightarrow> bool" where
  "char_boundary i s \<longleftrightarrow> i = 0 \<or> i = length s \<or> (i < length s \<and> \<not> is_cont (s ! i))"

definition str_slice :: "nat \<Rightarrow> nat \<Rightarrow> string \<Rightarrow> string option" where
  "str_slice i j s =
     (if i \<le> j \<and> j \<le> length s \<and> char_boundary i s \<and> char_boundary j s
      then Some (take (j - i) (drop i s)) else None)"

text \<open>
  Bytes taken by a white-space character at the start of a string: the \<open>White_Space\<close> code points
  U+0009..U+000D, U+0020, U+0085, U+00A0, U+1680, U+2000..U+200A, U+2028, U+2029, U+202F, U+205F
  and U+3000 in UTF-8; 0 when the string does not start with one.
\<close>

definition is_ascii_ws :: "char \<Rightarrow> bool" where
  "is_ascii_ws c \<longleftrightarrow>
     c = CHR 0x20 \<or> c = CHR 0x09 \<or> c = CHR 0x0A \<or> c = CHR 0x0B \<or> c = CHR 0x0C \<or> c = CHR 0x0D"

definition is_wide_ws :: "string \<Rightarrow> bool" where
  "is_wide_ws s \<longleftrightarrow> s \<in> set
     ([[CHR 0xC2, CHR 0x85], [CHR 0xC2, CHR 0xA0], [CHR 0xE1, CHR 0x9A, CHR 0x80],
       [CHR 0xE2, CHR 0x80, CHR 0xA8], [CHR 0xE2, CHR 0x80, CHR 0xA9], [CHR 0xE2, CHR 0x80, CHR 0xAF],
       [CHR 0xE2, CHR 0x81, CHR 0x9F], [CHR 0xE3, CHR 0x80, CHR 0x80]]
      @ map (\<lambda>c. [CHR 0xE2, CHR 0x80, c])
          [CHR 0x80, CHR 0x81, CHR 0x82, CHR 0x83, CHR 0x84, CHR 0x85, CHR 0x86, CHR 0x87,
           CHR 0x88, CHR 0x89, CHR 0x8A])"

definition ws_len :: "string \<Rightarrow> nat" where
  "ws_len s =
     (case s of
        [] \<Rightarrow> 0
      | c # _ \<Rightarrow> if is_ascii_ws c then 1
               else if is_wide_ws (take 2 s) then 2
               else if is_wide_ws (take 3 s) then 3
               else 0)"

text \<open>The same at the end of the string.\<close>

definition ws_len_end :: "string \<Rightarrow> nat" where
  "ws_len_end s =
     (if s = [] then 0
      else if is_ascii_ws (last s) then 1
      else if is_wide_ws (drop (length s - 2) s) then 2
      else if is_wide_ws (drop (length s - 3) s) then 3
      else 0)"

lemma ws_len_le: "ws_len s \<le> length s"
  by (cases s rule: list.exhaust; cases "tl s"; cases "tl (tl s)")
     (auto simp: ws_len_def is_wide_ws_def split: if_splits)

lemma ws_len_end_le: "ws_len_end s \<le> length s"
  by (cases s rule: rev_cases; cases "length s < 3")
     (auto simp: ws_len_end_def is_wide_ws_def dest!: arg_cong [where f = length])

function trim_start :: "string \<Rightarrow> string" where
  "trim_start s = (if ws_len s = 0 then s else trim_start (drop (ws_len s) s))"
  by pat_completeness auto
termination
proof (relation "measure length")
  fix s :: string
  assume "ws_len s \<noteq> 0"
  with ws_len_le [of s] show "(drop (ws_len s) s, s) \<in> measure length" by simp
qed simp

function trim_end :: "string \<Rightarrow> string" where
  "trim_end s =
     (if ws_len_end s = 0 then s else trim_end (take (length s - ws_len_end s) s))"
  by pat_completeness auto
termination
proof (relation "measure length")
  fix s :: string
  assume "ws_len_end s \<noteq> 0"
  with ws_len_end_le [of s] show "(take (length s - ws_len_end s) s, s) \<in> measure length" by simp
qed simp

declare trim_start.simps [simp del] trim_end.simps [simp del]

definition trim :: "string \<Rightarrow> string" where
  "trim s = trim_end (trim_start s)"

text \<open>\<open>str::split_whitespace\<close>: the maximal runs without white space, in order.\<close>

function split_ws_acc :: "string \<Rightarrow> string \<Rightarrow> string list" where
  "split_ws_acc w s =
     (if s = [] then (if w = [] then [] else [w])
      else if ws_len s = 0 then split_ws_acc (w @ [hd s]) (tl s)
      else (if w = [] then [] else [w]) @ split_ws_acc [] (drop (ws_len s) s))"
  by pat_completeness auto
termination
proof (relation "measure (length \<circ> snd)")
  fix w s :: string
  assume "s \<noteq> []"
  then show "((w @ [hd s], tl s), w, s) \<in> measure (length \<circ> snd)" by (simp add: length_greater_0_conv [symmetric] del: length_greater_0_conv)
next
  fix w s :: string
  assume "ws_len s \<noteq> 0"
  with ws_len_le [of s] show "(([], drop (ws_len s) s), w, s) \<in> measure (length \<circ> snd)" by simp
qed simp

declare split_ws_acc.simps [simp del]

definition split_whitespace :: "string \<Rightarrow> string list" where
  "split_whitespace s = split_ws_acc [] s"

text \<open>
  \<open>str::to_uppercase\<close>: ASCII letters by the table, every other character by the Unicode table
  \<open>unicode_upper\<close>, which takes and returns the UTF-8 bytes of one character (the result may be
  several characters) and stays a parameter.
\<close>

definition upper_ascii :: "char \<Rightarrow> char" where
  "upper_ascii c = (let n = (of_char c :: nat) in if 97 \<le> n \<and> n \<le> 122 then char_of (n - 32) else c)"

function to_uppercase :: "(string \<Rightarrow> string) \<Rightarrow> string \<Rightarrow> string" where
  "to_uppercase unicode_upper [] = []"
| "to_uppercase unicode_upper (c # cs) =
     (if is_ascii c then upper_ascii c # to_uppercase unicode_upper cs
      else unicode_upper (take (max 1 (lead_len c)) (c # cs))
           @ to_uppercase unicode_upper (drop (max 1 (lead_len c)) (c # cs)))"
  by pat_completeness auto
termination
  by (relation "measure (length \<circ> snd)") auto

text \<open>What a \<open>String\<close> result means for the table: well formed in, well formed out.\<close>

definition upper_ok :: "(string \<Rightarrow> string) \<Rightarrow> bool" where
  "upper_ok unicode_upper \<longleftrightarrow> (\<forall>s. utf8 s \<longrightarrow> utf8 (unicode_upper s))"

text \<open>\<open>trim_end_matches\<close> with a string pattern.\<close>

function trim_end_matches :: "string \<Rightarrow> string \<Rightarrow> string" where
  "trim_end_matches pat s =
     (if pat \<noteq> [] \<and> suffix pat s then trim_end_matches pat (take (length s - length pat) s) else s)"
  by pat_completeness auto
termination
  by (relation "measure (length \<circ> snd)") (auto simp: suffix_def)

declare trim_end_matches.simps [simp del]

text \<open>\<open>[\<dots>].join(sep)\<close>.\<close>

fun join :: "string \<Rightarrow> string list \<Rightarrow> string" where
  "join sep [] = []"
| "join sep [x] = x"
| "join sep (x # y # xs) = x @ sep @ join sep (y # xs)"

section \<open>Decimal numbers\<close>

text \<open>\<open>Display\<close> of the integer types.\<close>

definition digit :: "nat \<Rightarrow> char" where
  "digit n = ''0123456789'' ! n"

fun show_nat :: "nat \<Rightarrow> string" where
  "show_nat n = (if n < 10 then [digit n] else show_nat (n div 10) @ [digit (n mod 10)])"

declare show_nat.simps [simp del]

definition show_int :: "int \<Rightarrow> string" where
  "show_int i = (if i < 0 then CHR ''-'' # show_nat (nat (- i)) else show_nat (nat i))"

text \<open>
  \<open>str::parse\<close> into \<open>u32\<close>, \<open>u64\<close> and \<open>i32\<close>: an optional sign, at least one digit, nothing else, and
  the value in range.
\<close>

definition digits_val :: "string \<Rightarrow> nat" where
  "digits_val s = foldl (\<lambda>a c. a * 10 + (of_char c - 48)) 0 s"

definition parse_digits :: "string \<Rightarrow> nat option" where
  "parse_digits s = (if s \<noteq> [] \<and> list_all is_digit s then Some (digits_val s) else None)"

definition parse_unsigned :: "nat \<Rightarrow> string \<Rightarrow> nat option" where
  "parse_unsigned bound s =
     (case parse_digits (case s of c # r \<Rightarrow> if c = CHR ''+'' then r else s | [] \<Rightarrow> s) of
        Some n \<Rightarrow> if n < bound then Some n else None
      | None \<Rightarrow> None)"

definition parse_u32 :: "string \<Rightarrow> u32 option" where
  "parse_u32 s = map_option of_nat (parse_unsigned (2 ^ 32) s)"

definition in_i32 :: "int \<Rightarrow> bool" where
  "in_i32 i \<longleftrightarrow> - (2 ^ 31) \<le> i \<and> i < 2 ^ 31"

definition parse_i32 :: "string \<Rightarrow> int option" where
  "parse_i32 s =
     (let v = (case s of
          [] \<Rightarrow> None
        | c # r \<Rightarrow>
            if c = CHR ''-'' then map_option (\<lambda>n. - int n) (parse_digits r)
            else if c = CHR ''+'' then map_option int (parse_digits r)
            else map_option int (parse_digits s))
      in case v of Some i \<Rightarrow> if in_i32 i then Some i else None | None \<Rightarrow> None)"

lemma of_char_digit [simp]: "n < 10 \<Longrightarrow> of_char (digit n) = 48 + n"
  by (auto simp: digit_def less_Suc_eq numeral_eq_Suc)

lemma is_digit_digit [simp]: "n < 10 \<Longrightarrow> is_digit (digit n)"
  by (simp add: is_digit_def)

lemma show_nat_nonempty [simp]: "show_nat n \<noteq> []"
  by (subst show_nat.simps) simp

lemma show_nat_digits: "list_all is_digit (show_nat n)"
proof (induction n rule: show_nat.induct)
  case (1 n)
  then show ?case by (subst show_nat.simps) auto
qed

lemma show_nat_digitsD: "c \<in> set (show_nat n) \<Longrightarrow> is_digit c"
  using show_nat_digits [of n] by (auto simp: list_all_iff)

lemma digits_val_snoc: "digits_val (xs @ [c]) = digits_val xs * 10 + (of_char c - 48)"
  by (simp add: digits_val_def)

lemma digits_val_show_nat [parses]: "digits_val (show_nat n) = n"
proof (induction n rule: show_nat.induct)
  case (1 n)
  show ?case
  proof (cases "n < 10")
    case True
    then show ?thesis by (subst show_nat.simps) (simp add: digits_val_def)
  next
    case False
    with 1 show ?thesis by (subst show_nat.simps) (simp add: digits_val_snoc)
  qed
qed

lemma parse_digits_show_nat [parses]: "parse_digits (show_nat n) = Some n"
  by (simp add: parse_digits_def show_nat_digits digits_val_show_nat)

lemma not_digit_signs [simp]:
  "\<not> is_digit (CHR ''-'')" "\<not> is_digit (CHR ''+'')" "\<not> is_digit (CHR '' '')" "\<not> is_digit (CHR '','')"
  "\<not> is_digit (CHR ''.'')" "\<not> is_digit (CHR ''v'')" "\<not> is_digit (CHR ''X'')" "\<not> is_digit (CHR ''Y'')"
  "\<not> is_digit (CHR ''='')"
  by (simp_all add: is_digit_def)

lemma show_nat_Cons: "\<exists>c cs. show_nat n = c # cs \<and> is_digit c"
  by (metis list.exhaust list.set_intros(1) show_nat_digitsD show_nat_nonempty)

lemma parse_unsigned_show_nat [parses]:
  "n < bound \<Longrightarrow> parse_unsigned bound (show_nat n) = Some n"
proof -
  assume n: "n < bound"
  obtain c cs where c: "show_nat n = c # cs" "is_digit c" using show_nat_Cons by blast
  then have "c \<noteq> CHR ''+''" by auto
  with c n parse_digits_show_nat [of n] show ?thesis by (simp add: parse_unsigned_def)
qed

lemma parse_u32_show [parses]: "parse_u32 (show_nat (unat w)) = Some w"
proof -
  have "unat w < 2 ^ 32" using unsigned_less [of w, where 'a = nat] by simp
  then show ?thesis by (simp add: parse_u32_def parses)
qed

lemma parse_i32_show_int [parses]: "in_i32 i \<Longrightarrow> parse_i32 (show_int i) = Some i"
proof -
  assume i: "in_i32 i"
  obtain c cs where c: "show_nat (nat i) = c # cs" "is_digit c" using show_nat_Cons by blast
  then have "c \<noteq> CHR ''-''" "c \<noteq> CHR ''+''" by auto
  with c i parse_digits_show_nat [of "nat i"] show ?thesis
    by (auto simp: parse_i32_def show_int_def Let_def parses)
qed

lemma parse_i32_range: "parse_i32 s = Some i \<Longrightarrow> in_i32 i"
  by (auto simp: parse_i32_def Let_def split: option.splits if_splits)

lemma show_int_chars: "c \<in> set (show_int i) \<Longrightarrow> is_digit c \<or> c = CHR ''-''"
  by (auto simp: show_int_def dest: show_nat_digitsD split: if_splits)

lemma show_int_nonempty [simp]: "show_int i \<noteq> []"
  by (simp add: show_int_def)

section \<open>Lemmas on searching\<close>

lemma str_find_absent [strs]: "c \<notin> set s \<Longrightarrow> str_find (c # p) s = None"
  by (induction s) auto

lemma str_find_skip [strs]:
  "c \<notin> set xs \<Longrightarrow> str_find (c # p) (xs @ c # p @ ys) = Some (length xs)"
  by (induction xs) auto

lemma str_find_Some: "str_find p s = Some i \<Longrightarrow> i + length p \<le> length s \<and> prefix p (drop i s)"
  by (induction s arbitrary: i) (auto split: if_splits dest: prefix_length_le)

lemma str_find_char_iff: "str_find [c] s = None \<longleftrightarrow> c \<notin> set s"
  by (induction s) auto

lemma str_find_char_Some:
  "str_find [c] s = Some i \<Longrightarrow> s = take i s @ c # drop (Suc i) s \<and> c \<notin> set (take i s)"
  by (induction s arbitrary: i) (auto split: if_splits)

lemma strip_prefix_append [strs, simp]: "strip_prefix p (p @ s) = Some s"
  by (simp add: strip_prefix_def)

lemma strip_suffix_append [strs, simp]: "strip_suffix p (s @ p) = Some s"
  by (simp add: strip_suffix_def suffix_def)

lemma strip_prefix_Some: "strip_prefix p s = Some r \<longleftrightarrow> s = p @ r"
  by (auto simp: strip_prefix_def prefix_def)

lemma strip_suffix_Some: "strip_suffix p s = Some r \<longleftrightarrow> s = r @ p"
  by (auto simp: strip_suffix_def suffix_def)

lemma split_at_nonempty [simp]: "split_at p s \<noteq> []"
  by (induction s) (auto split: list.splits)

lemma split_at_none: "list_all (\<lambda>c. \<not> p c) s \<Longrightarrow> split_at p s = [s]"
  by (induction s) auto

lemma split_at_append:
  "list_all (\<lambda>c. \<not> p c) s \<Longrightarrow> p c \<Longrightarrow> split_at p (s @ c # r) = s # split_at p r"
  by (induction s) auto

lemma trim_none: "ws_len s = 0 \<Longrightarrow> ws_len_end s = 0 \<Longrightarrow> trim s = s"
  by (simp add: trim_def trim_start.simps [of s] trim_end.simps [of s])

text \<open>Trimming: ASCII white space in front goes, a string ending in a visible ASCII byte stays.\<close>

lemma trim_start_ws: "list_all is_ascii_ws w \<Longrightarrow> trim_start (w @ s) = trim_start s"
proof (induction w)
  case (Cons c w)
  then have "ws_len (c # w @ s) = 1" by (simp add: ws_len_def)
  with Cons show ?case by (simp add: trim_start.simps [of "c # w @ s"])
qed simp

definition is_visible :: "char \<Rightarrow> bool" where
  "is_visible c \<longleftrightarrow> is_ascii c \<and> \<not> is_ascii_ws c"

lemma is_wide_ws_no_ascii: "is_wide_ws s \<Longrightarrow> c \<in> set s \<Longrightarrow> \<not> is_ascii c"
  by (auto simp: is_wide_ws_def is_ascii_def)

lemma ws_len_visible [simp]: "is_visible c \<Longrightarrow> ws_len (c # s) = 0"
  using is_wide_ws_no_ascii [of "take 2 (c # s)" c] is_wide_ws_no_ascii [of "take 3 (c # s)" c]
  by (auto simp: ws_len_def is_visible_def)

lemma trim_start_visible [simp]: "is_visible c \<Longrightarrow> trim_start (c # s) = c # s"
  by (simp add: trim_start.simps)

lemma is_wide_ws_keeps:
  "is_visible c \<Longrightarrow> is_wide_ws (drop n (xs @ c # ys)) \<Longrightarrow> length xs < n"
  using is_wide_ws_no_ascii [of "drop n (xs @ c # ys)" c]
  by (cases "n \<le> length xs") (auto simp: is_visible_def)

lemma ws_len_end_keeps:
  assumes "is_visible c"
  shows "ws_len_end (xs @ c # ys) \<le> length ys"
proof -
  have two: "2 \<le> length ys" if "is_wide_ws (drop (length (xs @ c # ys) - 2) (xs @ c # ys))"
    using is_wide_ws_keeps [OF assms that] by simp
  have three: "3 \<le> length ys" if "is_wide_ws (drop (length (xs @ c # ys) - 3) (xs @ c # ys))"
    using is_wide_ws_keeps [OF assms that] by simp
  show ?thesis using two three assms
    by (auto simp: ws_len_end_def is_visible_def Suc_le_eq simp del: length_append)
qed

lemma trim_end_keeps:
  "is_visible c \<Longrightarrow> \<exists>zs. prefix zs ys \<and> trim_end (xs @ c # ys) = xs @ c # zs"
proof (induction "length ys" arbitrary: ys rule: less_induct)
  case less
  let ?k = "ws_len_end (xs @ c # ys)"
  show ?case
  proof (cases "?k = 0")
    case True
    then have "trim_end (xs @ c # ys) = xs @ c # ys" by (simp add: trim_end.simps [of "xs @ c # ys"])
    then show ?thesis by blast
  next
    case False
    have le: "?k \<le> length ys" using less.prems by (rule ws_len_end_keeps)
    let ?ys = "take (length ys - ?k) ys"
    have cut: "take (length (xs @ c # ys) - ?k) (xs @ c # ys) = xs @ c # ?ys"
      using le by (simp add: Suc_diff_le)
    have "length ?ys < length ys" using le False by simp
    then obtain zs where zs: "prefix zs ?ys" "trim_end (xs @ c # ?ys) = xs @ c # zs"
      using less.hyps less.prems by blast
    have "trim_end (xs @ c # ys) = trim_end (xs @ c # ?ys)"
      using False cut by (simp add: trim_end.simps [of "xs @ c # ys"])
    with zs show ?thesis using take_is_prefix prefix_order.trans by metis
  qed
qed

lemma trim_end_ws: "list_all is_ascii_ws w \<Longrightarrow> trim_end (s @ w) = trim_end s"
proof (induction w rule: rev_induct)
  case (snoc c w)
  then have "ws_len_end (s @ w @ [c]) = 1" by (simp add: ws_len_end_def)
  with snoc show ?case by (simp add: trim_end.simps [of "s @ w @ [c]"])
qed simp

text \<open>Trimming twice is trimming once.\<close>

lemma ws_len_trim_start: "ws_len (trim_start s) = 0"
  by (induction s rule: trim_start.induct) (simp add: trim_start.simps)

lemma ws_len_end_trim_end: "ws_len_end (trim_end s) = 0"
  by (induction s rule: trim_end.induct) (simp add: trim_end.simps)

lemma ws_len_prefix: "prefix t s \<Longrightarrow> ws_len s = 0 \<Longrightarrow> ws_len t = 0"
proof (cases t)
  case (Cons c t')
  assume "prefix t s" "ws_len s = 0"
  then obtain s' where s: "s = c # t' @ s'" using Cons by (auto simp: prefix_def)
  have long: "k \<le> length t" if "is_wide_ws (take k t)" "k = 2 \<or> k = 3" "\<not> is_wide_ws (take 2 t)" for k
    using that Cons by (cases t'; cases "tl t'") (auto simp: is_wide_ws_def)
  have two: "2 \<le> length t" if "is_wide_ws (take 2 t)"
    using that Cons by (cases t') (auto simp: is_wide_ws_def)
  show ?thesis
  proof (rule ccontr)
    assume "ws_len t \<noteq> 0"
    then consider "is_ascii_ws c" | "is_wide_ws (take 2 t)"
      | "\<not> is_wide_ws (take 2 t)" "is_wide_ws (take 3 t)"
      using Cons by (auto simp: ws_len_def split: if_splits)
    then show False
      using two long [of 3] \<open>ws_len s = 0\<close> s Cons
      by cases (auto simp: ws_len_def take_Cons' split: if_splits)
  qed
qed (simp add: ws_len_def)

lemma trim_end_prefix: "prefix (trim_end s) s"
proof (induction s rule: trim_end.induct)
  case (1 s)
  then show ?case
    using take_is_prefix [of "length s - ws_len_end s" s]
    by (simp add: trim_end.simps [of s]) (metis prefix_order.trans)
qed

lemma trim_trim [simp]: "trim (trim s) = trim s"
proof (rule trim_none)
  show "ws_len (trim s) = 0"
    unfolding trim_def using ws_len_prefix [OF trim_end_prefix ws_len_trim_start] .
  show "ws_len_end (trim s) = 0" by (simp add: trim_def ws_len_end_trim_end)
qed

lemma is_visible_digit [simp]: "is_digit c \<Longrightarrow> is_visible c"
  by (auto simp: is_visible_def is_digit_def is_ascii_def is_ascii_ws_def)

end
