(* ===== verification/MA_Compat.thy ===== *)
theory MA_Compat
  imports MA_Prelude
begin

text \<open>
  The Control-Center version gates (\<open>capture/compat.rs\<close>): parsing and ordering of versions, the
  connect-time verdict on the server version, the record-fidelity verdict on the agent version,
  and the refusals they carry. The locale \<open>version_gate\<close> is the contract both verdicts satisfy and
  the capture stream relies on.
\<close>

section \<open>Versions\<close>

datatype version = Version (major: u32) (minor: u32) (patch: u32)

text \<open>The derived \<open>Ord\<close>: lexicographic in the order of the fields.\<close>

definition older_version :: "version \<Rightarrow> version \<Rightarrow> bool" where
  "older_version v w \<longleftrightarrow> major v < major w
     \<or> (major v = major w \<and> (minor v < minor w \<or> (minor v = minor w \<and> patch v < patch w)))"

instantiation version :: linorder
begin

definition less_version :: "version \<Rightarrow> version \<Rightarrow> bool" where
  "less_version = older_version"

definition less_eq_version :: "version \<Rightarrow> version \<Rightarrow> bool" where
  "less_eq_version v w \<longleftrightarrow> v < w \<or> v = (w :: version)"

instance
  by standard (auto simp: less_version_def older_version_def less_eq_version_def intro: version.expand)

end

definition SUPPORTED_MIN :: version where "SUPPORTED_MIN = Version 1 0 0"
definition RECORD_FIDELITY_MIN :: version where "RECORD_FIDELITY_MIN = Version 1 2 2"
definition SUPPORTED_MAX :: version where "SUPPORTED_MAX = Version 1 3 0"

definition version_parse :: "string \<Rightarrow> version option" where
  "version_parse raw =
     (let trimmed = trim raw;
          trimmed = unwrap_or trimmed (strip_prefix ''v'' trimmed);
          core = hd (split_at (\<lambda>c. c = CHR ''-'' \<or> c = CHR ''+'') trimmed)
      in case split_at (\<lambda>c. c = CHR ''.'') core of
           a # b # c # rest \<Rightarrow>
             (case (parse_u32 a, parse_u32 b, parse_u32 c) of
                (Some ma, Some mi, Some pa) \<Rightarrow>
                  if rest = [] then Some (Version ma mi pa) else None
              | _ \<Rightarrow> None)
         | _ \<Rightarrow> None)"

definition show_version :: "version \<Rightarrow> string" where
  "show_version v = show_nat (unat (major v)) @ ''.'' @ show_nat (unat (minor v))
     @ ''.'' @ show_nat (unat (patch v))"

section \<open>The server gate\<close>

datatype compat =
    Supported version
  | TooNew version version   \<comment> \<open>found, max\<close>
  | TooOld version version   \<comment> \<open>found, min\<close>
  | Unknown string

definition gate_max :: "version option \<Rightarrow> version" where
  "gate_max max_override = max (unwrap_or SUPPORTED_MAX max_override) SUPPORTED_MAX"

definition evaluate :: "string \<Rightarrow> version option \<Rightarrow> compat" where
  "evaluate reported max_override =
     (let mx = gate_max max_override in
      case version_parse reported of
        None \<Rightarrow> Unknown reported
      | Some found \<Rightarrow>
          if found > mx then TooNew found mx
          else if found < SUPPORTED_MIN then TooOld found SUPPORTED_MIN
          else Supported found)"

text \<open>The operator-facing refusals.\<close>

definition too_new_msg :: "version \<Rightarrow> version \<Rightarrow> string" where
  "too_new_msg found mx =
     ''Control-Center '' @ show_version found @ '' is newer than this build of Memory Archive has been ''
     @ ''verified against (up to '' @ show_version mx @ ''). Refusing to record rather than risk a silent ''
     @ ''mismatch: a field can change meaning without changing on the wire, as ''
     @ ''`position_captured` did in 1.2.0, and the result is a session that records ''
     @ ''confidently and wrongly. Either run Control-Center '' @ show_version mx @ '', update Memory ''
     @ ''Archive (`memory-archive update`) to a build that lists '' @ show_version found @ '' as supported, ''
     @ ''or '' @ em_dash @ '' once the release notes confirm the command stream is unchanged '' @ em_dash @ '' set ''
     @ ''`control_center_max_version = '' @ [dquote] @ show_version found @ [dquote] @ ''`. To bypass the gate entirely, set ''
     @ ''`control_center_allow_unsupported = true`.''"

definition too_old_msg :: "version \<Rightarrow> version \<Rightarrow> string" where
  "too_old_msg found mn =
     ''Control-Center '' @ show_version found @ '' is older than the oldest release Memory Archive ''
     @ ''supports ('' @ show_version mn @ ''). Upgrade Control-Center, or set ''
     @ ''`control_center_allow_unsupported = true` to record anyway.''"

fun compat_refusal :: "compat \<Rightarrow> string option" where
  "compat_refusal (Supported v) = None"
| "compat_refusal (Unknown s) = None"
| "compat_refusal (TooNew found mx) = Some (too_new_msg found mx)"
| "compat_refusal (TooOld found mn) = Some (too_old_msg found mn)"

fun compat_recorded :: "compat \<Rightarrow> string" where
  "compat_recorded (Supported v) = show_version v"
| "compat_recorded (TooNew found mx) = show_version found"
| "compat_recorded (TooOld found mn) = show_version found"
| "compat_recorded (Unknown raw) = trim raw"

section \<open>The agent gate\<close>

datatype agent_fidelity =
    Faithful version
  | Lossy version version   \<comment> \<open>found, min\<close>
  | UnknownAgent string

definition evaluate_agent :: "string \<Rightarrow> agent_fidelity" where
  "evaluate_agent reported =
     (case version_parse reported of
        None \<Rightarrow> UnknownAgent reported
      | Some found \<Rightarrow>
          if found < RECORD_FIDELITY_MIN then Lossy found RECORD_FIDELITY_MIN else Faithful found)"

definition lossy_msg :: "version \<Rightarrow> version \<Rightarrow> string" where
  "lossy_msg found mn =
     ''Control-Center agent '' @ show_version found @ '' does not record typed commands ''
     @ ''faithfully. Below '' @ show_version mn @ '' the agent rebuilt its own report of what it ''
     @ ''typed by scanning for a closing quote, so any command containing one ''
     @ ''is stored truncated at that quote. The keystrokes actuate correctly ''
     @ ''and the artifact on disk is byte-exact '' @ em_dash @ '' only the record is damaged, ''
     @ ''so nothing at capture time looks wrong and the loss is found long ''
     @ ''after the environment that produced it is gone. Refusing to record ''
     @ ''rather than write a trace that cannot be trusted. Upgrade the ''
     @ ''Control-Center agent to '' @ show_version mn @ '' or later (the server version is checked ''
     @ ''separately and does not cover this '' @ em_dash @ '' the defect is in the agent). To ''
     @ ''record anyway, set `control_center_allow_unsupported = true`.''"

fun agent_refusal :: "agent_fidelity \<Rightarrow> string option" where
  "agent_refusal (Faithful v) = None"
| "agent_refusal (UnknownAgent s) = None"
| "agent_refusal (Lossy found mn) = Some (lossy_msg found mn)"

section \<open>Parsing what is printed\<close>

definition is_tag_start :: "char \<Rightarrow> bool" where
  "is_tag_start c \<longleftrightarrow> c = CHR ''-'' \<or> c = CHR ''+''"

lemma show_version_ends: "\<exists>xs c. show_version v = xs @ [c] \<and> is_digit c"
proof -
  let ?p = "show_nat (unat (patch v))"
  have "?p = butlast ?p @ [last ?p]" by simp
  moreover have "is_digit (last ?p)" using show_nat_digitsD last_in_set show_nat_nonempty by blast
  ultimately show ?thesis unfolding show_version_def by (metis append.assoc)
qed

lemma show_version_starts: "\<exists>c cs. show_version v = c # cs \<and> is_digit c"
  using show_nat_Cons [of "unat (major v)"] by (auto simp: show_version_def)

lemma show_version_no_tag: "list_all (\<lambda>c. \<not> (c = CHR ''-'' \<or> c = CHR ''+'')) (show_version v)"
  by (auto simp: show_version_def list_all_iff dest!: show_nat_digitsD)

lemma show_nat_no_dot: "list_all (\<lambda>c. c \<noteq> CHR ''.'') (show_nat n)"
  by (auto simp: list_all_iff dest!: show_nat_digitsD)

lemma split_show_version:
  "split_at (\<lambda>c. c = CHR ''.'') (show_version v)
     = [show_nat (unat (major v)), show_nat (unat (minor v)), show_nat (unat (patch v))]"
  by (simp add: show_version_def split_at_append split_at_none show_nat_no_dot)

lemma core_of_tagged:
  assumes "t = [] \<or> is_tag_start (hd t)"
  shows "hd (split_at (\<lambda>c. c = CHR ''-'' \<or> c = CHR ''+'') (show_version v @ t)) = show_version v"
proof (cases t)
  case Nil
  then show ?thesis using split_at_none [OF show_version_no_tag, of v] by simp
next
  case (Cons c r)
  with assms have "c = CHR ''-'' \<or> c = CHR ''+''" by (simp add: is_tag_start_def)
  with Cons show ?thesis
    using split_at_append [OF show_version_no_tag, of c v r] by simp
qed

lemma trim_tagged:
  assumes "t = [] \<or> is_tag_start (hd t)" and "list_all is_ascii_ws w1" and "list_all is_ascii_ws w2"
    and "p = [] \<or> p = ''v''"
  shows "\<exists>t'. (t' = [] \<or> is_tag_start (hd t'))
     \<and> trim (w1 @ p @ show_version v @ t @ w2) = p @ show_version v @ t'"
proof -
  obtain xs c where xc: "show_version v = xs @ [c]" "is_digit c" using show_version_ends by blast
  obtain d ds where d: "show_version v = d # ds" "is_digit d" using show_version_starts by blast
  have v: "is_visible (CHR ''v'')" by (simp add: is_visible_def is_ascii_def is_ascii_ws_def)
  have start: "trim_start (w1 @ p @ show_version v @ t @ w2) = p @ show_version v @ t @ w2"
    using assms(2,4) d v by (auto simp: trim_start_ws)
  have "trim_end (p @ show_version v @ t @ w2) = trim_end ((p @ xs) @ c # t)"
    using trim_end_ws [OF assms(3), of "p @ show_version v @ t"] xc by simp
  moreover obtain t' where t': "prefix t' t" "trim_end ((p @ xs) @ c # t) = (p @ xs) @ c # t'"
    using trim_end_keeps [of c t "p @ xs"] xc(2) by auto
  moreover have "t' = [] \<or> is_tag_start (hd t')" using t'(1) assms(1) by (cases t'; cases t) auto
  ultimately show ?thesis using start xc(1) by (auto simp: trim_def)
qed

lemma strip_v:
  assumes "p = [] \<or> p = ''v''"
  shows "unwrap_or (p @ show_version v @ t) (strip_prefix ''v'' (p @ show_version v @ t))
     = show_version v @ t"
proof -
  obtain d ds where d: "show_version v = d # ds" "is_digit d" using show_version_starts by blast
  then have "d \<noteq> CHR ''v''" by auto
  with assms d show ?thesis by (auto simp: unwrap_or_def strip_prefix_def)
qed

lemma version_parse_decorated:
  assumes "t = [] \<or> is_tag_start (hd t)" and "list_all is_ascii_ws w1" and "list_all is_ascii_ws w2"
    and "p = [] \<or> p = ''v''"
  shows "version_parse (w1 @ p @ show_version v @ t @ w2) = Some v"
proof -
  obtain t' where t': "t' = [] \<or> is_tag_start (hd t')"
    "trim (w1 @ p @ show_version v @ t @ w2) = p @ show_version v @ t'"
    using trim_tagged [OF assms] by blast
  show ?thesis
    unfolding version_parse_def Let_def t'(2) strip_v [OF assms(4)] core_of_tagged [OF t'(1)]
    by (simp add: split_show_version parses)
qed

lemma version_parse_show [parses]: "version_parse (show_version v) = Some v"
  using version_parse_decorated [of "[]" "[]" "[]" "[]" v] by simp

section \<open>The contract of a gate\<close>

text \<open>
  A gate turns a reported version into a verdict and a verdict into an optional refusal. It may
  refuse only what it can read, and what it refuses is fixed by the version alone.
\<close>

locale version_gate =
  fixes verdict :: "string \<Rightarrow> 'v" and refusal :: "'v \<Rightarrow> string option" and bad :: "version \<Rightarrow> bool"
  assumes refuses_bad: "version_parse s = Some v \<Longrightarrow> bad v \<Longrightarrow> refusal (verdict s) \<noteq> None"
    and accepts_good: "version_parse s = Some v \<Longrightarrow> \<not> bad v \<Longrightarrow> refusal (verdict s) = None"
    and accepts_unread: "version_parse s = None \<Longrightarrow> refusal (verdict s) = None"
begin

lemma refusal_iff:
  "refusal (verdict s) \<noteq> None \<longleftrightarrow> (\<exists>v. version_parse s = Some v \<and> bad v)"
  by (metis accepts_good accepts_unread not_Some_eq refuses_bad)

lemma same_reading_same_decision:
  "version_parse s = version_parse s' \<Longrightarrow> (refusal (verdict s) = None) = (refusal (verdict s') = None)"
  using refusal_iff by metis

lemma refuses_printed: "refusal (verdict (show_version v)) \<noteq> None \<longleftrightarrow> bad v"
  unfolding refusal_iff by (simp add: version_parse_show)

end

definition outside_range :: "version option \<Rightarrow> version \<Rightarrow> bool" where
  "outside_range max_override v \<longleftrightarrow> v < SUPPORTED_MIN \<or> gate_max max_override < v"

interpretation server_gate: version_gate "\<lambda>s. evaluate s ov" compat_refusal "outside_range ov"
  for ov
  by unfold_locales (auto simp: evaluate_def outside_range_def Let_def)

interpretation agent_gate: version_gate evaluate_agent agent_refusal "\<lambda>v. v < RECORD_FIDELITY_MIN"
  by unfold_locales (auto simp: evaluate_agent_def)

section \<open>Properties\<close>

text \<open>
  Every printed version parses back to itself, whatever decoration the gate tolerates around
  it: ASCII white space on either side, a leading \<open>v\<close>, and a suffix that starts with \<open>-\<close> or \<open>+\<close>
  (\<open>-rc1\<close>, \<open>+build7\<close>).
\<close>

lemma version_round_trip:
  assumes "list_all is_ascii_ws w1" and "list_all is_ascii_ws w2" and "p = [] \<or> p = ''v''"
    and "t = [] \<or> is_tag_start (hd t)"
  shows "version_parse (w1 @ p @ show_version v @ t @ w2) = Some v"
  using version_parse_decorated [OF assms(4,1,2,3)] .

lemma version_round_trip_witness:
  "version_parse ('' '' @ ''v'' @ show_version (Version 1 3 0) @ ''-rc1'' @ '' '') = Some (Version 1 3 0)"
  by (rule version_round_trip) (simp_all add: is_ascii_ws_def is_tag_start_def)

lemma server_gate_decides_parts:
  "compat_refusal (evaluate s ov) \<noteq> None \<longleftrightarrow>
     (\<exists>v. version_parse s = Some v \<and> (v < SUPPORTED_MIN \<or> gate_max ov < v))"
  "SUPPORTED_MAX \<le> gate_max ov"
  "compat_refusal (evaluate s None) = None \<Longrightarrow> compat_refusal (evaluate s ov) = None"
proof -
  show iff: "compat_refusal (evaluate s ov) \<noteq> None \<longleftrightarrow>
      (\<exists>v. version_parse s = Some v \<and> (v < SUPPORTED_MIN \<or> gate_max ov < v))" for ov
    using server_gate.refusal_iff [of s ov] unfolding outside_range_def by blast
  show ceiling: "SUPPORTED_MAX \<le> gate_max ov" by (simp add: gate_max_def)
  assume "compat_refusal (evaluate s None) = None"
  moreover have "gate_max None = SUPPORTED_MAX" by (simp add: gate_max_def unwrap_or_def)
  ultimately show "compat_refusal (evaluate s ov) = None"
    using iff [of None] iff [of ov] ceiling by (metis less_le_trans not_less)
qed

text \<open>
  The connect gate refuses exactly the versions it can read that lie below \<open>SUPPORTED_MIN\<close> or
  above the ceiling, the ceiling is never below the compiled-in \<open>SUPPORTED_MAX\<close>, so an override
  only widens the range: whatever is accepted without one is accepted with any.
\<close>

lemma server_gate_decides:
  "(compat_refusal (evaluate s ov) \<noteq> None \<longleftrightarrow>
      (\<exists>v. version_parse s = Some v \<and> (v < SUPPORTED_MIN \<or> gate_max ov < v)))
   \<and> SUPPORTED_MAX \<le> gate_max ov
   \<and> (compat_refusal (evaluate s None) = None \<longrightarrow> compat_refusal (evaluate s ov) = None)"
  using server_gate_decides_parts by blast

lemma server_gate_decides_witness:
  "compat_refusal (evaluate (show_version (Version 1 2 1)) (Some (Version 1 1 0))) = None"
proof (rule server_gate_decides [THEN conjunct2, THEN conjunct2, rule_format])
  have "\<not> Version 1 2 1 < SUPPORTED_MIN" "\<not> gate_max None < Version 1 2 1" by code_simp+
  then show "compat_refusal (evaluate (show_version (Version 1 2 1)) None) = None"
    by (simp add: evaluate_def Let_def version_parse_show)
qed

lemma fidelity_floor_separate_parts:
  "SUPPORTED_MIN \<le> v \<and> v < RECORD_FIDELITY_MIN \<Longrightarrow>
     compat_refusal (evaluate (show_version v) ov) = None
     \<and> agent_refusal (evaluate_agent (show_version v)) \<noteq> None"
  "RECORD_FIDELITY_MIN \<le> v \<Longrightarrow> agent_refusal (evaluate_agent (show_version v)) = None"
  "version_parse s = None \<Longrightarrow>
     compat_refusal (evaluate s ov) = None \<and> agent_refusal (evaluate_agent s) = None"
proof -
  have "RECORD_FIDELITY_MIN \<le> SUPPORTED_MAX" by code_simp
  then have "RECORD_FIDELITY_MIN \<le> gate_max ov" by (simp add: gate_max_def le_max_iff_disj)
  then show "SUPPORTED_MIN \<le> v \<and> v < RECORD_FIDELITY_MIN \<Longrightarrow>
      compat_refusal (evaluate (show_version v) ov) = None
      \<and> agent_refusal (evaluate_agent (show_version v)) \<noteq> None"
    using server_gate.refuses_printed [of v ov] agent_gate.refuses_printed [of v]
    by (auto simp: outside_range_def)
  show "RECORD_FIDELITY_MIN \<le> v \<Longrightarrow> agent_refusal (evaluate_agent (show_version v)) = None"
    using agent_gate.refuses_printed [of v] leD by blast
  show "version_parse s = None \<Longrightarrow>
      compat_refusal (evaluate s ov) = None \<and> agent_refusal (evaluate_agent s) = None"
    using server_gate.accepts_unread agent_gate.accepts_unread by blast
qed

text \<open>
  The record-fidelity floor is not the connect floor. A version from \<open>SUPPORTED_MIN\<close> up to but
  excluding \<open>RECORD_FIDELITY_MIN\<close> passes the server gate and is refused as an agent; from the floor
  up no agent is refused, however new; and a version nobody can read is refused by neither.
\<close>

lemma fidelity_floor_separate:
  "(SUPPORTED_MIN \<le> v \<and> v < RECORD_FIDELITY_MIN \<longrightarrow>
      compat_refusal (evaluate (show_version v) ov) = None
      \<and> agent_refusal (evaluate_agent (show_version v)) \<noteq> None)
   \<and> (RECORD_FIDELITY_MIN \<le> v \<longrightarrow> agent_refusal (evaluate_agent (show_version v)) = None)
   \<and> (version_parse s = None \<longrightarrow>
      compat_refusal (evaluate s ov) = None \<and> agent_refusal (evaluate_agent s) = None)"
  using fidelity_floor_separate_parts by blast

end
