(* ===== verification/MA_Event.thy ===== *)
theory MA_Event
  imports MA_Prelude
begin

text \<open>
  The event Control-Center streams for every actuated command (\<open>CommandEvent\<close> of
  \<open>ma-proto/proto/control_center.proto\<close>). The 32-bit signed fields are integers; the generated
  decoder gives them in range. Strings are what protobuf decodes: valid UTF-8
  (\<open>event_ok\<close> below).
\<close>

record command_event =
  session_id :: string
  agent_id :: string
  agent_version :: string
  os_type :: string
  timestamp :: string
  raw_command :: string
  action_type :: string
  action_subtype :: string
  is_here_command :: bool
  success :: bool
  error_message :: string
  execution_time_ms :: int
  mouse_x :: int
  mouse_y :: int
  position_captured :: bool
  is_heartbeat :: bool
  agent_alive :: bool

definition event_ok :: "command_event \<Rightarrow> bool" where
  "event_ok e \<longleftrightarrow> utf8 (raw_command e) \<and> utf8 (action_type e) \<and> utf8 (action_subtype e)
     \<and> utf8 (os_type e) \<and> in_i32 (mouse_x e) \<and> in_i32 (mouse_y e)"

text \<open>\<open>CommandEvent::default()\<close>.\<close>

definition default_event :: command_event where
  "default_event =
     \<lparr>session_id = [], agent_id = [], agent_version = [], os_type = [], timestamp = [],
      raw_command = [], action_type = [], action_subtype = [], is_here_command = False,
      success = False, error_message = [], execution_time_ms = 0, mouse_x = 0, mouse_y = 0,
      position_captured = False, is_heartbeat = False, agent_alive = False\<rparr>"

end
