(* ===== verification/MA_Fidelity.thy ===== *)
theory MA_Fidelity
  imports MA_Event
begin

text \<open>
  The content check on recorded text (\<open>capture/fidelity.rs\<close>): counting live quotes, recognising a
  lone trailing escape, and \<open>inspect\<close>, which attaches an advisory suspicion to a step. The counting
  loop is shown equal to its declarative meaning: the positions whose run of preceding backslashes
  is even.
\<close>

record record_suspect =
  suspect_check :: string
  suspect_note :: string

text \<open>The loop of \<open>unescaped_quote_count\<close>: the state is the count and the current run of backslashes.\<close>

fun quote_loop :: "char \<Rightarrow> string \<Rightarrow> nat \<Rightarrow> nat \<Rightarrow> nat" where
  "quote_loop quote [] count backslashes = count"
| "quote_loop quote (ch # cs) count backslashes =
     (if ch = backslash then quote_loop quote cs count (backslashes + 1)
      else if ch = quote \<and> backslashes mod 2 = 0 then quote_loop quote cs (count + 1) 0
      else quote_loop quote cs count 0)"

definition unescaped_quote_count :: "string \<Rightarrow> char \<Rightarrow> nat" where
  "unescaped_quote_count text quote = quote_loop quote text 0 0"

definition ends_with_lone_escape :: "string \<Rightarrow> bool" where
  "ends_with_lone_escape text =
     (let run = length (takeWhile (\<lambda>c. c = backslash) (rev text)) in
      if run mod 2 = 0 \<or> run = 0 then False
      else let before = take (length text - run) text in
           if before = [] then True else ws_len_end before > 0)"

definition dangling_detail :: string where
  "dangling_detail =
     ''The recorded text ends in a lone backslash. That is what an escape sitting ''
     @ ''immediately before the cut point looks like, and it is the shape both known ''
     @ ''truncations left. A trailing backslash that is part of a path is not flagged.''"

definition double_detail :: string where
  "double_detail =
     ''The recorded text contains an odd number of unescaped double-quote characters, ''
     @ ''which is the signature of a command cut short at a quote.''"

definition single_detail :: string where
  "single_detail =
     ''The recorded text contains an odd number of single-quote characters, which can ''
     @ ''mean a command cut short at a quote. Note that a single quote is also an ''
     @ ''ordinary apostrophe, so typed prose can trip this legitimately.''"

definition advice :: string where
  "advice =
     '' Actuation is unaffected '' @ em_dash @ '' if this step ran, the keystrokes were ''
     @ ''delivered and any artifact on disk is real; it is the stored copy of the command ''
     @ ''that may be incomplete. Verify it against this step'' @ [squote] @ ''s frames before annotating, ''
     @ ''and do not edit the record without recording why.''"

definition suspect_of :: "string \<Rightarrow> (string \<times> string) option" where
  "suspect_of text =
     (let doubles = unescaped_quote_count text dquote;
          singles = unescaped_quote_count text squote
      in if ends_with_lone_escape text then Some (''dangling-escape'', dangling_detail)
         else if doubles mod 2 = 1 then Some (''unbalanced-double-quote'', double_detail)
         else if singles mod 2 = 1 then Some (''unbalanced-single-quote'', single_detail)
         else None)"

definition inspect :: "command_event \<Rightarrow> record_suspect option" where
  "inspect event =
     (if action_type event \<noteq> ''keyboard'' \<or> action_subtype event \<noteq> ''type'' then None
      else case strip_prefix ''Typed: '' (raw_command event) of
             None \<Rightarrow> None
           | Some text \<Rightarrow>
               if text = [] then None
               else case suspect_of text of
                      None \<Rightarrow> None
                    | Some (chk, detail) \<Rightarrow>
                        Some \<lparr>suspect_check = chk, suspect_note = detail @ advice\<rparr>)"

section \<open>What the counting loop computes\<close>

text \<open>The run of backslashes that ends just before position \<open>i\<close>.\<close>

definition run_before :: "string \<Rightarrow> nat \<Rightarrow> nat" where
  "run_before text i = length (takeWhile (\<lambda>c. c = backslash) (rev (take i text)))"

definition live_quotes :: "string \<Rightarrow> char \<Rightarrow> nat set" where
  "live_quotes text quote =
     {i. i < length text \<and> text ! i = quote \<and> even (run_before text i)}"

lemma run_before_snoc:
  "i \<le> length text \<Longrightarrow> run_before (text @ [c]) i = run_before text i"
  by (simp add: run_before_def)

lemma finite_live_quotes [simp]: "finite (live_quotes text q)"
  by (simp add: live_quotes_def)

lemma live_quotes_snoc:
  "live_quotes (text @ [c]) q =
     live_quotes text q
     \<union> (if c = q \<and> even (run_before text (length text)) then {length text} else {})"
  by (auto simp: live_quotes_def nth_append less_Suc_eq run_before_snoc)

lemma quote_loop_append:
  "quote_loop q (xs @ ys) n k =
     quote_loop q ys (quote_loop q xs n k)
       (if list_all (\<lambda>c. c = backslash) xs then k + length xs
        else length (takeWhile (\<lambda>c. c = backslash) (rev xs)))"
proof (induction xs arbitrary: n k)
  case (Cons x xs)
  show ?case
  proof (cases "list_all (\<lambda>c. c = backslash) xs")
    case True
    then have all: "takeWhile (\<lambda>c. c = backslash) (rev xs) = rev xs"
      by (simp add: takeWhile_eq_all_conv list_all_iff)
    show ?thesis using Cons True all by (simp add: takeWhile_append list_all_iff)
  next
    case False
    then have "takeWhile (\<lambda>c. c = backslash) (rev xs @ [x]) = takeWhile (\<lambda>c. c = backslash) (rev xs)"
      by (auto simp: takeWhile_append list_all_iff)
    with Cons False show ?thesis by simp
  qed
qed simp

lemma quote_loop_counts:
  "q \<noteq> backslash \<Longrightarrow> quote_loop q s 0 0 = card (live_quotes s q)"
proof (induction s rule: rev_induct)
  case Nil
  then show ?case by (simp add: live_quotes_def)
next
  case (snoc c s)
  have run: "(if list_all (\<lambda>c. c = backslash) s then 0 + length s
      else length (takeWhile (\<lambda>c. c = backslash) (rev s))) = run_before s (length s)"
  proof (cases "list_all (\<lambda>c. c = backslash) s")
    case True
    then have "takeWhile (\<lambda>c. c = backslash) (rev s) = rev s"
      by (simp add: takeWhile_eq_all_conv list_all_iff)
    with True show ?thesis by (simp add: run_before_def del: takeWhile_eq_all_conv)
  next
    case False
    then show ?thesis by (simp add: run_before_def)
  qed
  have notin: "length s \<notin> live_quotes s q" by (simp add: live_quotes_def)
  have step: "quote_loop q (s @ [c]) 0 0
      = quote_loop q [c] (card (live_quotes s q)) (run_before s (length s))"
    unfolding quote_loop_append run using snoc by simp
  show ?case
  proof (cases "c = q \<and> even (run_before s (length s))")
    case True
    then have "live_quotes (s @ [c]) q = insert (length s) (live_quotes s q)"
      by (simp add: live_quotes_snoc)
    with True snoc.prems notin show ?thesis unfolding step by (simp add: even_iff_mod_2_eq_zero)
  next
    case False
    then have "live_quotes (s @ [c]) q = live_quotes s q" by (auto simp: live_quotes_snoc)
    with False show ?thesis unfolding step by (auto simp: even_iff_mod_2_eq_zero)
  qed
qed

lemma unescaped_quote_count_card:
  "q \<noteq> backslash \<Longrightarrow> unescaped_quote_count text q = card (live_quotes text q)"
  by (simp add: unescaped_quote_count_def quote_loop_counts)

lemma live_quotes_take: "live_quotes (take n s) q = {i \<in> live_quotes s q. i < n}"
  by (auto simp: live_quotes_def run_before_def min_def)

lemma lone_escape_iff:
  "ends_with_lone_escape s \<longleftrightarrow>
     odd (run_before s (length s))
     \<and> (run_before s (length s) = length s \<or> 0 < ws_len_end (take (length s - run_before s (length s)) s))"
proof -
  have "run_before s (length s) \<le> length s"
    unfolding run_before_def using length_takeWhile_le [of "\<lambda>c. c = backslash" "rev s"] by simp
  then show ?thesis
    by (auto simp: ends_with_lone_escape_def run_before_def Let_def even_iff_mod_2_eq_zero)
qed

text \<open>The signal a payload raises, strongest first, over the declarative counts.\<close>

lemma suspect_of_iff:
  "suspect_of s =
     (if ends_with_lone_escape s then Some (''dangling-escape'', dangling_detail)
      else if odd (card (live_quotes s dquote)) then Some (''unbalanced-double-quote'', double_detail)
      else if odd (card (live_quotes s squote)) then Some (''unbalanced-single-quote'', single_detail)
      else None)"
  by (simp add: suspect_of_def unescaped_quote_count_card odd_iff_mod_2_eq_one)

lemma inspect_typed:
  "action_type e = ''keyboard'' \<Longrightarrow> action_subtype e = ''type'' \<Longrightarrow> raw_command e = ''Typed: '' @ s \<Longrightarrow>
   inspect e = (if s = [] then None
     else map_option (\<lambda>(c, d). \<lparr>suspect_check = c, suspect_note = d @ advice\<rparr>) (suspect_of s))"
  using strip_prefix_append [of "''Typed: ''" s] by (simp add: inspect_def split: option.splits)

lemma inspect_Some_typed:
  "inspect e = Some r \<Longrightarrow> action_type e = ''keyboard'' \<and> action_subtype e = ''type''
     \<and> (\<exists>s. s \<noteq> [] \<and> raw_command e = ''Typed: '' @ s)"
  by (auto simp: inspect_def strip_prefix_Some split: if_splits option.splits)

section \<open>Properties\<close>

text \<open>
  The check is silent except on typed payloads, and on a payload it raises the strongest of
  three signals: a trailing lone escape; an odd number of live double quotes; an odd number of
  live single quotes, where a quote is live when the run of backslashes before it is even (the
  one-pass loop of the code computes exactly that number). Nothing else about the event matters.
\<close>

lemma inspect_decides:
  "inspect e = Some r \<longleftrightarrow>
     action_type e = ''keyboard'' \<and> action_subtype e = ''type''
     \<and> (\<exists>s. s \<noteq> [] \<and> raw_command e = ''Typed: '' @ s
         \<and> (if ends_with_lone_escape s then r = \<lparr>suspect_check = ''dangling-escape'', suspect_note = dangling_detail @ advice\<rparr>
            else if odd (card (live_quotes s dquote)) then
              r = \<lparr>suspect_check = ''unbalanced-double-quote'', suspect_note = double_detail @ advice\<rparr>
            else odd (card (live_quotes s squote))
              \<and> r = \<lparr>suspect_check = ''unbalanced-single-quote'', suspect_note = single_detail @ advice\<rparr>))"
    (is "?l \<longleftrightarrow> ?r")
proof
  assume l: ?l
  from inspect_Some_typed [OF this] obtain s where
    s: "action_type e = ''keyboard''" "action_subtype e = ''type''" "s \<noteq> []"
      "raw_command e = ''Typed: '' @ s" by blast
  with l inspect_typed [OF s(1,2,4)] show ?r by (auto simp: suspect_of_iff split: if_splits)
next
  assume ?r
  then obtain s where
    s: "action_type e = ''keyboard''" "action_subtype e = ''type''" "s \<noteq> []"
      "raw_command e = ''Typed: '' @ s" by blast
  with \<open>?r\<close> inspect_typed [OF s(1,2,4)] show ?l by (auto simp: suspect_of_iff split: if_splits)
qed

text \<open>
  A record cut inside a double-quoted operand is flagged, wherever in the operand the cut
  falls: if the command that was typed has an odd number of live double quotes before the cut, the
  stored prefix raises a signal.
\<close>

lemma cut_inside_quotes_flagged:
  assumes "action_type e = ''keyboard''" and "action_subtype e = ''type''"
    and "raw_command e = ''Typed: '' @ take n full"
    and "odd (card {i \<in> live_quotes full dquote. i < n})"
  shows "\<exists>r. inspect e = Some r"
proof -
  have odd: "odd (card (live_quotes (take n full) dquote))"
    using assms(4) by (simp add: live_quotes_take)
  moreover have "live_quotes [] dquote = {}" by (simp add: live_quotes_def)
  ultimately have "take n full \<noteq> []" by (metis card.empty even_zero)
  then show ?thesis
    using odd inspect_typed [OF assms(1-3)] by (auto simp: suspect_of_iff)
qed

end
