(* ===== verification/MA_Mouse.thy ===== *)
theory MA_Mouse
  imports MA_Event
begin

text \<open>
  The pointer half of the converter (\<open>convert/mod.rs\<close>): modifier prefixes in both spellings the
  agent uses, scroll counts, drag paths, the label of a pointer action (\<open>convert_mouse\<close>) and the
  command that replays it (\<open>cc_mouse\<close>). Every slice of the source is taken at the position of an
  ASCII match, so it cannot panic and is written with \<open>take\<close> and \<open>drop\<close>.
\<close>

section \<open>Modifiers\<close>

definition MOUSE_MODIFIERS :: "(string \<times> string) list" where
  "MOUSE_MODIFIERS =
     [(''Cmd'', ''#''), (''Win'', ''#''), (''Super'', ''#''), (''Ctrl'', ''^''), (''Shift'', ''+''),
      (''Option'', ''!''), (''Alt'', ''!'')]"

definition modifier_name :: "char \<Rightarrow> string \<Rightarrow> string option" where
  "modifier_name symbol os =
     (if symbol = CHR ''^'' then Some ''Ctrl''
      else if symbol = CHR ''+'' then Some ''Shift''
      else if symbol = CHR ''!'' \<and> os = ''MACOS'' then Some ''Option''
      else if symbol = CHR ''!'' then Some ''Alt''
      else if symbol = CHR ''#'' \<and> os = ''MACOS'' then Some ''Cmd''
      else if symbol = CHR ''#'' \<and> os = ''WINDOWS'' then Some ''Win''
      else if symbol = CHR ''#'' then Some ''Super''
      else None)"

definition known_modifier :: "string \<Rightarrow> bool" where
  "known_modifier head \<longleftrightarrow> list_ex (\<lambda>(name, _). name = head) MOUSE_MODIFIERS"

text \<open>The \<open>while let\<close> loop of \<open>split_mouse_modifiers\<close>.\<close>

function split_mods_loop :: "string list \<Rightarrow> string \<Rightarrow> string list \<times> string" where
  "split_mods_loop modifiers rest =
     (case str_find ''+'' rest of
        None \<Rightarrow> (modifiers, rest)
      | Some boundary \<Rightarrow>
          let head = take boundary rest in
          if \<not> known_modifier head then (modifiers, rest)
          else split_mods_loop (modifiers @ [head]) (drop (boundary + 1) rest))"
  by pat_completeness auto
termination
  by (relation "measure (length \<circ> snd)") (auto dest: str_find_Some)

declare split_mods_loop.simps [simp del]

definition split_mouse_modifiers :: "string \<Rightarrow> string list \<times> string" where
  "split_mouse_modifiers raw = split_mods_loop [] raw"

definition is_mod_symbol :: "char \<Rightarrow> bool" where
  "is_mod_symbol c \<longleftrightarrow> c = CHR ''#'' \<or> c = CHR ''^'' \<or> c = CHR ''+'' \<or> c = CHR ''!''"

text \<open>The inner loop over the symbols of a token, keeping the first mention of each name.\<close>

fun symbol_names :: "string \<Rightarrow> string \<Rightarrow> string list \<Rightarrow> string list" where
  "symbol_names os [] names = names"
| "symbol_names os (symbol # symbols) names =
     (case modifier_name symbol os of
        None \<Rightarrow> symbol_names os symbols names
      | Some name \<Rightarrow>
          symbol_names os symbols (if name \<in> set names then names else names @ [name]))"

fun token_modifiers :: "string \<Rightarrow> string \<Rightarrow> string list \<Rightarrow> string list" where
  "token_modifiers subtype os [] = []"
| "token_modifiers subtype os (token # tokens) =
     (case strip_suffix subtype token of
        None \<Rightarrow> token_modifiers subtype os tokens
      | Some symbols \<Rightarrow>
          if symbols = [] \<or> \<not> list_all is_mod_symbol symbols then token_modifiers subtype os tokens
          else symbol_names os symbols [])"

definition modifiers_from_command_form :: "string \<Rightarrow> string \<Rightarrow> string \<Rightarrow> string list" where
  "modifiers_from_command_form rest subtype os =
     (if subtype = [] then [] else token_modifiers subtype os (split_whitespace rest))"

definition split_subtype_symbols :: "string \<Rightarrow> string \<times> string" where
  "split_subtype_symbols subtype =
     (takeWhile is_mod_symbol subtype, dropWhile is_mod_symbol subtype)"

section \<open>Numbers and drag paths\<close>

definition scan_notches :: "string \<Rightarrow> int option" where
  "scan_notches s =
     (case str_find '' notch'' s of
        None \<Rightarrow> None
      | Some at \<Rightarrow>
          let head = trim_end (take at s);
              digits = rev (takeWhile is_digit (rev head))
          in if digits = [] then None else parse_i32 digits)"

definition int_char :: "char \<Rightarrow> bool" where
  "int_char c \<longleftrightarrow> is_digit c \<or> c = CHR ''-''"

definition take_int :: "string \<Rightarrow> int option \<times> string" where
  "take_int s = (parse_i32 (takeWhile int_char s), dropWhile int_char s)"

definition MAX_DRAG_POINTS :: nat where "MAX_DRAG_POINTS = 8"
definition MAX_SUBTYPE_LEN :: nat where "MAX_SUBTYPE_LEN = 32"

record drag_path =
  drag_from :: "(int \<times> int) option"
  drag_via :: "(int \<times> int) list"
  drag_to :: "int \<times> int"

datatype drag_scan = DragPath drag_path | TooLong | Absent

fun drag_clause_loop :: "string \<Rightarrow> (nat \<times> string) option \<Rightarrow> string list \<Rightarrow> (nat \<times> string) option" where
  "drag_clause_loop head best [] = best"
| "drag_clause_loop head best (keyword # keywords) =
     drag_clause_loop head
       (case str_rfind keyword head of
          None \<Rightarrow> best
        | Some at \<Rightarrow>
            (case best of
               None \<Rightarrow> Some (at, trim_end keyword)
             | Some (seen, k) \<Rightarrow> if at \<ge> seen then Some (at, trim_end keyword) else best))
       keywords"

definition drag_clause :: "string \<Rightarrow> string" where
  "drag_clause head =
     (case drag_clause_loop head None [''from '', ''via '', ''to ''] of
        None \<Rightarrow> []
      | Some (_, keyword) \<Rightarrow> keyword)"

text \<open>The loop of \<open>scan_drag_path\<close>; the state is the clauses read so far and the points counted.\<close>

definition drag_result :: "(int \<times> int) option \<Rightarrow> (int \<times> int) list \<Rightarrow> (int \<times> int) option \<Rightarrow> drag_scan" where
  "drag_result from via to =
     (case to of
        Some p \<Rightarrow> DragPath \<lparr>drag_from = from, drag_via = via, drag_to = p\<rparr>
      | None \<Rightarrow> Absent)"

lemma take_int_rest: "take_int s = (i, r) \<Longrightarrow> length r \<le> length s"
  by (auto simp: take_int_def length_dropWhile_le)

lemma scan_rest_shorter:
  assumes "str_find ''X='' rest = Some i" and "take_int (drop (i + 2) rest) = (x, ax)"
    and "str_find ''Y='' ax = Some j" and "take_int (drop (j + 2) ax) = (y, ay)"
  shows "length ay < length rest"
  using str_find_Some [OF assms(1)] str_find_Some [OF assms(3)]
    take_int_rest [OF assms(2)] take_int_rest [OF assms(4)] by auto

function scan_drag_loop ::
  "(int \<times> int) option \<Rightarrow> (int \<times> int) list \<Rightarrow> (int \<times> int) option \<Rightarrow> nat \<Rightarrow> string \<Rightarrow> drag_scan" where
  "scan_drag_loop from via to seen rest =
     (case str_find ''X='' rest of
        None \<Rightarrow> drag_result from via to
      | Some x_at \<Rightarrow>
          let head = take x_at rest;
              (x, after_x) = take_int (drop (x_at + 2) rest)
          in (case str_find ''Y='' after_x of
                None \<Rightarrow> drag_result from via to
              | Some y_at \<Rightarrow>
                  let (y, after_y) = take_int (drop (y_at + 2) after_x)
                  in (case (x, y) of
                        (Some x, Some y) \<Rightarrow>
                          if seen + 1 > MAX_DRAG_POINTS then TooLong
                          else if drag_clause head = ''from'' then
                            scan_drag_loop (Some (x, y)) via to (seen + 1) after_y
                          else if drag_clause head = ''via'' then
                            scan_drag_loop from (via @ [(x, y)]) to (seen + 1) after_y
                          else scan_drag_loop from via (Some (x, y)) (seen + 1) after_y
                      | _ \<Rightarrow> scan_drag_loop from via to seen after_y)))"
  by pat_completeness auto
termination
  by (relation "measure (\<lambda>(from, via, to, seen, rest). length rest)")
     (auto simp: prod_eq_iff intro: scan_rest_shorter simp del: length_drop)

declare scan_drag_loop.simps [simp del]

definition scan_drag_path :: "string \<Rightarrow> drag_scan" where
  "scan_drag_path s = scan_drag_loop None [] None 0 s"

definition safe_subtype :: "string \<Rightarrow> string" where
  "safe_subtype subtype =
     (if length subtype \<le> MAX_SUBTYPE_LEN \<and> subtype \<noteq> []
         \<and> list_all (\<lambda>c. is_alnum c \<or> c = CHR ''_'' \<or> c = CHR ''-'') subtype
      then subtype else ''unknown-action'')"

section \<open>The record of a pointer action\<close>

text \<open>\<open>({x}, {y})\<close> of the format strings.\<close>

definition show_pair :: "int \<times> int \<Rightarrow> string" where
  "show_pair p = ''('' @ show_int (fst p) @ '', '' @ show_int (snd p) @ '')''"

definition prefix_of :: "string list \<Rightarrow> string" where
  "prefix_of modifiers = (if modifiers = [] then [] else join ''+'' modifiers @ ''+'')"

definition drag_line :: "string \<Rightarrow> drag_path \<Rightarrow> string" where
  "drag_line pre path =
     pre @ ''Drag''
     @ (case drag_from path of None \<Rightarrow> [] | Some p \<Rightarrow> '' from '' @ show_pair p)
     @ concat (map (\<lambda>p. '' via '' @ show_pair p) (drag_via path))
     @ '' to '' @ show_pair (drag_to path)"

definition mouse_label :: "string \<Rightarrow> string" where
  "mouse_label subtype =
     (if subtype = ''left'' then ''Left-click''
      else if subtype = ''click'' then ''Left-click''
      else if subtype = ''right'' then ''Right-click''
      else if subtype = ''double'' then ''Double-click''
      else if subtype = ''middle'' then ''Middle-click''
      else if subtype = ''triple'' then ''Triple-click''
      else if subtype = ''move'' then ''Move-cursor''
      else if subtype = ''scroll_up'' then ''Scroll-up''
      else if subtype = ''scroll_down'' then ''Scroll-down''
      else if subtype = ''scroll_left'' then ''Scroll-left''
      else if subtype = ''scroll_right'' then ''Scroll-right''
      else if subtype = ''drag'' then ''Drag''
      else if subtype = ''hold'' then ''Hold''
      else if subtype = ''release'' then ''Release''
      else safe_subtype subtype)"

text \<open>The modifiers of an event: named in the sentence, else in the command form, else leaked.\<close>

definition event_modifiers :: "command_event \<Rightarrow> string list \<times> string" where
  "event_modifiers event =
     (let (symbols, subtype) = split_subtype_symbols (action_subtype event);
          (modifiers, rest) = split_mouse_modifiers (raw_command event);
          modifiers = (if modifiers = [] then modifiers_from_command_form rest subtype (os_type event)
                       else modifiers);
          modifiers = (if modifiers = [] \<and> symbols \<noteq> []
                       then modifiers_from_command_form (action_subtype event) subtype (os_type event)
                       else modifiers)
      in (modifiers, rest))"

definition convert_mouse :: "command_event \<Rightarrow> string" where
  "convert_mouse event =
     (let subtype = snd (split_subtype_symbols (action_subtype event));
          (modifiers, rest) = event_modifiers event;
          pre = prefix_of modifiers;
          action = mouse_label subtype;
          count = (case scan_notches rest of
                     None \<Rightarrow> []
                   | Some n \<Rightarrow> if n = 1 then '' 1 notch'' else '' '' @ show_int n @ '' notches'');
          coords = (if position_captured event
                    then '' at '' @ show_pair (mouse_x event, mouse_y event) else []);
          plain = (if action = [] then raw_command event else pre @ action @ count @ coords)
      in if subtype = ''drag'' then
           (case scan_drag_path rest of
              DragPath path \<Rightarrow> drag_line pre path
            | TooLong \<Rightarrow> pre @ ''Drag path of more than '' @ show_nat MAX_DRAG_POINTS
                          @ '' points, not recorded''
            | Absent \<Rightarrow> plain)
         else plain)"

section \<open>The command that replays it\<close>

definition fallback_command :: "string \<Rightarrow> string" where
  "fallback_command raw = unwrap_or raw (strip_prefix ''Executed: '' raw)"

definition modifier_symbols :: "string list \<Rightarrow> string" where
  "modifier_symbols modifiers = concat (List.map_filter (map_of MOUSE_MODIFIERS) modifiers)"

definition replay_verbs :: "string list" where
  "replay_verbs =
     [''left'', ''click'', ''right'', ''double'', ''middle'', ''triple'', ''move'', ''scroll_up'',
      ''scroll_down'', ''scroll_left'', ''scroll_right'', ''hold'', ''release'']"

definition show_xy :: "int \<times> int \<Rightarrow> string" where
  "show_xy p = show_int (fst p) @ '' '' @ show_int (snd p)"

definition drag_command :: "string \<Rightarrow> int \<times> int \<Rightarrow> (int \<times> int) list \<Rightarrow> int \<times> int \<Rightarrow> string" where
  "drag_command symbols from via to =
     show_xy from @ '' '' @ symbols @ ''drag''
     @ (if via = [] then '' '' @ show_xy to
        else concat (map (\<lambda>p. '' via '' @ show_xy p) via) @ '' to '' @ show_xy to)"

definition cc_mouse :: "command_event \<Rightarrow> string" where
  "cc_mouse event =
     (let (leaked, subtype) = split_subtype_symbols (action_subtype event);
          (modifiers, rest) = split_mouse_modifiers (raw_command event);
          symbols = modifier_symbols modifiers;
          symbols = (if symbols = [] then leaked else symbols);
          count = (case scan_notches rest of None \<Rightarrow> [] | Some n \<Rightarrow> '' '' @ show_int n)
      in if subtype \<in> set replay_verbs then
           (if position_captured event
            then show_xy (mouse_x event, mouse_y event) @ '' '' @ symbols @ subtype @ count
            else fallback_command (raw_command event))
         else if subtype = ''drag'' then
           (case scan_drag_path rest of
              DragPath path \<Rightarrow>
                (case drag_from path of
                   Some from \<Rightarrow> drag_command symbols from (drag_via path) (drag_to path)
                 | None \<Rightarrow> fallback_command (raw_command event))
            | TooLong \<Rightarrow> ''drag path of more than '' @ show_nat MAX_DRAG_POINTS
                          @ '' points, not recorded''
            | Absent \<Rightarrow> fallback_command (raw_command event))
         else fallback_command (raw_command event))"

end
