(* ===== verification/MA_Keys.thy ===== *)
theory MA_Keys
  imports MA_Mouse "HOL-Library.Monad_Syntax"
begin

text \<open>
  The keyboard half of the converter (\<open>convert/mod.rs\<close>). Key strings are scanned with explicit
  slices, one of which once panicked and took a capture session down, so the scan is written with
  \<^const>\<open>str_slice\<close> and its result is an option: \<^term>\<open>None\<close> is the panic.
\<close>

text \<open>The labels of \<open>humanize_bare_key\<close>; any other key is its own label.\<close>

definition KEY_LABELS :: "(string \<times> string) list" where
  "KEY_LABELS =
     [(''Return'', ''Enter''), (''Enter'', ''Enter''),
      (''Delete'', ''Backspace''), (''BackSpace'', ''Backspace''), (''Backspace'', ''Backspace''),
      (''ForwardDelete'', ''Delete''), (''Del'', ''Delete''),
      (''Escape'', ''Escape''), (''Esc'', ''Escape''),
      (''Tab'', ''Tab''), (''Space'', ''Space''), (''space'', ''Space''),
      (''Up'', ''Up''), (''Down'', ''Down''), (''Left'', ''Left''), (''Right'', ''Right''),
      (''Home'', ''Home''), (''End'', ''End''),
      (''Page_Up'', ''Page Up''), (''Prior'', ''Page Up''), (''PgUp'', ''Page Up''),
      (''Page_Down'', ''Page Down''), (''Next'', ''Page Down''), (''PgDn'', ''Page Down''),
      (''Insert'', ''Insert''), (''CapsLock'', ''Caps Lock''), (''NumLock'', ''Num Lock''),
      (''ScrollLock'', ''Scroll Lock''), (''PrintScreen'', ''Print Screen''), (''Pause'', ''Pause''),
      (''F1'', ''F1''), (''F2'', ''F2''), (''F3'', ''F3''), (''F4'', ''F4''), (''F5'', ''F5''),
      (''F6'', ''F6''), (''F7'', ''F7''), (''F8'', ''F8''), (''F9'', ''F9''), (''F10'', ''F10''),
      (''F11'', ''F11''), (''F12'', ''F12''),
      (''VolumeUp'', ''Volume Up''), (''VolumeDown'', ''Volume Down''), (''Mute'', ''Mute''),
      (''BrightnessUp'', ''Brightness Up''), (''PlayPause'', ''Play/Pause''),
      (''LWin'', ''Win''), (''RWin'', ''Win'')]"

definition humanize_bare_key :: "string \<Rightarrow> string" where
  "humanize_bare_key key = unwrap_or key (map_of KEY_LABELS key)"

definition canonical_modifier :: "string \<Rightarrow> string" where
  "canonical_modifier modifier =
     (if modifier = ''Ctrl'' \<or> modifier = ''Control'' then ''Ctrl''
      else if modifier = ''Shift'' then ''Shift''
      else if modifier = ''Cmd'' \<or> modifier = ''Command'' then ''Cmd''
      else modifier)"

text \<open>The loop over \<open>{Modifier down}\<close> tokens.\<close>

function expand_loop :: "string list \<Rightarrow> string \<Rightarrow> string \<Rightarrow> (string list \<times> string) option" where
  "expand_loop modifiers base remaining =
     (case str_find ''{'' remaining of
        None \<Rightarrow> Some (modifiers, base @ remaining)
      | Some start \<Rightarrow>
          (case str_slice 0 start remaining of
             None \<Rightarrow> None
           | Some before \<Rightarrow>
               let base = (if before \<noteq> [] \<and> \<not> list_all (\<lambda>c. c = CHR '' '') before
                           then base @ before else base) in
               (case str_slice start (length remaining) remaining of
                  None \<Rightarrow> None
                | Some from_brace \<Rightarrow>
                    (case str_find ''}'' from_brace of
                       None \<Rightarrow> Some (modifiers, base)
                     | Some offset \<Rightarrow>
                         (case (str_slice (start + 1) (start + offset) remaining,
                                str_slice (start + offset + 1) (length remaining) remaining) of
                            (Some token, Some after) \<Rightarrow>
                              expand_loop
                                (if suffix '' down'' token
                                 then modifiers @ [canonical_modifier (trim_end_matches '' down'' token)]
                                 else modifiers)
                                base after
                          | _ \<Rightarrow> None)))))"
  by pat_completeness auto
termination
  by (relation "measure (\<lambda>(m, b, r). length r)") (auto simp: str_slice_def dest: str_find_Some split: if_splits)

declare expand_loop.simps [simp del]

definition humanize_key_token :: "string \<Rightarrow> string option" where
  "humanize_key_token key =
     (if prefix ''{'' key \<and> suffix ''}'' key
      then map_option humanize_bare_key (str_slice 1 (length key - 1) key)
      else Some (humanize_bare_key key))"

text \<open>The loop over leading modifier symbols; a symbol standing alone is the key itself.\<close>

function symbol_loop :: "string \<Rightarrow> string list \<Rightarrow> string \<Rightarrow> string list \<times> string" where
  "symbol_loop os names rest =
     (if 2 \<le> length rest then
        (case modifier_name (hd rest) os of
           None \<Rightarrow> (names, rest)
         | Some name \<Rightarrow> symbol_loop os (if name \<in> set names then names else names @ [name]) (tl rest))
      else (names, rest))"
  by pat_completeness auto
termination
  by (relation "measure (\<lambda>(os, n, r). length r)") auto

declare symbol_loop.simps [simp del]

definition expand_braces :: "(string \<Rightarrow> string) \<Rightarrow> string \<Rightarrow> string option" where
  "expand_braces unicode_upper key =
     (if str_contains '' down}'' key \<or> str_contains '' up}'' key then
        (case expand_loop [] [] key of
           None \<Rightarrow> None
         | Some (modifiers, base) \<Rightarrow>
             let base = humanize_bare_key (trim base) in
             Some (if modifiers = [] then base
                   else join ''+'' modifiers @ ''+'' @ to_uppercase unicode_upper base))
      else Some key)"

definition humanize_key :: "(string \<Rightarrow> string) \<Rightarrow> string \<Rightarrow> string \<Rightarrow> string option" where
  "humanize_key unicode_upper key os = do {
     expanded \<leftarrow> expand_braces unicode_upper key;
     let (names, rest) = symbol_loop os [] expanded;
     if names \<noteq> [] then do {
       label \<leftarrow> humanize_key_token rest;
       Some (join ''+'' names @ ''+'' @ label)
     } else humanize_key_token expanded
   }"

definition convert_keyboard :: "(string \<Rightarrow> string) \<Rightarrow> command_event \<Rightarrow> string option" where
  "convert_keyboard unicode_upper event =
     (if action_subtype event = ''type'' then
        Some (''Type: '' @ unwrap_or (raw_command event) (strip_prefix ''Typed: '' (raw_command event)))
      else if action_subtype event = ''press'' then
        map_option (\<lambda>k. ''Press: '' @ k)
          (humanize_key unicode_upper
             (unwrap_or (raw_command event) (strip_prefix ''Pressed: '' (raw_command event)))
             (os_type event))
      else Some (''Keyboard: '' @ action_subtype event @ '' '' @ raw_command event))"

section \<open>Replay commands\<close>

text \<open>The \<open>{KeyName}\<close> forms of \<open>normalize_key\<close>; any other key is wrapped in braces.\<close>

definition KEY_NAMES :: "(string \<times> string) list" where
  "KEY_NAMES =
     [(''Return'', ''{Enter}''), (''Enter'', ''{Enter}''),
      (''Delete'', ''{Backspace}''), (''BackSpace'', ''{Backspace}''), (''Backspace'', ''{Backspace}''),
      (''ForwardDelete'', ''{Del}''), (''Escape'', ''{Esc}''), (''Tab'', ''{Tab}''),
      (''Space'', ''{Space}''), (''space'', ''{Space}''),
      (''Up'', ''{Up}''), (''Down'', ''{Down}''), (''Left'', ''{Left}''), (''Right'', ''{Right}''),
      (''Home'', ''{Home}''), (''End'', ''{End}''),
      (''Page_Up'', ''{PgUp}''), (''Prior'', ''{PgUp}''), (''PgUp'', ''{PgUp}''),
      (''Page_Down'', ''{PgDn}''), (''Next'', ''{PgDn}''), (''PgDn'', ''{PgDn}''),
      (''F1'', ''{F1}''), (''F2'', ''{F2}''), (''F3'', ''{F3}''), (''F4'', ''{F4}''), (''F5'', ''{F5}''),
      (''F6'', ''{F6}''), (''F7'', ''{F7}''), (''F8'', ''{F8}''), (''F9'', ''{F9}''),
      (''F10'', ''{F10}''), (''F11'', ''{F11}''), (''F12'', ''{F12}''),
      (''VolumeUp'', ''{VolumeUp}''), (''VolumeDown'', ''{VolumeDown}''), (''Mute'', ''{Mute}''),
      (''BrightnessUp'', ''{BrightnessUp}''), (''PlayPause'', ''{PlayPause}''),
      (''LWin'', ''{LWin}''), (''RWin'', ''{RWin}'')]"

definition normalize_key :: "string \<Rightarrow> string" where
  "normalize_key key = unwrap_or (''{'' @ key @ ''}'') (map_of KEY_NAMES key)"

text \<open>The macOS modifier characters U+2318, U+2303, U+21E7 and U+2325 in UTF-8.\<close>

definition mac_symbols :: "string list" where
  "mac_symbols = [[CHR 0xE2, CHR 0x8C, CHR 0x98], [CHR 0xE2, CHR 0x8C, CHR 0x83],
     [CHR 0xE2, CHR 0x87, CHR 0xA7], [CHR 0xE2, CHR 0x8C, CHR 0xA5]]"

definition is_modifier_combo :: "string \<Rightarrow> bool" where
  "is_modifier_combo key \<longleftrightarrow>
     list_ex (\<lambda>p. prefix p key) ([''^'', ''+'', ''!'', ''#''] @ mac_symbols @ [''{''])"

definition cc_keyboard :: "command_event \<Rightarrow> string" where
  "cc_keyboard event =
     (if action_subtype event = ''type'' then
        ''type '' @ unwrap_or (raw_command event) (strip_prefix ''Typed: '' (raw_command event))
      else if action_subtype event = ''press'' then
        (let key = unwrap_or (raw_command event) (strip_prefix ''Pressed: '' (raw_command event)) in
         if is_modifier_combo key then ''press '' @ key else ''press '' @ normalize_key key)
      else raw_command event)"

end
