(* ===== verification/MA_Mouse_Facts.thy ===== *)
theory MA_Mouse_Facts
  imports MA_Mouse
begin

text \<open>
  What the pointer converter guarantees: the modifier split loses nothing and stops only where it
  must, modifiers survive into the record and the replay command, a drag sentence of the agent is
  read back exactly up to the point bound and refused as a whole beyond it, and no drag output
  depends on the reported pointer position.
\<close>

section \<open>Modifier prefixes\<close>

definition with_modifiers :: "string list \<Rightarrow> string \<Rightarrow> string" where
  "with_modifiers names rest = concat (map (\<lambda>n. n @ ''+'') names) @ rest"

text \<open>No further modifier can be read off the front.\<close>

definition head_clear :: "string \<Rightarrow> bool" where
  "head_clear rest \<longleftrightarrow>
     (case str_find ''+'' rest of None \<Rightarrow> True | Some b \<Rightarrow> \<not> known_modifier (take b rest))"

lemma known_modifier_cases:
  "known_modifier n \<Longrightarrow>
     n = ''Cmd'' \<or> n = ''Win'' \<or> n = ''Super'' \<or> n = ''Ctrl'' \<or> n = ''Shift'' \<or> n = ''Option'' \<or> n = ''Alt''"
  by (auto simp: known_modifier_def MOUSE_MODIFIERS_def)

lemma known_modifier_no_plus: "known_modifier n \<Longrightarrow> CHR ''+'' \<notin> set n"
  using known_modifier_cases [of n] by auto

lemma split_mods_loop_sound:
  "split_mods_loop ms raw = (ms', rest) \<Longrightarrow>
     \<exists>ns. ms' = ms @ ns \<and> raw = with_modifiers ns rest \<and> (\<forall>n \<in> set ns. known_modifier n)
       \<and> head_clear rest"
proof (induction ms raw rule: split_mods_loop.induct)
  case (1 ms raw)
  show ?case
  proof (cases "str_find ''+'' raw")
    case None
    with "1.prems" have "ms' = ms" "rest = raw" by (simp_all add: split_mods_loop.simps [of ms raw])
    with None show ?thesis by (simp add: with_modifiers_def head_clear_def)
  next
    case (Some b)
    have cut: "raw = take b raw @ ''+'' @ drop (Suc b) raw"
      using str_find_char_Some [OF Some] by simp
    show ?thesis
    proof (cases "known_modifier (take b raw)")
      case False
      with "1.prems" Some have "ms' = ms" "rest = raw"
        by (simp_all add: split_mods_loop.simps [of ms raw])
      with Some False show ?thesis by (simp add: with_modifiers_def head_clear_def)
    next
      case True
      have eq: "split_mods_loop (ms @ [take b raw]) (drop (b + 1) raw) = (ms', rest)"
        using "1.prems" Some True by (simp add: split_mods_loop.simps [of ms raw])
      obtain ns where ns: "ms' = (ms @ [take b raw]) @ ns" "drop (b + 1) raw = with_modifiers ns rest"
        "\<forall>n \<in> set ns. known_modifier n" "head_clear rest"
        using "1.IH" [OF Some refl _ eq] True by blast
      have "raw = with_modifiers (take b raw # ns) rest"
        using cut ns(2) by (simp add: with_modifiers_def)
      with ns True show ?thesis by (intro exI [of _ "take b raw # ns"]) simp
    qed
  qed
qed

lemma split_mods_loop_build:
  "\<forall>n \<in> set ns. known_modifier n \<Longrightarrow> head_clear rest \<Longrightarrow>
     split_mods_loop ms (with_modifiers ns rest) = (ms @ ns, rest)"
proof (induction ns arbitrary: ms)
  case Nil
  then show ?case
    by (simp add: with_modifiers_def split_mods_loop.simps [of ms rest] head_clear_def Let_def
        split: option.splits)
next
  case (Cons n ns)
  let ?raw = "n @ ''+'' @ with_modifiers ns rest"
  have n: "known_modifier n" using Cons.prems by simp
  have find: "str_find ''+'' ?raw = Some (length n)"
    using str_find_skip [OF known_modifier_no_plus [OF n], of "[]"] by simp
  have "split_mods_loop ms ?raw = split_mods_loop (ms @ [n]) (with_modifiers ns rest)"
    using n by (subst split_mods_loop.simps) (simp only: find option.case Let_def, simp)
  also have "\<dots> = ((ms @ [n]) @ ns, rest)" using Cons by simp
  finally show ?case by (simp add: with_modifiers_def)
qed

lemma split_mouse_modifiers_build:
  "\<forall>n \<in> set ns. known_modifier n \<Longrightarrow> head_clear rest \<Longrightarrow>
     split_mouse_modifiers (with_modifiers ns rest) = (ns, rest)"
  using split_mods_loop_build [of ns rest "[]"] by (simp add: split_mouse_modifiers_def)

lemma no_plus_head_clear: "CHR ''+'' \<notin> set rest \<Longrightarrow> head_clear rest"
  by (simp add: head_clear_def str_find_absent)

text \<open>A symbol's platform name leads back to the symbol.\<close>

lemma modifier_name_known:
  "modifier_name s os = Some n \<Longrightarrow> known_modifier n \<and> map_of MOUSE_MODIFIERS n = Some [s]"
  by (auto simp: modifier_name_def known_modifier_def MOUSE_MODIFIERS_def split: if_splits)

lemma modifier_name_total: "is_mod_symbol s \<longleftrightarrow> (\<exists>n. modifier_name s os = Some n)"
  by (auto simp: is_mod_symbol_def modifier_name_def)

definition os_names :: "string \<Rightarrow> string \<Rightarrow> string list" where
  "os_names os syms = List.map_filter (\<lambda>s. modifier_name s os) syms"

lemma os_names_Cons:
  "is_mod_symbol s \<Longrightarrow> \<exists>n. modifier_name s os = Some n \<and> os_names os (s # syms) = n # os_names os syms"
  using modifier_name_total [of s os] by (auto simp: os_names_def List.map_filter_def)

lemma os_names_known:
  "list_all is_mod_symbol syms \<Longrightarrow> \<forall>n \<in> set (os_names os syms). known_modifier n"
proof (induction syms)
  case Nil
  then show ?case by (simp add: os_names_def List.map_filter_def)
next
  case (Cons s syms)
  then show ?case using os_names_Cons [of s os syms] modifier_name_known by fastforce
qed

lemma os_names_symbols:
  "list_all is_mod_symbol syms \<Longrightarrow> modifier_symbols (os_names os syms) = syms"
proof (induction syms)
  case Nil
  then show ?case by (simp add: modifier_symbols_def os_names_def List.map_filter_def)
next
  case (Cons s syms)
  then obtain n where n: "modifier_name s os = Some n" "os_names os (s # syms) = n # os_names os syms"
    using os_names_Cons [of s os syms] by auto
  with Cons modifier_name_known [OF n(1)] show ?case
    by (simp add: modifier_symbols_def List.map_filter_def)
qed

lemma os_names_nonempty: "list_all is_mod_symbol syms \<Longrightarrow> syms \<noteq> [] \<Longrightarrow> os_names os syms \<noteq> []"
  using os_names_Cons [of "hd syms" os "tl syms"] by (cases syms) auto

section \<open>Tokens\<close>

lemma split_ws_acc_chars: "t \<in> set (split_ws_acc w s) \<Longrightarrow> set t \<subseteq> set w \<union> set s"
proof (induction w s rule: split_ws_acc.induct)
  case (1 w s)
  consider (stop) "s = []" | (char) "s \<noteq> []" "ws_len s = 0" | (space) "s \<noteq> []" "ws_len s \<noteq> 0"
    by blast
  then show ?case
  proof cases
    case stop
    with "1.prems" show ?thesis by (simp add: split_ws_acc.simps [of w "[]"] split: if_splits)
  next
    case char
    then have "t \<in> set (split_ws_acc (w @ [hd s]) (tl s))"
      using "1.prems" by (simp add: split_ws_acc.simps [of w s])
    with "1.IH"(1) [OF char] char(1) show ?thesis by (cases s) auto
  next
    case space
    then have "t = w \<or> t \<in> set (split_ws_acc [] (drop (ws_len s) s))"
      using "1.prems" by (simp add: split_ws_acc.simps [of w s] split: if_splits)
    with "1.IH"(2) [OF space] show ?thesis by (auto dest: in_set_dropD)
  qed
qed

lemma split_whitespace_chars: "t \<in> set (split_whitespace s) \<Longrightarrow> set t \<subseteq> set s"
  using split_ws_acc_chars [of t "[]" s] by (simp add: split_whitespace_def)

lemma token_modifiers_none:
  "\<forall>t \<in> set ts. \<forall>c \<in> set t. \<not> is_mod_symbol c \<Longrightarrow> token_modifiers st os ts = []"
proof (induction ts)
  case (Cons t ts)
  have "symbols = [] \<or> \<not> list_all is_mod_symbol symbols" if "strip_suffix st t = Some symbols" for symbols
    using Cons.prems that by (cases symbols) (auto simp: strip_suffix_Some)
  with Cons show ?case by (auto split: option.splits)
qed simp

lemma command_form_none:
  "\<forall>c \<in> set rest. \<not> is_mod_symbol c \<Longrightarrow> modifiers_from_command_form rest st os = []"
  unfolding modifiers_from_command_form_def
  using token_modifiers_none [of "split_whitespace rest" st os] split_whitespace_chars [of _ rest]
  by auto

section \<open>Drag sentences\<close>

definition pair_text :: "int \<times> int \<Rightarrow> string" where
  "pair_text p = ''X='' @ show_int (fst p) @ '', Y='' @ show_int (snd p)"

definition from_text :: "(int \<times> int) option \<Rightarrow> string" where
  "from_text from = (case from of None \<Rightarrow> [] | Some p \<Rightarrow> '' from '' @ pair_text p)"

definition legs_text :: "(int \<times> int) list \<Rightarrow> int \<times> int \<Rightarrow> string" where
  "legs_text via to = concat (map (\<lambda>p. '' via '' @ pair_text p) via) @ '' to '' @ pair_text to"

text \<open>The agent's report of a drag: \<open>Dragged [from \<dots>] [via \<dots>]* to \<dots>\<close>.\<close>

definition drag_sentence :: "(int \<times> int) option \<Rightarrow> (int \<times> int) list \<Rightarrow> int \<times> int \<Rightarrow> string" where
  "drag_sentence from via to = ''Dragged'' @ from_text from @ legs_text via to"

definition pair_ok :: "int \<times> int \<Rightarrow> bool" where
  "pair_ok p \<longleftrightarrow> in_i32 (fst p) \<and> in_i32 (snd p)"

lemma show_int_int_chars: "list_all int_char (show_int i)"
  using show_int_chars by (auto simp: list_all_iff int_char_def)

lemma take_int_show:
  "in_i32 i \<Longrightarrow> r = [] \<or> \<not> int_char (hd r) \<Longrightarrow> take_int (show_int i @ r) = (Some i, r)"
  using show_int_int_chars [of i] takeWhile_eq_all_conv [of int_char "show_int i"]
  by (cases r) (auto simp: take_int_def list_all_iff parse_i32_show_int simp del: takeWhile_eq_all_conv)

text \<open>One round of the loop over \<open>\<dots> X=x, Y=y\<close>.\<close>

definition drag_step ::
  "string \<Rightarrow> (int \<times> int) option \<Rightarrow> (int \<times> int) list \<Rightarrow> (int \<times> int) option \<Rightarrow> nat \<Rightarrow> int \<times> int \<Rightarrow> string \<Rightarrow> drag_scan" where
  "drag_step kw from via to seen p rest =
     (if drag_clause kw = ''from'' then scan_drag_loop (Some p) via to (seen + 1) rest
      else if drag_clause kw = ''via'' then scan_drag_loop from (via @ [p]) to (seen + 1) rest
      else scan_drag_loop from via (Some p) (seen + 1) rest)"

lemma scan_drag_pair:
  assumes kw: "CHR ''X'' \<notin> set kw" and p: "pair_ok p" and r: "r = [] \<or> \<not> int_char (hd r)"
  shows "scan_drag_loop from via to seen (kw @ pair_text p @ r) =
     (if seen + 1 > MAX_DRAG_POINTS then TooLong else drag_step kw from via to seen p r)"
proof -
  obtain x y where xy: "p = (x, y)" "in_i32 x" "in_i32 y"
    using p by (cases p) (auto simp: pair_ok_def)
  let ?tail = "'', Y='' @ show_int y @ r"
  have x_find: "str_find ''X='' (kw @ pair_text p @ r) = Some (length kw)"
    using str_find_skip [OF kw, of "''=''"] xy by (simp add: pair_text_def)
  have x_take: "take_int (drop (length kw + 2) (kw @ pair_text p @ r)) = (Some x, ?tail)"
    using take_int_show [OF xy(2), of ?tail] xy by (simp add: pair_text_def int_char_def)
  have y_find: "str_find ''Y='' ?tail = Some 2"
    by (simp add: numeral_2_eq_2)
  have y_take: "take_int (drop (2 + 2) ?tail) = (Some y, r)"
    using take_int_show [OF xy(3) r] by simp
  have head: "take (length kw) (kw @ pair_text p @ r) = kw" by simp
  show ?thesis
    by (subst scan_drag_loop.simps)
       (simp only: x_find option.case Let_def head x_take prod.case y_find y_take drag_step_def,
         simp only: xy(1))
qed

lemma drag_clauses:
  "drag_clause ''Dragged from '' = ''from''" "drag_clause '' from '' = ''from''"
  "drag_clause ''Dragged via '' = ''via''" "drag_clause '' via '' = ''via''"
  "drag_clause ''Dragged to '' = ''to''" "drag_clause '' to '' = ''to''"
  by code_simp+

lemma scan_legs:
  assumes "pre = ''Dragged'' \<or> pre = []" and "\<forall>p \<in> set via. pair_ok p" and "pair_ok q"
    and "seen \<le> MAX_DRAG_POINTS"
  shows "scan_drag_loop from vs t seen (pre @ legs_text via q) =
     (if seen + length via + 1 > MAX_DRAG_POINTS then TooLong
      else DragPath \<lparr>drag_from = from, drag_via = vs @ via, drag_to = q\<rparr>)"
  using assms
proof (induction via arbitrary: pre vs seen)
  case Nil
  then have kw: "CHR ''X'' \<notin> set (pre @ '' to '')" "drag_clause (pre @ '' to '') = ''to''"
    using drag_clauses by auto
  have "scan_drag_loop from vs t seen ((pre @ '' to '') @ pair_text q @ []) =
     (if seen + 1 > MAX_DRAG_POINTS then TooLong else drag_step (pre @ '' to '') from vs t seen q [])"
    by (rule scan_drag_pair [OF kw(1) Nil.prems(3)]) simp
  moreover have "drag_step (pre @ '' to '') from vs t seen q [] = drag_result from vs (Some q)"
    by (simp add: drag_step_def kw(2) scan_drag_loop.simps [where rest = "[]"])
  ultimately show ?case by (simp add: legs_text_def drag_result_def)
next
  case (Cons p via)
  then have kw: "CHR ''X'' \<notin> set (pre @ '' via '')" "drag_clause (pre @ '' via '') = ''via''"
    using drag_clauses by auto
  have p: "pair_ok p" using Cons.prems by simp
  have space: "legs_text via q = [] \<or> \<not> int_char (hd (legs_text via q))"
    by (cases via) (simp_all add: legs_text_def int_char_def)
  have eq: "scan_drag_loop from vs t seen ((pre @ '' via '') @ pair_text p @ legs_text via q) =
     (if seen + 1 > MAX_DRAG_POINTS then TooLong
      else scan_drag_loop from (vs @ [p]) t (seen + 1) (legs_text via q))"
    using scan_drag_pair [OF kw(1) p space] by (simp add: drag_step_def kw(2))
  show ?case
  proof (cases "seen + 1 > MAX_DRAG_POINTS")
    case True
    with eq show ?thesis by (simp add: legs_text_def)
  next
    case False
    then have "scan_drag_loop from (vs @ [p]) t (seen + 1) ([] @ legs_text via q) =
       (if seen + 1 + length via + 1 > MAX_DRAG_POINTS then TooLong
        else DragPath \<lparr>drag_from = from, drag_via = (vs @ [p]) @ via, drag_to = q\<rparr>)"
      using Cons.prems by (intro Cons.IH) auto
    with eq False show ?thesis by (simp add: legs_text_def)
  qed
qed

definition drag_points :: "(int \<times> int) option \<Rightarrow> (int \<times> int) list \<Rightarrow> nat" where
  "drag_points from via = (case from of None \<Rightarrow> 0 | Some _ \<Rightarrow> 1) + length via + 1"

lemma scan_drag_sentence:
  assumes "\<forall>p. from = Some p \<longrightarrow> pair_ok p" and "\<forall>p \<in> set via. pair_ok p" and "pair_ok q"
  shows "scan_drag_path (drag_sentence from via q) =
     (if drag_points from via > MAX_DRAG_POINTS then TooLong
      else DragPath \<lparr>drag_from = from, drag_via = via, drag_to = q\<rparr>)"
proof (cases "from")
  case None
  then show ?thesis
    using scan_legs [of "''Dragged''" via q 0 None "[]" None] assms(2,3)
    by (simp add: scan_drag_path_def drag_sentence_def from_text_def drag_points_def)
next
  case (Some p)
  have space: "legs_text via q = [] \<or> \<not> int_char (hd (legs_text via q))"
    by (cases via) (simp_all add: legs_text_def int_char_def)
  have "scan_drag_loop None [] None 0 (''Dragged from '' @ pair_text p @ legs_text via q)
      = scan_drag_loop (Some p) [] None 1 ([] @ legs_text via q)"
    using scan_drag_pair [OF _ _ space, of "''Dragged from ''" p] assms(1) Some
    by (simp add: drag_step_def drag_clauses MAX_DRAG_POINTS_def)
  then show ?thesis
    using scan_legs [of "[]" via q 1 "Some p" "[]" None] assms(2,3) Some
    by (simp add: scan_drag_path_def drag_sentence_def from_text_def drag_points_def MAX_DRAG_POINTS_def)
qed

text \<open>For any text at all, a path that is returned keeps within the bound, and so do its numbers.\<close>

definition drag_state_ok ::
  "(int \<times> int) option \<Rightarrow> (int \<times> int) list \<Rightarrow> (int \<times> int) option \<Rightarrow> nat \<Rightarrow> bool" where
  "drag_state_ok from via to seen \<longleftrightarrow>
     (case from of None \<Rightarrow> 0 | Some _ \<Rightarrow> 1) + length via + (case to of None \<Rightarrow> 0 | Some _ \<Rightarrow> 1) \<le> seen
     \<and> seen \<le> MAX_DRAG_POINTS \<and> (\<forall>p \<in> set_option from \<union> set via \<union> set_option to. pair_ok p)"

definition drag_path_ok :: "drag_path \<Rightarrow> bool" where
  "drag_path_ok path \<longleftrightarrow> drag_points (drag_from path) (drag_via path) \<le> MAX_DRAG_POINTS
     \<and> (\<forall>p \<in> set_option (drag_from path) \<union> set (drag_via path) \<union> {drag_to path}. pair_ok p)"

lemma drag_result_ok:
  "drag_state_ok f via t seen \<Longrightarrow> drag_result f via t = DragPath path \<Longrightarrow> drag_path_ok path"
  by (auto simp: drag_state_ok_def drag_path_ok_def drag_result_def drag_points_def split: option.splits)

lemma drag_state_ok_step:
  "drag_state_ok f via t seen \<Longrightarrow> pair_ok p \<Longrightarrow> seen + 1 \<le> MAX_DRAG_POINTS \<Longrightarrow>
     drag_state_ok (Some p) via t (seen + 1) \<and> drag_state_ok f (via @ [p]) t (seen + 1)
     \<and> drag_state_ok f via (Some p) (seen + 1)"
  by (auto simp: drag_state_ok_def split: option.splits)

lemma scan_drag_loop_bound:
  "drag_state_ok f via t seen \<Longrightarrow> scan_drag_loop f via t seen rest = DragPath path \<Longrightarrow> drag_path_ok path"
proof (induction "length rest" arbitrary: f via t seen rest rule: less_induct)
  case less
  note unfold = scan_drag_loop.simps [of f via t seen rest]
  show ?case
  proof (cases "str_find ''X='' rest")
    case None
    with less.prems show ?thesis using drag_result_ok by (simp add: unfold)
  next
    case x_at: (Some i)
    obtain x ax where x: "take_int (drop (i + 2) rest) = (x, ax)" by fastforce
    show ?thesis
    proof (cases "str_find ''Y='' ax")
      case None
      with x_at x less.prems show ?thesis using drag_result_ok by (simp add: unfold)
    next
      case y_at: (Some j)
      obtain y ay where y: "take_int (drop (j + 2) ax) = (y, ay)" by fastforce
      note IH = less.hyps [OF scan_rest_shorter [OF x_at x y_at y]]
      show ?thesis
      proof (cases "x = None \<or> y = None")
        case True
        then have "scan_drag_loop f via t seen ay = DragPath path"
          using less.prems(2) x_at x y_at y by (cases x; cases y) (simp_all add: unfold)
        with IH less.prems(1) show ?thesis by blast
      next
        case False
        then obtain a b where ab: "x = Some a" "y = Some b" by auto
        have ok: "pair_ok (a, b)"
          using x y ab by (auto simp: take_int_def pair_ok_def parse_i32_range)
        have room: "seen + 1 \<le> MAX_DRAG_POINTS"
          using less.prems(2) x_at x y_at y ab by (auto simp: unfold Let_def split: if_splits)
        have "scan_drag_loop (Some (a, b)) via t (seen + 1) ay = DragPath path
            \<or> scan_drag_loop f (via @ [(a, b)]) t (seen + 1) ay = DragPath path
            \<or> scan_drag_loop f via (Some (a, b)) (seen + 1) ay = DragPath path"
          using less.prems(2) x_at x y_at y ab room by (auto simp: unfold Let_def split: if_splits)
        with IH drag_state_ok_step [OF less.prems(1) ok room] show ?thesis by blast
      qed
    qed
  qed
qed

lemma scan_drag_path_bound: "scan_drag_path s = DragPath path \<Longrightarrow> drag_path_ok path"
  using scan_drag_loop_bound [of None "[]" None 0 s path]
  by (simp add: scan_drag_path_def drag_state_ok_def)

section \<open>Events that report a drag or a click\<close>

lemma pair_text_plain: "list_all (\<lambda>c. \<not> is_mod_symbol c) (pair_text p)"
proof -
  have "list_all (\<lambda>c. \<not> is_mod_symbol c) (show_int i)" for i
    using show_int_chars [of _ i] by (fastforce simp: list_all_iff is_mod_symbol_def is_digit_def)
  then show ?thesis by (simp add: pair_text_def is_mod_symbol_def)
qed

lemma legs_text_plain: "list_all (\<lambda>c. \<not> is_mod_symbol c) (legs_text via q)"
  using pair_text_plain [unfolded is_mod_symbol_def de_Morgan_disj]
  by (induction via) (auto simp: legs_text_def is_mod_symbol_def)

lemma mod_symbols_not_in_sentence:
  "c \<in> set (drag_sentence from via q) \<Longrightarrow> \<not> is_mod_symbol c"
proof -
  have "list_all (\<lambda>c. \<not> is_mod_symbol c) (drag_sentence from via q)"
    using pair_text_plain [unfolded is_mod_symbol_def de_Morgan_disj]
      legs_text_plain [of via q, unfolded is_mod_symbol_def de_Morgan_disj]
    by (auto simp: drag_sentence_def from_text_def is_mod_symbol_def split: option.splits)
  then show "c \<in> set (drag_sentence from via q) \<Longrightarrow> \<not> is_mod_symbol c" by (simp add: list_all_iff)
qed

lemma drag_sentence_clear: "head_clear (drag_sentence from via q)"
  using mod_symbols_not_in_sentence [of "CHR ''+''" "from" via q]
  by (intro no_plus_head_clear) (auto simp: is_mod_symbol_def)

lemma split_subtype_plain:
  "st = [] \<or> \<not> is_mod_symbol (hd st) \<Longrightarrow> split_subtype_symbols st = ([], st)"
  by (cases st) (auto simp: split_subtype_symbols_def)

lemma event_modifiers_drag:
  assumes "action_subtype e = ''drag''" and "\<forall>n \<in> set ns. known_modifier n"
    and "raw_command e = with_modifiers ns (drag_sentence from via q)"
  shows "event_modifiers e = (ns, drag_sentence from via q)"
  using split_mouse_modifiers_build [OF assms(2) drag_sentence_clear, of "from" via q]
    command_form_none [of "drag_sentence from via q"] mod_symbols_not_in_sentence
  by (auto simp: event_modifiers_def assms(1,3) split_subtype_plain is_mod_symbol_def Let_def)

lemma replay_verb_plain: "st \<in> set replay_verbs \<Longrightarrow> split_subtype_symbols st = ([], st) \<and> st \<noteq> ''drag''"
  by (auto simp: replay_verbs_def split_subtype_symbols_def is_mod_symbol_def)

lemma mouse_label_nonempty: "mouse_label st \<noteq> []"
  by (simp add: mouse_label_def safe_subtype_def)

lemma join_prefix: "ns \<noteq> [] \<Longrightarrow> prefix_of ns @ t = with_modifiers ns t"
proof (induction ns)
  case (Cons n ns)
  then show ?case by (cases ns) (simp_all add: prefix_of_def with_modifiers_def)
qed simp

section \<open>Properties\<close>

text \<open>
  The modifier split is exact: it returns \<open>(ns, rest)\<close> precisely when the raw command is the
  names \<open>ns\<close>, each followed by \<open>+\<close>, in front of \<open>rest\<close>, every name is one of the seven known ones,
  and what precedes the next \<open>+\<close> of \<open>rest\<close> (if there is one) is not. No byte is lost and no part of
  an action name is taken for a modifier.
\<close>

lemma split_mouse_modifiers_exact:
  "split_mouse_modifiers raw = (ns, rest) \<longleftrightarrow>
     raw = concat (map (\<lambda>n. n @ ''+'') ns) @ rest \<and> (\<forall>n \<in> set ns. known_modifier n)
     \<and> (\<forall>b. str_find ''+'' rest = Some b \<longrightarrow> \<not> known_modifier (take b rest))"
proof -
  have clear: "head_clear rest \<longleftrightarrow> (\<forall>b. str_find ''+'' rest = Some b \<longrightarrow> \<not> known_modifier (take b rest))"
    by (auto simp: head_clear_def split: option.splits)
  show ?thesis
    using split_mods_loop_sound [of "[]" raw ns rest] split_mouse_modifiers_build [of ns rest]
    unfolding split_mouse_modifiers_def clear [symmetric] with_modifiers_def by auto
qed

lemma modifiers_survive_parts:
  assumes syms: "list_all is_mod_symbol syms" "syms \<noteq> []" and plain: "CHR ''+'' \<notin> set rest"
    and raw: "raw_command e = concat (map (\<lambda>n. n @ ''+'') (os_names (os_type e) syms)) @ rest"
    and verb: "action_subtype e \<in> set replay_verbs" and pos: "position_captured e"
  shows "cc_mouse e = show_xy (mouse_x e, mouse_y e) @ '' '' @ syms @ action_subtype e
       @ (case scan_notches rest of None \<Rightarrow> [] | Some n \<Rightarrow> '' '' @ show_int n)"
    and "convert_mouse e =
       concat (map (\<lambda>n. n @ ''+'') (os_names (os_type e) syms)) @ mouse_label (action_subtype e)
       @ (case scan_notches rest of None \<Rightarrow> []
          | Some n \<Rightarrow> if n = 1 then '' 1 notch'' else '' '' @ show_int n @ '' notches'')
       @ '' at '' @ show_pair (mouse_x e, mouse_y e)"
proof -
  let ?ns = "os_names (os_type e) syms"
  have split: "split_mouse_modifiers (raw_command e) = (?ns, rest)"
    using split_mouse_modifiers_build [OF os_names_known [OF syms(1)] no_plus_head_clear [OF plain]]
    unfolding raw with_modifiers_def .
  have ns: "?ns \<noteq> []" "modifier_symbols ?ns = syms"
    using os_names_nonempty [OF syms] os_names_symbols [OF syms(1)] by auto
  note st = replay_verb_plain [OF verb]
  show "cc_mouse e = show_xy (mouse_x e, mouse_y e) @ '' '' @ syms @ action_subtype e
       @ (case scan_notches rest of None \<Rightarrow> [] | Some n \<Rightarrow> '' '' @ show_int n)"
    using st split ns syms(2) verb pos by (simp add: cc_mouse_def Let_def)
  have "event_modifiers e = (?ns, rest)" using st split ns by (simp add: event_modifiers_def)
  then show "convert_mouse e =
      concat (map (\<lambda>n. n @ ''+'') ?ns) @ mouse_label (action_subtype e)
      @ (case scan_notches rest of None \<Rightarrow> []
         | Some n \<Rightarrow> if n = 1 then '' 1 notch'' else '' '' @ show_int n @ '' notches'')
      @ '' at '' @ show_pair (mouse_x e, mouse_y e)"
    using st mouse_label_nonempty join_prefix [OF ns(1)] pos
    by (simp add: convert_mouse_def Let_def with_modifiers_def)
qed

text \<open>
  A modified click is recorded and replayed with its modifiers. Take any sequence of modifier
  symbols and the names the reporting platform has for them; an event whose raw command carries
  those names in front of a sentence without \<open>+\<close> is recorded with exactly that prefix, and its
  replay command carries exactly those symbols, whichever of the platform names spelled them.
\<close>

lemma modifiers_survive:
  assumes "list_all is_mod_symbol syms" and "syms \<noteq> []" and "CHR ''+'' \<notin> set rest"
    and "raw_command e = concat (map (\<lambda>n. n @ ''+'') (os_names (os_type e) syms)) @ rest"
    and "action_subtype e \<in> set replay_verbs" and "position_captured e"
  shows "cc_mouse e = show_xy (mouse_x e, mouse_y e) @ '' '' @ syms @ action_subtype e
         @ (case scan_notches rest of None \<Rightarrow> [] | Some n \<Rightarrow> '' '' @ show_int n)
    \<and> convert_mouse e =
       concat (map (\<lambda>n. n @ ''+'') (os_names (os_type e) syms)) @ mouse_label (action_subtype e)
       @ (case scan_notches rest of None \<Rightarrow> []
          | Some n \<Rightarrow> if n = 1 then '' 1 notch'' else '' '' @ show_int n @ '' notches'')
       @ '' at '' @ show_pair (mouse_x e, mouse_y e)"
  using modifiers_survive_parts [OF assms] by (rule conjI)

lemma modifiers_survive_witness:
  "cc_mouse (default_event\<lparr>action_subtype := ''left'', os_type := ''WINDOWS'', mouse_x := 770,
       raw_command := ''Win+Shift+Left-clicked at X=770, Y=0'', position_captured := True\<rparr>)
     = show_xy (770, 0) @ '' '' @ ''#+'' @ ''left''
       @ (case scan_notches ''Left-clicked at X=770, Y=0'' of None \<Rightarrow> [] | Some n \<Rightarrow> '' '' @ show_int n)"
  using modifiers_survive [THEN conjunct1, of "''#+''" "''Left-clicked at X=770, Y=0''"
    "default_event\<lparr>action_subtype := ''left'', os_type := ''WINDOWS'', mouse_x := 770,
       raw_command := ''Win+Shift+Left-clicked at X=770, Y=0'', position_captured := True\<rparr>"]
  by (simp add: os_names_def List.map_filter_def modifier_name_def is_mod_symbol_def replay_verbs_def
      default_event_def)

lemma drag_round_trip_parts:
  assumes st: "action_subtype e = ''drag''" and ns: "\<forall>n \<in> set ns. known_modifier n"
    and raw: "raw_command e = concat (map (\<lambda>n. n @ ''+'') ns) @ drag_sentence from via q"
    and ok: "\<forall>p. from = Some p \<longrightarrow> pair_ok p" "\<forall>p \<in> set via. pair_ok p" "pair_ok q"
  shows "convert_mouse e =
      (if drag_points from via \<le> MAX_DRAG_POINTS
       then drag_line (prefix_of ns) \<lparr>drag_from = from, drag_via = via, drag_to = q\<rparr>
       else prefix_of ns @ ''Drag path of more than 8 points, not recorded'')"
    and "from = Some p \<Longrightarrow> cc_mouse e =
      (if drag_points from via \<le> MAX_DRAG_POINTS then drag_command (modifier_symbols ns) p via q
       else ''drag path of more than 8 points, not recorded'')"
proof -
  note raw' = raw [folded with_modifiers_def]
  have eight: "show_nat MAX_DRAG_POINTS = ''8''" by code_simp
  have sub: "split_subtype_symbols ''drag'' = ([], ''drag'')" "''drag'' \<notin> set replay_verbs"
    by (simp_all add: split_subtype_plain is_mod_symbol_def replay_verbs_def)
  show "convert_mouse e =
      (if drag_points from via \<le> MAX_DRAG_POINTS
       then drag_line (prefix_of ns) \<lparr>drag_from = from, drag_via = via, drag_to = q\<rparr>
       else prefix_of ns @ ''Drag path of more than 8 points, not recorded'')"
    using event_modifiers_drag [OF st ns raw'] scan_drag_sentence [OF ok] sub
    by (simp add: convert_mouse_def st eight Let_def)
  show "cc_mouse e =
      (if drag_points from via \<le> MAX_DRAG_POINTS then drag_command (modifier_symbols ns) p via q
       else ''drag path of more than 8 points, not recorded'')" if "from = Some p"
    using split_mouse_modifiers_build [OF ns drag_sentence_clear, of "from" via q]
      scan_drag_sentence [OF ok] sub that
    by (simp add: cc_mouse_def st raw' eight Let_def)
qed

text \<open>
  C40. A drag reported in the agent's sentence, with or without an origin, any number of waypoints
  and any modifier names, is recorded with every point in visit order as long as it has at most
  \<open>MAX_DRAG_POINTS\<close> points, and replayed as the command with those points when it has an origin;
  with more points it is recorded and replayed as the over-limit marker. The reported pointer
  position plays no part.
\<close>

theorem drag_round_trip:
  assumes "action_subtype e = ''drag''" and "\<forall>n \<in> set ns. known_modifier n"
    and "raw_command e = concat (map (\<lambda>n. n @ ''+'') ns) @ drag_sentence from via q"
    and "\<forall>p. from = Some p \<longrightarrow> pair_ok p" and "\<forall>p \<in> set via. pair_ok p" and "pair_ok q"
  shows "convert_mouse e =
       (if drag_points from via \<le> MAX_DRAG_POINTS
        then drag_line (prefix_of ns) \<lparr>drag_from = from, drag_via = via, drag_to = q\<rparr>
        else prefix_of ns @ ''Drag path of more than 8 points, not recorded'')
    \<and> (\<forall>p. from = Some p \<longrightarrow> cc_mouse e =
       (if drag_points from via \<le> MAX_DRAG_POINTS then drag_command (modifier_symbols ns) p via q
        else ''drag path of more than 8 points, not recorded''))"
  using drag_round_trip_parts [OF assms] by blast

theorem drag_round_trip_witness:
  "cc_mouse (default_event\<lparr>action_subtype := ''drag'',
      raw_command := concat (map (\<lambda>n. n @ ''+'') [''Cmd'']) @ drag_sentence (Some (500, 400)) [(700, 500)] (900, 700)\<rparr>)
   = (if drag_points (Some (500, 400)) [(700, 500)] \<le> MAX_DRAG_POINTS
      then drag_command (modifier_symbols [''Cmd'']) (500, 400) [(700, 500)] (900, 700)
      else ''drag path of more than 8 points, not recorded'')"
  by (rule drag_round_trip [THEN conjunct2, rule_format])
     (simp_all add: known_modifier_def MOUSE_MODIFIERS_def pair_ok_def in_i32_def)

lemma drag_path_bounded_parts:
  assumes "scan_drag_path s = DragPath path"
  shows "drag_points (drag_from path) (drag_via path) \<le> 8"
    and "\<forall>p \<in> set_option (drag_from path) \<union> set (drag_via path) \<union> {drag_to path}.
           in_i32 (fst p) \<and> in_i32 (snd p)"
  using scan_drag_path_bound [OF assms]
  unfolding drag_path_ok_def pair_ok_def MAX_DRAG_POINTS_def by blast+

text \<open>
  Whatever text the wire carries, a drag path that is rendered has at most \<open>MAX_DRAG_POINTS\<close>
  points, each a pair of 32-bit integers.
\<close>

lemma drag_path_bounded:
  assumes "scan_drag_path s = DragPath path"
  shows "drag_points (drag_from path) (drag_via path) \<le> 8
    \<and> (\<forall>p \<in> set_option (drag_from path) \<union> set (drag_via path) \<union> {drag_to path}.
          in_i32 (fst p) \<and> in_i32 (snd p))"
  using drag_path_bounded_parts [OF assms] by (rule conjI)

lemma drag_ignores_pointer_parts:
  assumes "snd (split_subtype_symbols (action_subtype e)) = ''drag''"
  shows "cc_mouse (e\<lparr>mouse_x := x, mouse_y := y, position_captured := b\<rparr>) = cc_mouse e"
    and "scan_drag_path (snd (event_modifiers e)) \<noteq> Absent \<Longrightarrow>
      convert_mouse (e\<lparr>mouse_x := x, mouse_y := y, position_captured := b\<rparr>) = convert_mouse e"
proof -
  have "''drag'' \<notin> set replay_verbs" by (simp add: replay_verbs_def)
  with assms show "cc_mouse (e\<lparr>mouse_x := x, mouse_y := y, position_captured := b\<rparr>) = cc_mouse e"
    by (simp add: cc_mouse_def Let_def case_prod_beta split: drag_scan.split option.split)
  have same: "event_modifiers (e\<lparr>mouse_x := x, mouse_y := y, position_captured := b\<rparr>) = event_modifiers e"
    by (simp add: event_modifiers_def Let_def case_prod_beta)
  show "convert_mouse (e\<lparr>mouse_x := x, mouse_y := y, position_captured := b\<rparr>) = convert_mouse e"
    if "scan_drag_path (snd (event_modifiers e)) \<noteq> Absent"
    using assms that by (simp add: convert_mouse_def same Let_def case_prod_beta split: drag_scan.splits)
qed

text \<open>
  The reported pointer position (\<open>mouse_x\<close>, \<open>mouse_y\<close>, \<open>position_captured\<close>), whose meaning for a
  drag differs between supported agents, has no influence on the replay command of a drag, nor on
  its record whenever the sentence carries a path.
\<close>

lemma drag_ignores_pointer:
  assumes "snd (split_subtype_symbols (action_subtype e)) = ''drag''"
  shows "cc_mouse (e\<lparr>mouse_x := x, mouse_y := y, position_captured := b\<rparr>) = cc_mouse e
    \<and> (scan_drag_path (snd (event_modifiers e)) \<noteq> Absent \<longrightarrow>
        convert_mouse (e\<lparr>mouse_x := x, mouse_y := y, position_captured := b\<rparr>) = convert_mouse e)"
  using drag_ignores_pointer_parts [OF assms] by blast

end
