(* ===== verification/MA_Convert.thy ===== *)
theory MA_Convert
  imports MA_Keys MA_Mouse_Facts
begin

text \<open>
  The two entry points of the converter (\<open>to_human_readable\<close>, \<open>to_cc_command\<close> of \<open>convert/mod.rs\<close>)
  and what they guarantee. \<^const>\<open>None\<close> is a panic; the main theorem is that no well-formed event
  causes one.
\<close>

definition convert_position :: "command_event \<Rightarrow> string" where
  "convert_position event =
     (if position_captured event then ''Position query at '' @ show_pair (mouse_x event, mouse_y event)
      else ''Position query: '' @ raw_command event)"

definition to_human_readable :: "(string \<Rightarrow> string) \<Rightarrow> command_event \<Rightarrow> string option" where
  "to_human_readable unicode_upper event =
     map_option
       (\<lambda>converted. if \<not> success event then ''[FAILED] '' @ converted else converted)
       (if action_type event = ''mouse'' then Some (convert_mouse event)
        else if action_type event = ''keyboard'' then convert_keyboard unicode_upper event
        else if action_type event = ''position'' then Some (convert_position event)
        else Some (raw_command event))"

definition cc_position :: "command_event \<Rightarrow> string" where
  "cc_position event = ''position''"

definition to_cc_command :: "command_event \<Rightarrow> string" where
  "to_cc_command event =
     (if action_type event = ''mouse'' then cc_mouse event
      else if action_type event = ''keyboard'' then cc_keyboard event
      else if action_type event = ''position'' then cc_position event
      else raw_command event)"

section \<open>Well-formed strings stay well formed\<close>

lemma utf8_ascii_list: "list_all is_ascii s \<Longrightarrow> utf8 s"
  by (simp add: utf8_all_ascii list_all_iff)

lemma utf8_join: "\<forall>s \<in> set ss. utf8 s \<Longrightarrow> utf8 sep \<Longrightarrow> utf8 (join sep ss)"
  by (induction sep ss rule: join.induct) (auto simp: utf8_append)

lemma ws_lead: "0 < ws_len s \<Longrightarrow> utf8 s \<Longrightarrow> utf8 (drop (ws_len s) s)"
proof (cases s)
  case (Cons c cs)
  assume ws: "0 < ws_len s" and s: "utf8 s"
  show ?thesis
  proof (cases "is_ascii c")
    case True
    then have "\<not> is_wide_ws (take 2 s)" "\<not> is_wide_ws (take 3 s)"
      using is_wide_ws_no_ascii [of "take 2 s" c] is_wide_ws_no_ascii [of "take 3 s" c] Cons by auto
    with ws Cons have "ws_len s = 1" by (simp add: ws_len_def split: if_splits)
    with True s Cons show ?thesis by (simp add: utf8_def)
  next
    case False
    have "lead_len c = ws_len s"
    proof (cases "is_wide_ws (take 2 s)")
      case True
      then have "ws_len s = 2" "c = CHR 0xC2" using Cons False
        by (auto simp: ws_len_def is_ascii_ws_def is_wide_ws_def is_ascii_def split: if_splits)
          (cases cs; auto)+
      then show ?thesis by (simp add: lead_len_def)
    next
      case no: False
      with ws Cons False have three: "ws_len s = 3" "is_wide_ws (take 3 s)"
        by (auto simp: ws_len_def is_ascii_ws_def is_ascii_def split: if_splits)
      then have "c = CHR 0xE1 \<or> c = CHR 0xE2 \<or> c = CHR 0xE3" using Cons no
        by (cases cs; cases "tl cs") (auto simp: is_wide_ws_def)
      with three show ?thesis by (auto simp: lead_len_def)
    qed
    with utf8_char [of c cs] s False Cons show ?thesis by simp
  qed
qed simp

lemma is_wide_ws_lead: "is_wide_ws t \<Longrightarrow> t \<noteq> [] \<and> \<not> is_cont (hd t)"
  by (auto simp: is_wide_ws_def is_cont_def)

lemma ws_end_lead: "0 < ws_len_end s \<Longrightarrow> utf8 s \<Longrightarrow> utf8 (take (length s - ws_len_end s) s)"
proof -
  assume ws: "0 < ws_len_end s" and s: "utf8 s"
  let ?t = "drop (length s - ws_len_end s) s"
  have "?t \<noteq> [] \<and> \<not> is_cont (hd ?t)"
  proof (cases "is_ascii_ws (last s)")
    case True
    then have "ws_len_end s = 1" "s \<noteq> []" using ws by (auto simp: ws_len_end_def split: if_splits)
    then have "?t = [last s]" by (metis One_nat_def append_butlast_last_id append_eq_conv_conj length_butlast)
    with True show ?thesis by (auto simp: is_ascii_ws_def is_cont_def)
  next
    case False
    with ws have "is_wide_ws ?t" by (auto simp: ws_len_end_def split: if_splits)
    then show ?thesis by (rule is_wide_ws_lead)
  qed
  then obtain b ys where b: "?t = b # ys" "\<not> is_cont b" by (cases ?t) auto
  have "utf8 (take (length s - ws_len_end s) s @ b # ys)"
    using s b(1) by (metis append_take_drop_id)
  from utf8_split_lead [OF this b(2)] show ?thesis by simp
qed

lemma utf8_trim_start: "utf8 s \<Longrightarrow> utf8 (trim_start s)"
proof (induction s rule: trim_start.induct)
  case (1 s)
  then show ?case
    using ws_lead [of s] by (cases "ws_len s = 0") (simp_all add: trim_start.simps [of s])
qed

lemma utf8_trim_end: "utf8 s \<Longrightarrow> utf8 (trim_end s)"
proof (induction s rule: trim_end.induct)
  case (1 s)
  then show ?case
    using ws_end_lead [of s] by (cases "ws_len_end s = 0") (simp_all add: trim_end.simps [of s])
qed

lemma utf8_trim: "utf8 s \<Longrightarrow> utf8 (trim s)"
  by (simp add: trim_def utf8_trim_start utf8_trim_end)

lemma utf8_trim_end_matches:
  assumes "pat = [] \<or> \<not> is_cont (hd pat)" shows "utf8 s \<Longrightarrow> utf8 (trim_end_matches pat s)"
  using assms
proof (induction pat s rule: trim_end_matches.induct)
  case (1 pat s)
  show ?case
  proof (cases "pat \<noteq> [] \<and> suffix pat s")
    case False
    with "1.prems" show ?thesis by (auto simp: trim_end_matches.simps [of pat s])
  next
    case True
    then obtain r b ys where r: "s = r @ b # ys" "pat = b # ys" by (cases pat) (auto simp: suffix_def)
    with "1.prems" have "utf8 r" using utf8_split_lead [of r b ys] by simp
    moreover have "trim_end_matches pat s = trim_end_matches pat r"
      using True r by (subst trim_end_matches.simps) simp
    moreover have "take (length s - length pat) s = r" using r by simp
    ultimately show ?thesis using "1.IH" [OF True] "1.prems"(2) by simp
  qed
qed

lemma upper_ascii_ascii: "is_ascii c \<Longrightarrow> is_ascii (upper_ascii c)"
  by (auto simp: upper_ascii_def is_ascii_def Let_def)

lemma utf8_to_uppercase: "upper_ok U \<Longrightarrow> utf8 s \<Longrightarrow> utf8 (to_uppercase U s)"
proof (induction U s rule: to_uppercase.induct)
  case (2 U c cs)
  show ?case
  proof (cases "is_ascii c")
    case True
    with 2 upper_ascii_ascii [OF True] show ?thesis by (simp add: utf8_def)
  next
    case False
    with utf8_char [OF "2.prems"(2)] 2 show ?thesis
      by (simp add: upper_ok_def utf8_append max_def)
  qed
qed simp

lemma utf8_map_table: "\<forall>(k, v) \<in> set table. utf8 v \<Longrightarrow> utf8 key \<Longrightarrow> utf8 (unwrap_or key (map_of table key))"
  by (auto simp: unwrap_or_def split: option.splits dest!: map_of_SomeD)

lemma utf8_bare_key: "utf8 key \<Longrightarrow> utf8 (humanize_bare_key key)"
  unfolding humanize_bare_key_def
proof (rule utf8_map_table)
  have "list_all (\<lambda>(k, v). utf8 v) KEY_LABELS" by code_simp
  then show "\<forall>(k, v) \<in> set KEY_LABELS. utf8 v" by (simp add: list_all_iff)
qed

section \<open>No panic\<close>

text \<open>Slicing at both sides of an ASCII byte of a well-formed string succeeds.\<close>

lemma slice_at_ascii:
  assumes s: "utf8 s" and cut: "s = xs @ b # ys" and b: "is_ascii b"
  shows "str_slice 0 (length xs) s = Some xs" and "str_slice (length xs) (length s) s = Some (b # ys)"
    and "str_slice (length xs + 1) (length s) s = Some ys"
    and "utf8 xs" and "utf8 ys"
proof -
  show ok: "utf8 xs" "utf8 ys" using utf8_split_ascii [OF b, of xs ys] s cut by simp_all
  have lead: "char_boundary (length xs) s" using b by (simp add: char_boundary_def cut)
  have after: "char_boundary (length xs + 1) s"
    using ok(2) utf8_no_cont_head by (cases ys) (auto simp: char_boundary_def cut nth_append)
  have ends: "char_boundary 0 s" "char_boundary (length s) s" by (simp_all add: char_boundary_def)
  show "str_slice 0 (length xs) s = Some xs" using lead ends by (simp add: str_slice_def cut)
  show "str_slice (length xs) (length s) s = Some (b # ys)" using lead ends by (simp add: str_slice_def cut)
  show "str_slice (length xs + 1) (length s) s = Some ys" using after ends by (simp add: str_slice_def cut)
qed

lemma slice_inner:
  assumes s: "utf8 (xs @ b # ys @ c # zs)" and b: "is_ascii b" and c: "is_ascii c"
  shows "str_slice (length xs + 1) (length xs + 1 + length ys) (xs @ b # ys @ c # zs) = Some ys" and "utf8 ys"
proof -
  have t: "utf8 (ys @ c # zs)" using utf8_split_ascii [OF b s] by simp
  show "utf8 ys" using utf8_split_ascii [OF c t] by simp
  have "\<not> is_cont c" using c by simp
  moreover have "ys = [] \<or> \<not> is_cont (hd ys)" using t utf8_no_cont_head by (cases ys) auto
  ultimately show "str_slice (length xs + 1) (length xs + 1 + length ys) (xs @ b # ys @ c # zs) = Some ys"
    by (cases ys) (auto simp: str_slice_def char_boundary_def nth_append)
qed

lemma ascii_braces: "is_ascii (CHR ''{'')" "is_ascii (CHR ''}'')" "is_ascii (CHR ''+'')"
  by (simp_all add: is_ascii_def)

lemma expand_loop_no_panic:
  "utf8 remaining \<Longrightarrow> utf8 base \<Longrightarrow> \<forall>m \<in> set ms. utf8 m \<Longrightarrow>
     \<exists>ms' base'. expand_loop ms base remaining = Some (ms', base') \<and> utf8 base' \<and> (\<forall>m \<in> set ms'. utf8 m)"
proof (induction "length remaining" arbitrary: ms base remaining rule: less_induct)
  case less
  note unfold = expand_loop.simps [of ms base remaining]
  show ?case
  proof (cases "str_find ''{'' remaining")
    case None
    with less.prems show ?thesis by (simp add: unfold utf8_append)
  next
    case (Some start)
    obtain xs ys where cut: "remaining = xs @ CHR ''{'' # ys" "length xs = start"
      using str_find_char_Some [OF Some] str_find_Some [OF Some]
      by (metis One_nat_def add_leD1 length_take list.size(3) list.size(4) min.absorb2)
    note slice = slice_at_ascii [OF less.prems(1) cut(1) ascii_braces(1), unfolded cut(2)]
    let ?base = "if xs \<noteq> [] \<and> \<not> list_all (\<lambda>c. c = CHR '' '') xs then base @ xs else base"
    have base: "utf8 ?base" using less.prems(2) slice(4) by (simp add: utf8_append)
    show ?thesis
    proof (cases "str_find ''}'' (CHR ''{'' # ys)")
      case None
      with Some slice base less.prems(3) show ?thesis by (simp add: unfold Let_def)
    next
      case off: (Some offset)
      then obtain ts zs where tz: "ys = ts @ CHR ''}'' # zs" "offset = Suc (length ts)"
        using str_find_char_Some [of "CHR ''}''" ys] str_find_Some [of "''}''" ys]
        by (auto split: if_splits)
      have s: "utf8 (xs @ CHR ''{'' # ts @ CHR ''}'' # zs)" using less.prems(1) cut(1) tz(1) by simp
      note inner = slice_inner [OF s ascii_braces(1,2)]
      have cut': "remaining = (xs @ CHR ''{'' # ts) @ CHR ''}'' # zs" using cut(1) tz(1) by simp
      note after = slice_at_ascii [OF less.prems(1) cut' ascii_braces(2)]
      have token: "str_slice (start + 1) (start + offset) remaining = Some ts"
        using inner(1) cut tz by simp
      have rest: "str_slice (start + offset + 1) (length remaining) remaining = Some zs"
        using after(3) cut tz by simp
      let ?ms = "if suffix '' down'' ts then ms @ [canonical_modifier (trim_end_matches '' down'' ts)] else ms"
      have ms: "\<forall>m \<in> set ?ms. utf8 m"
        using less.prems(3) utf8_trim_end_matches [of "'' down''" ts] inner(2)
        by (auto simp: canonical_modifier_def utf8_ascii_list is_ascii_def is_cont_def)
      have "length zs < length remaining" using cut tz by simp
      note IH = less.hyps [OF this after(5) base ms]
      have "expand_loop ms base remaining = expand_loop ?ms ?base zs"
        by (subst expand_loop.simps) (simp only: Some slice(1,2) off token rest option.case prod.case Let_def)
      with IH show ?thesis by simp
    qed
  qed
qed


text \<open>A key token keeps its braces only as whole ASCII bytes, so stripping them cannot panic.\<close>

lemma humanize_key_token_no_panic:
  assumes s: "utf8 key"
  shows "\<exists>label. humanize_key_token key = Some label"
proof (cases "prefix ''{'' key \<and> suffix ''}'' key")
  case True
  then obtain r where r: "key = CHR ''{'' # r" by (auto simp: prefix_def)
  from True obtain q where q: "key = q @ ''}''" by (auto simp: suffix_def)
  with r obtain ts where ts: "r = ts @ [CHR ''}'']" by (cases q) auto
  have "utf8 ([] @ CHR ''{'' # ts @ CHR ''}'' # [])" using s r ts by simp
  from slice_inner(1) [OF this ascii_braces(1,2)]
  have "str_slice 1 (length key - 1) key = Some ts" using r ts by simp
  with True show ?thesis by (simp add: humanize_key_token_def)
qed (auto simp: humanize_key_token_def)

text \<open>The symbol loop strips whole ASCII characters and never empties its rest.\<close>

lemma symbol_loop_utf8: "utf8 rest \<Longrightarrow> utf8 (snd (symbol_loop os names rest))"
proof (induction os names rest rule: symbol_loop.induct)
  case (1 os names rest)
  show ?case
  proof (cases "2 \<le> length rest \<and> modifier_name (hd rest) os \<noteq> None")
    case True
    then obtain c cs name where c: "rest = c # cs" "modifier_name c os = Some name" by (cases rest) auto
    have "is_ascii c" using c(2) by (auto simp: modifier_name_def is_ascii_def split: if_splits)
    then have "utf8 cs" using "1.prems" c(1) utf8_split_ascii [of c "[]" cs] by simp
    with 1 True c show ?thesis by (simp add: symbol_loop.simps [of os names "c # cs"])
  next
    case False
    with "1.prems" show ?thesis by (auto simp: symbol_loop.simps [of os names rest] split: option.splits)
  qed
qed

lemma symbol_loop_keeps: "snd (symbol_loop os names rest) = [] \<longleftrightarrow> rest = []"
proof (induction os names rest rule: symbol_loop.induct)
  case (1 os names rest)
  show ?case
  proof (cases "2 \<le> length rest \<and> modifier_name (hd rest) os \<noteq> None")
    case True
    then obtain c d cs name where c: "rest = c # d # cs" "modifier_name c os = Some name"
      by (cases rest; cases "tl rest") auto
    with 1 True show ?thesis by (simp add: symbol_loop.simps [of os names "c # d # cs"])
  next
    case False
    then show ?thesis by (auto simp: symbol_loop.simps [of os names rest] split: option.splits)
  qed
qed

lemma expand_braces_no_panic:
  assumes "utf8 key" and "upper_ok U"
  shows "\<exists>expanded. expand_braces U key = Some expanded \<and> utf8 expanded"
proof (cases "str_contains '' down}'' key \<or> str_contains '' up}'' key")
  case True
  obtain ms base where e: "expand_loop [] [] key = Some (ms, base)" "utf8 base" "\<forall>m \<in> set ms. utf8 m"
    using expand_loop_no_panic [OF assms(1), of "[]" "[]"] by auto
  have "utf8 (join ''+'' ms)" using e(3) by (intro utf8_join) (simp_all add: utf8_ascii_list is_ascii_def)
  moreover have "utf8 (humanize_bare_key (trim base))" using e(2) by (intro utf8_bare_key utf8_trim)
  moreover have "utf8 (CHR ''+'' # s) = utf8 s" for s
    using utf8_append [of "''+''" s] by (simp add: utf8_ascii_list is_ascii_def)
  ultimately show ?thesis using True e(1) assms(2)
    by (simp add: expand_braces_def Let_def utf8_append utf8_to_uppercase)
next
  case False
  with assms(1) show ?thesis by (simp add: expand_braces_def)
qed

lemma humanize_key_no_panic:
  assumes "utf8 key" and "upper_ok U" shows "\<exists>label. humanize_key U key os = Some label"
proof -
  obtain expanded where e: "expand_braces U key = Some expanded" "utf8 expanded"
    using expand_braces_no_panic [OF assms] by blast
  obtain names rest where r: "symbol_loop os [] expanded = (names, rest)" by fastforce
  have "utf8 rest" using symbol_loop_utf8 [OF e(2), of os "[]"] r by simp
  then show ?thesis
    using humanize_key_token_no_panic [of rest] humanize_key_token_no_panic [OF e(2)] e(1) r
    by (auto simp: humanize_key_def)
qed

lemma utf8_strip_prefix:
  "utf8 s \<Longrightarrow> list_all is_ascii p \<Longrightarrow> utf8 (unwrap_or s (strip_prefix p s))"
  by (auto simp: unwrap_or_def strip_prefix_Some utf8_ascii_list utf8_append split: option.splits)

section \<open>Properties\<close>

lemma convert_never_panics_parts:
  assumes "upper_ok U"
  shows "utf8 key \<Longrightarrow> humanize_key U key os \<noteq> None"
    and "utf8 (raw_command event) \<Longrightarrow> to_human_readable U event \<noteq> None"
proof -
  show "utf8 key \<Longrightarrow> humanize_key U key os \<noteq> None"
    using humanize_key_no_panic [OF _ assms] by auto
  assume raw: "utf8 (raw_command event)"
  have "utf8 (unwrap_or (raw_command event) (strip_prefix ''Pressed: '' (raw_command event)))"
    using raw by (rule utf8_strip_prefix) code_simp
  from humanize_key_no_panic [OF this assms, of "os_type event"]
  have "convert_keyboard U event \<noteq> None" by (auto simp: convert_keyboard_def)
  then show "to_human_readable U event \<noteq> None" by (auto simp: to_human_readable_def)
qed

text \<open>
  No event panics the converter. For every well-formed key string, malformed or nested braces
  included (\<open>Ctrl down}a{Ctrl up\<close> once aborted a whole capture session), \<open>humanize_key\<close> returns a
  label on every platform, and \<open>to_human_readable\<close> returns a line for every event of any action
  type.
\<close>

lemma convert_never_panics:
  assumes "upper_ok U"
  shows "(utf8 key \<longrightarrow> humanize_key U key os \<noteq> None)
    \<and> (utf8 (raw_command event) \<longrightarrow> to_human_readable U event \<noteq> None)"
  using convert_never_panics_parts [OF assms] by blast

lemma convert_never_panics_witness: "humanize_key (\<lambda>s. s) ''Ctrl down}a{Ctrl up'' ''LINUX'' \<noteq> None"
proof (rule convert_never_panics [THEN conjunct1, rule_format])
  show "upper_ok (\<lambda>s. s)" by (simp add: upper_ok_def)
  show "utf8 ''Ctrl down}a{Ctrl up''" by code_simp
qed

lemma symbol_loop_names:
  "list_all (\<lambda>c. modifier_name c os \<noteq> None) syms \<Longrightarrow> rest \<noteq> [] \<Longrightarrow>
     symbol_loop os names (syms @ rest) = symbol_loop os (symbol_names os syms names) rest"
proof (induction syms arbitrary: names)
  case (Cons c syms)
  then obtain name where n: "modifier_name c os = Some name" by auto
  have "2 \<le> length (c # syms @ rest)" using Cons.prems(2) by (cases rest) auto
  with Cons n show ?case by (simp add: symbol_loop.simps [of os names "c # syms @ rest"])
qed simp

lemma symbol_loop_stop:
  "length rest = 1 \<or> rest \<noteq> [] \<and> modifier_name (hd rest) os = None \<Longrightarrow> symbol_loop os names rest = (names, rest)"
  by (auto simp: symbol_loop.simps [of os names rest])

lemma symbol_names_grow: "names \<noteq> [] \<Longrightarrow> symbol_names os syms names \<noteq> []"
  by (induction os syms names rule: symbol_names.induct) (auto split: option.splits)

text \<open>
  Every modifier of a chord is named, once each and in order. For symbols of the platform's
  alphabet in front of a key token of at least two bytes that starts with no symbol, the label is
  the distinct modifier names joined by \<open>+\<close> and followed by the token's own label
  (\<open>#+s\<close> once rendered as \<open>Super++s\<close>).
\<close>

lemma chord_modifiers_named:
  assumes syms: "syms \<noteq> []" "list_all (\<lambda>c. modifier_name c os \<noteq> None) syms"
    and tok: "length tok = 1 \<or> tok \<noteq> [] \<and> modifier_name (hd tok) os = None"
    and plain: "\<not> str_contains '' down}'' (syms @ tok)" "\<not> str_contains '' up}'' (syms @ tok)"
    and label: "humanize_key_token tok = Some label"
  shows "humanize_key U (syms @ tok) os = Some (join ''+'' (symbol_names os syms []) @ ''+'' @ label)"
proof -
  have nonempty: "tok \<noteq> []" using tok by (cases tok) simp_all
  have "symbol_loop os [] (syms @ tok) = (symbol_names os syms [], tok)"
    using symbol_loop_names [OF syms(2) nonempty, of "[]"] symbol_loop_stop [OF tok] by metis
  moreover have "symbol_names os syms [] \<noteq> []"
    using syms symbol_names_grow [of "[_]"] by (cases syms) (auto split: option.splits)
  ultimately show ?thesis using plain label by (simp add: humanize_key_def expand_braces_def)
qed

lemma chord_modifiers_named_witness:
  "humanize_key (\<lambda>s. s) (''#+'' @ ''s'') ''LINUX'' = Some (''Super+Shift'' @ ''+'' @ ''s'')"
proof -
  have "humanize_key (\<lambda>s. s) (''#+'' @ ''s'') ''LINUX''
      = Some (join ''+'' (symbol_names ''LINUX'' ''#+'' []) @ ''+'' @ ''s'')"
    by (rule chord_modifiers_named; code_simp)
  moreover have "join ''+'' (symbol_names ''LINUX'' ''#+'' []) = ''Super+Shift''" by code_simp
  ultimately show ?thesis by simp
qed

end
