(* ===== verification/MA_Stream.thy ===== *)
theory MA_Stream
  imports MA_Compat MA_Event
begin

text \<open>
  The Control-Center stream (\<open>capture/stream.rs\<close>): which transports are tried and in which order,
  what each attempt sends, the version gate before subscribing, the retry loop, and the delivery of
  events behind the agent gate.

  The gRPC stack, the file system and the clock are outside: \<open>net\<close> is the record of the calls the
  code makes to them, each returning an outcome and the next state of the world, and every request
  put on a wire is logged in \<open>sent\<close>, every back-off in \<open>slept\<close>. An \<open>anyhow::Error\<close> is its chain of
  messages, outermost first.
\<close>

section \<open>Data\<close>

datatype transport = Tls | Plaintext

datatype cc_security = Auto | Strict | Legacy

record cc_endpoint =
  addr :: string
  tls_ca :: string
  token :: string
  security :: cc_security
  max_version :: string
  allow_unsupported :: bool

datatype code = Unauthenticated | PermissionDenied | OtherCode nat

datatype status = Status (status_code: code) (status_message: string)

datatype connect_failure =
    TransportFailure "string list"
  | Auth status
  | Unsupported string

datatype disconnect_reason =
    AgentDisconnected
  | SilenceTimeout
  | TransportError string
  | AgentRecordsLossy string

text \<open>What a TLS channel trusts, and a channel: an address and, when it is encrypted, that trust.\<close>

datatype trust = PlatformRoots | Pinned string

datatype channel = Channel (channel_uri: string) (channel_trust: "trust option")

text \<open>A request on the wire: the channel and, for the calls, the \<open>authorization\<close> header.\<close>

datatype action =
    Dial channel
  | Identity channel "string option"
  | Watch channel "string option"

fun action_channel :: "action \<Rightarrow> channel" where
  "action_channel (Dial c) = c"
| "action_channel (Identity c h) = c"
| "action_channel (Watch c h) = c"

fun action_auth :: "action \<Rightarrow> string option" where
  "action_auth (Dial c) = None"
| "action_auth (Identity c h) = h"
| "action_auth (Watch c h) = h"

record ('w, 's) net =
  endpoint_error :: "string \<Rightarrow> string option"
  read_file :: "string \<Rightarrow> string result"
  tls_error :: "trust \<Rightarrow> string option"
  dial :: "channel \<Rightarrow> 'w \<Rightarrow> string option \<times> 'w"
  header_error :: "string \<Rightarrow> string option"
  get_server_identity :: "channel \<Rightarrow> string option \<Rightarrow> 'w \<Rightarrow> (status + string) \<times> 'w"
  watch_commands :: "channel \<Rightarrow> string option \<Rightarrow> 'w \<Rightarrow> (status + 's) \<times> 'w"
  show_status :: "status \<Rightarrow> string"
  show_code :: "code \<Rightarrow> string"

record 'w wire =
  world :: 'w
  sent :: "action list"
  slept :: "nat list"

section \<open>Policy\<close>

fun transport_plan :: "cc_security \<Rightarrow> transport list" where
  "transport_plan Auto = [Tls, Plaintext]"
| "transport_plan Strict = [Tls]"
| "transport_plan Legacy = [Plaintext]"

definition normalize_addr :: "string \<Rightarrow> transport \<Rightarrow> string" where
  "normalize_addr address transport =
     (let bare = unwrap_or address
        (case strip_prefix ''https://'' address of Some b \<Rightarrow> Some b | None \<Rightarrow> strip_prefix ''http://'' address)
      in case transport of Tls \<Rightarrow> ''https://'' @ bare | Plaintext \<Rightarrow> ''http://'' @ bare)"

fun transport_as_str :: "transport \<Rightarrow> string" where
  "transport_as_str Tls = ''tls''"
| "transport_as_str Plaintext = ''plaintext''"

definition first_transport :: "cc_security \<Rightarrow> transport" where
  "first_transport sec = (case sec of Legacy \<Rightarrow> Plaintext | _ \<Rightarrow> Tls)"

definition credentials_msg :: "string \<Rightarrow> string" where
  "credentials_msg shown =
     ''Control-Center rejected the credentials for WatchCommands ('' @ shown @ ''). ''
     @ ''Version 1.1.0 and later require a token with the `monitor` scope '' @ em_dash @ '' ''
     @ ''set `control_center_token` in the ma-core config. Mint one with: ''
     @ ''CC_JWT_SECRET=<cc jwt_secret> control-center token generate ''
     @ ''--user ma-core --scopes monitor''"

definition untrusted_hint :: string where
  "untrusted_hint =
     ''the server certificate was not trusted '' @ em_dash @ '' point `control_center_tls_ca` ''
     @ ''at the CA that signed it (`control-center gen-certs` writes ca.crt)''"

definition plaintext_hint :: string where
  "plaintext_hint =
     ''the server refused a plaintext connection '' @ em_dash @ '' Control-Center 1.1.0 and ''
     @ ''later require TLS unless started with CC_ALLOW_INSECURE=true''"

definition tls_hint :: string where
  "tls_hint =
     ''could not establish a TLS connection '' @ em_dash @ '' check that Control-Center is ''
     @ ''running and reachable at this address''"

fun into_report :: "('w, 's) net \<Rightarrow> connect_failure \<Rightarrow> string \<Rightarrow> transport \<Rightarrow> string" where
  "into_report n (Unsupported message) address attempted = message"
| "into_report n (Auth st) address attempted = credentials_msg (show_code n (status_code st))"
| "into_report n (TransportFailure e) address attempted =
     (let detail = join '': '' e;
          hint = (if str_contains ''UnknownIssuer'' detail
                     \<or> str_contains ''CERTIFICATE_VERIFY_FAILED'' detail
                     \<or> str_contains ''InvalidCertificate'' detail then untrusted_hint
                  else if attempted = Plaintext then plaintext_hint
                  else tls_hint)
      in ''Failed to reach Control-Center at '' @ address @ '': '' @ hint @ '' ('' @ detail @ '')'')"

section \<open>One attempt\<close>

definition bearer :: "cc_endpoint \<Rightarrow> string" where
  "bearer cc = ''Bearer '' @ token cc"

definition check_version ::
  "('w, 's) net \<Rightarrow> cc_endpoint \<Rightarrow> channel \<Rightarrow> bool \<Rightarrow> 'w wire \<Rightarrow> (connect_failure + string) \<times> 'w wire" where
  "check_version n cc c credentials_allowed w =
     (let auth = (if credentials_allowed \<and> token cc \<noteq> []
                  then (if header_error n (bearer cc) = None then Some (bearer cc) else None)
                  else None);
          (answer, v) = get_server_identity n c auth (world w);
          w = w\<lparr>world := v, sent := sent w @ [Identity c auth]\<rparr>;
          reported = (case answer of Inr version \<Rightarrow> version | Inl _ \<Rightarrow> []);
          verdict = evaluate reported (version_parse (max_version cc))
      in case compat_refusal verdict of
           Some refusal \<Rightarrow>
             if allow_unsupported cc then (Inr (compat_recorded verdict), w)
             else (Inl (Unsupported refusal), w)
         | None \<Rightarrow> (Inr (compat_recorded verdict), w))"

definition credentials_allowed :: "cc_endpoint \<Rightarrow> transport \<Rightarrow> bool" where
  "credentials_allowed cc transport \<longleftrightarrow> transport = Tls \<or> security cc = Legacy"

text \<open>The channel of an attempt, or why it could not be configured; nothing is sent yet.\<close>

definition configure :: "('w, 's) net \<Rightarrow> cc_endpoint \<Rightarrow> transport \<Rightarrow> connect_failure + channel" where
  "configure n cc transport =
     (let uri = normalize_addr (addr cc) transport in
      case endpoint_error n uri of
        Some e \<Rightarrow> Inl (TransportFailure [''Invalid Control-Center address: '' @ uri, e])
      | None \<Rightarrow>
          if transport = Tls then
            (case (if tls_ca cc = [] then Inr PlatformRoots
                   else case read_file n (tls_ca cc) of
                     Inl e \<Rightarrow> Inl (TransportFailure [''Cannot read control_center_tls_ca: '' @ tls_ca cc, e])
                   | Inr pem \<Rightarrow> Inr (Pinned pem)) of
               Inl f \<Rightarrow> Inl f
             | Inr trust \<Rightarrow>
                 (case tls_error n trust of
                    Some e \<Rightarrow> Inl (TransportFailure
                      [''Failed to configure TLS for the Control-Center connection'', e])
                  | None \<Rightarrow> Inr (Channel uri (Some trust))))
          else Inr (Channel uri None))"

text \<open>The subscription on a channel whose server passed the version gate.\<close>

definition subscribe ::
  "('w, 's) net \<Rightarrow> cc_endpoint \<Rightarrow> transport \<Rightarrow> channel \<Rightarrow> 'w wire \<Rightarrow> (connect_failure + 's) \<times> 'w wire" where
  "subscribe n cc transport c w =
     (let header = (if token cc \<noteq> [] \<and> credentials_allowed cc transport
                    then (case header_error n (bearer cc) of
                            Some e \<Rightarrow> Inl (TransportFailure
                              [''control_center_token is not a valid HTTP header value'', e])
                          | None \<Rightarrow> Inr (Some (bearer cc)))
                    else Inr None)
      in case header of
           Inl f \<Rightarrow> (Inl f, w)
         | Inr auth \<Rightarrow>
             (let (answer, v) = watch_commands n c auth (world w);
                  w = w\<lparr>world := v, sent := sent w @ [Watch c auth]\<rparr>
              in case answer of
                   Inr s \<Rightarrow> (Inr s, w)
                 | Inl st \<Rightarrow>
                     if status_code st = Unauthenticated \<or> status_code st = PermissionDenied
                     then (Inl (Auth st), w)
                     else (Inl (TransportFailure
                       [''WatchCommands stream refused: '' @ show_status n st]), w)))"

definition try_connect ::
  "('w, 's) net \<Rightarrow> cc_endpoint \<Rightarrow> transport \<Rightarrow> 'w wire \<Rightarrow> (connect_failure + 's \<times> string) \<times> 'w wire" where
  "try_connect n cc transport w =
     (case configure n cc transport of
        Inl f \<Rightarrow> (Inl f, w)
      | Inr c \<Rightarrow>
          (let (failed, v) = dial n c (world w);
               w = w\<lparr>world := v, sent := sent w @ [Dial c]\<rparr>
           in case failed of
                Some e \<Rightarrow> (Inl (TransportFailure
                  [''Failed to connect to Control-Center at '' @ channel_uri c, e]), w)
              | None \<Rightarrow>
                  (case check_version n cc c (credentials_allowed cc transport) w of
                     (Inl f, w) \<Rightarrow> (Inl f, w)
                   | (Inr server_version, w) \<Rightarrow>
                       (case subscribe n cc transport c w of
                          (Inl f, w) \<Rightarrow> (Inl f, w)
                        | (Inr s, w) \<Rightarrow> (Inr (s, server_version), w)))))"

section \<open>Negotiation and retries\<close>

fun negotiate_plan ::
  "('w, 's) net \<Rightarrow> cc_endpoint \<Rightarrow> transport list \<Rightarrow> connect_failure option \<Rightarrow> 'w wire
   \<Rightarrow> (connect_failure + 's \<times> transport \<times> string) \<times> 'w wire" where
  "negotiate_plan n cc [] latest w =
     (Inl (unwrap_or (TransportFailure [''no transport permitted by the security policy'']) latest), w)"
| "negotiate_plan n cc (transport # plan) latest w =
     (case try_connect n cc transport w of
        (Inr (s, server_version), w) \<Rightarrow> (Inr (s, transport, server_version), w)
      | (Inl (Auth st), w) \<Rightarrow> (Inl (Auth st), w)
      | (Inl (Unsupported message), w) \<Rightarrow> (Inl (Unsupported message), w)
      | (Inl (TransportFailure e), w) \<Rightarrow> negotiate_plan n cc plan (Some (TransportFailure e)) w)"

definition negotiate ::
  "('w, 's) net \<Rightarrow> cc_endpoint \<Rightarrow> 'w wire \<Rightarrow> (connect_failure + 's \<times> transport \<times> string) \<times> 'w wire" where
  "negotiate n cc w = negotiate_plan n cc (transport_plan (security cc)) None w"

definition MAX_ATTEMPTS :: nat where "MAX_ATTEMPTS = 10"
definition BASE_DELAY_MS :: nat where "BASE_DELAY_MS = 500"
definition MAX_DELAY_MS :: nat where "MAX_DELAY_MS = 30000"

definition delay_ms :: "nat \<Rightarrow> nat" where
  "delay_ms attempt = min (BASE_DELAY_MS * 2 ^ (attempt - 1)) MAX_DELAY_MS"

fun fatal :: "connect_failure \<Rightarrow> bool" where
  "fatal (TransportFailure e) = False"
| "fatal (Auth st) = True"
| "fatal (Unsupported m) = True"

record watch_stream =
  reason :: "disconnect_reason option"
  transport :: transport
  server_version :: string
  stream_allows :: bool
  checked_agent_version :: string

function connect_loop ::
  "('w, 's) net \<Rightarrow> cc_endpoint \<Rightarrow> nat \<Rightarrow> 'w wire \<Rightarrow> (string + 's \<times> watch_stream) \<times> 'w wire" where
  "connect_loop n cc attempts w =
     (let attempt = attempts + 1 in
      case negotiate n cc w of
        (Inr (s, t, v), w) \<Rightarrow>
          (Inr (s, \<lparr>reason = None, transport = t, server_version = v,
                    stream_allows = allow_unsupported cc, checked_agent_version = []\<rparr>), w)
      | (Inl e, w) \<Rightarrow>
          if fatal e \<or> MAX_ATTEMPTS \<le> attempt
          then (Inl (into_report n e (addr cc) (first_transport (security cc))), w)
          else connect_loop n cc attempt (w\<lparr>slept := slept w @ [delay_ms attempt]\<rparr>))"
  by pat_completeness auto
termination
  by (relation "measure (\<lambda>(n, cc, attempts, w). MAX_ATTEMPTS - attempts)") auto

declare connect_loop.simps [simp del]

definition connect ::
  "('w, 's) net \<Rightarrow> cc_endpoint \<Rightarrow> 'w wire \<Rightarrow> (string + 's \<times> watch_stream) \<times> 'w wire" where
  "connect n cc w = connect_loop n cc 0 w"

section \<open>Delivery\<close>

text \<open>
  The outcomes of \<open>timeout(\<dots>, stream.message())\<close>, in the order they happen. \<open>next_event\<close> consumes
  them; its result is \<^const>\<open>None\<close> when all the outcomes given so far were heartbeats and the call is
  still waiting.
\<close>

datatype recv = Elapsed | Failed string | Ended | Message command_event

definition agent_check :: "watch_stream \<Rightarrow> command_event \<Rightarrow> string option \<times> watch_stream" where
  "agent_check ws event =
     (if trim (agent_version event) \<noteq> [] \<and> agent_version event \<noteq> checked_agent_version ws then
        (let ws = ws\<lparr>checked_agent_version := agent_version event\<rparr> in
         case agent_refusal (evaluate_agent (agent_version event)) of
           Some refusal \<Rightarrow>
             if stream_allows ws then (None, ws)
             else (Some refusal, ws\<lparr>reason := Some (AgentRecordsLossy refusal)\<rparr>)
         | None \<Rightarrow> (None, ws))
      else (None, ws))"

fun next_event :: "watch_stream \<Rightarrow> recv list \<Rightarrow> (command_event option \<times> watch_stream \<times> recv list) option" where
  "next_event ws [] = None"
| "next_event ws (Elapsed # inbox) = Some (None, ws\<lparr>reason := Some SilenceTimeout\<rparr>, inbox)"
| "next_event ws (Failed st # inbox) = Some (None, ws\<lparr>reason := Some (TransportError st)\<rparr>, inbox)"
| "next_event ws (Ended # inbox) = Some (None, ws\<lparr>reason := Some AgentDisconnected\<rparr>, inbox)"
| "next_event ws (Message event # inbox) =
     (case agent_check ws event of
        (Some refusal, ws) \<Rightarrow> Some (None, ws, inbox)
      | (None, ws) \<Rightarrow>
          if is_heartbeat event then next_event ws inbox else Some (Some event, ws, inbox))"

end
