(* ===== verification/MA_Stream_Facts.thy ===== *)
theory MA_Stream_Facts
  imports MA_Stream
begin

text \<open>
  What the stream guarantees: where the credential may travel, when a downgrade may happen, how
  long the retries last, which versions a session opens on, and which events it delivers.
\<close>

section \<open>The trace grows by permitted actions\<close>

definition obeys :: "('w, 's) net \<Rightarrow> cc_endpoint \<Rightarrow> transport \<Rightarrow> action \<Rightarrow> bool" where
  "obeys n cc t a \<longleftrightarrow>
     (action_auth a = None \<or> action_auth a = Some (bearer cc))
     \<and> channel_uri (action_channel a) = normalize_addr (addr cc) t
     \<and> (case channel_trust (action_channel a) of
          None \<Rightarrow> t = Plaintext \<and> (action_auth a \<noteq> None \<longrightarrow> security cc = Legacy)
        | Some PlatformRoots \<Rightarrow> t = Tls \<and> tls_ca cc = []
        | Some (Pinned pem) \<Rightarrow> t = Tls \<and> tls_ca cc \<noteq> [] \<and> read_file n (tls_ca cc) = Inr pem)"

definition extends :: "(action \<Rightarrow> bool) \<Rightarrow> 'w wire \<Rightarrow> 'w wire \<Rightarrow> bool" where
  "extends P w w' \<longleftrightarrow> slept w' = slept w \<and> (\<exists>acts. sent w' = sent w @ acts \<and> list_all P acts)"

lemma extends_refl [simp, intro]: "extends P w w"
  by (simp add: extends_def)

lemma extends_trans [trans]: "extends P u v \<Longrightarrow> extends P v w \<Longrightarrow> extends P u w"
  by (fastforce simp: extends_def)

lemma extends_mono: "extends P w w' \<Longrightarrow> (\<And>a. P a \<Longrightarrow> Q a) \<Longrightarrow> extends Q w w'"
  unfolding extends_def by (metis list_all_iff)

lemma extends_act: "P a \<Longrightarrow> extends P w (w\<lparr>world := v, sent := sent w @ [a]\<rparr>)"
  by (simp add: extends_def)

lemma configure_obeys:
  "configure n cc t = Inr c \<Longrightarrow> obeys n cc t (Dial c)"
  by (cases t)
    (auto simp: configure_def obeys_def Let_def split: option.splits if_splits sum.splits)

lemma obeys_auth:
  "obeys n cc t (Dial c) \<Longrightarrow> auth = None \<or> auth = Some (bearer cc) \<and> credentials_allowed cc t \<Longrightarrow>
     obeys n cc t (Identity c auth) \<and> obeys n cc t (Watch c auth)"
  by (auto simp: obeys_def credentials_allowed_def split: option.splits trust.splits)

lemma check_version_extends:
  assumes "obeys n cc t (Dial c)" and "check_version n cc c (credentials_allowed cc t) w = (r, w')"
  shows "extends (obeys n cc t) w w'"
proof -
  let ?auth = "if credentials_allowed cc t \<and> token cc \<noteq> []
    then (if header_error n (bearer cc) = None then Some (bearer cc) else None) else None"
  have "obeys n cc t (Identity c ?auth)" using obeys_auth [OF assms(1), of ?auth] by simp
  from extends_act [of "obeys n cc t", OF this, of w "snd (get_server_identity n c ?auth (world w))"]
  show ?thesis using assms(2)
    by (auto simp: check_version_def Let_def split: prod.splits option.splits if_splits)
qed

lemma subscribe_extends:
  assumes "obeys n cc t (Dial c)" and "subscribe n cc t c w = (r, w')"
  shows "extends (obeys n cc t) w w'"
proof -
  have act: "extends (obeys n cc t) w (w\<lparr>world := v, sent := sent w @ [Watch c auth]\<rparr>)"
    if "auth = None \<or> auth = Some (bearer cc) \<and> credentials_allowed cc t" for auth v
    using obeys_auth [OF assms(1) that] by (intro extends_act) simp
  show ?thesis using assms(2) act [of None] act [of "Some (bearer cc)"]
    by (auto simp: subscribe_def Let_def split: prod.splits option.splits if_splits sum.splits)
qed

lemma try_connect_extends:
  assumes "try_connect n cc t w = (r, w')" shows "extends (obeys n cc t) w w'"
proof (cases "configure n cc t")
  case (Inl f)
  with assms show ?thesis by (simp add: try_connect_def)
next
  case (Inr c)
  note c = configure_obeys [OF Inr]
  obtain failed v where d: "dial n c (world w) = (failed, v)" by fastforce
  let ?w = "w\<lparr>world := v, sent := sent w @ [Dial c]\<rparr>"
  have dialled: "extends (obeys n cc t) w ?w" using c by (rule extends_act)
  obtain cv w1 where cv: "check_version n cc c (credentials_allowed cc t) ?w = (cv, w1)" by fastforce
  obtain sb w2 where sb: "subscribe n cc t c w1 = (sb, w2)" by fastforce
  have "extends (obeys n cc t) w w1"
    using dialled check_version_extends [OF c cv] by (rule extends_trans)
  moreover from this have "extends (obeys n cc t) w w2"
    using subscribe_extends [OF c sb] by (rule extends_trans)
  ultimately show ?thesis using assms dialled Inr d cv sb
    by (auto simp: try_connect_def Let_def split: option.splits sum.splits)
qed

definition permitted :: "('w, 's) net \<Rightarrow> cc_endpoint \<Rightarrow> action \<Rightarrow> bool" where
  "permitted n cc a \<longleftrightarrow> list_ex (\<lambda>t. obeys n cc t a) (transport_plan (security cc))"

lemma negotiate_plan_extends:
  "negotiate_plan n cc plan latest w = (r, w') \<Longrightarrow>
     set plan \<subseteq> set (transport_plan (security cc)) \<Longrightarrow> extends (permitted n cc) w w'"
proof (induction plan arbitrary: latest w)
  case (Cons t plan)
  obtain r1 w1 where r1: "try_connect n cc t w = (r1, w1)" by fastforce
  have "obeys n cc t a \<Longrightarrow> permitted n cc a" for a
    using Cons.prems(2) by (auto simp: permitted_def list_ex_iff)
  then have ex: "extends (permitted n cc) w w1"
    using try_connect_extends [OF r1] extends_mono by metis
  show ?case
  proof (cases "\<exists>e. r1 = Inl (TransportFailure e)")
    case True
    then obtain e where "negotiate_plan n cc plan (Some (TransportFailure e)) w1 = (r, w')"
      using Cons.prems(1) r1 by auto
    with Cons have "extends (permitted n cc) w1 w'" by auto
    with ex show ?thesis by (rule extends_trans)
  next
    case False
    with Cons.prems(1) r1 ex show ?thesis
      by (auto split: sum.splits connect_failure.splits prod.splits)
  qed
qed simp

lemma negotiate_extends: "negotiate n cc w = (r, w') \<Longrightarrow> extends (permitted n cc) w w'"
  unfolding negotiate_def by (rule negotiate_plan_extends) auto

lemma connect_loop_sent:
  "connect_loop n cc attempts w = (r, w') \<Longrightarrow>
     \<exists>acts. sent w' = sent w @ acts \<and> list_all (permitted n cc) acts"
proof (induction n cc attempts w arbitrary: r rule: connect_loop.induct)
  case (1 n cc attempts w)
  obtain r1 w1 where neg: "negotiate n cc w = (r1, w1)" by fastforce
  obtain acts where acts: "sent w1 = sent w @ acts" "list_all (permitted n cc) acts"
    using negotiate_extends [OF neg] by (auto simp: extends_def)
  show ?case
  proof (cases "\<exists>e. r1 = Inl e \<and> \<not> (fatal e \<or> MAX_ATTEMPTS \<le> attempts + 1)")
    case True
    then obtain e where e: "r1 = Inl e" "\<not> (fatal e \<or> MAX_ATTEMPTS \<le> attempts + 1)" by blast
    let ?w = "w1\<lparr>slept := slept w1 @ [delay_ms (attempts + 1)]\<rparr>"
    have "connect_loop n cc (attempts + 1) ?w = (r, w')"
      using "1.prems" neg e by (simp add: connect_loop.simps [of n cc attempts w])
    from "1.IH" [OF refl neg [symmetric] e this] acts show ?thesis by auto
  next
    case False
    with "1.prems" neg acts show ?thesis
      by (auto simp: connect_loop.simps [of n cc attempts w] split: sum.splits prod.splits if_splits)
  qed
qed

section \<open>The retry loop\<close>

lemma connect_loop_slept:
  "connect_loop n cc attempts w = (r, w') \<Longrightarrow> attempts < MAX_ATTEMPTS \<Longrightarrow>
     \<exists>k. attempts < k \<and> k \<le> MAX_ATTEMPTS
       \<and> slept w' = slept w @ map delay_ms [Suc attempts..<k]
       \<and> (\<forall>report. r = Inl report \<longrightarrow> k = MAX_ATTEMPTS
            \<or> (\<exists>f. fatal f \<and> report = into_report n f (addr cc) (first_transport (security cc))))"
proof (induction n cc attempts w arbitrary: r rule: connect_loop.induct)
  case (1 n cc attempts w)
  obtain r1 w1 where neg: "negotiate n cc w = (r1, w1)" by fastforce
  have same: "slept w1 = slept w" using negotiate_extends [OF neg] by (simp add: extends_def)
  show ?case
  proof (cases "\<exists>e. r1 = Inl e \<and> \<not> (fatal e \<or> MAX_ATTEMPTS \<le> attempts + 1)")
    case True
    then obtain e where e: "r1 = Inl e" "\<not> (fatal e \<or> MAX_ATTEMPTS \<le> attempts + 1)" by blast
    let ?w = "w1\<lparr>slept := slept w1 @ [delay_ms (attempts + 1)]\<rparr>"
    have next_try: "connect_loop n cc (attempts + 1) ?w = (r, w')"
      using "1.prems" neg e by (simp add: connect_loop.simps [of n cc attempts w])
    have "attempts + 1 < MAX_ATTEMPTS" using e(2) by simp
    from "1.IH" [OF refl neg [symmetric] e next_try this] obtain k where k:
      "attempts + 1 < k" "k \<le> MAX_ATTEMPTS"
      "slept w' = slept w @ [delay_ms (attempts + 1)] @ map delay_ms [Suc (attempts + 1)..<k]"
      "\<forall>report. r = Inl report \<longrightarrow> k = MAX_ATTEMPTS
        \<or> (\<exists>f. fatal f \<and> report = into_report n f (addr cc) (first_transport (security cc)))"
      using same by auto
    moreover have "[Suc attempts..<k] = Suc attempts # [Suc (attempts + 1)..<k]"
      using k(1) by (simp add: upt_conv_Cons)
    ultimately show ?thesis by (intro exI [of _ k]) auto
  next
    case False
    then have "slept w' = slept w" "\<forall>report. r = Inl report \<longrightarrow> Suc attempts = MAX_ATTEMPTS
        \<or> (\<exists>f. fatal f \<and> report = into_report n f (addr cc) (first_transport (security cc)))"
      using "1.prems" neg same
      by (auto simp: connect_loop.simps [of n cc attempts w] split: sum.splits prod.splits if_splits)
    then show ?thesis using "1.prems"(2) by (intro exI [of _ "Suc attempts"]) auto
  qed
qed

text \<open>How a loop that returns a stream ended: with a successful negotiation.\<close>

lemma connect_loop_Inr:
  "connect_loop n cc attempts w = (Inr (s, ws), w') \<Longrightarrow>
     \<exists>w1 t v w2. negotiate n cc w1 = (Inr (s, t, v), w2)
       \<and> ws = \<lparr>reason = None, transport = t, server_version = v,
               stream_allows = allow_unsupported cc, checked_agent_version = []\<rparr>"
proof (induction n cc attempts w rule: connect_loop.induct)
  case (1 n cc attempts w)
  obtain r1 w1 where neg: "negotiate n cc w = (r1, w1)" by fastforce
  show ?case
  proof (cases "\<exists>e. r1 = Inl e \<and> \<not> (fatal e \<or> MAX_ATTEMPTS \<le> attempts + 1)")
    case True
    then obtain e where e: "r1 = Inl e" "\<not> (fatal e \<or> MAX_ATTEMPTS \<le> attempts + 1)" by blast
    let ?w = "w1\<lparr>slept := slept w1 @ [delay_ms (attempts + 1)]\<rparr>"
    have "connect_loop n cc (attempts + 1) ?w = (Inr (s, ws), w')"
      using "1.prems" neg e by (simp add: connect_loop.simps [of n cc attempts w])
    from "1.IH" [OF refl neg [symmetric] e this] show ?thesis .
  next
    case False
    with "1.prems" neg show ?thesis
      by (fastforce simp: connect_loop.simps [of n cc attempts w] split: sum.splits prod.splits if_splits)
  qed
qed

lemma negotiate_plan_Inr:
  "negotiate_plan n cc plan latest w = (Inr (s, t, v), w') \<Longrightarrow> \<exists>w1. try_connect n cc t w1 = (Inr (s, v), w')"
proof (induction plan arbitrary: latest w)
  case (Cons u plan)
  obtain r1 w1 where r1: "try_connect n cc u w = (r1, w1)" by fastforce
  with Cons show ?case
    by (cases "\<exists>e. r1 = Inl (TransportFailure e)")
      (auto split: sum.splits connect_failure.splits prod.splits)
qed simp

lemma try_connect_Inr:
  "try_connect n cc t w = (Inr (s, v), w') \<Longrightarrow>
     \<exists>c b w1 w2. check_version n cc c b w1 = (Inr v, w2)"
  by (fastforce simp: try_connect_def Let_def split: sum.splits prod.splits option.splits)

lemma connect_checks_version:
  assumes "connect n cc w = (Inr (s, ws), w')"
  shows "\<exists>c b w1 w2. check_version n cc c b w1 = (Inr (server_version ws), w2)"
  using connect_loop_Inr [OF assms [unfolded connect_def]] negotiate_plan_Inr try_connect_Inr
  unfolding negotiate_def by (metis watch_stream.select_convs(3))

lemma compat_recorded_reads:
  "version_parse (compat_recorded (evaluate reported ov)) = Some v \<Longrightarrow> version_parse reported = Some v"
  by (auto simp: evaluate_def Let_def version_parse_show version_parse_def [of "trim reported"]
      version_parse_def [of reported] split: option.splits if_splits)

lemma check_version_Inr:
  assumes "check_version n cc c b w = (Inr recorded, w')" and "\<not> allow_unsupported cc"
    and "version_parse recorded = Some v"
  shows "\<not> outside_range (version_parse (max_version cc)) v"
proof -
  obtain reported where r: "recorded = compat_recorded (evaluate reported (version_parse (max_version cc)))"
    "compat_refusal (evaluate reported (version_parse (max_version cc))) = None"
    using assms(1,2) by (fastforce simp: check_version_def Let_def split: prod.splits option.splits if_splits)
  then show ?thesis
    using compat_recorded_reads assms(3) server_gate.refuses_bad by metis
qed

section \<open>The stateless gate\<close>

text \<open>What the agent gate should do, said without its cache: the outcomes that let the stream go on.\<close>

definition lossy :: "string \<Rightarrow> bool" where
  "lossy reported = (case version_parse reported of Some v \<Rightarrow> v < RECORD_FIDELITY_MIN | None \<Rightarrow> False)"

lemma lossy_refused: "agent_refusal (evaluate_agent s) \<noteq> None \<longleftrightarrow> lossy s"
  unfolding agent_gate.refusal_iff by (auto simp: lossy_def split: option.splits)

lemma lossy_not_blank: "lossy s \<Longrightarrow> trim s \<noteq> []"
  by (auto simp: lossy_def version_parse_def unwrap_or_def strip_prefix_def)

fun goes_on :: "bool \<Rightarrow> recv \<Rightarrow> bool" where
  "goes_on allow (Message event) = (allow \<or> \<not> lossy (agent_version event))"
| "goes_on allow _ = False"

fun recorded_events :: "recv list \<Rightarrow> command_event list" where
  "recorded_events [] = []"
| "recorded_events (Message event # inbox) =
     (if is_heartbeat event then recorded_events inbox else event # recorded_events inbox)"
| "recorded_events (_ # inbox) = recorded_events inbox"

fun stop_reason :: "recv \<Rightarrow> disconnect_reason" where
  "stop_reason Elapsed = SilenceTimeout"
| "stop_reason (Failed st) = TransportError st"
| "stop_reason Ended = AgentDisconnected"
| "stop_reason (Message event) =
     AgentRecordsLossy (unwrap_or [] (agent_refusal (evaluate_agent (agent_version event))))"

text \<open>A consumer that asks for events until there is none, as the capture loop does.\<close>

lemma next_event_shrinks: "next_event ws inbox = Some (e, ws', rest) \<Longrightarrow> length rest < length inbox"
  by (induction ws inbox rule: next_event.induct) (fastforce split: prod.splits option.splits if_splits)+

function deliver :: "watch_stream \<Rightarrow> recv list \<Rightarrow> command_event list \<times> disconnect_reason option" where
  "deliver ws inbox =
     (case next_event ws inbox of
        None \<Rightarrow> ([], None)
      | Some (None, ws', rest) \<Rightarrow> ([], reason ws')
      | Some (Some event, ws', rest) \<Rightarrow> (case deliver ws' rest of (events, r) \<Rightarrow> (event # events, r)))"
  by pat_completeness auto
termination
  by (relation "measure (length \<circ> snd)") (auto dest: next_event_shrinks)

declare deliver.simps [simp del]

text \<open>The cache is sound when the version it holds is one that may go on.\<close>

definition gate_clear :: "watch_stream \<Rightarrow> bool" where
  "gate_clear ws \<longleftrightarrow> stream_allows ws \<or> \<not> lossy (checked_agent_version ws)"

lemma agent_check_decides:
  assumes "gate_clear ws"
  obtains ws' where "goes_on (stream_allows ws) (Message event)" "agent_check ws event = (None, ws')"
      "gate_clear ws'" "stream_allows ws' = stream_allows ws"
    | refusal ws' where "\<not> goes_on (stream_allows ws) (Message event)" "agent_check ws event = (Some refusal, ws')"
      "reason ws' = Some (stop_reason (Message event))"
proof (cases "goes_on (stream_allows ws) (Message event)")
  case True
  then have "\<exists>ws'. agent_check ws event = (None, ws') \<and> gate_clear ws' \<and> stream_allows ws' = stream_allows ws"
    using assms lossy_refused [of "agent_version event"]
    by (auto simp: agent_check_def Let_def gate_clear_def split: option.splits)
  with True that(1) show thesis by blast
next
  case False
  then have no: "\<not> stream_allows ws" "lossy (agent_version event)" by simp_all
  then obtain refusal where "agent_refusal (evaluate_agent (agent_version event)) = Some refusal"
    using lossy_refused by blast
  moreover have "agent_version event \<noteq> checked_agent_version ws" using assms no by (auto simp: gate_clear_def)
  ultimately have "\<exists>ws'. agent_check ws event = (Some refusal, ws') \<and> reason ws' = Some (stop_reason (Message event))"
    using no lossy_not_blank by (simp add: agent_check_def Let_def unwrap_or_def)
  with False that(2) show thesis by blast
qed

lemma deliver_Message:
  "deliver ws (Message event # inbox) =
     (case agent_check ws event of
        (Some refusal, ws') \<Rightarrow> ([], reason ws')
      | (None, ws') \<Rightarrow>
          if is_heartbeat event then deliver ws' inbox
          else (case deliver ws' inbox of (events, r) \<Rightarrow> (event # events, r)))"
  by (subst deliver.simps) (auto simp: deliver.simps [of _ inbox] split: prod.splits option.splits)

lemma deliver_stateless:
  "gate_clear ws \<Longrightarrow>
     deliver ws inbox =
       (recorded_events (takeWhile (goes_on (stream_allows ws)) inbox),
        case dropWhile (goes_on (stream_allows ws)) inbox of [] \<Rightarrow> None | m # _ \<Rightarrow> Some (stop_reason m))"
proof (induction inbox arbitrary: ws)
  case Nil
  show ?case by (simp add: deliver.simps)
next
  case (Cons m inbox)
  show ?case
  proof (cases m)
    case (Message event)
    from Cons.prems show ?thesis
    proof (cases rule: agent_check_decides [of ws event])
      case (1 ws')
      with Cons.IH [of ws'] Message show ?thesis by (simp add: deliver_Message)
    next
      case (2 refusal ws')
      with Message show ?thesis by (simp add: deliver_Message)
    qed
  qed (simp_all add: deliver.simps)
qed

section \<open>Properties\<close>

text \<open>
  C1. The credential never travels in the clear unless the operator asked for it. Whatever the
  network answers, in a whole \<open>connect\<close> with all its retries: every header sent is
  \<open>Bearer <token>\<close>; a request on an unencrypted channel carries one only under \<open>Legacy\<close>; under
  \<open>Strict\<close> every channel is encrypted; and an encrypted channel trusts the platform roots exactly
  when no CA is configured, otherwise only the certificate read from that file.
\<close>

theorem credential_stays_encrypted:
  assumes "connect n cc w = (r, w')"
  shows "\<exists>acts. sent w' = sent w @ acts \<and> (\<forall>a \<in> set acts.
      (action_auth a = None \<or> action_auth a = Some (''Bearer '' @ token cc))
      \<and> (channel_trust (action_channel a) = None \<and> action_auth a \<noteq> None \<longrightarrow> security cc = Legacy)
      \<and> (security cc = Strict \<longrightarrow> channel_trust (action_channel a) \<noteq> None)
      \<and> (channel_trust (action_channel a) = Some PlatformRoots \<longrightarrow> tls_ca cc = [])
      \<and> (\<forall>pem. channel_trust (action_channel a) = Some (Pinned pem) \<longrightarrow> read_file n (tls_ca cc) = Inr pem))"
proof -
  obtain acts where acts: "sent w' = sent w @ acts" "list_all (permitted n cc) acts"
    using connect_loop_sent [OF assms [unfolded connect_def]] by blast
  have "permitted n cc a \<Longrightarrow>
      (action_auth a = None \<or> action_auth a = Some (''Bearer '' @ token cc))
      \<and> (channel_trust (action_channel a) = None \<and> action_auth a \<noteq> None \<longrightarrow> security cc = Legacy)
      \<and> (security cc = Strict \<longrightarrow> channel_trust (action_channel a) \<noteq> None)
      \<and> (channel_trust (action_channel a) = Some PlatformRoots \<longrightarrow> tls_ca cc = [])
      \<and> (\<forall>pem. channel_trust (action_channel a) = Some (Pinned pem) \<longrightarrow> read_file n (tls_ca cc) = Inr pem)" for a
    by (cases "security cc") (auto simp: permitted_def obeys_def bearer_def split: option.splits trust.splits)
  with acts show ?thesis by (auto simp: list_all_iff)
qed

text \<open>
  A network for the witnesses: an agent-less \<open>1.2.3\<close> server that speaks no TLS and, on plaintext,
  accepts everything. Its world counts the calls made to it.
\<close>

definition plain_server :: "(nat, string) net" where
  "plain_server =
     \<lparr>endpoint_error = \<lambda>_. None,
      read_file = \<lambda>_. Inl ''No such file or directory'',
      tls_error = \<lambda>_. None,
      dial = \<lambda>c w. (if channel_trust c = None then None else Some ''handshake failed'', Suc w),
      header_error = \<lambda>_. None,
      get_server_identity = \<lambda>_ _ w. (Inr ''1.2.3'', Suc w),
      watch_commands = \<lambda>_ _ w. (Inr ''stream'', Suc w),
      show_status = \<lambda>_. ''status'',
      show_code = \<lambda>_. ''code''\<rparr>"

definition sample_endpoint :: "cc_security \<Rightarrow> string \<Rightarrow> cc_endpoint" where
  "sample_endpoint sec ca =
     \<lparr>addr = ''http://cc:50051'', tls_ca = ca, token = ''jwt'', security = sec, max_version = [],
      allow_unsupported = False\<rparr>"

definition fresh_wire :: "nat wire" where
  "fresh_wire = \<lparr>world = 0, sent = [], slept = []\<rparr>"

theorem credential_stays_encrypted_witness:
  "\<exists>acts. sent (snd (connect plain_server (sample_endpoint Auto []) fresh_wire)) = [] @ acts
     \<and> (\<forall>a \<in> set acts. channel_trust (action_channel a) = None \<longrightarrow> action_auth a = None)"
proof -
  let ?c = "connect plain_server (sample_endpoint Auto []) fresh_wire"
  have "?c = (fst ?c, snd ?c)" by simp
  from credential_stays_encrypted [OF this] show ?thesis
    by (auto simp: fresh_wire_def sample_endpoint_def)
qed

lemma retries_bounded_parts:
  assumes "connect n cc w = (r, w')" and "slept w = []"
  shows "prefix (slept w') [500, 1000, 2000, 4000, 8000, 16000, 30000, 30000, 30000]"
    and "r = Inl report \<Longrightarrow> length (slept w') = 9
           \<or> (\<exists>f. fatal f \<and> report = into_report n f (addr cc) (first_transport (security cc)))"
proof -
  obtain k where k: "0 < k" "k \<le> MAX_ATTEMPTS" "slept w' = map delay_ms [Suc 0..<k]"
    "\<forall>report. r = Inl report \<longrightarrow> k = MAX_ATTEMPTS
        \<or> (\<exists>f. fatal f \<and> report = into_report n f (addr cc) (first_transport (security cc)))"
    using connect_loop_slept [OF assms(1) [unfolded connect_def]] assms(2) by (auto simp: MAX_ATTEMPTS_def)
  have "[500, 1000, 2000, 4000, 8000, 16000, 30000, 30000, 30000] = map delay_ms [Suc 0..<MAX_ATTEMPTS]"
    by code_simp
  moreover have "[Suc 0..<MAX_ATTEMPTS] = [Suc 0..<k] @ [k..<MAX_ATTEMPTS]"
    using k(1,2) upt_add_eq_append [of "Suc 0" k "MAX_ATTEMPTS - k"] by simp
  ultimately show "prefix (slept w') [500, 1000, 2000, 4000, 8000, 16000, 30000, 30000, 30000]"
    using k(3) by simp
  show "r = Inl report \<Longrightarrow> length (slept w') = 9
      \<or> (\<exists>f. fatal f \<and> report = into_report n f (addr cc) (first_transport (security cc)))"
    using k(3,4) by (auto simp: MAX_ATTEMPTS_def)
qed

text \<open>
  The retries end. A \<open>connect\<close> that starts with an empty log of pauses has made at most ten
  negotiations: between them it slept a prefix of 0.5, 1, 2, 4, 8, 16, 30, 30, 30 seconds. It fails
  only after all ten, or at once with the report of a fatal failure (refused credentials or an
  unsupported version), which is never retried.
\<close>

lemma retries_bounded:
  assumes "connect n cc w = (r, w')" and "slept w = []"
  shows "prefix (slept w') [500, 1000, 2000, 4000, 8000, 16000, 30000, 30000, 30000]
    \<and> (\<forall>report. r = Inl report \<longrightarrow> length (slept w') = 9
         \<or> (\<exists>f. fatal f \<and> report = into_report n f (addr cc) (first_transport (security cc))))"
  using retries_bounded_parts [OF assms] by blast

lemma retries_bounded_witness:
  "prefix (slept (snd (connect plain_server (sample_endpoint Strict []) fresh_wire)))
     [500, 1000, 2000, 4000, 8000, 16000, 30000, 30000, 30000]"
  by (rule retries_bounded [THEN conjunct1, OF surjective_pairing]) (simp add: fresh_wire_def)

lemma downgrade_only_after_tls_failed_parts:
  "negotiate n cc w = (Inr (s, Plaintext, v), w') \<Longrightarrow> security cc \<noteq> Legacy \<Longrightarrow>
     security cc = Auto \<and> (\<exists>e w1. try_connect n cc Tls w = (Inl (TransportFailure e), w1)
       \<and> try_connect n cc Plaintext w1 = (Inr (s, v), w'))"
  "try_connect n cc Tls w = (Inl f, w1) \<Longrightarrow> fatal f \<Longrightarrow> security cc \<noteq> Legacy \<Longrightarrow>
     negotiate n cc w = (Inl f, w1)"
proof -
  assume neg: "negotiate n cc w = (Inr (s, Plaintext, v), w')" and sec: "security cc \<noteq> Legacy"
  obtain r1 w1 where r1: "try_connect n cc Tls w = (r1, w1)" by fastforce
  obtain r2 w2 where r2: "try_connect n cc Plaintext w1 = (r2, w2)" by fastforce
  show "security cc = Auto \<and> (\<exists>e w1. try_connect n cc Tls w = (Inl (TransportFailure e), w1)
       \<and> try_connect n cc Plaintext w1 = (Inr (s, v), w'))"
    using neg sec r1 r2 by (cases "security cc")
      (auto simp: negotiate_def split: sum.splits connect_failure.splits prod.splits)
next
  assume f: "try_connect n cc Tls w = (Inl f, w1)" "fatal f" "security cc \<noteq> Legacy"
  then show "negotiate n cc w = (Inl f, w1)"
    by (cases "security cc"; cases f) (simp_all add: negotiate_def)
qed


lemma plain_server_negotiates:
  "negotiate plain_server (sample_endpoint Auto []) fresh_wire
     = (Inr (''stream'', Plaintext, ''1.2.3''),
        snd (negotiate plain_server (sample_endpoint Auto []) fresh_wire))"
  by (rule prod_eqI) (code_simp, simp)


lemma unreadable_ca_downgrades_parts:
  assumes "security cc = Auto" and "tls_ca cc \<noteq> []" and "read_file n (tls_ca cc) = Inl e"
    and "negotiate n cc w = (r, w')"
  shows "\<exists>acts. sent w' = sent w @ acts \<and> (\<forall>a \<in> set acts. channel_trust (action_channel a) = None)"
    and "\<exists>f. try_connect n cc Tls w = (Inl (TransportFailure f), w)"
proof -
  show tls: "\<exists>f. try_connect n cc Tls w = (Inl (TransportFailure f), w)"
    using assms(2,3) by (auto simp: try_connect_def configure_def Let_def split: option.splits)
  obtain r2 w2 where r2: "try_connect n cc Plaintext w = (r2, w2)" by fastforce
  from tls have "w' = w2" using assms(1,4) r2
    by (auto simp: negotiate_def split: sum.splits connect_failure.splits prod.splits)
  then obtain acts where acts: "sent w' = sent w @ acts" "list_all (obeys n cc Plaintext) acts"
    using try_connect_extends [OF r2] by (auto simp: extends_def)
  have "obeys n cc Plaintext a \<Longrightarrow> channel_trust (action_channel a) = None" for a
    by (auto simp: obeys_def split: option.splits trust.splits)
  with acts show "\<exists>acts. sent w' = sent w @ acts \<and> (\<forall>a \<in> set acts. channel_trust (action_channel a) = None)"
    by (auto simp: list_all_iff)
qed

text \<open>
  C39. Under \<open>Auto\<close> a pinned CA that cannot be read does not stop the session: it counts as a
  transport failure of the TLS attempt, so the negotiation goes on in plaintext without any TLS
  handshake having been tried. Every action it sends is on an unencrypted channel.
\<close>

theorem unreadable_ca_downgrades:
  assumes "security cc = Auto" and "tls_ca cc \<noteq> []" and "read_file n (tls_ca cc) = Inl e"
    and "negotiate n cc w = (r, w')"
  shows "(\<exists>acts. sent w' = sent w @ acts \<and> (\<forall>a \<in> set acts. channel_trust (action_channel a) = None))
    \<and> (\<exists>f. try_connect n cc Tls w = (Inl (TransportFailure f), w))"
  using unreadable_ca_downgrades_parts [OF assms] by (rule conjI)

theorem unreadable_ca_downgrades_witness:
  "\<exists>acts. sent (snd (negotiate plain_server (sample_endpoint Auto ''/etc/ca.crt'') fresh_wire)) = sent fresh_wire @ acts
     \<and> (\<forall>a \<in> set acts. channel_trust (action_channel a) = None)"
  by (rule unreadable_ca_downgrades [where e = "''No such file or directory''", THEN conjunct1, OF _ _ _ surjective_pairing])
    (simp_all add: sample_endpoint_def plain_server_def)

text \<open>
  C9. No session opens outside the supported range. Unless the operator set \<open>allow_unsupported\<close>, a
  connection is returned only with a server version that is unreadable or lies between
  \<open>SUPPORTED_MIN\<close> and the ceiling, and the stream starts with no verdict cached and no reason to stop.
\<close>

theorem session_version_in_range:
  assumes "connect n cc w = (Inr (s, ws), w')" and "\<not> allow_unsupported cc"
    and "version_parse (server_version ws) = Some v"
  shows "SUPPORTED_MIN \<le> v \<and> v \<le> gate_max (version_parse (max_version cc))"
proof -
  obtain c b w1 w2 where "check_version n cc c b w1 = (Inr (server_version ws), w2)"
    using connect_checks_version [OF assms(1)] by blast
  from check_version_Inr [OF this assms(2,3)] show ?thesis by (simp add: outside_range_def not_less)
qed

lemma plain_server_connects:
  "connect plain_server (sample_endpoint Auto []) fresh_wire =
     (Inr (''stream'', \<lparr>reason = None, transport = Plaintext, server_version = ''1.2.3'',
            stream_allows = False, checked_agent_version = []\<rparr>),
      snd (connect plain_server (sample_endpoint Auto []) fresh_wire))"
  by (rule prod_eqI) (code_simp, simp)

theorem session_version_in_range_witness:
  "SUPPORTED_MIN \<le> Version 1 2 3 \<and> Version 1 2 3 \<le> gate_max (version_parse [])"
  using session_version_in_range [OF plain_server_connects, of "Version 1 2 3"]
    version_parse_show [of "Version 1 2 3"]
  by (simp add: sample_endpoint_def show_version_def show_nat.simps digit_def)

text \<open>
  C8. The agent gate is exact. For every sequence of outcomes, the events a fresh stream delivers
  until it stops are the non-heartbeat messages before the first outcome that must stop it (a
  silence, an error, the end, or, unless overridden, a message of an agent below the fidelity
  floor), and the recorded reason is that outcome's: remembering the last version checked changes
  nothing, even when agents are swapped mid-stream.
\<close>

theorem delivery_exact:
  "deliver \<lparr>reason = None, transport = t, server_version = v, stream_allows = allow,
            checked_agent_version = []\<rparr> inbox =
     (recorded_events (takeWhile (goes_on allow) inbox),
      case dropWhile (goes_on allow) inbox of [] \<Rightarrow> None | m # _ \<Rightarrow> Some (stop_reason m))"
proof -
  have "\<not> lossy []" using lossy_not_blank [of "[]"] by (auto simp: trim_none ws_len_def ws_len_end_def)
  then show ?thesis by (subst deliver_stateless) (simp_all add: gate_clear_def)
qed

end
