(* ===== verification/MA_Fs.thy ===== *)
theory MA_Fs
  imports MA_Prelude
begin

text \<open>
  Fallible computations and the parts of \<open>std::path\<close> and \<open>std::fs\<close> the program uses.

  A path is the string a \<open>PathBuf\<close> holds; the file system looks at its components only. The file
  system is an association list from component lists to nodes, in which every operation first
  consults a schedule of faults: \<open>Some (e, k)\<close> makes it fail with \<open>e\<close>, and a failing write leaves the
  first \<open>k\<close> bytes behind, so that what is proved holds whatever the disk does. Symbolic links,
  permissions and the resolution of \<open>..\<close> by the operating system are not modelled.
\<close>

section \<open>Fallible state transformers\<close>

type_synonym ('s, 'a) io = "'s \<Rightarrow> 'a result \<times> 's"

definition ok :: "'a \<Rightarrow> ('s, 'a) io" where
  "ok a = (\<lambda>s. (Inr a, s))"

definition fail :: "string \<Rightarrow> ('s, 'a) io" where
  "fail e = (\<lambda>s. (Inl e, s))"

text \<open>The \<open>?\<close> operator: the rest runs on the value, an error returns at once.\<close>

definition bind_io :: "('s, 'a) io \<Rightarrow> ('a \<Rightarrow> ('s, 'b) io) \<Rightarrow> ('s, 'b) io" where
  "bind_io m f = (\<lambda>s. case m s of (Inl e, s) \<Rightarrow> (Inl e, s) | (Inr a, s) \<Rightarrow> f a s)"

text \<open>\<open>with_context\<close>: an error is modelled by its alternate rendering, the contexts outermost first.\<close>

definition context_io :: "string \<Rightarrow> ('s, 'a) io \<Rightarrow> ('s, 'a) io" where
  "context_io c m = (\<lambda>s. case m s of (Inl e, s) \<Rightarrow> (Inl (c @ '': '' @ e), s) | (Inr a, s) \<Rightarrow> (Inr a, s))"

text \<open>A \<open>for\<close> loop that carries a value.\<close>

fun fold_io :: "('x \<Rightarrow> 'a \<Rightarrow> ('s, 'a) io) \<Rightarrow> 'x list \<Rightarrow> 'a \<Rightarrow> ('s, 'a) io" where
  "fold_io f [] a = ok a"
| "fold_io f (x # xs) a = bind_io (f x a) (fold_io f xs)"

text \<open>The pure forms.\<close>

definition and_then :: "'a result \<Rightarrow> ('a \<Rightarrow> 'b result) \<Rightarrow> 'b result" where
  "and_then r f = (case r of Inl e \<Rightarrow> Inl e | Inr a \<Rightarrow> f a)"

definition lift_result :: "'a result \<Rightarrow> ('s, 'a) io" where
  "lift_result r = (\<lambda>s. (r, s))"

lemma bind_io_ok [simp]: "bind_io (ok a) f = f a"
  by (simp add: bind_io_def ok_def)

lemma bind_io_fail [simp]: "bind_io (fail e) f = fail e"
  by (simp add: bind_io_def fail_def)

lemma context_lift [simp]:
  "context_io c (lift_result (Inr a)) = ok a" "context_io c (lift_result (Inl e)) = fail (c @ '': '' @ e)"
  by (simp_all add: context_io_def lift_result_def ok_def fail_def)

lemma ok_apply [simp]: "ok a s = (Inr a, s)"
  by (simp add: ok_def)

lemma fail_apply [simp]: "fail e s = (Inl e, s)"
  by (simp add: fail_def)

lemma bind_io_apply_Inl: "m s = (Inl e, s') \<Longrightarrow> bind_io m f s = (Inl e, s')"
  by (simp add: bind_io_def)

lemma bind_io_apply_Inr: "m s = (Inr a, s') \<Longrightarrow> bind_io m f s = f a s'"
  by (simp add: bind_io_def)

lemma context_io_Inl: "m s = (Inl e, s') \<Longrightarrow> context_io c m s = (Inl (c @ '': '' @ e), s')"
  by (simp add: context_io_def)

lemma context_io_Inr: "m s = (Inr a, s') \<Longrightarrow> context_io c m s = (Inr a, s')"
  by (simp add: context_io_def)

text \<open>Running a fallible step in front of the rest.\<close>

lemma bind_context_Inl: "m s = (Inl e, s') \<Longrightarrow> bind_io (context_io c m) f s = (Inl (c @ '': '' @ e), s')"
  by (simp add: bind_io_apply_Inl context_io_Inl)

lemma bind_context_Inr: "m s = (Inr a, s') \<Longrightarrow> bind_io (context_io c m) f s = f a s'"
  by (simp add: bind_io_apply_Inr context_io_Inr)

lemma bind_io_Inr_iff:
  "bind_io m f s = (Inr b, s') \<longleftrightarrow> (\<exists>a s1. m s = (Inr a, s1) \<and> f a s1 = (Inr b, s'))"
  by (auto simp: bind_io_def split: prod.splits sum.splits)

lemma bind_io_Inl_iff:
  "bind_io m f s = (Inl e, s') \<longleftrightarrow>
     m s = (Inl e, s') \<or> (\<exists>a s1. m s = (Inr a, s1) \<and> f a s1 = (Inl e, s'))"
  by (auto simp: bind_io_def split: prod.splits sum.splits)

lemma context_io_Inr_iff [simp]: "context_io c m s = (Inr a, s') \<longleftrightarrow> m s = (Inr a, s')"
  by (auto simp: context_io_def split: prod.splits sum.splits)

lemma context_io_state [simp]: "snd (context_io c m s) = snd (m s)"
  by (auto simp: context_io_def split: prod.splits sum.splits)

lemma and_then_Inr_iff: "and_then r f = Inr b \<longleftrightarrow> (\<exists>a. r = Inr a \<and> f a = Inr b)"
  by (auto simp: and_then_def split: sum.splits)

lemma and_then_Inr [simp]: "and_then (Inr a) f = f a"
  by (simp add: and_then_def)

section \<open>Paths\<close>

definition comps :: "string \<Rightarrow> string list" where
  "comps p = (if prefix ''/'' p then [''/''] else [])
     @ filter (\<lambda>c. c \<noteq> [] \<and> c \<noteq> ''.'') (split_at (\<lambda>c. c = CHR ''/'') p)"

definition path_join :: "string \<Rightarrow> string \<Rightarrow> string" where
  "path_join p s =
     (if prefix ''/'' s then s
      else if p = [] then s
      else if suffix ''/'' p then p @ s
      else p @ ''/'' @ s)"

definition path_of :: "string list \<Rightarrow> string" where
  "path_of cs = (case cs of c # r \<Rightarrow> if c = ''/'' then ''/'' @ join ''/'' r else join ''/'' cs | [] \<Rightarrow> [])"

definition file_name :: "string \<Rightarrow> string option" where
  "file_name p =
     (let cs = comps p in
      if cs = [] \<or> last cs = ''..'' \<or> last cs = ''/'' then None else Some (last cs))"

text \<open>\<open>Path::parent\<close>: none of the root and of the empty path.\<close>

definition parent :: "string \<Rightarrow> string option" where
  "parent p =
     (let cs = comps p in
      if cs = [] \<or> last cs = ''/'' then None else Some (path_of (butlast cs)))"

text \<open>\<open>Path::with_extension\<close>: what follows the last dot of the file name goes, unless it starts the name.\<close>

definition file_stem :: "string \<Rightarrow> string" where
  "file_stem name =
     (case str_rfind ''.'' name of
        Some i \<Rightarrow> if i = 0 then name else take i name
      | None \<Rightarrow> name)"

definition with_extension :: "string \<Rightarrow> string \<Rightarrow> string" where
  "with_extension p ext =
     (case file_name p of
        None \<Rightarrow> p
      | Some name \<Rightarrow> path_of (butlast (comps p) @ [file_stem name @ ''.'' @ ext]))"

section \<open>The file system\<close>

datatype node = File string | Dir

type_synonym tree = "(string list \<times> node) list"

record disk =
  tree :: tree
  faults :: "(string \<times> nat) option list"

definition node_at :: "disk \<Rightarrow> string \<Rightarrow> node option" where
  "node_at d p = (if comps p = [] \<or> comps p = [''/''] then Some Dir else map_of (tree d) (comps p))"

definition tree_put :: "string list \<Rightarrow> node \<Rightarrow> tree \<Rightarrow> tree" where
  "tree_put k n t = (k, n) # filter (\<lambda>(k', _). k' \<noteq> k) t"

definition tree_drop :: "string list \<Rightarrow> tree \<Rightarrow> tree" where
  "tree_drop k t = filter (\<lambda>(k', _). \<not> prefix k k') t"

definition fs_exists :: "disk \<Rightarrow> string \<Rightarrow> bool" where
  "fs_exists d p \<longleftrightarrow> node_at d p \<noteq> None"

text \<open>One operation takes one entry of the schedule; when it is used up nothing fails any more.\<close>

definition next_fault :: "disk \<Rightarrow> (string \<times> nat) option \<times> disk" where
  "next_fault d = (case faults d of [] \<Rightarrow> (None, d) | f # fs \<Rightarrow> (f, d\<lparr>faults := fs\<rparr>))"

definition guarded :: "(nat \<Rightarrow> disk \<Rightarrow> disk) \<Rightarrow> (disk, 'a) io \<Rightarrow> (disk, 'a) io" where
  "guarded broken m d =
     (case next_fault d of (None, d) \<Rightarrow> m d | (Some (e, k), d) \<Rightarrow> (Inl e, broken k d))"

definition not_found :: string where "not_found = ''No such file or directory (os error 2)''"
definition is_a_directory :: string where "is_a_directory = ''Is a directory (os error 21)''"
definition not_a_directory :: string where "not_a_directory = ''Not a directory (os error 20)''"
definition not_empty :: string where "not_empty = ''Directory not empty (os error 39)''"
definition not_utf8 :: string where "not_utf8 = ''stream did not contain valid UTF-8''"

definition parent_ok :: "disk \<Rightarrow> string list \<Rightarrow> bool" where
  "parent_ok d cs \<longleftrightarrow> length cs \<le> 1 \<or> butlast cs = [''/''] \<or> map_of (tree d) (butlast cs) = Some Dir"

text \<open>\<open>std::fs::write\<close>: create or truncate, then write; the parent must be a directory.\<close>

definition put_file :: "string \<Rightarrow> string \<Rightarrow> (disk, unit) io" where
  "put_file p bytes d =
     (if node_at d p = Some Dir then (Inl is_a_directory, d)
      else if \<not> parent_ok d (comps p) then (Inl not_found, d)
      else (Inr (), d\<lparr>tree := tree_put (comps p) (File bytes) (tree d)\<rparr>))"

definition fs_write :: "string \<Rightarrow> string \<Rightarrow> (disk, unit) io" where
  "fs_write p bytes = guarded (\<lambda>k d. snd (put_file p (take k bytes) d)) (put_file p bytes)"

text \<open>\<open>std::fs::read\<close> and \<open>read_to_string\<close>.\<close>

definition fs_read :: "string \<Rightarrow> (disk, string) io" where
  "fs_read p = guarded (\<lambda>k d. d)
     (\<lambda>d. case node_at d p of
            None \<Rightarrow> (Inl not_found, d)
          | Some Dir \<Rightarrow> (Inl is_a_directory, d)
          | Some (File bytes) \<Rightarrow> (Inr bytes, d))"

definition fs_read_to_string :: "string \<Rightarrow> (disk, string) io" where
  "fs_read_to_string p = bind_io (fs_read p) (\<lambda>bytes. if utf8 bytes then ok bytes else fail not_utf8)"

text \<open>
  \<open>std::fs::rename\<close>: a file replaces a file; a directory moves with all it holds, and only onto
  nothing or an empty directory.
\<close>

definition move_tree :: "string list \<Rightarrow> string list \<Rightarrow> tree \<Rightarrow> tree" where
  "move_tree src dst t =
     map (\<lambda>(k, n). if prefix src k then (dst @ drop (length src) k, n) else (k, n))
       (if src = dst then t else tree_drop dst t)"

definition do_rename :: "string \<Rightarrow> string \<Rightarrow> (disk, unit) io" where
  "do_rename src dst d =
     (case node_at d src of
        None \<Rightarrow> (Inl not_found, d)
      | Some (File bytes) \<Rightarrow>
          if node_at d dst = Some Dir then (Inl is_a_directory, d)
          else if \<not> parent_ok d (comps dst) then (Inl not_found, d)
          else (Inr (), d\<lparr>tree := tree_put (comps dst) (File bytes)
                 (filter (\<lambda>(k, _). k \<noteq> comps src) (tree d))\<rparr>)
      | Some Dir \<Rightarrow>
          if comps dst = comps src then (Inr (), d)
          else if prefix (comps src) (comps dst) then (Inl ''Invalid argument (os error 22)'', d)
          else if \<not> parent_ok d (comps dst) then (Inl not_found, d)
          else if node_at d dst \<noteq> None \<and> node_at d dst \<noteq> Some Dir then (Inl not_a_directory, d)
          else if list_ex (\<lambda>(k, _). strict_prefix (comps dst) k) (tree d) then (Inl not_empty, d)
          else (Inr (), d\<lparr>tree := move_tree (comps src) (comps dst) (tree d)\<rparr>))"

definition fs_rename :: "string \<Rightarrow> string \<Rightarrow> (disk, unit) io" where
  "fs_rename src dst = guarded (\<lambda>k d. d) (do_rename src dst)"

text \<open>\<open>create_dir_all\<close>: every missing ancestor; it fails on the first that is a file.\<close>

fun make_dirs :: "string list list \<Rightarrow> (disk, unit) io" where
  "make_dirs [] d = (Inr (), d)"
| "make_dirs (cs # rest) d =
     (case map_of (tree d) cs of
        Some (File _) \<Rightarrow> (Inl not_a_directory, d)
      | Some Dir \<Rightarrow> make_dirs rest d
      | None \<Rightarrow> if cs = [''/''] then make_dirs rest d
               else make_dirs rest (d\<lparr>tree := tree_put cs Dir (tree d)\<rparr>))"

definition fs_create_dir_all :: "string \<Rightarrow> (disk, unit) io" where
  "fs_create_dir_all p = guarded (\<lambda>k d. d) (make_dirs (tl (prefixes (comps p))))"

text \<open>\<open>remove_dir_all\<close> removes what is below and the directory; a failing one has removed some of it.\<close>

definition drop_some :: "nat \<Rightarrow> string list \<Rightarrow> tree \<Rightarrow> tree" where
  "drop_some n p t =
     (let gone = take n (filter (prefix p) (map fst t)) in filter (\<lambda>(k, _). k \<notin> set gone) t)"

definition fs_remove_dir_all :: "string \<Rightarrow> (disk, unit) io" where
  "fs_remove_dir_all p = guarded (\<lambda>n d. d\<lparr>tree := drop_some n (comps p) (tree d)\<rparr>)
     (\<lambda>d. case node_at d p of
            None \<Rightarrow> (Inl not_found, d)
          | Some (File _) \<Rightarrow> (Inl not_a_directory, d)
          | Some Dir \<Rightarrow> (Inr (), d\<lparr>tree := tree_drop (comps p) (tree d)\<rparr>))"

definition fs_remove_file :: "string \<Rightarrow> (disk, unit) io" where
  "fs_remove_file p = guarded (\<lambda>k d. d)
     (\<lambda>d. case node_at d p of
            None \<Rightarrow> (Inl not_found, d)
          | Some Dir \<Rightarrow> (Inl is_a_directory, d)
          | Some (File _) \<Rightarrow> (Inr (), d\<lparr>tree := filter (\<lambda>(k, _). k \<noteq> comps p) (tree d)\<rparr>))"

text \<open>Opening for append creates the file; what is written goes to its end.\<close>

definition do_append :: "string \<Rightarrow> string \<Rightarrow> (disk, unit) io" where
  "do_append p bytes d =
     (case node_at d p of
        Some Dir \<Rightarrow> (Inl is_a_directory, d)
      | Some (File old) \<Rightarrow> (Inr (), d\<lparr>tree := tree_put (comps p) (File (old @ bytes)) (tree d)\<rparr>)
      | None \<Rightarrow>
          if parent_ok d (comps p)
          then (Inr (), d\<lparr>tree := tree_put (comps p) (File bytes) (tree d)\<rparr>)
          else (Inl not_found, d))"

definition fs_append :: "string \<Rightarrow> string \<Rightarrow> (disk, unit) io" where
  "fs_append p bytes = guarded (\<lambda>k d. snd (do_append p (take k bytes) d)) (do_append p bytes)"

section \<open>Facts\<close>

lemma split_at_sep: "p c \<Longrightarrow> split_at p (xs @ c # ys) = split_at p xs @ split_at p ys"
proof (induction xs)
  case (Cons x xs)
  then show ?case
    by (cases "split_at p xs") (auto simp: split_at_nonempty split: list.splits)
qed simp

lemma comps_join:
  assumes "p \<noteq> []" and "\<not> prefix ''/'' s" shows "comps (path_join p s) = comps p @ comps s"
proof -
  let ?sep = "\<lambda>c. c = CHR ''/''"
  have split: "split_at ?sep (xs @ ''/'' @ ys) = split_at ?sep xs @ split_at ?sep ys" for xs ys
    using split_at_sep [of ?sep "CHR ''/''" xs ys] by simp
  have root: "prefix ''/'' (p @ r) = prefix ''/'' p" for r using assms(1) by (cases p) auto
  show ?thesis
  proof (cases "suffix ''/'' p")
    case True
    then obtain q where q: "p = q @ ''/''" by (auto simp: suffix_def)
    have "split_at ?sep p = split_at ?sep q @ [[]]" using split [of q "[]"] q by simp
    then show ?thesis using True assms root [of s] split [of q s] q by (simp add: comps_def path_join_def)
  next
    case False
    then show ?thesis using assms root [of "''/'' @ s"] split [of p s] by (simp add: comps_def path_join_def)
  qed
qed

lemma comps_name:
  "list_all (\<lambda>c. c \<noteq> CHR ''/'') s \<Longrightarrow> comps s = (if s = [] \<or> s = ''.'' then [] else [s])"
  by (cases s) (auto simp: comps_def split_at_none)

lemma map_of_filter_key: "map_of (filter (\<lambda>(k, _). P k) t) = (\<lambda>k. if P k then map_of t k else None)"
  by (induction t) (auto simp: fun_eq_iff)

lemma map_of_tree_put [simp]: "map_of (tree_put k n t) = (map_of t)(k \<mapsto> n)"
  by (auto simp: tree_put_def map_of_filter_key [of "\<lambda>k'. k' \<noteq> k"] fun_eq_iff)

lemma node_at_same: "tree d = tree d' \<Longrightarrow> node_at d p = node_at d' p"
  by (simp add: node_at_def)

lemma next_fault_tree: "next_fault d = (f, d') \<Longrightarrow> tree d' = tree d"
  by (auto simp: next_fault_def split: list.splits)

text \<open>A guarded operation either fails by the schedule or runs on the same tree.\<close>

lemma guarded_cases:
  assumes "guarded broken m d = (r, d')"
  obtains d1 where "tree d1 = tree d" "m d1 = (r, d')"
    | e k d1 where "tree d1 = tree d" "r = Inl e" "d' = broken k d1"
  using assms by (auto simp: guarded_def split: prod.splits option.splits dest!: next_fault_tree)

lemma node_at_put: "node_at (d\<lparr>tree := tree_put k n t\<rparr>) p =
    (if comps p = [] \<or> comps p = [''/''] then Some Dir
     else if comps p = k then Some n else map_of t (comps p))"
  by (simp add: node_at_def)

lemma put_file_result:
  assumes "put_file p bytes d = (r, d')"
  shows "\<And>q. comps q \<noteq> comps p \<Longrightarrow> node_at d' q = node_at d q"
    and "r = Inr () \<Longrightarrow> node_at d' p = Some (File bytes)"
    and "r = Inl e \<Longrightarrow> tree d' = tree d"
  using assms by (auto simp: put_file_def node_at_put split: if_splits) (auto simp: node_at_def)

lemma fs_write_result:
  assumes "fs_write p bytes d = (r, d')"
  shows "\<And>q. comps q \<noteq> comps p \<Longrightarrow> node_at d' q = node_at d q"
    and "r = Inr () \<Longrightarrow> node_at d' p = Some (File bytes)"
proof -
  from assms have "guarded (\<lambda>k d. snd (put_file p (take k bytes) d)) (put_file p bytes) d = (r, d')"
    by (simp add: fs_write_def)
  then have "(\<forall>q. comps q \<noteq> comps p \<longrightarrow> node_at d' q = node_at d q)
      \<and> (r = Inr () \<longrightarrow> node_at d' p = Some (File bytes))"
  proof (cases rule: guarded_cases)
    case (1 d1)
    with put_file_result [OF 1(2)] node_at_same [OF 1(1)] show ?thesis by auto
  next
    case (2 e k d1)
    obtain r1 where "put_file p (take k bytes) d1 = (r1, d')" using 2(3) by (metis prod.collapse)
    from put_file_result(1) [OF this] node_at_same [OF 2(1)] 2(2) show ?thesis by auto
  qed
  then show "\<And>q. comps q \<noteq> comps p \<Longrightarrow> node_at d' q = node_at d q"
    and "r = Inr () \<Longrightarrow> node_at d' p = Some (File bytes)" by auto
qed

lemma rename_file_result:
  assumes "fs_rename src dst d = (r, d')" and "node_at d src = Some (File bytes)"
    and "comps src \<noteq> comps dst"
  shows "r = Inr () \<Longrightarrow> node_at d' dst = Some (File bytes)"
    and "r = Inl e \<Longrightarrow> node_at d' q = node_at d q"
    and "comps q \<noteq> comps src \<Longrightarrow> comps q \<noteq> comps dst \<Longrightarrow> node_at d' q = node_at d q"
proof -
  have "(r = Inr () \<longrightarrow> node_at d' dst = Some (File bytes))
    \<and> (\<forall>e. r = Inl e \<longrightarrow> node_at d' q = node_at d q)
    \<and> (comps q \<noteq> comps src \<longrightarrow> comps q \<noteq> comps dst \<longrightarrow> node_at d' q = node_at d q)"
    using assms(1) [unfolded fs_rename_def]
  proof (cases rule: guarded_cases)
    case (1 d1)
    have src: "node_at d1 src = Some (File bytes)" using assms(2) node_at_same [OF 1(1)] by simp
    show ?thesis
      using 1(2) src node_at_same [OF 1(1), of q]
      by (auto simp: do_rename_def node_at_put split: if_splits)
        (auto simp: node_at_def map_of_filter_key 1(1) split: if_splits)
  next
    case (2 e k d1)
    then show ?thesis using node_at_same [OF 2(1)] by auto
  qed
  then show "r = Inr () \<Longrightarrow> node_at d' dst = Some (File bytes)"
    and "r = Inl e \<Longrightarrow> node_at d' q = node_at d q"
    and "comps q \<noteq> comps src \<Longrightarrow> comps q \<noteq> comps dst \<Longrightarrow> node_at d' q = node_at d q" by auto
qed

text \<open>
  Writing a temporary file and renaming it over the target is atomic for the target: it holds the
  new bytes when the whole succeeded and what it held before otherwise.
\<close>

lemma write_rename_atomic:
  assumes "bind_io (context_io c (fs_write tmp bytes)) (\<lambda>_. context_io c' (fs_rename tmp path)) d = (r, d')"
    and "comps tmp \<noteq> comps path"
  shows "node_at d' path = (case r of Inr _ \<Rightarrow> Some (File bytes) | Inl _ \<Rightarrow> node_at d path)"
    and "comps q \<noteq> comps tmp \<Longrightarrow> comps q \<noteq> comps path \<Longrightarrow> node_at d' q = node_at d q"
proof -
  obtain r1 d1 where w: "fs_write tmp bytes d = (r1, d1)" by fastforce
  note W = fs_write_result [OF w]
  have "node_at d' path = (case r of Inr _ \<Rightarrow> Some (File bytes) | Inl _ \<Rightarrow> node_at d path)
    \<and> (comps q \<noteq> comps tmp \<longrightarrow> comps q \<noteq> comps path \<longrightarrow> node_at d' q = node_at d q)"
  proof (cases r1)
    case (Inl e)
    then have "r = Inl (c @ '': '' @ e)" "d' = d1"
      using assms(1) w by (simp_all add: bind_io_def context_io_def)
    then show ?thesis using W(1) assms(2) by auto
  next
    case (Inr u)
    obtain r2 d2 where n: "fs_rename tmp path d1 = (r2, d2)" by fastforce
    have "d' = d2" "(\<exists>e. r = Inl e \<and> isl r2) \<or> r = r2"
      using assms(1) w n Inr by (auto simp: bind_io_def context_io_def split: sum.splits)
    moreover note rename_file_result [OF n _ assms(2), of bytes]
    ultimately show ?thesis using W assms(2) Inr by (cases r2) (auto split: sum.splits)
  qed
  then show "node_at d' path = (case r of Inr _ \<Rightarrow> Some (File bytes) | Inl _ \<Rightarrow> node_at d path)"
    and "comps q \<noteq> comps tmp \<Longrightarrow> comps q \<noteq> comps path \<Longrightarrow> node_at d' q = node_at d q" by auto
qed

text \<open>Removing a directory touches nothing outside it and puts nothing there.\<close>

lemma map_of_drop_some:
  "map_of (drop_some n p t) k = (if k \<in> set (take n (filter (prefix p) (map fst t))) then None else map_of t k)"
  using map_of_filter_key [of "\<lambda>k. k \<notin> set (take n (filter (prefix p) (map fst t)))" t]
  by (simp add: drop_some_def Let_def)

lemma map_of_drop_some_other: "\<not> prefix p k \<Longrightarrow> map_of (drop_some n p t) k = map_of t k"
  by (auto simp: map_of_drop_some dest: in_set_takeD)

lemma map_of_tree_drop: "map_of (tree_drop p t) k = (if prefix p k then None else map_of t k)"
  by (simp add: tree_drop_def map_of_filter_key [of "\<lambda>k'. \<not> prefix p k'"])

lemma remove_dir_all_frame:
  assumes "fs_remove_dir_all p d = (r, d')" and "\<not> prefix (comps p) (comps q)"
  shows "node_at d' q = node_at d q"
  using assms(1) [unfolded fs_remove_dir_all_def]
proof (cases rule: guarded_cases)
  case (1 d1)
  then show ?thesis using assms(2) node_at_same [OF 1(1)]
    by (auto simp: node_at_def map_of_tree_drop split: option.splits node.splits if_splits)
next
  case (2 e k d1)
  then show ?thesis using assms(2) by (simp add: node_at_def map_of_drop_some_other)
qed

lemma remove_dir_all_done:
  "fs_remove_dir_all p d = (Inr u, d') \<Longrightarrow> comps p \<noteq> [] \<Longrightarrow> comps p \<noteq> [''/''] \<Longrightarrow> prefix (comps p) (comps q) \<Longrightarrow>
    node_at d' q = None"
  unfolding fs_remove_dir_all_def
  by (erule guarded_cases)
    (auto simp: node_at_def map_of_tree_drop prefix_Cons split: option.splits node.splits if_splits)

lemma remove_dir_all_shrinks:
  assumes "fs_remove_dir_all p d = (r, d')" and "node_at d' q = Some (File raw)"
  shows "node_at d q = Some (File raw)"
  using assms(1) [unfolded fs_remove_dir_all_def]
proof (cases rule: guarded_cases)
  case (1 d1)
  then show ?thesis using assms(2) node_at_same [OF 1(1), of q]
    by (auto simp: node_at_def map_of_tree_drop split: option.splits node.splits if_splits)
next
  case (2 e k d1)
  then show ?thesis using assms(2) node_at_same [OF 2(1), of q]
    by (auto simp: node_at_def map_of_drop_some split: if_splits)
qed

end
