(* ===== verification/MA_Schema.thy ===== *)
theory MA_Schema
  imports MA_Fs
begin

text \<open>
  The session record (\<open>registry/schema.rs\<close>): its status and mode, the index set and expiry of a
  status, and the flat Redis form of a record.

  A \<open>DateTime<Utc>\<close> is an integer (nanoseconds from the epoch); how \<open>chrono\<close> prints and parses it is
  a parameter, \<open>clock_format\<close>, as is the text \<open>serde\<close> adds to an unknown variant.
\<close>

datatype session_status =
    Active
  | PendingAnnotation
  | PendingHumanAnnotation
  | Annotating
  | PendingCompilation
  | ReasoningDegraded
  | Complete
  | Incomplete

datatype session_mode = Manual | Automated

definition INCOMPLETE_RETENTION_SECONDS :: int where
  "INCOMPLETE_RETENTION_SECONDS = 365 * 24 * 60 * 60"

fun ttl_seconds :: "session_status \<Rightarrow> u64 option" where
  "ttl_seconds Active = None"
| "ttl_seconds Annotating = None"
| "ttl_seconds PendingCompilation = None"
| "ttl_seconds PendingAnnotation = None"
| "ttl_seconds PendingHumanAnnotation = None"
| "ttl_seconds ReasoningDegraded = None"
| "ttl_seconds Complete = None"
| "ttl_seconds Incomplete = None"

definition status_names :: "(string \<times> session_status) list" where
  "status_names =
     [(''active'', Active), (''pending_annotation'', PendingAnnotation),
      (''pending_human_annotation'', PendingHumanAnnotation), (''annotating'', Annotating),
      (''pending_compilation'', PendingCompilation), (''reasoning_degraded'', ReasoningDegraded),
      (''complete'', Complete), (''incomplete'', Incomplete)]"

definition index_names :: "(session_status \<times> string) list" where
  "index_names =
     [(Active, ''sessions:active''), (PendingAnnotation, ''sessions:pending''),
      (PendingHumanAnnotation, ''sessions:pending_human_annotation''),
      (Annotating, ''sessions:annotating''), (PendingCompilation, ''sessions:pending_compilation''),
      (ReasoningDegraded, ''sessions:reasoning_degraded'')]"

definition index_set :: "session_status \<Rightarrow> string option" where
  "index_set st = map_of index_names st"

text \<open>\<open>Display\<close> and \<open>FromStr\<close>, the snake-case names of \<open>serde\<close>.\<close>

definition status_str :: "session_status \<Rightarrow> string" where
  "status_str st = fst (the (List.find (\<lambda>(n, s). s = st) status_names))"

definition mode_str :: "session_mode \<Rightarrow> string" where
  "mode_str m = (case m of Manual \<Rightarrow> ''manual'' | Automated \<Rightarrow> ''automated'')"

definition status_from_str :: "(string \<Rightarrow> string) \<Rightarrow> string \<Rightarrow> session_status result" where
  "status_from_str serde_error s =
     (case map_of status_names s of
        Some st \<Rightarrow> Inr st
      | None \<Rightarrow> Inl (''Unknown session status '' @ [squote] @ s @ [squote] @ '': '' @ serde_error s))"

definition mode_from_str :: "string \<Rightarrow> session_mode result" where
  "mode_from_str s =
     (if s = ''manual'' then Inr Manual
      else if s = ''automated'' then Inr Automated
      else Inl (''Unknown session mode '' @ [squote] @ s @ [squote] @ '' '' @ em_dash @ '' expected ''
        @ [squote] @ ''manual'' @ [squote] @ '' or '' @ [squote] @ ''automated'' @ [squote]))"

record session_record =
  rec_session_id :: string
  rec_mode :: session_mode
  rec_status :: session_status
  rec_os_type :: string
  rec_os_version :: string
  rec_os_architecture :: string
  rec_os_environment_id :: string
  rec_capture_server_id :: string
  rec_actuation_server_id :: string
  rec_reasoning_model_id :: "string option"
  rec_memory_name :: string
  rec_memory_path :: string
  rec_ma_core_addr :: string
  rec_created_at :: int
  rec_updated_at :: int
  rec_total_steps :: u32
  rec_annotated_steps :: u32
  rec_skipped_steps :: u32
  rec_tenant_id :: string
  rec_model_provider :: string
  rec_model_endpoint :: string
  rec_model_api_key_ref :: string
  rec_context_window_steps :: u32
  rec_fallback_model_provider :: string
  rec_fallback_model_endpoint :: string
  rec_fallback_api_key_ref :: string
  rec_storage_backend :: string
  rec_capture_server_addr :: string
  rec_the_eyes_addr :: string

record clock_format =
  to_rfc3339 :: "int \<Rightarrow> string"
  from_rfc3339 :: "string \<Rightarrow> int result"
  serde_variant_error :: "string \<Rightarrow> string"
  int_error :: "string \<Rightarrow> string"

definition show_u32 :: "u32 \<Rightarrow> string" where
  "show_u32 w = show_nat (unat w)"

definition to_redis_pairs :: "clock_format \<Rightarrow> session_record \<Rightarrow> (string \<times> string) list" where
  "to_redis_pairs cf r =
     [(''session_id'', rec_session_id r),
      (''mode'', mode_str (rec_mode r)),
      (''status'', status_str (rec_status r)),
      (''os_type'', rec_os_type r),
      (''os_version'', rec_os_version r),
      (''os_architecture'', rec_os_architecture r),
      (''os_environment_id'', rec_os_environment_id r),
      (''capture_server_id'', rec_capture_server_id r),
      (''actuation_server_id'', rec_actuation_server_id r),
      (''memory_name'', rec_memory_name r),
      (''memory_path'', rec_memory_path r),
      (''ma_core_addr'', rec_ma_core_addr r),
      (''created_at'', to_rfc3339 cf (rec_created_at r)),
      (''updated_at'', to_rfc3339 cf (rec_updated_at r)),
      (''total_steps'', show_u32 (rec_total_steps r)),
      (''annotated_steps'', show_u32 (rec_annotated_steps r)),
      (''skipped_steps'', show_u32 (rec_skipped_steps r)),
      (''tenant_id'', rec_tenant_id r),
      (''model_provider'', rec_model_provider r),
      (''model_endpoint'', rec_model_endpoint r),
      (''model_api_key_ref'', rec_model_api_key_ref r),
      (''context_window_steps'', show_u32 (rec_context_window_steps r)),
      (''fallback_model_provider'', rec_fallback_model_provider r),
      (''fallback_model_endpoint'', rec_fallback_model_endpoint r),
      (''fallback_api_key_ref'', rec_fallback_api_key_ref r),
      (''storage_backend'', rec_storage_backend r),
      (''capture_server_addr'', rec_capture_server_addr r),
      (''the_eyes_addr'', rec_the_eyes_addr r)]
     @ (case rec_reasoning_model_id r of None \<Rightarrow> [] | Some model_id \<Rightarrow> [(''reasoning_model_id'', model_id)])"

definition redis_get :: "(string \<rightharpoonup> string) \<Rightarrow> string \<Rightarrow> string result" where
  "redis_get m key =
     (case m key of
        Some v \<Rightarrow> Inr v
      | None \<Rightarrow> Inl (''Missing Redis field: '' @ [squote] @ key @ [squote]))"

definition redis_default :: "(string \<rightharpoonup> string) \<Rightarrow> string \<Rightarrow> string" where
  "redis_default m key = unwrap_or [] (m key)"

definition parse_u32_result :: "clock_format \<Rightarrow> string \<Rightarrow> u32 result" where
  "parse_u32_result cf s = (case parse_u32 s of Some w \<Rightarrow> Inr w | None \<Rightarrow> Inl (int_error cf s))"

definition from_redis_map :: "clock_format \<Rightarrow> (string \<rightharpoonup> string) \<Rightarrow> session_record result" where
  "from_redis_map cf m =
     and_then (redis_get m ''session_id'') (\<lambda>session_id.
     and_then (and_then (redis_get m ''mode'') mode_from_str) (\<lambda>mode.
     and_then (and_then (redis_get m ''status'') (status_from_str (serde_variant_error cf))) (\<lambda>st.
     and_then (redis_get m ''os_type'') (\<lambda>os_type.
     and_then (redis_get m ''os_version'') (\<lambda>os_version.
     and_then (redis_get m ''os_architecture'') (\<lambda>os_architecture.
     and_then (redis_get m ''os_environment_id'') (\<lambda>os_environment_id.
     and_then (redis_get m ''capture_server_id'') (\<lambda>capture_server_id.
     and_then (redis_get m ''actuation_server_id'') (\<lambda>actuation_server_id.
     and_then (redis_get m ''memory_name'') (\<lambda>memory_name.
     and_then (redis_get m ''memory_path'') (\<lambda>memory_path.
     and_then (and_then (redis_get m ''created_at'') (from_rfc3339 cf)) (\<lambda>created_at.
     and_then (and_then (redis_get m ''updated_at'') (from_rfc3339 cf)) (\<lambda>updated_at.
     and_then (and_then (redis_get m ''total_steps'') (parse_u32_result cf)) (\<lambda>total_steps.
     and_then (and_then (redis_get m ''annotated_steps'') (parse_u32_result cf)) (\<lambda>annotated_steps.
     and_then (and_then (redis_get m ''skipped_steps'') (parse_u32_result cf)) (\<lambda>skipped_steps.
     Inr \<lparr>rec_session_id = session_id, rec_mode = mode, rec_status = st, rec_os_type = os_type,
          rec_os_version = os_version, rec_os_architecture = os_architecture,
          rec_os_environment_id = os_environment_id, rec_capture_server_id = capture_server_id,
          rec_actuation_server_id = actuation_server_id,
          rec_reasoning_model_id = m ''reasoning_model_id'',
          rec_memory_name = memory_name, rec_memory_path = memory_path,
          rec_ma_core_addr = redis_default m ''ma_core_addr'',
          rec_created_at = created_at, rec_updated_at = updated_at, rec_total_steps = total_steps,
          rec_annotated_steps = annotated_steps, rec_skipped_steps = skipped_steps,
          rec_tenant_id = redis_default m ''tenant_id'',
          rec_model_provider = redis_default m ''model_provider'',
          rec_model_endpoint = redis_default m ''model_endpoint'',
          rec_model_api_key_ref = redis_default m ''model_api_key_ref'',
          rec_context_window_steps =
            unwrap_or 5 (case m ''context_window_steps'' of Some s \<Rightarrow> parse_u32 s | None \<Rightarrow> None),
          rec_fallback_model_provider = redis_default m ''fallback_model_provider'',
          rec_fallback_model_endpoint = redis_default m ''fallback_model_endpoint'',
          rec_fallback_api_key_ref = redis_default m ''fallback_api_key_ref'',
          rec_storage_backend = redis_default m ''storage_backend'',
          rec_capture_server_addr = redis_default m ''capture_server_addr'',
          rec_the_eyes_addr = redis_default m ''the_eyes_addr''\<rparr>))))))))))))))))"

definition session_key :: "string \<Rightarrow> string" where
  "session_key session_id = ''session:'' @ session_id"

definition os_index_key :: "(string \<Rightarrow> string) \<Rightarrow> string \<Rightarrow> string" where
  "os_index_key unicode_upper os_type = ''sessions:by_os:'' @ to_uppercase unicode_upper os_type"

definition mode_index_key :: "session_mode \<Rightarrow> string" where
  "mode_index_key mode = ''sessions:by_mode:'' @ mode_str mode"

section \<open>Facts\<close>

lemma status_round_trip [parses]: "status_from_str e (status_str st) = Inr st"
  by (cases st) (simp_all add: status_from_str_def status_str_def status_names_def)

lemma mode_round_trip [parses]: "mode_from_str (mode_str m) = Inr m"
  by (cases m) (simp_all add: mode_from_str_def mode_str_def)

lemma u32_round_trip [parses]:
  "parse_u32 (show_u32 w) = Some w" "parse_u32_result cf (show_u32 w) = Inr w"
  by (simp_all add: show_u32_def parse_u32_result_def parses)

text \<open>The keys of a record are distinct, so the order of the pairs does not matter.\<close>

definition RECORD_KEYS :: "string list" where
  "RECORD_KEYS = map fst (to_redis_pairs
     \<lparr>to_rfc3339 = \<lambda>_. [], from_rfc3339 = Inl, serde_variant_error = id, int_error = id\<rparr>
     \<lparr>rec_session_id = [], rec_mode = Manual, rec_status = Active, rec_os_type = [],
      rec_os_version = [], rec_os_architecture = [], rec_os_environment_id = [],
      rec_capture_server_id = [], rec_actuation_server_id = [], rec_reasoning_model_id = Some [],
      rec_memory_name = [], rec_memory_path = [], rec_ma_core_addr = [], rec_created_at = 0,
      rec_updated_at = 0, rec_total_steps = 0, rec_annotated_steps = 0, rec_skipped_steps = 0,
      rec_tenant_id = [], rec_model_provider = [], rec_model_endpoint = [],
      rec_model_api_key_ref = [], rec_context_window_steps = 0, rec_fallback_model_provider = [],
      rec_fallback_model_endpoint = [], rec_fallback_api_key_ref = [], rec_storage_backend = [],
      rec_capture_server_addr = [], rec_the_eyes_addr = []\<rparr>)"

lemma record_keys_distinct: "distinct RECORD_KEYS"
  by code_simp

lemma to_redis_keys_distinct: "distinct (map fst (to_redis_pairs cf r))"
proof -
  have "\<exists>tail. map fst (to_redis_pairs cf r) @ tail = RECORD_KEYS"
    by (cases "rec_reasoning_model_id r") (simp_all add: to_redis_pairs_def RECORD_KEYS_def)
  then show ?thesis using record_keys_distinct by (metis distinct_append)
qed

lemma redis_get_Some: "m k = Some v \<Longrightarrow> redis_get m k = Inr v"
  by (simp add: redis_get_def)

lemma to_redis_pairs_model_id:
  "map_of (to_redis_pairs cf r) ''reasoning_model_id'' = rec_reasoning_model_id r"
  by (cases "rec_reasoning_model_id r") (simp_all add: to_redis_pairs_def)

lemma record_reads:
  assumes "from_rfc3339 cf (to_rfc3339 cf (rec_created_at r)) = Inr (rec_created_at r)"
    and "from_rfc3339 cf (to_rfc3339 cf (rec_updated_at r)) = Inr (rec_updated_at r)"
  shows "from_redis_map cf (map_of (to_redis_pairs cf r)) = Inr r"
  using assms
  by (cases "rec_reasoning_model_id r")
    (simp_all add: from_redis_map_def to_redis_pairs_def redis_get_def redis_default_def unwrap_or_def parses)

text \<open>
  A session record survives Redis. Any hash that holds at least the pairs of a record, in any
  order, whose \<open>reasoning_model_id\<close> is present only if the record has one, is read back as exactly
  that record, all 29 fields of it, given a timestamp format that parses what it prints.
\<close>

lemma record_round_trip:
  assumes "from_rfc3339 cf (to_rfc3339 cf (rec_created_at r)) = Inr (rec_created_at r)"
    and "from_rfc3339 cf (to_rfc3339 cf (rec_updated_at r)) = Inr (rec_updated_at r)"
    and "\<forall>(k, v) \<in> set (to_redis_pairs cf r). m k = Some v"
    and "m ''reasoning_model_id'' = rec_reasoning_model_id r"
  shows "from_redis_map cf m = Inr r"
proof -
  note all = assms(3) [unfolded to_redis_pairs_def]
  show ?thesis
    using all assms(1,2,4)
    by (simp add: from_redis_map_def redis_get_def redis_default_def unwrap_or_def parses)
qed

definition sample_record :: session_record where
  "sample_record =
     \<lparr>rec_session_id = ''s1'', rec_mode = Automated, rec_status = Active, rec_os_type = ''LINUX'',
      rec_os_version = ''Ubuntu 24.04'', rec_os_architecture = ''x86_64'', rec_os_environment_id = ''env'',
      rec_capture_server_id = ''cap'', rec_actuation_server_id = ''act'',
      rec_reasoning_model_id = Some ''model'', rec_memory_name = ''demo'', rec_memory_path = ''/m/demo'',
      rec_ma_core_addr = [], rec_created_at = 0, rec_updated_at = 0, rec_total_steps = 3,
      rec_annotated_steps = 1, rec_skipped_steps = 0, rec_tenant_id = ''t1'', rec_model_provider = [],
      rec_model_endpoint = [], rec_model_api_key_ref = [], rec_context_window_steps = 5,
      rec_fallback_model_provider = [], rec_fallback_model_endpoint = [], rec_fallback_api_key_ref = [],
      rec_storage_backend = ''local'', rec_capture_server_addr = [], rec_the_eyes_addr = []\<rparr>"

definition epoch_clock :: clock_format where
  "epoch_clock =
     \<lparr>to_rfc3339 = \<lambda>_. ''1970-01-01T00:00:00+00:00'', from_rfc3339 = \<lambda>_. Inr 0,
      serde_variant_error = \<lambda>_. ''unknown variant'', int_error = \<lambda>_. ''invalid digit found in string''\<rparr>"

lemma record_round_trip_witness:
  "from_redis_map epoch_clock (map_of (to_redis_pairs epoch_clock sample_record)) = Inr sample_record"
proof (rule record_round_trip)
  show "\<forall>(k, v) \<in> set (to_redis_pairs epoch_clock sample_record).
      map_of (to_redis_pairs epoch_clock sample_record) k = Some v"
    using to_redis_keys_distinct by auto
qed (simp_all add: to_redis_pairs_model_id epoch_clock_def sample_record_def)

end
