(* ===== verification/MA_Redis.thy ===== *)
theory MA_Redis
  imports MA_Schema
begin

text \<open>
  The Redis server as the registry uses it. The server is outside the repository: a \<open>redis\<close> record
  holds one operation per command the code sends, each a fallible transformer of an unknown state,
  and \<open>redis_ok\<close> states what the Redis documentation promises about them, through a view of the
  state as hashes, sets and strings.

  A command that reports an error may or may not have been carried out (the connection can fail
  after the server acted), so the hypotheses allow both. Time passes between operations, not inside
  one: the expiry of a key is a step of its own.
\<close>

record 'r redis =
  rd_exists :: "string \<Rightarrow> ('r, bool) io"
  rd_hset :: "string \<Rightarrow> (string \<times> string) list \<Rightarrow> ('r, unit) io"
  rd_hgetall :: "string \<Rightarrow> ('r, (string \<times> string) list) io"
  rd_hget :: "string \<Rightarrow> string \<Rightarrow> ('r, string option) io"
  rd_hmget :: "string \<Rightarrow> string list \<Rightarrow> ('r, string option list) io"
  rd_del :: "string \<Rightarrow> ('r, nat) io"
  rd_sadd :: "string \<Rightarrow> string \<Rightarrow> ('r, unit) io"
  rd_srem :: "string \<Rightarrow> string \<Rightarrow> ('r, unit) io"
  rd_smembers :: "string \<Rightarrow> ('r, string list) io"
  rd_persist :: "string \<Rightarrow> ('r, bool) io"
  rd_expire :: "string \<Rightarrow> int \<Rightarrow> ('r, unit) io"
  rd_set_nx_ex :: "string \<Rightarrow> string \<Rightarrow> u64 \<Rightarrow> ('r, bool) io"
  rd_get :: "string \<Rightarrow> ('r, string option) io"
  rd_incr :: "string \<Rightarrow> ('r, nat) io"
  rd_scan :: "nat \<Rightarrow> string \<Rightarrow> nat \<Rightarrow> ('r, nat \<times> string list) io"
  rd_now :: "'r \<Rightarrow> int"

section \<open>The view\<close>

record rview =
  hashes :: "string \<Rightarrow> string \<rightharpoonup> string"
  sets :: "string \<Rightarrow> string set"
  strings :: "string \<rightharpoonup> string"
  ttls :: "string \<rightharpoonup> int"

definition key_present :: "rview \<Rightarrow> string \<Rightarrow> bool" where
  "key_present v k \<longleftrightarrow> hashes v k \<noteq> Map.empty \<or> sets v k \<noteq> {} \<or> strings v k \<noteq> None"

definition v_hset :: "string \<Rightarrow> (string \<times> string) list \<Rightarrow> rview \<Rightarrow> rview" where
  "v_hset k ps v = v\<lparr>hashes := (hashes v)(k := hashes v k ++ map_of (rev ps))\<rparr>"

definition v_del :: "string \<Rightarrow> rview \<Rightarrow> rview" where
  "v_del k v = v\<lparr>hashes := (hashes v)(k := Map.empty), sets := (sets v)(k := {}),
     strings := (strings v)(k := None), ttls := (ttls v)(k := None)\<rparr>"

definition v_sadd :: "string \<Rightarrow> string \<Rightarrow> rview \<Rightarrow> rview" where
  "v_sadd k m v = v\<lparr>sets := (sets v)(k := insert m (sets v k))\<rparr>"

definition v_srem :: "string \<Rightarrow> string \<Rightarrow> rview \<Rightarrow> rview" where
  "v_srem k m v = v\<lparr>sets := (sets v)(k := sets v k - {m})\<rparr>"

definition v_set :: "string \<Rightarrow> string \<Rightarrow> int \<Rightarrow> rview \<Rightarrow> rview" where
  "v_set k x t v = v\<lparr>strings := (strings v)(k \<mapsto> x), ttls := (ttls v)(k \<mapsto> t)\<rparr>"

definition v_ttl :: "string \<Rightarrow> int option \<Rightarrow> rview \<Rightarrow> rview" where
  "v_ttl k t v = v\<lparr>ttls := (ttls v)(k := t)\<rparr>"

text \<open>
  A command \<open>m\<close> reads \<open>f\<close>: it changes nothing and a value it returns is \<open>f\<close> of the view. A command
  does \<open>g\<close>: on success the view becomes \<open>g\<close> of it, on an error it may be either.
\<close>

definition reads :: "('r \<Rightarrow> rview) \<Rightarrow> ('r, 'a) io \<Rightarrow> (rview \<Rightarrow> 'a \<Rightarrow> bool) \<Rightarrow> bool" where
  "reads V m f \<longleftrightarrow> (\<forall>s r s'. m s = (r, s') \<longrightarrow> V s' = V s \<and> (\<forall>a. r = Inr a \<longrightarrow> f (V s) a))"

definition does :: "('r \<Rightarrow> rview) \<Rightarrow> ('r, 'a) io \<Rightarrow> (rview \<Rightarrow> rview) \<Rightarrow> bool" where
  "does V m g \<longleftrightarrow> (\<forall>s r s'. m s = (r, s') \<longrightarrow>
     (case r of Inr _ \<Rightarrow> V s' = g (V s) | Inl _ \<Rightarrow> V s' = V s \<or> V s' = g (V s)))"

definition set_nx :: "('r \<Rightarrow> rview) \<Rightarrow> ('r, bool) io \<Rightarrow> string \<Rightarrow> string \<Rightarrow> int \<Rightarrow> bool" where
  "set_nx V m k x t \<longleftrightarrow> (\<forall>s r s'. m s = (r, s') \<longrightarrow>
     (case r of
        Inr True \<Rightarrow> \<not> key_present (V s) k \<and> V s' = v_set k x t (V s)
      | Inr False \<Rightarrow> key_present (V s) k \<and> V s' = V s
      | Inl _ \<Rightarrow> V s' = V s \<or> \<not> key_present (V s) k \<and> V s' = v_set k x t (V s)))"

text \<open>
  Keys are typed: no key is both a hash and a set, say. \<open>SCAN\<close> only ever returns keys that exist
  and match; it may return one twice. A pattern of the program is a literal prefix and a star.
\<close>

definition redis_ok :: "'r redis \<Rightarrow> ('r \<Rightarrow> rview) \<Rightarrow> bool" where
  "redis_ok api V \<longleftrightarrow>
     (\<forall>k. reads V (rd_exists api k) (\<lambda>v b. b = key_present v k)
        \<and> reads V (rd_hgetall api k) (\<lambda>v m. map_of m = hashes v k)
        \<and> (\<forall>f. reads V (rd_hget api k f) (\<lambda>v x. x = hashes v k f))
        \<and> (\<forall>fs. reads V (rd_hmget api k fs) (\<lambda>v xs. xs = map (hashes v k) fs))
        \<and> reads V (rd_smembers api k) (\<lambda>v ms. set ms = sets v k)
        \<and> reads V (rd_get api k) (\<lambda>v x. x = strings v k)
        \<and> (\<forall>ps. does V (rd_hset api k ps) (v_hset k ps))
        \<and> does V (rd_del api k) (v_del k)
        \<and> (\<forall>m. does V (rd_sadd api k m) (v_sadd k m) \<and> does V (rd_srem api k m) (v_srem k m))
        \<and> does V (rd_persist api k) (v_ttl k None)
        \<and> (\<forall>t. does V (rd_expire api k t) (\<lambda>v. if key_present v k then v_ttl k (Some t) v else v))
        \<and> (\<forall>x t. set_nx V (rd_set_nx_ex api k x t) k x (uint t)))
     \<and> (\<forall>c p n. reads V (rd_scan api c (p @ ''*'') n)
          (\<lambda>v (c', ks). \<forall>k \<in> set ks. prefix p k \<and> key_present v k))
     \<and> (\<forall>k s n s'. rd_del api k s = (Inr n, s') \<longrightarrow> (n = 0 \<longleftrightarrow> \<not> key_present (V s) k))"

lemma reads_apply: "reads V m f \<Longrightarrow> m s = (r, s') \<Longrightarrow> V s' = V s \<and> (\<forall>a. r = Inr a \<longrightarrow> f (V s) a)"
  by (simp add: reads_def)

lemma does_apply:
  "does V m g \<Longrightarrow> m s = (r, s') \<Longrightarrow> V s' = g (V s) \<or> isl r \<and> V s' = V s"
  unfolding does_def by (cases r) fastforce+

text \<open>
  Relational reasoning over a sequence of commands: \<open>steps\<close> collects the views the code can leave
  behind. \<open>runs V m P Q\<close> says that \<open>m\<close>, started where \<open>P\<close> holds, ends in a state whose view satisfies
  \<open>Q\<close> of the result.
\<close>

definition runs :: "('r \<Rightarrow> rview) \<Rightarrow> (rview \<Rightarrow> bool) \<Rightarrow> ('r, 'a) io \<Rightarrow> ('a result \<Rightarrow> rview \<Rightarrow> bool) \<Rightarrow> bool" where
  "runs V P m Q \<longleftrightarrow> (\<forall>s r s'. P (V s) \<longrightarrow> m s = (r, s') \<longrightarrow> Q r (V s'))"

lemma runsD: "runs V P m Q \<Longrightarrow> P (V s) \<Longrightarrow> m s = (r, s') \<Longrightarrow> Q r (V s')"
  by (simp add: runs_def)

lemma runs_weaken:
  "runs V P m Q \<Longrightarrow> (\<And>v. P' v \<Longrightarrow> P v) \<Longrightarrow> (\<And>r v. Q r v \<Longrightarrow> Q' r v) \<Longrightarrow> runs V P' m Q'"
  unfolding runs_def by blast

lemma runs_ok: "(\<And>v. P v \<Longrightarrow> Q (Inr a) v) \<Longrightarrow> runs V P (ok a) Q"
  by (simp add: runs_def ok_def)

lemma runs_fail: "(\<And>v. P v \<Longrightarrow> Q (Inl e) v) \<Longrightarrow> runs V P (fail e) Q"
  by (simp add: runs_def fail_def)

lemma runs_lift: "(\<And>v. P v \<Longrightarrow> Q r v) \<Longrightarrow> runs V P (lift_result r) Q"
  by (simp add: runs_def lift_result_def)

lemma runs_bind:
  assumes "runs V P m (\<lambda>r v. case r of Inl e \<Rightarrow> Q (Inl e) v | Inr a \<Rightarrow> R a v)"
    and "\<And>a. runs V (R a) (f a) Q"
  shows "runs V P (bind_io m f) Q"
  unfolding runs_def
proof (intro allI impI)
  fix s r s'
  assume P: "P (V s)" and run: "bind_io m f s = (r, s')"
  obtain r1 s1 where m: "m s = (r1, s1)" by fastforce
  note R = runsD [OF assms(1) P m]
  show "Q r (V s')"
  proof (cases r1)
    case (Inl e)
    with R run m show ?thesis by (simp add: bind_io_def)
  next
    case (Inr a)
    with R run m runsD [OF assms(2)] show ?thesis by (simp add: bind_io_def)
  qed
qed

lemma runs_context:
  "runs V P m (\<lambda>r v. Q (case r of Inl e \<Rightarrow> Inl (c @ '': '' @ e) | Inr a \<Rightarrow> Inr a) v) \<Longrightarrow> runs V P (context_io c m) Q"
  unfolding runs_def context_io_def by (fastforce split: prod.splits sum.splits)

lemma runs_reads:
  "reads V m f \<Longrightarrow> (\<And>v e. P v \<Longrightarrow> Q (Inl e) v) \<Longrightarrow> (\<And>v a. P v \<Longrightarrow> f v a \<Longrightarrow> Q (Inr a) v) \<Longrightarrow> runs V P m Q"
  unfolding runs_def reads_def by (metis sum.exhaust)

lemma runs_does:
  "does V m g \<Longrightarrow> (\<And>v e. P v \<Longrightarrow> Q (Inl e) v) \<Longrightarrow> (\<And>v e. P v \<Longrightarrow> Q (Inl e) (g v))
     \<Longrightarrow> (\<And>v a. P v \<Longrightarrow> Q (Inr a) (g v)) \<Longrightarrow> runs V P m Q"
  by (auto simp: runs_def dest!: does_apply [of V m g]) (metis isl_def sum.exhaust)+

lemma runs_if:
  "(b \<Longrightarrow> runs V P m Q) \<Longrightarrow> (\<not> b \<Longrightarrow> runs V P n Q) \<Longrightarrow> runs V P (if b then m else n) Q"
  by simp

end
