(* ===== verification/MA_Registry.thy ===== *)
theory MA_Registry
  imports MA_Redis
begin

text \<open>
  The session registry (\<open>registry/mod.rs\<close>): every operation of \<open>SessionRegistry\<close> as the sequence of
  Redis commands it sends. Log lines and the connection set-up are not modelled; the SHA-256 digest,
  the random bytes of a new key and the JSON form of the tenant list are parameters.
\<close>

section \<open>Sessions\<close>

definition quoted :: "string \<Rightarrow> string" where
  "quoted s = [squote] @ s @ [squote]"

definition add_to_indexes ::
  "'r redis \<Rightarrow> (string \<Rightarrow> string) \<Rightarrow> string \<Rightarrow> session_status \<Rightarrow> string \<Rightarrow> session_mode \<Rightarrow> ('r, unit) io" where
  "add_to_indexes api U session_id st os_type mode =
     bind_io (case index_set st of
                Some set_key \<Rightarrow> context_io ''SADD status index failed'' (rd_sadd api set_key session_id)
              | None \<Rightarrow> ok ()) (\<lambda>_.
     bind_io (context_io ''SADD OS index failed'' (rd_sadd api (os_index_key U os_type) session_id)) (\<lambda>_.
     context_io ''SADD mode index failed'' (rd_sadd api (mode_index_key mode) session_id)))"

definition register ::
  "'r redis \<Rightarrow> clock_format \<Rightarrow> (string \<Rightarrow> string) \<Rightarrow> session_record \<Rightarrow> ('r, unit) io" where
  "register api cf U record =
     bind_io (context_io ''Redis EXISTS check failed'' (rd_exists api (session_key (rec_session_id record)))) (\<lambda>exists.
     if exists then fail (''Session '' @ quoted (rec_session_id record) @ '' already exists in registry'')
     else
       bind_io (context_io ''HSET failed''
         (rd_hset api (session_key (rec_session_id record)) (to_redis_pairs cf record))) (\<lambda>_.
       add_to_indexes api U (rec_session_id record) (rec_status record) (rec_os_type record)
         (rec_mode record)))"

definition registry_get :: "'r redis \<Rightarrow> clock_format \<Rightarrow> string \<Rightarrow> ('r, session_record) io" where
  "registry_get api cf session_id =
     bind_io (context_io ''HGETALL failed'' (rd_hgetall api (session_key session_id))) (\<lambda>m.
     if m = [] then fail (''Session '' @ quoted session_id @ '' not found in registry'')
     else context_io ''Failed to deserialise session record from Redis''
       (lift_result (from_redis_map cf (map_of m))))"

definition clear_ttl :: "'r redis \<Rightarrow> string \<Rightarrow> ('r, unit) io" where
  "clear_ttl api session_id =
     bind_io (context_io ''PERSIST failed'' (rd_persist api (session_key session_id))) (\<lambda>_. ok ())"

definition set_ttl :: "'r redis \<Rightarrow> string \<Rightarrow> u64 \<Rightarrow> ('r, unit) io" where
  "set_ttl api session_id seconds =
     context_io ''EXPIRE failed'' (rd_expire api (session_key session_id) (sint seconds))"

definition now_str :: "'r redis \<Rightarrow> clock_format \<Rightarrow> 'r \<Rightarrow> string" where
  "now_str api cf s = to_rfc3339 cf (rd_now api s)"

definition update_status ::
  "'r redis \<Rightarrow> clock_format \<Rightarrow> string \<Rightarrow> session_status \<Rightarrow> ('r, unit) io" where
  "update_status api cf session_id new_status =
     bind_io (context_io ''HGET status failed'' (rd_hget api (session_key session_id) ''status'')) (\<lambda>current.
     bind_io (case current of
                None \<Rightarrow> ok ()
              | Some s \<Rightarrow>
                  (case status_from_str (serde_variant_error cf) s of
                     Inl _ \<Rightarrow> ok ()
                   | Inr old_status \<Rightarrow>
                       (case index_set old_status of
                          None \<Rightarrow> ok ()
                        | Some old_set \<Rightarrow>
                            context_io ''SREM old status index failed'' (rd_srem api old_set session_id)))) (\<lambda>_.
     bind_io (\<lambda>s. context_io ''HSET status update failed''
         (rd_hset api (session_key session_id)
            [(''status'', status_str new_status), (''updated_at'', now_str api cf s)]) s) (\<lambda>_.
     bind_io (case index_set new_status of
                None \<Rightarrow> ok ()
              | Some new_set \<Rightarrow>
                  context_io ''SADD new status index failed'' (rd_sadd api new_set session_id)) (\<lambda>_.
     case ttl_seconds new_status of
       Some ttl \<Rightarrow> set_ttl api session_id ttl
     | None \<Rightarrow> clear_ttl api session_id))))"

definition update_memory_path :: "'r redis \<Rightarrow> clock_format \<Rightarrow> string \<Rightarrow> string \<Rightarrow> ('r, unit) io" where
  "update_memory_path api cf session_id new_path s =
     context_io ''HSET memory_path update failed''
       (rd_hset api (session_key session_id)
          [(''memory_path'', new_path), (''updated_at'', now_str api cf s)]) s"

definition update_annotation_counters ::
  "'r redis \<Rightarrow> clock_format \<Rightarrow> string \<Rightarrow> u32 \<Rightarrow> u32 \<Rightarrow> ('r, unit) io" where
  "update_annotation_counters api cf session_id annotated skipped s =
     context_io ''HSET annotation counters update failed''
       (rd_hset api (session_key session_id)
          [(''annotated_steps'', show_u32 annotated), (''skipped_steps'', show_u32 skipped),
           (''updated_at'', now_str api cf s)]) s"

definition list_active :: "'r redis \<Rightarrow> ('r, string list) io" where
  "list_active api = context_io ''SMEMBERS sessions:active failed'' (rd_smembers api ''sessions:active'')"

definition list_annotating :: "'r redis \<Rightarrow> ('r, string list) io" where
  "list_annotating api =
     context_io ''SMEMBERS sessions:annotating failed'' (rd_smembers api ''sessions:annotating'')"

definition list_pending_human_annotation :: "'r redis \<Rightarrow> ('r, string list) io" where
  "list_pending_human_annotation api =
     context_io ''SMEMBERS sessions:pending_human_annotation failed''
       (rd_smembers api ''sessions:pending_human_annotation'')"

definition list_pending_compilation :: "'r redis \<Rightarrow> ('r, string list) io" where
  "list_pending_compilation api =
     context_io ''SMEMBERS sessions:pending_compilation failed''
       (rd_smembers api ''sessions:pending_compilation'')"

definition list_reasoning_degraded :: "'r redis \<Rightarrow> ('r, string list) io" where
  "list_reasoning_degraded api =
     context_io ''SMEMBERS sessions:reasoning_degraded failed''
       (rd_smembers api ''sessions:reasoning_degraded'')"

definition remove_from_active_set :: "'r redis \<Rightarrow> string \<Rightarrow> ('r, unit) io" where
  "remove_from_active_set api session_id =
     context_io ''SREM sessions:active failed'' (rd_srem api ''sessions:active'' session_id)"

definition cleanup_stale_index_entries :: "'r redis \<Rightarrow> string \<Rightarrow> ('r, nat) io" where
  "cleanup_stale_index_entries api set_key =
     bind_io (context_io ''SMEMBERS failed'' (rd_smembers api set_key)) (\<lambda>members.
     fold_io (\<lambda>session_id removed.
         bind_io (context_io ''EXISTS check failed'' (rd_exists api (session_key session_id))) (\<lambda>exists.
         if exists then ok removed
         else bind_io (context_io ''SREM failed'' (rd_srem api set_key session_id)) (\<lambda>_. ok (removed + 1))))
       members 0)"

definition get_queue_items ::
  "'r redis \<Rightarrow> string list \<Rightarrow> ('r, (string \<times> string \<times> u32 \<times> string) list) io" where
  "get_queue_items api session_ids =
     fold_io (\<lambda>session_id items.
         bind_io (context_io ''HMGET queue item failed''
           (rd_hmget api (session_key session_id) [''memory_name'', ''total_steps'', ''created_at'']))
         (\<lambda>fields.
           ok (items @ [(session_id, unwrap_or [] (fields ! 0),
                unwrap_or 0 (Option.bind (fields ! 1) parse_u32), unwrap_or [] (fields ! 2))])))
       session_ids []"

definition STATUS_SETS :: "string list" where
  "STATUS_SETS =
     [''sessions:active'', ''sessions:pending'', ''sessions:pending_human_annotation'',
      ''sessions:annotating'', ''sessions:pending_compilation'', ''sessions:reasoning_degraded'']"

definition srem_all :: "'r redis \<Rightarrow> string list \<Rightarrow> string \<Rightarrow> ('r, unit) io" where
  "srem_all api keys session_id =
     fold_io (\<lambda>k _. context_io (''SREM '' @ k @ '' failed'') (rd_srem api k session_id)) keys ()"

definition claim_key :: "string \<Rightarrow> string" where
  "claim_key session_id = ''claim:'' @ session_id"

definition delete_session ::
  "'r redis \<Rightarrow> (string \<Rightarrow> string) \<Rightarrow> string \<Rightarrow> session_record option \<Rightarrow> ('r, bool) io" where
  "delete_session api U session_id record =
     (if session_id = [] then fail ''delete_session called with an empty session id''
      else
        bind_io (context_io ''DEL session hash failed'' (rd_del api (session_key session_id))) (\<lambda>hash_removed.
        bind_io (srem_all api STATUS_SETS session_id) (\<lambda>_.
        bind_io (srem_all api
           (case record of
              Some r \<Rightarrow> [os_index_key U (rec_os_type r), mode_index_key (rec_mode r)]
            | None \<Rightarrow> map (os_index_key U) [''LINUX'', ''WINDOWS'', ''MACOS'']
                      @ map mode_index_key [Manual, Automated]) session_id) (\<lambda>_.
        bind_io (context_io ''DEL claim failed'' (rd_del api (claim_key session_id))) (\<lambda>_.
        ok (hash_removed > 0))))))"

section \<open>Claims\<close>

definition claim_value_matches :: "string \<Rightarrow> string \<Rightarrow> bool" where
  "claim_value_matches stored claim_id \<longleftrightarrow>
     claim_id \<noteq> []
     \<and> unwrap_or False (map_option (\<lambda>p. suffix '':'' p) (strip_suffix claim_id stored))"

definition claim_session ::
  "'r redis \<Rightarrow> string \<Rightarrow> string \<Rightarrow> string \<Rightarrow> u64 \<Rightarrow> ('r, string option) io" where
  "claim_session api session_id annotator_id claim_id ttl_secs =
     bind_io (context_io ''SETNX claim failed''
       (rd_set_nx_ex api (claim_key session_id) (annotator_id @ '':'' @ claim_id) ttl_secs)) (\<lambda>claimed.
     ok (if claimed then Some claim_id else None))"

definition release_claim :: "'r redis \<Rightarrow> string \<Rightarrow> ('r, unit) io" where
  "release_claim api session_id =
     bind_io (context_io ''DEL claim failed'' (rd_del api (claim_key session_id))) (\<lambda>_. ok ())"

definition verify_claim_id :: "'r redis \<Rightarrow> string \<Rightarrow> string \<Rightarrow> ('r, bool) io" where
  "verify_claim_id api session_id claim_id =
     bind_io (context_io ''GET claim verify failed'' (rd_get api (claim_key session_id))) (\<lambda>val.
     ok (unwrap_or False (map_option (\<lambda>v. claim_value_matches v claim_id) val)))"

definition refresh_claim :: "'r redis \<Rightarrow> string \<Rightarrow> string \<Rightarrow> u64 \<Rightarrow> ('r, bool) io" where
  "refresh_claim api session_id claim_id ttl_secs =
     bind_io (context_io ''GET claim failed'' (rd_get api (claim_key session_id))) (\<lambda>current.
     let still_valid = unwrap_or False (map_option (\<lambda>v. claim_value_matches v claim_id) current) in
     if still_valid
     then bind_io (context_io ''EXPIRE claim failed''
       (rd_expire api (claim_key session_id) (sint ttl_secs))) (\<lambda>_. ok still_valid)
     else ok still_valid)"

definition get_claim_owner :: "'r redis \<Rightarrow> string \<Rightarrow> ('r, string option) io" where
  "get_claim_owner api session_id =
     bind_io (context_io ''GET claim owner failed'' (rd_get api (claim_key session_id))) (\<lambda>val.
     ok (map_option (\<lambda>v. hd (split_at (\<lambda>c. c = CHR '':'') v)) val))"

section \<open>Scans\<close>

text \<open>
  The \<open>SCAN\<close> loop: pages until the cursor comes back to 0. \<^const>\<open>None\<close> is the loop that never
  ends; the server decides whether its cursors come to an end.
\<close>

partial_function (option) scan_loop ::
  "'r redis \<Rightarrow> string \<Rightarrow> nat \<Rightarrow> string \<Rightarrow> (string \<Rightarrow> 'a \<Rightarrow> ('r, 'a) io) \<Rightarrow> nat \<Rightarrow> 'a \<Rightarrow> 'r
   \<Rightarrow> ('a result \<times> 'r) option" where
  "scan_loop api pattern page err per_key cursor acc s =
     (case context_io err (rd_scan api cursor pattern page) s of
        (Inl e, s) \<Rightarrow> Some (Inl e, s)
      | (Inr (next_cursor, keys), s) \<Rightarrow>
          (case fold_io per_key keys acc s of
             (Inl e, s) \<Rightarrow> Some (Inl e, s)
           | (Inr acc, s) \<Rightarrow>
               if next_cursor = 0 then Some (Inr acc, s)
               else scan_loop api pattern page err per_key next_cursor acc s))"

declare scan_loop.simps [code]

text \<open>One key of the retention sweep.\<close>

definition incomplete_step ::
  "'r redis \<Rightarrow> clock_format \<Rightarrow> int \<Rightarrow> string \<Rightarrow> string list \<Rightarrow> ('r, string list) io" where
  "incomplete_step api cf cutoff key expired =
     bind_io (context_io ''HGETALL session for retention sweep failed'' (rd_hgetall api key)) (\<lambda>fields.
     let get = map_of fields in
     if get ''status'' \<noteq> Some ''incomplete'' then ok expired
     else
       (case Option.bind (get ''updated_at'')
               (\<lambda>s. case from_rfc3339 cf s of Inr t \<Rightarrow> Some t | Inl _ \<Rightarrow> None) of
          None \<Rightarrow> ok expired
        | Some updated_at \<Rightarrow>
            if updated_at \<ge> cutoff then ok expired
            else
              (case get ''session_id'' of
                 Some session_id \<Rightarrow> ok (if session_id \<noteq> [] then expired @ [session_id] else expired)
               | None \<Rightarrow> ok expired)))"

definition list_incomplete_before ::
  "'r redis \<Rightarrow> clock_format \<Rightarrow> int \<Rightarrow> 'r \<Rightarrow> (string list result \<times> 'r) option" where
  "list_incomplete_before api cf cutoff s =
     scan_loop api ''session:*'' 100 ''SCAN session keys failed'' (incomplete_step api cf cutoff) 0 [] s"

text \<open>A failing \<open>GET\<close> counts as no claim (\<open>unwrap_or(None)\<close>); the count is a wrapping \<open>u32\<close>.\<close>

definition claim_step :: "'r redis \<Rightarrow> string \<Rightarrow> string \<Rightarrow> u32 \<Rightarrow> ('r, u32) io" where
  "claim_step api annotator_id key count s =
     (case rd_get api key s of
        (r, s) \<Rightarrow>
          (Inr (case r of
             Inr (Some v) \<Rightarrow> if prefix (annotator_id @ '':'') v then count + 1 else count
           | _ \<Rightarrow> count), s))"

definition count_annotator_claims ::
  "'r redis \<Rightarrow> string \<Rightarrow> 'r \<Rightarrow> (u32 result \<times> 'r) option" where
  "count_annotator_claims api annotator_id s =
     scan_loop api ''claim:*'' 200 ''SCAN claim keys failed'' (claim_step api annotator_id) 0 0 s"

section \<open>Annotators\<close>

definition annotator_key :: "string \<Rightarrow> string" where
  "annotator_key annotator_id = ''annotator:'' @ annotator_id"

definition auth_failures_key :: "string \<Rightarrow> string" where
  "auth_failures_key annotator_id = annotator_key annotator_id @ '':auth_failures''"

record annotator_codec =
  sha256_hex :: "string \<Rightarrow> string"
  tenants_to_json :: "string list \<Rightarrow> string result"
  tenants_from_json :: "string \<Rightarrow> string list result"

definition hex_digit :: "nat \<Rightarrow> char" where
  "hex_digit n = ''0123456789abcdef'' ! n"

definition hex :: "string \<Rightarrow> string" where
  "hex raw = concat (map (\<lambda>b. let n = of_char b in [hex_digit (n div 16), hex_digit (n mod 16)]) raw)"

definition get_annotator_fields :: "'r redis \<Rightarrow> string \<Rightarrow> ('r, (string \<times> string) list option) io" where
  "get_annotator_fields api annotator_id =
     bind_io (context_io ''HGETALL annotator failed'' (rd_hgetall api (annotator_key annotator_id))) (\<lambda>m.
     ok (if m = [] then None else Some m))"

definition update_annotator_last_auth :: "'r redis \<Rightarrow> clock_format \<Rightarrow> string \<Rightarrow> ('r, unit) io" where
  "update_annotator_last_auth api cf annotator_id s =
     context_io ''HSET annotator last_auth_at failed''
       (rd_hset api (annotator_key annotator_id) [(''last_auth_at'', now_str api cf s)]) s"

definition increment_annotator_auth_failures :: "'r redis \<Rightarrow> string \<Rightarrow> ('r, nat) io" where
  "increment_annotator_auth_failures api annotator_id =
     bind_io (context_io ''INCR annotator auth_failures failed'' (rd_incr api (auth_failures_key annotator_id))) (\<lambda>count.
     bind_io (context_io ''EXPIRE annotator auth_failures failed''
       (rd_expire api (auth_failures_key annotator_id) 60)) (\<lambda>_.
     ok count))"

definition reset_annotator_auth_failures :: "'r redis \<Rightarrow> string \<Rightarrow> ('r, unit) io" where
  "reset_annotator_auth_failures api annotator_id =
     bind_io (context_io ''DEL annotator auth_failures failed'' (rd_del api (auth_failures_key annotator_id)))
       (\<lambda>_. ok ())"

text \<open>\<open>raw\<close> is what \<open>fill_bytes\<close> put into the 32-byte array; the plaintext is its hex form.\<close>

definition register_annotator ::
  "'r redis \<Rightarrow> clock_format \<Rightarrow> annotator_codec \<Rightarrow> string \<Rightarrow> string list \<Rightarrow> u32 \<Rightarrow> string \<Rightarrow> ('r, string) io" where
  "register_annotator api cf ac annotator_id allowed_tenant_ids max_concurrent_claims raw =
     bind_io (context_io ''EXISTS annotator check failed'' (rd_exists api (annotator_key annotator_id))) (\<lambda>exists.
     if exists then fail ''ANNOTATOR_EXISTS''
     else
       let plaintext = hex raw;
           tenants_json = (case tenants_to_json ac allowed_tenant_ids of Inr j \<Rightarrow> j | Inl _ \<Rightarrow> ''[]'') in
       bind_io (\<lambda>s. context_io ''HSET register_annotator failed''
         (rd_hset api (annotator_key annotator_id)
            [(''annotator_id'', annotator_id), (''key_hash'', sha256_hex ac plaintext),
             (''status'', ''active''), (''allowed_tenant_ids'', tenants_json),
             (''max_concurrent_claims'', show_u32 max_concurrent_claims),
             (''created_at'', now_str api cf s), (''deactivated_at'', []), (''last_auth_at'', [])]) s)
       (\<lambda>_. ok plaintext))"

definition deactivate_annotator :: "'r redis \<Rightarrow> clock_format \<Rightarrow> string \<Rightarrow> ('r, unit) io" where
  "deactivate_annotator api cf annotator_id =
     bind_io (context_io ''EXISTS annotator check failed'' (rd_exists api (annotator_key annotator_id))) (\<lambda>exists.
     if \<not> exists then fail ''ANNOTATOR_NOT_FOUND''
     else (\<lambda>s. context_io ''HSET deactivate_annotator failed''
       (rd_hset api (annotator_key annotator_id)
          [(''status'', ''deactivated''), (''deactivated_at'', now_str api cf s)]) s))"

definition rotate_annotator_key ::
  "'r redis \<Rightarrow> annotator_codec \<Rightarrow> string \<Rightarrow> string \<Rightarrow> ('r, string) io" where
  "rotate_annotator_key api ac annotator_id raw =
     bind_io (context_io ''EXISTS annotator check failed'' (rd_exists api (annotator_key annotator_id))) (\<lambda>exists.
     if \<not> exists then fail ''ANNOTATOR_NOT_FOUND''
     else
       bind_io (context_io ''HSET rotate_annotator_key failed''
         (rd_hset api (annotator_key annotator_id) [(''key_hash'', sha256_hex ac (hex raw))]))
       (\<lambda>_. ok (hex raw)))"

record annotator_info =
  ai_annotator_id :: string
  ai_status :: string
  ai_current_claims :: u32
  ai_last_auth_at :: string
  ai_allowed_tenant_ids :: "string list"
  ai_max_concurrent_claims :: u32

definition annotator_entry ::
  "annotator_codec \<Rightarrow> (string \<rightharpoonup> string) \<Rightarrow> string \<Rightarrow> u32 \<Rightarrow> annotator_info" where
  "annotator_entry ac get annotator_id current_claims =
     \<lparr>ai_annotator_id = annotator_id,
      ai_status = unwrap_or [] (get ''status''),
      ai_current_claims = current_claims,
      ai_last_auth_at = unwrap_or [] (get ''last_auth_at''),
      ai_allowed_tenant_ids = unwrap_or [] (Option.bind (get ''allowed_tenant_ids'')
        (\<lambda>s. case tenants_from_json ac s of Inr ts \<Rightarrow> Some ts | Inl _ \<Rightarrow> None)),
      ai_max_concurrent_claims = unwrap_or 0 (Option.bind (get ''max_concurrent_claims'') parse_u32)\<rparr>"

text \<open>The loop over annotator keys; the count of an annotator's claims may itself not end.\<close>

fun annotator_entries ::
  "'r redis \<Rightarrow> annotator_codec \<Rightarrow> string list \<Rightarrow> annotator_info list \<Rightarrow> 'r
   \<Rightarrow> (annotator_info list result \<times> 'r) option" where
  "annotator_entries api ac [] result s = Some (Inr result, s)"
| "annotator_entries api ac (key # keys) result s =
     (case context_io ''HGETALL annotator list failed'' (rd_hgetall api key) s of
        (Inl e, s) \<Rightarrow> Some (Inl e, s)
      | (Inr pairs, s) \<Rightarrow>
          (let annotator_id = unwrap_or [] (map_of pairs ''annotator_id'') in
           if pairs = [] \<or> annotator_id = [] then annotator_entries api ac keys result s
           else
             (case count_annotator_claims api annotator_id s of
                None \<Rightarrow> None
              | Some (r, s) \<Rightarrow>
                  annotator_entries api ac keys
                    (result @ [annotator_entry ac (map_of pairs) annotator_id
                       (case r of Inr n \<Rightarrow> n | Inl _ \<Rightarrow> 0)]) s)))"

text \<open>\<open>String\<close>'s order is the order of its bytes.\<close>

fun str_le :: "string \<Rightarrow> string \<Rightarrow> bool" where
  "str_le [] t = True"
| "str_le (c # s) [] = False"
| "str_le (c # s) (d # t) =
     ((of_char c :: nat) < of_char d \<or> c = d \<and> str_le s t)"

fun insert_sorted :: "('a \<Rightarrow> 'a \<Rightarrow> bool) \<Rightarrow> 'a \<Rightarrow> 'a list \<Rightarrow> 'a list" where
  "insert_sorted le x [] = [x]"
| "insert_sorted le x (y # ys) = (if le x y then x # y # ys else y # insert_sorted le x ys)"

text \<open>A stable sort, as \<open>sort_by\<close> is.\<close>

definition stable_sort :: "('a \<Rightarrow> 'a \<Rightarrow> bool) \<Rightarrow> 'a list \<Rightarrow> 'a list" where
  "stable_sort le xs = foldr (insert_sorted le) xs []"

definition collect_annotator_key :: "string \<Rightarrow> string list \<Rightarrow> ('r, string list) io" where
  "collect_annotator_key k ks = ok (if count_list k (CHR '':'') = 1 then ks @ [k] else ks)"

definition list_annotators ::
  "'r redis \<Rightarrow> annotator_codec \<Rightarrow> 'r \<Rightarrow> (annotator_info list result \<times> 'r) option" where
  "list_annotators api ac s =
     (case scan_loop api ''annotator:*'' 100 ''SCAN annotator keys failed'' collect_annotator_key 0 [] s of
        None \<Rightarrow> None
      | Some (Inl e, s) \<Rightarrow> Some (Inl e, s)
      | Some (Inr keys, s) \<Rightarrow>
          (case annotator_entries api ac keys [] s of
             Some (Inr result, s) \<Rightarrow>
               Some (Inr (stable_sort (\<lambda>a b. str_le (ai_annotator_id a) (ai_annotator_id b)) result), s)
           | r \<Rightarrow> r))"

end
