(* ===== verification/MA_Redis_Mem.thy ===== *)
theory MA_Redis_Mem
  imports MA_Redis
begin

text \<open>
  A server that keeps the promises of \<^const>\<open>redis_ok\<close>, held in memory: the hypotheses about Redis
  can be met, and the witnesses of the registry run on it.
\<close>

record mem =
  mem_hashes :: "string \<Rightarrow> (string \<times> string) list"
  mem_sets :: "string \<Rightarrow> string list"
  mem_strings :: "string \<rightharpoonup> string"
  mem_ttls :: "string \<rightharpoonup> int"
  mem_keys :: "string list"
  mem_clock :: int

definition mem_present :: "mem \<Rightarrow> string \<Rightarrow> bool" where
  "mem_present m k \<longleftrightarrow> mem_hashes m k \<noteq> [] \<or> mem_sets m k \<noteq> [] \<or> mem_strings m k \<noteq> None"

definition mem_view :: "mem \<Rightarrow> rview" where
  "mem_view m =
     \<lparr>hashes = \<lambda>k. map_of (mem_hashes m k), sets = \<lambda>k. set (mem_sets m k),
      strings = mem_strings m, ttls = mem_ttls m\<rparr>"

definition touch :: "string \<Rightarrow> mem \<Rightarrow> mem" where
  "touch k m = m\<lparr>mem_keys := List.insert k (mem_keys m)\<rparr>"

definition mem_redis :: "mem redis" where
  "mem_redis =
     \<lparr>rd_exists = \<lambda>k m. (Inr (mem_present m k), m),
      rd_hset = \<lambda>k ps m. (Inr (), touch k (m\<lparr>mem_hashes := (mem_hashes m)(k := rev ps @ mem_hashes m k)\<rparr>)),
      rd_hgetall = \<lambda>k m. (Inr (mem_hashes m k), m),
      rd_hget = \<lambda>k f m. (Inr (map_of (mem_hashes m k) f), m),
      rd_hmget = \<lambda>k fs m. (Inr (map (map_of (mem_hashes m k)) fs), m),
      rd_del = \<lambda>k m. (Inr (if mem_present m k then 1 else 0),
        m\<lparr>mem_hashes := (mem_hashes m)(k := []), mem_sets := (mem_sets m)(k := []),
          mem_strings := (mem_strings m)(k := None), mem_ttls := (mem_ttls m)(k := None)\<rparr>),
      rd_sadd = \<lambda>k x m. (Inr (), touch k (m\<lparr>mem_sets := (mem_sets m)(k := List.insert x (mem_sets m k))\<rparr>)),
      rd_srem = \<lambda>k x m. (Inr (), m\<lparr>mem_sets := (mem_sets m)(k := removeAll x (mem_sets m k))\<rparr>),
      rd_smembers = \<lambda>k m. (Inr (mem_sets m k), m),
      rd_persist = \<lambda>k m. (Inr (mem_ttls m k \<noteq> None), m\<lparr>mem_ttls := (mem_ttls m)(k := None)\<rparr>),
      rd_expire = \<lambda>k t m. (Inr (), if mem_present m k then m\<lparr>mem_ttls := (mem_ttls m)(k \<mapsto> t)\<rparr> else m),
      rd_set_nx_ex = \<lambda>k x t m.
        (if mem_present m k then (Inr False, m)
         else (Inr True, touch k (m\<lparr>mem_strings := (mem_strings m)(k \<mapsto> x),
                  mem_ttls := (mem_ttls m)(k \<mapsto> uint t)\<rparr>))),
      rd_get = \<lambda>k m. (Inr (mem_strings m k), m),
      rd_incr = \<lambda>k m.
        (let n = Suc (unwrap_or 0 (Option.bind (mem_strings m k) parse_digits)) in
         (Inr n, touch k (m\<lparr>mem_strings := (mem_strings m)(k \<mapsto> show_nat n)\<rparr>))),
      rd_scan = \<lambda>c p n m. (Inr (0, filter (\<lambda>k. prefix (butlast p) k \<and> mem_present m k) (mem_keys m)), m),
      rd_now = mem_clock\<rparr>"

lemma mem_view_touch [simp]: "mem_view (touch k m) = mem_view m"
  by (simp add: mem_view_def touch_def)

lemma mem_present_view [simp]: "key_present (mem_view m) k = mem_present m k"
  by (simp add: key_present_def mem_view_def mem_present_def map_of_eq_empty_iff)

lemma mem_redis_ok: "redis_ok mem_redis mem_view"
proof -
  have reads: "reads mem_view (\<lambda>m. (Inr (f m), m)) Q" if "\<And>m. Q (mem_view m) (f m)"
    for f :: "mem \<Rightarrow> 'a" and Q using that by (auto simp: reads_def)
  have does: "does mem_view (\<lambda>m. (Inr (f m), h m)) g" if "\<And>m. mem_view (h m) = g (mem_view m)"
    for f :: "mem \<Rightarrow> 'a" and h g using that by (auto simp: does_def)
  show ?thesis
    unfolding redis_ok_def
  proof (intro conjI allI impI)
    fix k f fs ps m t x n c p and s :: mem and r s' u
    show "reads mem_view (rd_exists mem_redis k) (\<lambda>v b. b = key_present v k)"
      by (simp add: mem_redis_def reads)
    show "reads mem_view (rd_hgetall mem_redis k) (\<lambda>v m. map_of m = hashes v k)"
      by (simp add: mem_redis_def) (rule reads, simp add: mem_view_def)
    show "reads mem_view (rd_hget mem_redis k f) (\<lambda>v x. x = hashes v k f)"
      by (simp add: mem_redis_def) (rule reads, simp add: mem_view_def)
    show "reads mem_view (rd_hmget mem_redis k fs) (\<lambda>v xs. xs = map (hashes v k) fs)"
      by (simp add: mem_redis_def) (rule reads, simp add: mem_view_def)
    show "reads mem_view (rd_smembers mem_redis k) (\<lambda>v ms. set ms = sets v k)"
      by (simp add: mem_redis_def) (rule reads, simp add: mem_view_def)
    show "reads mem_view (rd_get mem_redis k) (\<lambda>v x. x = strings v k)"
      by (simp add: mem_redis_def) (rule reads, simp add: mem_view_def)
    show "does mem_view (rd_hset mem_redis k ps) (v_hset k ps)"
      by (simp add: mem_redis_def) (rule does, simp add: mem_view_def v_hset_def touch_def fun_eq_iff)
    show "does mem_view (rd_del mem_redis k) (v_del k)"
      by (simp add: mem_redis_def) (rule does, simp add: mem_view_def v_del_def fun_eq_iff)
    show "does mem_view (rd_sadd mem_redis k m) (v_sadd k m)"
      by (simp add: mem_redis_def) (rule does, simp add: mem_view_def v_sadd_def touch_def fun_eq_iff)
    show "does mem_view (rd_srem mem_redis k m) (v_srem k m)"
      by (simp add: mem_redis_def) (rule does, simp add: mem_view_def v_srem_def fun_eq_iff)
    show "does mem_view (rd_persist mem_redis k) (v_ttl k None)"
      by (simp add: mem_redis_def) (rule does, simp add: mem_view_def v_ttl_def)
    show "does mem_view (rd_expire mem_redis k t) (\<lambda>v. if key_present v k then v_ttl k (Some t) v else v)"
      by (simp add: mem_redis_def) (rule does, simp, simp add: mem_view_def v_ttl_def)
    show "set_nx mem_view (rd_set_nx_ex mem_redis k x u) k x (uint u)"
      by (auto simp: set_nx_def mem_redis_def mem_view_def v_set_def touch_def split: bool.splits)
        (auto simp: key_present_def mem_present_def map_of_eq_empty_iff)
    show "reads mem_view (rd_scan mem_redis c (p @ ''*'') n)
        (\<lambda>v (c', ks). \<forall>k \<in> set ks. prefix p k \<and> key_present v k)"
      by (simp add: mem_redis_def) (rule reads, simp)
  next
    fix k and s :: mem and n s'
    assume "rd_del mem_redis k s = (Inr n, s')"
    then show "(n = 0) = (\<not> key_present (mem_view s) k)" by (auto simp: mem_redis_def split: if_splits)
  qed
qed

definition empty_mem :: mem where
  "empty_mem = \<lparr>mem_hashes = \<lambda>_. [], mem_sets = \<lambda>_. [], mem_strings = \<lambda>_. None, mem_ttls = \<lambda>_. None,
     mem_keys = [], mem_clock = 0\<rparr>"

text \<open>It never fails, so neither do the operations built from its commands.\<close>

definition total :: "('s, 'a) io \<Rightarrow> bool" where
  "total m \<longleftrightarrow> (\<forall>s. \<exists>a. fst (m s) = Inr a)"

lemma total_bind: "total m \<Longrightarrow> (\<And>a. total (f a)) \<Longrightarrow> total (bind_io m f)"
  unfolding total_def bind_io_def by (auto split: prod.splits sum.splits) (metis fst_conv sum.distinct(1))+

lemma total_context: "total m \<Longrightarrow> total (context_io c m)"
  unfolding total_def context_io_def by (auto split: prod.splits sum.splits) (metis fst_conv sum.distinct(1))+

lemma total_ok: "total (ok a)"
  by (simp add: total_def ok_def)

lemma total_fold: "(\<And>x a. total (f x a)) \<Longrightarrow> total (fold_io f xs a)"
  by (induction xs arbitrary: a) (auto intro: total_ok total_bind)

lemma total_commands:
  "total (rd_exists mem_redis k)" "total (rd_hset mem_redis k ps)" "total (rd_hget mem_redis k f)"
  "total (rd_hgetall mem_redis k)" "total (rd_del mem_redis k)" "total (rd_sadd mem_redis k x)"
  "total (rd_srem mem_redis k x)" "total (rd_persist mem_redis k)"
  by (auto simp: total_def mem_redis_def)

lemmas total_rules = total_bind total_context total_ok total_fold total_commands

lemma total_run: "total m \<Longrightarrow> \<exists>a s'. m s = (Inr a, s')"
  unfolding total_def by (metis prod.collapse)

end
