(* ===== verification/MA_Registry_Facts.thy ===== *)
theory MA_Registry_Facts
  imports MA_Registry MA_Redis_Mem
begin

text \<open>
  What the registry guarantees of any server that keeps the promises of \<^const>\<open>redis_ok\<close>: the index
  sets agree with the records however an operation ends, records are read back as written, claims
  exclude each other, deletion is complete, and the retention sweep names only old incomplete records.
\<close>

section \<open>The laws of the server\<close>

lemma redis_laws:
  assumes "redis_ok api V"
  shows "reads V (rd_exists api k) (\<lambda>v b. b = key_present v k)"
    and "reads V (rd_hgetall api k) (\<lambda>v m. map_of m = hashes v k)"
    and "reads V (rd_hget api k f) (\<lambda>v x. x = hashes v k f)"
    and "reads V (rd_hmget api k fs) (\<lambda>v xs. xs = map (hashes v k) fs)"
    and "reads V (rd_smembers api k) (\<lambda>v ms. set ms = sets v k)"
    and "reads V (rd_get api k) (\<lambda>v x. x = strings v k)"
    and "does V (rd_hset api k ps) (v_hset k ps)"
    and "does V (rd_del api k) (v_del k)"
    and "does V (rd_sadd api k m) (v_sadd k m)"
    and "does V (rd_srem api k m) (v_srem k m)"
    and "does V (rd_persist api k) (v_ttl k None)"
    and "does V (rd_expire api k t) (\<lambda>v. if key_present v k then v_ttl k (Some t) v else v)"
    and "set_nx V (rd_set_nx_ex api k x u) k x (uint u)"
    and "reads V (rd_scan api c (p @ ''*'') n) (\<lambda>v (c', ks). \<forall>k \<in> set ks. prefix p k \<and> key_present v k)"
  using assms by (simp_all add: redis_ok_def)

lemma view_simps [simp]:
  "hashes (v_sadd k m v) = hashes v" "hashes (v_srem k m v) = hashes v" "hashes (v_ttl k t v) = hashes v"
  "sets (v_hset k ps v) = sets v" "sets (v_ttl k t v) = sets v"
  "sets (v_sadd k m v) = (sets v)(k := insert m (sets v k))"
  "sets (v_srem k m v) = (sets v)(k := sets v k - {m})"
  "hashes (v_hset k ps v) = (hashes v)(k := hashes v k ++ map_of (rev ps))"
  "hashes (v_del k v) = (hashes v)(k := Map.empty)" "sets (v_del k v) = (sets v)(k := {})"
  "strings (v_hset k ps v) = strings v" "strings (v_sadd k m v) = strings v"
  "strings (v_srem k m v) = strings v" "strings (v_ttl k t v) = strings v"
  "strings (v_del k v) = (strings v)(k := None)"
  by (simp_all add: v_sadd_def v_srem_def v_ttl_def v_hset_def v_del_def)

text \<open>The key families do not meet.\<close>

lemma keys_apart [simp]:
  "session_key a = session_key b \<longleftrightarrow> a = b" "claim_key a = claim_key b \<longleftrightarrow> a = b"
  "session_key a \<noteq> claim_key b" "claim_key b \<noteq> session_key a"
  by (simp_all add: session_key_def claim_key_def)

lemma index_set_cases: "index_set st = Some k \<Longrightarrow> k \<in> set STATUS_SETS"
  by (cases st) (auto simp: index_set_def index_names_def STATUS_SETS_def)

lemma status_set_index: "k \<in> set STATUS_SETS \<Longrightarrow> \<exists>st. index_set st = Some k"
proof -
  assume "k \<in> set STATUS_SETS"
  moreover have "index_set Active = Some ''sessions:active''" "index_set PendingAnnotation = Some ''sessions:pending''"
    "index_set PendingHumanAnnotation = Some ''sessions:pending_human_annotation''"
    "index_set Annotating = Some ''sessions:annotating''"
    "index_set PendingCompilation = Some ''sessions:pending_compilation''"
    "index_set ReasoningDegraded = Some ''sessions:reasoning_degraded''"
    by (simp_all add: index_set_def index_names_def)
  ultimately show ?thesis unfolding STATUS_SETS_def by auto
qed

lemma index_set_inj: "index_set a = Some k \<Longrightarrow> index_set b = Some k \<Longrightarrow> a = b"
  by (cases a; cases b) (auto simp: index_set_def index_names_def)

lemma status_str_inj: "status_str a = status_str b \<longleftrightarrow> a = b"
  by (metis status_round_trip sum.inject(2))

lemma status_set_not_key: "k \<in> set STATUS_SETS \<Longrightarrow> session_key a \<noteq> k \<and> claim_key a \<noteq> k
    \<and> os_index_key U os \<noteq> k \<and> mode_index_key m \<noteq> k"
  by (cases m) (auto simp: STATUS_SETS_def session_key_def claim_key_def os_index_key_def mode_index_key_def mode_str_def)

section \<open>The index invariant\<close>

text \<open>
  A member of a status set has a record of that status, or no record at all (an entry left behind
  by an interrupted deletion).
\<close>

definition index_sound :: "rview \<Rightarrow> bool" where
  "index_sound v \<longleftrightarrow> (\<forall>st k a. index_set st = Some k \<longrightarrow> a \<in> sets v k \<longrightarrow>
     hashes v (session_key a) = Map.empty \<or> hashes v (session_key a) ''status'' = Some (status_str st))"

definition no_orphan :: "string \<Rightarrow> rview \<Rightarrow> bool" where
  "no_orphan a v \<longleftrightarrow>
     hashes v (session_key a) = Map.empty \<longrightarrow> (\<forall>k \<in> set STATUS_SETS. a \<notin> sets v k)"

definition in_no_set :: "string \<Rightarrow> rview \<Rightarrow> bool" where
  "in_no_set a v \<longleftrightarrow> (\<forall>k \<in> set STATUS_SETS. a \<notin> sets v k)"

lemma index_soundI:
  "(\<And>st k a. index_set st = Some k \<Longrightarrow> a \<in> sets v k \<Longrightarrow> hashes v (session_key a) \<noteq> Map.empty \<Longrightarrow>
      hashes v (session_key a) ''status'' = Some (status_str st)) \<Longrightarrow> index_sound v"
  unfolding index_sound_def by blast

lemma index_soundD:
  "index_sound v \<Longrightarrow> index_set st = Some k \<Longrightarrow> a \<in> sets v k \<Longrightarrow> hashes v (session_key a) \<noteq> Map.empty \<Longrightarrow>
     hashes v (session_key a) ''status'' = Some (status_str st)"
  unfolding index_sound_def by blast

lemma hset_keeps_field: "f \<notin> fst ` set ps \<Longrightarrow> (m ++ map_of (rev ps)) f = m f"
proof -
  assume "f \<notin> fst ` set ps"
  then have "map_of (rev ps) f = None" by (simp add: map_of_eq_None_iff)
  then show ?thesis by (simp add: map_add_def)
qed

lemma index_sound_hset:
  assumes "index_sound v" and "no_orphan a v"
    and "in_no_set a v \<or> ''status'' \<notin> fst ` set ps"
  shows "index_sound (v_hset (session_key a) ps v)"
proof (rule index_soundI)
  fix st k b
  assume k: "index_set st = Some k" and b: "b \<in> sets (v_hset (session_key a) ps v) k"
    and some: "hashes (v_hset (session_key a) ps v) (session_key b) \<noteq> Map.empty"
  have mem: "b \<in> sets v k" using b by simp
  show "hashes (v_hset (session_key a) ps v) (session_key b) ''status'' = Some (status_str st)"
  proof (cases "b = a")
    case False
    with some index_soundD [OF assms(1) k mem] show ?thesis by simp
  next
    case True
    with mem index_set_cases [OF k] have "\<not> in_no_set a v" by (auto simp: in_no_set_def)
    with assms(2,3) have "hashes v (session_key a) \<noteq> Map.empty" and field: "''status'' \<notin> fst ` set ps"
      by (auto simp: no_orphan_def in_no_set_def)
    with index_soundD [OF assms(1) k mem] True hset_keeps_field [OF field] show ?thesis by simp
  qed
qed

lemma index_sound_sadd:
  assumes "index_sound v" and "k \<in> set STATUS_SETS \<Longrightarrow> index_set st = Some k"
    and "hashes v (session_key a) ''status'' = Some (status_str st)"
  shows "index_sound (v_sadd k a v)"
proof (rule index_soundI)
  fix st' k' b
  assume k: "index_set st' = Some k'" and b: "b \<in> sets (v_sadd k a v) k'"
    and some: "hashes (v_sadd k a v) (session_key b) \<noteq> Map.empty"
  show "hashes (v_sadd k a v) (session_key b) ''status'' = Some (status_str st')"
  proof (cases "b \<in> sets v k'")
    case True
    with some index_soundD [OF assms(1) k] show ?thesis by simp
  next
    case False
    with b have "k' = k" "b = a" by (auto split: if_splits)
    with k assms(2) index_set_cases [OF k] have "st' = st" using index_set_inj by blast
    with assms(3) \<open>b = a\<close> show ?thesis by simp
  qed
qed

lemma index_sound_less:
  assumes "index_sound v" and "\<And>k. sets v' k \<subseteq> sets v k"
    and "\<And>a. hashes v' (session_key a) = hashes v (session_key a) \<or> hashes v' (session_key a) = Map.empty"
  shows "index_sound v'"
proof (rule index_soundI)
  fix st k a
  assume "index_set st = Some k" "a \<in> sets v' k" "hashes v' (session_key a) \<noteq> Map.empty"
  with assms(2) [of k] assms(3) [of a] index_soundD [OF assms(1), of st k a]
  show "hashes v' (session_key a) ''status'' = Some (status_str st)" by auto
qed

lemma index_sound_srem: "index_sound v \<Longrightarrow> index_sound (v_srem k a v)"
  by (rule index_sound_less [of v]) auto

lemma index_sound_del: "index_sound v \<Longrightarrow> index_sound (v_del k v)"
  by (rule index_sound_less [of v]) auto

lemma index_sound_ttl: "index_sound v \<Longrightarrow> index_sound (v_ttl k t v)"
  by (rule index_sound_less [of v]) auto

lemma in_no_set_by_status:
  assumes "index_sound v" and "hashes v (session_key a) \<noteq> Map.empty"
    and "\<And>st. index_set st \<noteq> None \<Longrightarrow> hashes v (session_key a) ''status'' \<noteq> Some (status_str st)"
  shows "in_no_set a v"
  unfolding in_no_set_def
proof
  fix k assume "k \<in> set STATUS_SETS"
  then obtain st where "index_set st = Some k" using status_set_index by blast
  with index_soundD [OF assms(1) this _ assms(2)] assms(3) [of st] show "a \<notin> sets v k" by auto
qed

text \<open>Removing a member from the set its own status names takes it out of every set.\<close>

lemma in_no_set_srem:
  assumes "index_sound v" and "hashes v (session_key a) \<noteq> Map.empty"
    and "hashes v (session_key a) ''status'' = Some (status_str st)" and "index_set st = Some k"
  shows "in_no_set a (v_srem k a v)"
  unfolding in_no_set_def
proof
  fix k' assume "k' \<in> set STATUS_SETS"
  then obtain st' where st': "index_set st' = Some k'" using status_set_index by blast
  show "a \<notin> sets (v_srem k a v) k'"
  proof (cases "a \<in> sets v k'")
    case True
    with index_soundD [OF assms(1) st' True assms(2)] assms(3) have "st' = st" by (simp add: status_str_inj)
    with st' assms(4) show ?thesis by simp
  qed auto
qed

lemma status_from_str_Inr: "status_from_str e s = Inr st \<longleftrightarrow> s = status_str st"
proof
  assume "status_from_str e s = Inr st"
  then have "map_of status_names s = Some st" by (auto simp: status_from_str_def split: option.splits)
  then have "(s, st) \<in> set status_names" by (rule map_of_SomeD)
  then show "s = status_str st" by (auto simp: status_names_def status_str_def)
qed (simp add: status_round_trip)

definition sound_for :: "string \<Rightarrow> rview \<Rightarrow> bool" where
  "sound_for a v \<longleftrightarrow> index_sound v \<and> no_orphan a v"

text \<open>An invariant kept whatever the outcome.\<close>

definition keeps :: "('r \<Rightarrow> rview) \<Rightarrow> (rview \<Rightarrow> bool) \<Rightarrow> ('r, 'a) io \<Rightarrow> bool" where
  "keeps V I m \<longleftrightarrow> runs V I m (\<lambda>_. I)"

lemma keeps_bind:
  assumes "keeps V I m" and "\<And>a. keeps V I (f a)" shows "keeps V I (bind_io m f)"
  unfolding keeps_def
proof (rule runs_bind)
  show "runs V I m (\<lambda>r v. case r of Inl e \<Rightarrow> I v | Inr a \<Rightarrow> I v)"
    using assms(1) by (auto simp: keeps_def runs_def split: sum.splits)
  show "runs V I (f a) (\<lambda>_. I)" for a using assms(2) by (simp add: keeps_def)
qed

lemma keeps_context: "keeps V I m \<Longrightarrow> keeps V I (context_io c m)"
  unfolding keeps_def by (rule runs_context)

lemma keeps_pure: "keeps V I (ok a)" "keeps V I (fail e)" "keeps V I (lift_result r)"
  unfolding keeps_def by (auto intro: runs_ok runs_fail runs_lift)

lemma keeps_reads: "reads V m f \<Longrightarrow> keeps V I m"
  unfolding keeps_def by (rule runs_reads) auto

lemma keeps_does: "does V m g \<Longrightarrow> (\<And>v. I v \<Longrightarrow> I (g v)) \<Longrightarrow> keeps V I m"
  unfolding keeps_def by (rule runs_does [where g = g])

lemma runs_state: "(\<And>s0. runs V P (m s0) Q) \<Longrightarrow> runs V P (\<lambda>s. m s s) Q"
  unfolding runs_def by blast

lemma keeps_state: "(\<And>s0. keeps V I (m s0)) \<Longrightarrow> keeps V I (\<lambda>s. m s s)"
  unfolding keeps_def runs_def by blast

lemma keeps_fold: "(\<And>x a. keeps V I (f x a)) \<Longrightarrow> keeps V I (fold_io f xs a)"
  by (induction xs arbitrary: a) (simp_all add: keeps_pure keeps_bind)

lemma keeps_commands:
  assumes "redis_ok api V"
  shows "keeps V I (rd_exists api k)" "keeps V I (rd_hgetall api k)" "keeps V I (rd_hget api k f)"
    "keeps V I (rd_hmget api k fs)" "keeps V I (rd_smembers api k)" "keeps V I (rd_get api k)"
    "(\<And>v. I v \<Longrightarrow> I (v_hset k ps v)) \<Longrightarrow> keeps V I (rd_hset api k ps)"
    "(\<And>v. I v \<Longrightarrow> I (v_del k v)) \<Longrightarrow> keeps V I (rd_del api k)"
    "(\<And>v. I v \<Longrightarrow> I (v_sadd k m v)) \<Longrightarrow> keeps V I (rd_sadd api k m)"
    "(\<And>v. I v \<Longrightarrow> I (v_srem k m v)) \<Longrightarrow> keeps V I (rd_srem api k m)"
    "(\<And>v. I v \<Longrightarrow> I (v_ttl k None v)) \<Longrightarrow> keeps V I (rd_persist api k)"
    "(\<And>v. I v \<Longrightarrow> I (v_ttl k (Some t) v)) \<Longrightarrow> keeps V I (rd_expire api k t)"
proof -
  note laws = redis_laws [OF assms]
  show "keeps V I (rd_exists api k)" by (rule keeps_reads [OF laws(1)])
  show "keeps V I (rd_hgetall api k)" by (rule keeps_reads [OF laws(2)])
  show "keeps V I (rd_hget api k f)" by (rule keeps_reads [OF laws(3)])
  show "keeps V I (rd_hmget api k fs)" by (rule keeps_reads [OF laws(4)])
  show "keeps V I (rd_smembers api k)" by (rule keeps_reads [OF laws(5)])
  show "keeps V I (rd_get api k)" by (rule keeps_reads [OF laws(6)])
  show "(\<And>v. I v \<Longrightarrow> I (v_hset k ps v)) \<Longrightarrow> keeps V I (rd_hset api k ps)" by (rule keeps_does [OF laws(7)])
  show "(\<And>v. I v \<Longrightarrow> I (v_del k v)) \<Longrightarrow> keeps V I (rd_del api k)" by (rule keeps_does [OF laws(8)])
  show "(\<And>v. I v \<Longrightarrow> I (v_sadd k m v)) \<Longrightarrow> keeps V I (rd_sadd api k m)" by (rule keeps_does [OF laws(9)])
  show "(\<And>v. I v \<Longrightarrow> I (v_srem k m v)) \<Longrightarrow> keeps V I (rd_srem api k m)" by (rule keeps_does [OF laws(10)])
  show "(\<And>v. I v \<Longrightarrow> I (v_ttl k None v)) \<Longrightarrow> keeps V I (rd_persist api k)" by (rule keeps_does [OF laws(11)])
  show "(\<And>v. I v \<Longrightarrow> I (v_ttl k (Some t) v)) \<Longrightarrow> keeps V I (rd_expire api k t)"
    by (rule keeps_does [OF laws(12)]) simp
qed

lemmas keeps_rules = keeps_bind keeps_context keeps_pure keeps_commands keeps_fold

lemma keeps_clear_ttl:
  "redis_ok api V \<Longrightarrow> (\<And>v. I v \<Longrightarrow> I (v_ttl (session_key a) None v)) \<Longrightarrow> keeps V I (clear_ttl api a)"
  unfolding clear_ttl_def by (intro keeps_rules)

lemma map_of_rev_distinct: "distinct (map fst ps) \<Longrightarrow> map_of (rev ps) = map_of ps"
  by (rule map_of_eqI) (auto simp: rev_map [symmetric])

lemma ttl_never [simp]: "ttl_seconds st = None"
  by (cases st) simp_all

text \<open>The first half of a status update: the session leaves the set of the status it was read with.\<close>

lemma unlist_old_status:
  assumes api: "redis_ok api V"
  shows "runs V (\<lambda>v. (index_sound v \<and> no_orphan a v) \<and> hashes v (session_key a) ''status'' = cur)
    (case cur of None \<Rightarrow> ok ()
       | Some s \<Rightarrow> (case status_from_str (serde_variant_error cf) s of Inl _ \<Rightarrow> ok ()
          | Inr old \<Rightarrow> (case index_set old of None \<Rightarrow> ok ()
             | Some k \<Rightarrow> context_io ''SREM old status index failed'' (rd_srem api k a))))
    (\<lambda>r v. case r of Inl e \<Rightarrow> index_sound v | Inr _ \<Rightarrow> (index_sound v \<and> no_orphan a v) \<and> in_no_set a v)"
    (is "runs V ?R1 ?drop ?Q")
proof (cases "\<exists>old k. cur = Some (status_str old) \<and> index_set old = Some k")
  case True
  let ?k = "session_key a"
  from True obtain old k where old: "cur = Some (status_str old)" "index_set old = Some k" by blast
  have "(index_sound w \<and> no_orphan a w) \<and> in_no_set a w" if "?R1 v" "w = v_srem k a v" for v w
  proof -
    have "in_no_set a (v_srem k a v)"
    proof (cases "hashes v ?k = Map.empty")
      case True
      with that show ?thesis by (auto simp: no_orphan_def in_no_set_def)
    next
      case False
      with that old show ?thesis by (intro in_no_set_srem) auto
    qed
    with that show ?thesis by (auto simp: index_sound_srem no_orphan_def in_no_set_def)
  qed
  then have "runs V ?R1 (context_io ''SREM old status index failed'' (rd_srem api k a)) ?Q"
    by (intro runs_context runs_does [OF redis_laws(10) [OF api]]) auto
  with old show ?thesis by (simp add: status_round_trip)
next
  case False
  have "in_no_set a v" if "?R1 v" for v
  proof (cases "hashes v (session_key a) = Map.empty")
    case True
    with that show ?thesis by (auto simp: no_orphan_def in_no_set_def)
  next
    case nonempty: False
    from False have "cur \<noteq> Some (status_str s') \<or> index_set s' = None" for s' by (cases "index_set s'") auto
    with that show ?thesis using in_no_set_by_status [OF _ nonempty] by metis
  qed
  then have "runs V ?R1 (ok ()) ?Q" by (intro runs_ok) auto
  moreover have "?drop = ok ()" using False by (auto simp: status_from_str_Inr split: option.split sum.split)
  ultimately show ?thesis by simp
qed

lemma update_status_sound:
  assumes api: "redis_ok api V"
  shows "runs V (\<lambda>v. index_sound v \<and> no_orphan a v) (update_status api cf a st) (\<lambda>r v. index_sound v)"
proof -
  note laws = redis_laws [OF api]
  let ?k = "session_key a"
  let ?P = "\<lambda>v. index_sound v \<and> no_orphan a v"
  let ?R1 = "\<lambda>cur v. ?P v \<and> hashes v ?k ''status'' = cur"
  let ?R2 = "\<lambda>v. ?P v \<and> in_no_set a v"
  let ?R3 = "\<lambda>v. index_sound v \<and> hashes v ?k ''status'' = Some (status_str st)"
  have s1: "runs V ?P (context_io ''HGET status failed'' (rd_hget api ?k ''status''))
      (\<lambda>r v. case r of Inl e \<Rightarrow> index_sound v | Inr cur \<Rightarrow> ?R1 cur v)"
    by (rule runs_context, rule runs_reads [OF laws(3)]) auto
  have s3: "runs V ?R2 (\<lambda>s. context_io ''HSET status update failed''
        (rd_hset api ?k [(''status'', status_str st), (''updated_at'', now_str api cf s)]) s)
      (\<lambda>r v. case r of Inl e \<Rightarrow> index_sound v | Inr _ \<Rightarrow> ?R3 v)"
  proof -
    have "runs V ?R2 (context_io ''HSET status update failed''
        (rd_hset api ?k [(''status'', status_str st), (''updated_at'', t)]))
      (\<lambda>r v. case r of Inl e \<Rightarrow> index_sound v | Inr _ \<Rightarrow> ?R3 v)" for t
      by (intro runs_context runs_does [OF laws(7)]) (auto simp: index_sound_hset)
    then show ?thesis unfolding runs_def by blast
  qed
  have s4: "runs V ?R3 (case index_set st of None \<Rightarrow> ok ()
       | Some k \<Rightarrow> context_io ''SADD new status index failed'' (rd_sadd api k a))
      (\<lambda>r v. case r of Inl e \<Rightarrow> index_sound v | Inr _ \<Rightarrow> index_sound v)"
    by (cases "index_set st")
      (auto intro!: runs_ok runs_context runs_does [OF laws(9)] index_sound_sadd)
  have s5: "runs V index_sound (case ttl_seconds st of Some t \<Rightarrow> set_ttl api a t | None \<Rightarrow> clear_ttl api a)
      (\<lambda>r v. index_sound v)"
    using keeps_clear_ttl [OF api, of index_sound a] by (simp add: keeps_def index_sound_ttl)
  show ?thesis
    unfolding update_status_def
    by (rule runs_bind [OF s1], rule runs_bind [OF unlist_old_status [OF api]], rule runs_bind [OF s3], rule runs_bind [OF s4], rule s5)
qed

lemma register_sound:
  assumes api: "redis_ok api V"
  shows "runs V (\<lambda>v. index_sound v \<and> no_orphan (rec_session_id r) v) (register api cf U r) (\<lambda>_. index_sound)"
proof -
  note laws = redis_laws [OF api]
  let ?a = "rec_session_id r" and ?k = "session_key (rec_session_id r)"
  let ?P = "\<lambda>v. index_sound v \<and> no_orphan ?a v"
  let ?R1 = "\<lambda>b v. ?P v \<and> (\<not> b \<longrightarrow> in_no_set ?a v)"
  let ?R2 = "\<lambda>v. index_sound v \<and> hashes v ?k ''status'' = Some (status_str (rec_status r))"
  have new_status: "map_of (rev (to_redis_pairs cf r)) ''status'' = Some (status_str (rec_status r))"
  proof -
    have "map_of (rev (to_redis_pairs cf r)) = map_of (to_redis_pairs cf r)"
      by (rule map_of_rev_distinct [OF to_redis_keys_distinct])
    then show ?thesis by (simp add: to_redis_pairs_def)
  qed
  have s1: "runs V ?P (context_io c (rd_exists api ?k)) (\<lambda>r v. case r of Inl e \<Rightarrow> index_sound v | Inr b \<Rightarrow> ?R1 b v)" for c
    by (rule runs_context, rule runs_reads [OF laws(1)])
      (auto simp: no_orphan_def in_no_set_def key_present_def)
  have s2: "runs V (?R1 False) (context_io c (rd_hset api ?k (to_redis_pairs cf r)))
      (\<lambda>r v. case r of Inl e \<Rightarrow> index_sound v | Inr _ \<Rightarrow> ?R2 v)" for c
    by (intro runs_context runs_does [OF laws(7)]) (auto simp: index_sound_hset new_status)
  have s3: "runs V ?R2 (case index_set (rec_status r) of
        Some k \<Rightarrow> context_io c (rd_sadd api k ?a) | None \<Rightarrow> ok ())
      (\<lambda>r v. case r of Inl e \<Rightarrow> index_sound v | Inr _ \<Rightarrow> ?R2 v)" for c
    by (cases "index_set (rec_status r)")
      (auto intro!: runs_ok runs_context runs_does [OF laws(9)] index_sound_sadd)
  have other: "k \<notin> set STATUS_SETS \<Longrightarrow> keeps V ?R2 (context_io c (rd_sadd api k ?a))" for k c
    by (intro keeps_rules api) (auto intro: index_sound_sadd)
  have s4: "keeps V ?R2 (bind_io (context_io c (rd_sadd api (os_index_key U (rec_os_type r)) ?a))
      (\<lambda>_. context_io d (rd_sadd api (mode_index_key (rec_mode r)) ?a)))" for c d
    using status_set_not_key by (intro keeps_bind other) blast+
  show ?thesis
    unfolding register_def add_to_indexes_def
  proof (rule runs_bind [OF s1], goal_cases)
    case (1 b)
    show ?case
    proof (cases b)
      case True
      then show ?thesis by (auto intro: runs_fail)
    next
      case False
      have "runs V ?R2 (bind_io (context_io ''SADD OS index failed'' (rd_sadd api (os_index_key U (rec_os_type r)) ?a))
          (\<lambda>_. context_io ''SADD mode index failed'' (rd_sadd api (mode_index_key (rec_mode r)) ?a))) (\<lambda>_. index_sound)"
        using s4 unfolding keeps_def by (rule runs_weaken) auto
      then have "runs V (?R1 False) (bind_io (context_io ''HSET failed'' (rd_hset api ?k (to_redis_pairs cf r)))
          (\<lambda>_. bind_io (case index_set (rec_status r) of
              Some k \<Rightarrow> context_io ''SADD status index failed'' (rd_sadd api k ?a) | None \<Rightarrow> ok ())
            (\<lambda>_. bind_io (context_io ''SADD OS index failed'' (rd_sadd api (os_index_key U (rec_os_type r)) ?a))
              (\<lambda>_. context_io ''SADD mode index failed'' (rd_sadd api (mode_index_key (rec_mode r)) ?a)))))
          (\<lambda>_. index_sound)"
        by (rule runs_bind [OF s2 runs_bind [OF s3]])
      with False show ?thesis by simp
    qed
  qed
qed

lemma hset_sound:
  assumes api: "redis_ok api V" and "''status'' \<notin> fst ` set ps"
  shows "runs V (\<lambda>v. index_sound v \<and> no_orphan a v) (context_io c (rd_hset api (session_key a) ps)) (\<lambda>_. index_sound)"
  using assms(2) index_sound_hset by (intro runs_context runs_does [OF redis_laws(7) [OF api]]) blast+

lemma update_fields_sound:
  assumes "redis_ok api V"
  shows "runs V (\<lambda>v. index_sound v \<and> no_orphan a v) (update_memory_path api cf a path) (\<lambda>_. index_sound)"
    and "runs V (\<lambda>v. index_sound v \<and> no_orphan a v) (update_annotation_counters api cf a n m) (\<lambda>_. index_sound)"
proof -
  note hset = hset_sound [OF assms, where a = a]
  show "runs V (\<lambda>v. index_sound v \<and> no_orphan a v) (update_memory_path api cf a path) (\<lambda>_. index_sound)"
    unfolding update_memory_path_def [abs_def] by (rule runs_state, rule hset) simp
  show "runs V (\<lambda>v. index_sound v \<and> no_orphan a v) (update_annotation_counters api cf a n m) (\<lambda>_. index_sound)"
    unfolding update_annotation_counters_def [abs_def] by (rule runs_state, rule hset) simp
qed

lemma srem_all_keeps:
  assumes "redis_ok api V" and "\<And>v k. I v \<Longrightarrow> I (v_srem k a v)" shows "keeps V I (srem_all api ks a)"
  unfolding srem_all_def by (intro keeps_rules assms(1)) (use assms(2) in auto)

lemma shrinking_sound:
  assumes api: "redis_ok api V"
  shows "keeps V index_sound (delete_session api U a r)"
    and "keeps V index_sound (remove_from_active_set api a)"
    and "keeps V index_sound (cleanup_stale_index_entries api k)"
proof -
  show "keeps V index_sound (delete_session api U a r)"
    unfolding delete_session_def
    by (auto intro!: keeps_rules api srem_all_keeps index_sound_del index_sound_srem)
  show "keeps V index_sound (remove_from_active_set api a)"
    unfolding remove_from_active_set_def by (intro keeps_rules api index_sound_srem)
  show "keeps V index_sound (cleanup_stale_index_entries api k)"
    unfolding cleanup_stale_index_entries_def
    by (auto intro!: keeps_rules api index_sound_srem)
qed

section \<open>Exact effects of the successful operations\<close>

text \<open>What holds of the result and the view when an operation succeeds.\<close>

definition gives :: "('r \<Rightarrow> rview) \<Rightarrow> (rview \<Rightarrow> bool) \<Rightarrow> ('r, 'a) io \<Rightarrow> ('a \<Rightarrow> rview \<Rightarrow> bool) \<Rightarrow> bool" where
  "gives V P m Q \<longleftrightarrow> (\<forall>s a s'. P (V s) \<longrightarrow> m s = (Inr a, s') \<longrightarrow> Q a (V s'))"

lemma givesD: "gives V P m Q \<Longrightarrow> P (V s) \<Longrightarrow> m s = (Inr a, s') \<Longrightarrow> Q a (V s')"
  by (simp add: gives_def)

lemma gives_bind: "gives V P m R \<Longrightarrow> (\<And>a. gives V (R a) (f a) Q) \<Longrightarrow> gives V P (bind_io m f) Q"
  unfolding gives_def bind_io_Inr_iff by blast

lemma gives_context: "gives V P m Q \<Longrightarrow> gives V P (context_io c m) Q"
  by (simp add: gives_def)

lemma gives_ok: "(\<And>v. P v \<Longrightarrow> Q a v) \<Longrightarrow> gives V P (ok a) Q"
  by (simp add: gives_def ok_def)

lemma gives_fail: "gives V P (fail e) Q"
  by (simp add: gives_def fail_def)

lemma gives_reads: "reads V m f \<Longrightarrow> (\<And>v a. P v \<Longrightarrow> f v a \<Longrightarrow> Q a v) \<Longrightarrow> gives V P m Q"
  unfolding gives_def reads_def by metis

lemma gives_does: "does V m g \<Longrightarrow> (\<And>v a. P v \<Longrightarrow> Q a (g v)) \<Longrightarrow> gives V P m Q"
  unfolding gives_def by (metis does_apply isl_def sum.distinct(1))

lemma gives_state: "(\<And>s0. gives V P (m s0) Q) \<Longrightarrow> gives V P (\<lambda>s. m s s) Q"
  unfolding gives_def by blast

lemma gives_if: "(b \<Longrightarrow> gives V P m Q) \<Longrightarrow> (\<not> b \<Longrightarrow> gives V P n Q) \<Longrightarrow> gives V P (if b then m else n) Q"
  by simp

lemma gives_pre: "gives V P m Q \<Longrightarrow> (\<And>v. P' v \<Longrightarrow> P v) \<Longrightarrow> gives V P' m Q"
  unfolding gives_def by blast

lemma gives_post: "gives V P m Q \<Longrightarrow> (\<And>a v. Q a v \<Longrightarrow> Q' a v) \<Longrightarrow> gives V P m Q'"
  unfolding gives_def by blast

lemma gives_each: "(\<And>v0. P v0 \<Longrightarrow> gives V (\<lambda>v. v = v0) m Q) \<Longrightarrow> gives V P m Q"
  unfolding gives_def by blast

text \<open>The view after a successful status update.\<close>

definition v_status :: "string \<Rightarrow> session_status \<Rightarrow> session_status \<Rightarrow> string \<Rightarrow> rview \<Rightarrow> rview" where
  "v_status a old st t v =
     (let v = (case index_set old of None \<Rightarrow> v | Some k \<Rightarrow> v_srem k a v);
          v = v_hset (session_key a) [(''status'', status_str st), (''updated_at'', t)] v;
          v = (case index_set st of None \<Rightarrow> v | Some k \<Rightarrow> v_sadd k a v)
      in v_ttl (session_key a) None v)"

lemma gives_srem:
  assumes "redis_ok api V"
  shows "gives V (\<lambda>v. v = v0) (context_io c (rd_srem api k a)) (\<lambda>_ v. v = v_srem k a v0)"
  by (rule gives_context, rule gives_does [OF redis_laws(10) [OF assms]]) simp

lemma update_status_view:
  assumes api: "redis_ok api V" and old: "hashes v0 (session_key a) ''status'' = Some (status_str old)"
  shows "gives V (\<lambda>v. v = v0) (update_status api cf a st) (\<lambda>_ v. \<exists>t. v = v_status a old st (to_rfc3339 cf t) v0)"
proof -
  note laws = redis_laws [OF api]
  let ?k = "session_key a"
  let ?v1 = "case index_set old of None \<Rightarrow> v0 | Some k \<Rightarrow> v_srem k a v0"
  let ?v2 = "\<lambda>t. v_hset ?k [(''status'', status_str st), (''updated_at'', t)] ?v1"
  let ?v3 = "\<lambda>t. case index_set st of None \<Rightarrow> ?v2 t | Some k \<Rightarrow> v_sadd k a (?v2 t)"
  have s1: "gives V (\<lambda>v. v = v0) (context_io c (rd_hget api ?k ''status''))
      (\<lambda>cur v. v = v0 \<and> cur = Some (status_str old))" for c
    by (rule gives_context, rule gives_reads [OF laws(3)]) (simp add: old)
  have s1': "gives V (\<lambda>v. v = v0) (case index_set old of None \<Rightarrow> ok ()
       | Some k \<Rightarrow> context_io c (rd_srem api k a)) (\<lambda>_ v. v = ?v1)" for c
    using gives_srem [OF api, of v0 c _ a] by (cases "index_set old") (simp_all add: gives_ok)
  have s2: "gives V (\<lambda>v. v = v0 \<and> cur = Some (status_str old))
      (case cur of None \<Rightarrow> ok ()
       | Some s \<Rightarrow> (case status_from_str e s of Inl _ \<Rightarrow> ok ()
          | Inr old \<Rightarrow> (case index_set old of None \<Rightarrow> ok () | Some k \<Rightarrow> context_io c (rd_srem api k a))))
      (\<lambda>_ v. v = ?v1)" for cur e c
  proof (cases "cur = Some (status_str old)")
    case True
    with s1' [of c] show ?thesis by (simp only: status_round_trip simp_thms option.case sum.case)
  next
    case False
    then show ?thesis by (simp add: gives_def)
  qed
  have s3: "gives V (\<lambda>v. v = ?v1) (\<lambda>s. context_io c
        (rd_hset api ?k [(''status'', status_str st), (''updated_at'', now_str api cf s)]) s)
      (\<lambda>_ v. \<exists>t. v = ?v2 (to_rfc3339 cf t))" for c
    by (rule gives_state, rule gives_context, rule gives_does [OF laws(7)]) (auto simp: now_str_def)
  have s4: "gives V (\<lambda>v. \<exists>t. v = ?v2 (to_rfc3339 cf t)) (case index_set st of None \<Rightarrow> ok ()
       | Some k \<Rightarrow> context_io c (rd_sadd api k a)) (\<lambda>_ v. \<exists>t. v = ?v3 (to_rfc3339 cf t))" for c
  proof (cases "index_set st")
    case (Some k)
    have "gives V (\<lambda>v. \<exists>t. v = ?v2 (to_rfc3339 cf t)) (context_io c (rd_sadd api k a))
        (\<lambda>_ v. \<exists>t. v = v_sadd k a (?v2 (to_rfc3339 cf t)))"
      by (rule gives_context, rule gives_does [OF laws(9)]) auto
    with Some show ?thesis by simp
  qed (simp add: gives_ok)
  have s5: "gives V (\<lambda>v. \<exists>t. v = ?v3 (to_rfc3339 cf t)) (clear_ttl api a)
      (\<lambda>_ v. \<exists>t. v = v_ttl ?k None (?v3 (to_rfc3339 cf t)))"
    unfolding clear_ttl_def
    by (rule gives_bind [where R = "\<lambda>_ v. \<exists>t. v = v_ttl ?k None (?v3 (to_rfc3339 cf t))"],
        rule gives_context, rule gives_does [OF laws(11)], auto intro: gives_ok)
  show ?thesis
    unfolding update_status_def ttl_never option.case(1) v_status_def Let_def
    by (rule gives_bind [OF s1], rule gives_bind [OF s2], rule gives_bind [OF s3], rule gives_bind [OF s4], rule s5)
qed

lemma v_status_field:
  "hashes (v_status a old st t v) (session_key a)
     = (hashes v (session_key a))(''status'' \<mapsto> status_str st, ''updated_at'' \<mapsto> t)"
  by (auto simp: v_status_def Let_def map_add_def fun_eq_iff split: option.splits)

lemma v_status_frame:
  assumes "b \<noteq> a"
  shows "hashes (v_status a old st t v) (session_key b) = hashes v (session_key b)"
    and "b \<in> sets (v_status a old st t v) k \<longleftrightarrow> b \<in> sets v k"
  using assms by (auto simp: v_status_def Let_def split: option.splits)

lemma v_status_ttl: "ttls (v_status a old st t v) (session_key a) = None"
  by (simp add: v_status_def v_ttl_def Let_def)

lemma v_status_sets:
  assumes "index_sound v" and "hashes v (session_key a) ''status'' = Some (status_str old)"
    and "k \<in> set STATUS_SETS"
  shows "a \<in> sets (v_status a old st t v) k \<longleftrightarrow> index_set st = Some k"
proof -
  have some: "hashes v (session_key a) \<noteq> Map.empty" using assms(2) by auto
  have "in_no_set a (case index_set old of None \<Rightarrow> v | Some k \<Rightarrow> v_srem k a v)"
  proof (cases "index_set old")
    case None
    have "in_no_set a v"
      by (rule in_no_set_by_status [OF assms(1) some]) (use assms(2) None in \<open>auto simp: status_str_inj\<close>)
    with None show ?thesis by simp
  next
    case (Some k)
    with in_no_set_srem [OF assms(1) some assms(2) Some] show ?thesis by simp
  qed
  with assms(3) show ?thesis
    by (auto simp: v_status_def Let_def in_no_set_def split: option.split)
qed

lemma redis_get_upd: "redis_get (m(k \<mapsto> v)) k' = (if k' = k then Inr v else redis_get m k')"
  by (simp add: redis_get_def)

lemma redis_default_upd: "redis_default (m(k \<mapsto> v)) k' = (if k' = k then v else redis_default m k')"
  by (simp add: redis_default_def unwrap_or_def)

lemma record_with_status:
  assumes "from_redis_map cf m = Inr r" and "from_rfc3339 cf (to_rfc3339 cf t) = Inr t"
  shows "from_redis_map cf (m(''status'' \<mapsto> status_str st, ''updated_at'' \<mapsto> to_rfc3339 cf t))
    = Inr (r\<lparr>rec_status := st, rec_updated_at := t\<rparr>)"
  using assms(1) unfolding from_redis_map_def and_then_Inr_iff
  by (elim exE conjE) (simp add: redis_get_upd redis_default_upd status_round_trip assms(2), force)

lemma record_status_field:
  "from_redis_map cf m = Inr r \<Longrightarrow> m ''status'' = Some (status_str (rec_status r))"
  by (auto simp: from_redis_map_def and_then_Inr_iff redis_get_def status_from_str_Inr split: option.splits)

section \<open>Properties\<close>

text \<open>A timestamp format that reads back what it prints.\<close>

definition decimal_clock :: clock_format where
  "decimal_clock =
     \<lparr>to_rfc3339 = show_int,
      from_rfc3339 = (\<lambda>s. case (case s of c # r \<Rightarrow>
          if c = CHR ''-'' then map_option (\<lambda>n. - int n) (parse_digits r)
          else map_option int (parse_digits s) | [] \<Rightarrow> None) of Some i \<Rightarrow> Inr i | None \<Rightarrow> Inl ''bad date''),
      serde_variant_error = \<lambda>_. ''unknown variant'', int_error = \<lambda>_. ''invalid digit found in string''\<rparr>"

lemma decimal_clock_reads: "from_rfc3339 decimal_clock (to_rfc3339 decimal_clock t) = Inr t"
proof -
  obtain c cs where c: "show_nat (nat t) = c # cs" "is_digit c" using show_nat_Cons by blast
  then have "c \<noteq> CHR ''-''" by auto
  with c parse_digits_show_nat [of "nat t"] show ?thesis
    by (auto simp: decimal_clock_def show_int_def parses)
qed

text \<open>
  C24. The status index sets never contradict the records, however an operation ends. If every
  member of a status set has a record of that status or no record, the same holds after
  registering, changing the status, moving, counting, deleting, dropping from the active set and
  sweeping a set for stale entries, also when the server fails in the middle of the sequence of
  commands (for the writing operations: of a session that has no stale index entry).
\<close>

theorem index_sets_sound:
  assumes "redis_ok api V" and "index_sound (V s)"
  shows "(no_orphan (rec_session_id r) (V s) \<longrightarrow> index_sound (V (snd (register api cf U r s))))
    \<and> (no_orphan a (V s) \<longrightarrow> index_sound (V (snd (update_status api cf a st s))))
    \<and> (no_orphan a (V s) \<longrightarrow> index_sound (V (snd (update_memory_path api cf a path s))))
    \<and> (no_orphan a (V s) \<longrightarrow> index_sound (V (snd (update_annotation_counters api cf a i j s))))
    \<and> index_sound (V (snd (delete_session api U a known s)))
    \<and> index_sound (V (snd (remove_from_active_set api a s)))
    \<and> index_sound (V (snd (cleanup_stale_index_entries api k s)))"
  using register_sound [OF assms(1), of r cf U] update_status_sound [OF assms(1), of a cf st]
    update_fields_sound [OF assms(1), of a cf] shrinking_sound [OF assms(1)] assms(2)
  unfolding runs_def keeps_def by (metis prod.collapse)

theorem index_sets_sound_witness:
  "index_sound (mem_view (snd (update_status mem_redis decimal_clock ''s1'' Incomplete empty_mem)))"
proof -
  have "index_sound (mem_view empty_mem)" "no_orphan ''s1'' (mem_view empty_mem)"
    by (simp_all add: index_sound_def no_orphan_def mem_view_def empty_mem_def)
  with index_sets_sound [OF mem_redis_ok this(1), of undefined decimal_clock undefined "''s1''" Incomplete]
  show ?thesis by blast
qed

text \<open>
  A status change does exactly what it says. After a successful \<open>update_status\<close> of a session
  whose record reads back as \<open>r\<close>, the record reads back as \<open>r\<close> with the new status and a new
  \<open>updated_at\<close>, nothing else changed; the session is in the index set of the new status and in no
  other; its key has no expiry; and no other session's record or membership is touched.
\<close>

lemma update_status_exact:
  assumes "redis_ok api V" and "index_sound (V s)"
    and "from_redis_map cf (hashes (V s) (session_key a)) = Inr r"
    and "\<forall>t. from_rfc3339 cf (to_rfc3339 cf t) = Inr t"
    and "update_status api cf a st s = (Inr (), s')"
  shows "(\<exists>t. from_redis_map cf (hashes (V s') (session_key a)) = Inr (r\<lparr>rec_status := st, rec_updated_at := t\<rparr>))
    \<and> (\<forall>k \<in> set STATUS_SETS. a \<in> sets (V s') k \<longleftrightarrow> index_set st = Some k)
    \<and> ttls (V s') (session_key a) = None
    \<and> (\<forall>b. b \<noteq> a \<longrightarrow> hashes (V s') (session_key b) = hashes (V s) (session_key b)
          \<and> (\<forall>k. b \<in> sets (V s') k \<longleftrightarrow> b \<in> sets (V s) k))"
proof -
  note field = record_status_field [OF assms(3)]
  obtain t where v: "V s' = v_status a (rec_status r) st (to_rfc3339 cf t) (V s)"
    using givesD [OF update_status_view [OF assms(1) field] refl assms(5)] by blast
  show ?thesis
    unfolding v using record_with_status [OF assms(3), of t st] assms(4)
      v_status_sets [OF assms(2) field] v_status_frame v_status_field v_status_ttl by metis
qed

text \<open>A server that already holds one session.\<close>

definition one_session :: mem where
  "one_session = empty_mem\<lparr>mem_hashes := (\<lambda>_. [])(session_key ''s1'' := to_redis_pairs decimal_clock sample_record),
     mem_sets := (\<lambda>_. [])(''sessions:active'' := [''s1'']), mem_keys := [session_key ''s1'', ''sessions:active'']\<rparr>"

lemma one_session_reads:
  "from_redis_map decimal_clock (hashes (mem_view one_session) (session_key ''s1'')) = Inr sample_record"
proof -
  have "from_redis_map decimal_clock (map_of (to_redis_pairs decimal_clock sample_record)) = Inr sample_record"
    by (rule record_reads) (simp_all add: decimal_clock_reads)
  then show ?thesis by (simp add: mem_view_def one_session_def)
qed

lemma one_session_get: "registry_get mem_redis decimal_clock ''s1'' one_session = (Inr sample_record, one_session)"
proof -
  have "mem_hashes one_session (session_key ''s1'') = to_redis_pairs decimal_clock sample_record"
    by (simp add: one_session_def)
  moreover have "to_redis_pairs decimal_clock sample_record \<noteq> []" by (simp add: to_redis_pairs_def)
  ultimately show ?thesis
    using one_session_reads
    by (simp add: registry_get_def bind_io_def context_io_def mem_redis_def mem_view_def lift_result_def)
qed

lemma one_session_sound: "index_sound (mem_view one_session)"
proof (rule index_soundI)
  fix st k b
  assume k: "index_set st = Some k" and b: "b \<in> sets (mem_view one_session) k"
  then have "k = ''sessions:active''" "b = ''s1''"
    by (auto simp: mem_view_def one_session_def empty_mem_def split: if_splits)
  with k have "st = Active" using index_set_inj [of Active] by (force simp: index_set_def index_names_def)
  with \<open>b = ''s1''\<close> record_status_field [OF one_session_reads]
  show "hashes (mem_view one_session) (session_key b) ''status'' = Some (status_str st)"
    by (simp add: sample_record_def)
qed

lemma update_status_exact_witness:
  "\<exists>t. from_redis_map decimal_clock
      (hashes (mem_view (snd (update_status mem_redis decimal_clock ''s1'' Complete one_session))) (session_key ''s1''))
    = Inr (sample_record\<lparr>rec_status := Complete, rec_updated_at := t\<rparr>)"
proof -
  have "fst (update_status mem_redis decimal_clock ''s1'' Complete one_session) = Inr ()" by code_simp
  then have run: "update_status mem_redis decimal_clock ''s1'' Complete one_session
      = (Inr (), snd (update_status mem_redis decimal_clock ''s1'' Complete one_session))"
    by (simp add: prod_eq_iff)
  from update_status_exact [OF mem_redis_ok one_session_sound one_session_reads _ run] decimal_clock_reads
  show ?thesis by blast
qed

lemma register_view:
  assumes api: "redis_ok api V"
  shows "gives V (\<lambda>v. v = v0) (register api cf U r)
    (\<lambda>_ v. \<not> key_present v0 (session_key (rec_session_id r)) \<and> v = v_sadd (mode_index_key (rec_mode r)) (rec_session_id r)
       (v_sadd (os_index_key U (rec_os_type r)) (rec_session_id r)
         (case index_set (rec_status r) of None \<Rightarrow> v_hset (session_key (rec_session_id r)) (to_redis_pairs cf r) v0
          | Some k \<Rightarrow> v_sadd k (rec_session_id r) (v_hset (session_key (rec_session_id r)) (to_redis_pairs cf r) v0))))"
    (is "gives V _ _ (\<lambda>_ v. ?new \<and> v = v_sadd ?mk ?a (v_sadd ?ok ?a ?v2))")
proof -
  note laws = redis_laws [OF api]
  let ?k = "session_key ?a"
  let ?v1 = "v_hset ?k (to_redis_pairs cf r) v0"
  have s1: "gives V (\<lambda>v. v = v0) (context_io c (rd_exists api ?k)) (\<lambda>b v. v = v0 \<and> b = key_present v0 ?k)" for c
    by (rule gives_context, rule gives_reads [OF laws(1)]) simp
  have s2: "gives V (\<lambda>v. ?new \<and> v = v0) (context_io c (rd_hset api ?k (to_redis_pairs cf r))) (\<lambda>_ v. ?new \<and> v = ?v1)" for c
    by (rule gives_context, rule gives_does [OF laws(7)]) simp
  have s3: "gives V (\<lambda>v. ?new \<and> v = ?v1) (case index_set (rec_status r) of
        Some k \<Rightarrow> context_io c (rd_sadd api k ?a) | None \<Rightarrow> ok ()) (\<lambda>_ v. ?new \<and> v = ?v2)" for c
  proof (cases "index_set (rec_status r)")
    case (Some k)
    have "gives V (\<lambda>v. ?new \<and> v = ?v1) (context_io c (rd_sadd api k ?a)) (\<lambda>_ v. ?new \<and> v = v_sadd k ?a ?v1)"
      by (rule gives_context, rule gives_does [OF laws(9)]) simp
    with Some show ?thesis by simp
  qed (simp add: gives_ok)
  have s4: "gives V (\<lambda>v. ?new \<and> v = ?v2) (context_io c (rd_sadd api ?ok ?a)) (\<lambda>_ v. ?new \<and> v = v_sadd ?ok ?a ?v2)" for c
    by (rule gives_context, rule gives_does [OF laws(9)]) simp
  have s5: "gives V (\<lambda>v. ?new \<and> v = v_sadd ?ok ?a ?v2) (context_io c (rd_sadd api ?mk ?a))
      (\<lambda>_ v. ?new \<and> v = v_sadd ?mk ?a (v_sadd ?ok ?a ?v2))" for c
    by (rule gives_context, rule gives_does [OF laws(9)]) simp
  show ?thesis
    unfolding register_def add_to_indexes_def
  proof (rule gives_bind [OF s1], rule gives_if, goal_cases)
    case (1 b)
    show ?case by (rule gives_fail)
  next
    case (2 b)
    show ?case
      by (rule gives_bind [OF gives_pre [OF s2]], use 2 in blast,
          rule gives_bind [OF s3], rule gives_bind [OF s4], rule s5)
  qed
qed

lemma register_refuses:
  assumes api: "redis_ok api V" and "key_present (V s) (session_key (rec_session_id r))"
    and "register api cf U r s = (res, s')"
  shows "V s' = V s \<and> isl res"
proof -
  obtain b s1 where ex: "rd_exists api (session_key (rec_session_id r)) s = (b, s1)" by fastforce
  have "V s1 = V s" "b = Inr True \<or> isl b"
    using reads_apply [OF redis_laws(1) [OF api] ex] assms(2) by (cases b; auto)+
  with assms(3) ex show ?thesis
    by (auto simp: register_def bind_io_def context_io_def fail_def split: sum.splits)
qed

lemma registry_get_reads:
  assumes api: "redis_ok api V" and "registry_get api cf a s = (Inr got, s')"
  shows "from_redis_map cf (hashes (V s) (session_key a)) = Inr got \<and> V s' = V s"
proof -
  have s1: "gives V (\<lambda>v. v = V s) (context_io c (rd_hgetall api (session_key a)))
      (\<lambda>m v. v = V s \<and> map_of m = hashes (V s) (session_key a))" for c
    by (rule gives_context, rule gives_reads [OF redis_laws(2) [OF api]]) simp
  have "gives V (\<lambda>v. v = V s) (registry_get api cf a)
      (\<lambda>got v. from_redis_map cf (hashes (V s) (session_key a)) = Inr got \<and> v = V s)"
    unfolding registry_get_def
    by (rule gives_bind [OF s1]) (auto simp: gives_def lift_result_def fail_def)
  from givesD [OF this refl assms(2)] show ?thesis .
qed

lemma map_of_fresh: "map_of (rev (to_redis_pairs cf r)) = map_of (to_redis_pairs cf r)"
  by (rule map_of_rev_distinct [OF to_redis_keys_distinct])

lemma to_redis_pairs_nonempty: "map_of (to_redis_pairs cf r) \<noteq> Map.empty"
  by (simp add: to_redis_pairs_def)

text \<open>
  A registered session is there and cannot be registered twice. After a successful \<open>register\<close>,
  reading the session returns exactly the record (or a failure of the server), the session is in
  the index set of its status, of its platform and of its mode, the other sessions' records are
  untouched, and registering the same id again, whatever else the record says, is refused without
  changing anything.
\<close>

lemma register_then_get:
  assumes "redis_ok api V" and "\<forall>t. from_rfc3339 cf (to_rfc3339 cf t) = Inr t"
    and "register api cf U r s = (Inr (), s')"
  shows "(\<forall>got s''. registry_get api cf (rec_session_id r) s' = (Inr got, s'') \<longrightarrow> got = r)
    \<and> (\<forall>k. index_set (rec_status r) = Some k \<longrightarrow> rec_session_id r \<in> sets (V s') k)
    \<and> rec_session_id r \<in> sets (V s') (os_index_key U (rec_os_type r))
    \<and> rec_session_id r \<in> sets (V s') (mode_index_key (rec_mode r))
    \<and> (\<forall>b. b \<noteq> rec_session_id r \<longrightarrow> hashes (V s') (session_key b) = hashes (V s) (session_key b))
    \<and> (\<forall>r2 res s2. rec_session_id r2 = rec_session_id r \<and> register api cf U r2 s' = (res, s2) \<longrightarrow>
         V s2 = V s' \<and> isl res)"
proof -
  let ?a = "rec_session_id r"
  have fresh: "\<not> key_present (V s) (session_key ?a)"
    and v: "V s' = v_sadd (mode_index_key (rec_mode r)) ?a (v_sadd (os_index_key U (rec_os_type r)) ?a
      (case index_set (rec_status r) of None \<Rightarrow> v_hset (session_key ?a) (to_redis_pairs cf r) (V s)
       | Some k \<Rightarrow> v_sadd k ?a (v_hset (session_key ?a) (to_redis_pairs cf r) (V s))))"
    using givesD [OF register_view [OF assms(1)] refl assms(3)] by auto
  have hash: "hashes (V s') (session_key ?a) = map_of (to_redis_pairs cf r)"
    using fresh unfolding v by (simp add: key_present_def map_of_fresh split: option.split)
  have "\<forall>got s''. registry_get api cf ?a s' = (Inr got, s'') \<longrightarrow> got = r"
    using registry_get_reads [OF assms(1)] record_reads [of cf r] assms(2) hash by (metis sum.inject(2))
  moreover have "key_present (V s') (session_key ?a)"
    using hash to_redis_pairs_nonempty by (simp add: key_present_def)
  then have "\<forall>r2 res s2. rec_session_id r2 = ?a \<and> register api cf U r2 s' = (res, s2) \<longrightarrow> V s2 = V s' \<and> isl res"
    using register_refuses [OF assms(1)] by metis
  moreover have "\<forall>k. index_set (rec_status r) = Some k \<longrightarrow> ?a \<in> sets (V s') k" unfolding v by auto
  moreover have "?a \<in> sets (V s') (os_index_key U (rec_os_type r))"
    "?a \<in> sets (V s') (mode_index_key (rec_mode r))"
    "\<forall>b. b \<noteq> ?a \<longrightarrow> hashes (V s') (session_key b) = hashes (V s) (session_key b)"
    unfolding v by (auto split: option.split)
  ultimately show ?thesis by blast
qed

lemma register_then_get_witness:
  "\<exists>s'. register mem_redis decimal_clock id sample_record empty_mem = (Inr (), s')
     \<and> ''s1'' \<in> sets (mem_view s') ''sessions:active''"
proof -
  let ?run = "register mem_redis decimal_clock id sample_record empty_mem"
  have "fst ?run = Inr ()"
    by (simp add: register_def add_to_indexes_def bind_io_def context_io_def mem_redis_def mem_present_def
        empty_mem_def ok_def split: option.split)
  then have run: "?run = (Inr (), snd ?run)" by (simp add: prod_eq_iff)
  have "index_set (rec_status sample_record) = Some ''sessions:active''" by code_simp
  with register_then_get [OF mem_redis_ok _ run] decimal_clock_reads run show ?thesis
    by (auto simp: sample_record_def)
qed

end
