(* ===== verification/MA_Claims.thy ===== *)
theory MA_Claims
  imports MA_Registry_Facts
begin

text \<open>
  The parts of the registry that decide who may annotate and what may be deleted: claims as a state
  machine of interleaved clients, complete deletion, and the input of the retention sweep.
\<close>

section \<open>Claims\<close>

text \<open>
  What other clients may do while a session is claimed: try to claim it, refresh or verify any
  claim id, ask for the owner, in any order, each operation running as a whole. Releasing and the
  passing of the time to live end a claim and are not among them.
\<close>

inductive contends :: "'r redis \<Rightarrow> string \<Rightarrow> 'r \<Rightarrow> 'r \<Rightarrow> bool" for api session_id where
  contend_none: "contends api session_id s s"
| contend_claim: "contends api session_id s s1 \<Longrightarrow> claim_session api session_id a c ttl s1 = (r, s2) \<Longrightarrow>
    contends api session_id s s2"
| contend_refresh: "contends api session_id s s1 \<Longrightarrow> refresh_claim api session_id c ttl s1 = (r, s2) \<Longrightarrow>
    contends api session_id s s2"
| contend_verify: "contends api session_id s s1 \<Longrightarrow> verify_claim_id api session_id c s1 = (r, s2) \<Longrightarrow>
    contends api session_id s s2"
| contend_owner: "contends api session_id s s1 \<Longrightarrow> get_claim_owner api session_id s1 = (r, s2) \<Longrightarrow>
    contends api session_id s s2"

lemma claim_value_matches_iff:
  "claim_value_matches stored c \<longleftrightarrow> c \<noteq> [] \<and> (\<exists>a. stored = a @ '':'' @ c)"
  by (auto simp: claim_value_matches_def unwrap_or_def strip_suffix_def suffix_def split: option.splits)

lemma claim_key_apart [simp]: "claim_key a \<noteq> session_key b" "session_key b \<noteq> claim_key a"
  by (simp_all add: claim_key_def session_key_def)

lemma set_nx_apply:
  "set_nx V m k x t \<Longrightarrow> m s = (r, s') \<Longrightarrow>
     V s' = V s \<and> r \<noteq> Inr True \<or> \<not> key_present (V s) k \<and> V s' = v_set k x t (V s) \<and> r \<noteq> Inr False"
  unfolding set_nx_def by (cases r) (fastforce split: bool.splits)+

lemma claim_session_effect:
  assumes "redis_ok api V" and "claim_session api sid a c ttl s = (r, s')"
  shows "V s' = V s \<and> (\<forall>x. r \<noteq> Inr (Some x))
    \<or> \<not> key_present (V s) (claim_key sid) \<and> V s' = v_set (claim_key sid) (a @ '':'' @ c) (uint ttl) (V s)
      \<and> r \<noteq> Inr None"
proof -
  obtain b s1 where set: "rd_set_nx_ex api (claim_key sid) (a @ '':'' @ c) ttl s = (b, s1)" by fastforce
  have "s' = s1 \<and> (case b of Inl _ \<Rightarrow> isl r | Inr True \<Rightarrow> r = Inr (Some c) | Inr False \<Rightarrow> r = Inr None)"
    using assms(2) set by (auto simp: claim_session_def bind_io_def context_io_def ok_def split: sum.splits bool.splits)
  with set_nx_apply [OF redis_laws(13) [OF assms(1)] set] show ?thesis
    by (auto split: sum.splits bool.splits)
qed

lemma claim_session_granted:
  assumes "redis_ok api V" and "claim_session api sid a c ttl s = (Inr (Some c'), s')"
  shows "c' = c \<and> \<not> key_present (V s) (claim_key sid)
    \<and> V s' = v_set (claim_key sid) (a @ '':'' @ c) (uint ttl) (V s)"
  using claim_session_effect [OF assms] assms(2)
  by (auto simp: claim_session_def bind_io_def context_io_def ok_def split: sum.splits prod.splits if_splits)

lemma verify_reads:
  assumes "redis_ok api V" and "verify_claim_id api sid c s = (r, s')"
  shows "V s' = V s \<and> (\<forall>b. r = Inr b \<longrightarrow>
     b = (case strings (V s) (claim_key sid) of None \<Rightarrow> False | Some v \<Rightarrow> claim_value_matches v c))"
proof -
  obtain x s1 where get: "rd_get api (claim_key sid) s = (x, s1)" by fastforce
  from reads_apply [OF redis_laws(6) [OF assms(1)] get] assms(2) get show ?thesis
    by (auto simp: verify_claim_id_def bind_io_def context_io_def ok_def unwrap_or_def split: sum.splits option.splits)
qed

lemma owner_reads:
  assumes "redis_ok api V" and "get_claim_owner api sid s = (r, s')" shows "V s' = V s"
proof -
  obtain x s1 where get: "rd_get api (claim_key sid) s = (x, s1)" by fastforce
  from reads_apply [OF redis_laws(6) [OF assms(1)] get] assms(2) get show ?thesis
    by (auto simp: get_claim_owner_def bind_io_def context_io_def ok_def split: sum.splits)
qed

lemma refresh_keeps_claim:
  assumes api: "redis_ok api V"
  shows "keeps V (\<lambda>v. strings v k = x) (refresh_claim api sid c ttl)"
  unfolding refresh_claim_def Let_def
  by (intro keeps_bind keeps_context keeps_commands(6) [OF api])
    (auto intro!: keeps_bind keeps_context keeps_pure keeps_commands(12) [OF api])

lemma contends_keeps_claim:
  assumes api: "redis_ok api V"
  shows "contends api sid s s' \<Longrightarrow> strings (V s) (claim_key sid) = Some x \<Longrightarrow> strings (V s') (claim_key sid) = Some x"
proof (induction rule: contends.induct)
  case (contend_claim s s1 a c ttl r s2)
  then have "key_present (V s1) (claim_key sid)" by (simp add: key_present_def)
  with claim_session_effect [OF api contend_claim.hyps(2)] contend_claim show ?case by auto
next
  case (contend_refresh s s1 c ttl r s2)
  with refresh_keeps_claim [OF api, of "claim_key sid" "Some x" sid c ttl] show ?case
    by (auto simp: keeps_def runs_def)
next
  case (contend_verify s s1 c r s2)
  with verify_reads [OF api contend_verify.hyps(2)] show ?case by simp
next
  case (contend_owner s s1 r s2)
  with owner_reads [OF api contend_owner.hyps(2)] show ?case by simp
qed simp

text \<open>
  C25. Claims are exclusive. From the moment a claim is granted, however other clients interleave
  claim attempts, refreshes and verifications, no further attempt on that session is granted, the
  granted id verifies (whenever the server answers), and no other id without a colon does.
\<close>

theorem claim_exclusive:
  assumes "redis_ok api V" and "claim_session api sid a c ttl s = (Inr (Some g), s1)"
    and "contends api sid s1 s2" and "CHR '':'' \<notin> set c" and "c \<noteq> []"
  shows "(\<forall>a' c' ttl' r s3. claim_session api sid a' c' ttl' s2 = (r, s3) \<longrightarrow> (\<forall>x. r \<noteq> Inr (Some x)))
    \<and> (\<forall>b s3. verify_claim_id api sid g s2 = (Inr b, s3) \<longrightarrow> b)
    \<and> (\<forall>c' s3. verify_claim_id api sid c' s2 = (Inr True, s3) \<and> CHR '':'' \<notin> set c' \<longrightarrow> c' = g)"
proof -
  have g: "g = c" "strings (V s1) (claim_key sid) = Some (a @ '':'' @ c)"
    using claim_session_granted [OF assms(1,2)] by (auto simp: v_set_def)
  have held: "strings (V s2) (claim_key sid) = Some (a @ '':'' @ c)"
    by (rule contends_keeps_claim [OF assms(1,3) g(2)])
  have "c' = c" if "a @ '':'' @ c = a' @ '':'' @ c'" "CHR '':'' \<notin> set c'" for a' c'
    using that assms(4) by (auto simp: append_eq_append_conv2 append_eq_Cons_conv Cons_eq_append_conv)
  then have "claim_value_matches (a @ '':'' @ c) c' \<Longrightarrow> CHR '':'' \<notin> set c' \<Longrightarrow> c' = c" for c'
    unfolding claim_value_matches_iff by blast
  moreover have "claim_value_matches (a @ '':'' @ c) c"
    using assms(5) unfolding claim_value_matches_iff by blast
  moreover have "key_present (V s2) (claim_key sid)" using held by (simp add: key_present_def)
  then have "claim_session api sid a' c' ttl' s2 = (r, s3) \<Longrightarrow> r \<noteq> Inr (Some x)" for a' c' ttl' r s3 x
    using claim_session_effect [OF assms(1)] by blast
  moreover have "verify_claim_id api sid c' s2 = (Inr b, s3) \<Longrightarrow> b = claim_value_matches (a @ '':'' @ c) c'" for c' b s3
    using verify_reads [OF assms(1), of sid c' s2 "Inr b" s3] held by simp
  ultimately show ?thesis using g(1) by blast
qed

theorem claim_exclusive_witness:
  "fst (claim_session mem_redis ''s1'' ''eve'' ''c2'' 60
      (snd (claim_session mem_redis ''s1'' ''ann'' ''c1'' 60 empty_mem))) \<noteq> Inr (Some ''c2'')"
proof -
  let ?run = "claim_session mem_redis ''s1'' ''ann'' ''c1'' 60 empty_mem"
  have "fst ?run = Inr (Some ''c1'')"
    by (simp add: claim_session_def bind_io_def context_io_def ok_def mem_redis_def mem_present_def empty_mem_def)
  then have run: "?run = (Inr (Some ''c1''), snd ?run)" by (simp add: prod_eq_iff)
  obtain r s3 where again: "claim_session mem_redis ''s1'' ''eve'' ''c2'' 60 (snd ?run) = (r, s3)" by fastforce
  have "CHR '':'' \<notin> set ''c1''" "''c1'' \<noteq> []" by simp_all
  from claim_exclusive [OF mem_redis_ok run contend_none this] again
  have "r \<noteq> Inr (Some ''c2'')" by blast
  with again show ?thesis by simp
qed

section \<open>Deletion\<close>

lemma gives_srem_all:
  assumes api: "redis_ok api V"
  shows "gives V (\<lambda>v. v = v0) (srem_all api ks a)
    (\<lambda>_ v. hashes v = hashes v0 \<and> strings v = strings v0
       \<and> (\<forall>k. sets v k = (if k \<in> set ks then sets v0 k - {a} else sets v0 k)))"
  unfolding srem_all_def
proof (induction ks arbitrary: v0)
  case Nil
  show ?case unfolding fold_io.simps by (rule gives_ok) simp
next
  case (Cons k ks)
  show ?case
    unfolding fold_io.simps
  proof (rule gives_bind [OF gives_srem [OF api]])
    fix u
    show "gives V (\<lambda>v. v = v_srem k a v0)
        (fold_io (\<lambda>k _. context_io (''SREM '' @ k @ '' failed'') (rd_srem api k a)) ks u)
        (\<lambda>_ v. hashes v = hashes v0 \<and> strings v = strings v0
           \<and> (\<forall>k'. sets v k' = (if k' \<in> set (k # ks) then sets v0 k' - {a} else sets v0 k')))"
      using Cons [of "v_srem k a v0"] by (auto simp: gives_def)
  qed
qed

lemma del_count:
  assumes "redis_ok api V" and "rd_del api k s = (Inr n, s')" shows "0 < n \<longleftrightarrow> key_present (V s) k"
proof -
  from assms(1) have "\<forall>k s n s'. rd_del api k s = (Inr n, s') \<longrightarrow> (n = 0 \<longleftrightarrow> \<not> key_present (V s) k)"
    by (simp add: redis_ok_def)
  with assms(2) show ?thesis by blast
qed

definition record_sets :: "(string \<Rightarrow> string) \<Rightarrow> session_record option \<Rightarrow> string list" where
  "record_sets U known =
     (case known of
        Some r \<Rightarrow> [os_index_key U (rec_os_type r), mode_index_key (rec_mode r)]
      | None \<Rightarrow> map (os_index_key U) [''LINUX'', ''WINDOWS'', ''MACOS''] @ map mode_index_key [Manual, Automated])"

lemma gives_del:
  assumes api: "redis_ok api V"
  shows "gives V (\<lambda>v. v = v0) (context_io c (rd_del api k)) (\<lambda>n v. v = v_del k v0 \<and> (0 < n \<longleftrightarrow> key_present v0 k))"
proof (rule gives_context)
  show "gives V (\<lambda>v. v = v0) (rd_del api k) (\<lambda>n v. v = v_del k v0 \<and> (0 < n \<longleftrightarrow> key_present v0 k))"
    unfolding gives_def
  proof (intro allI impI)
    fix s n s' assume "V s = v0" and run: "rd_del api k s = (Inr n, s')"
    with does_apply [OF redis_laws(8) [OF api] run] del_count [OF api run]
    show "V s' = v_del k v0 \<and> (0 < n \<longleftrightarrow> key_present v0 k)" by auto
  qed
qed

text \<open>The view between the two deletions of keys, and at the end.\<close>

definition unlisted :: "string \<Rightarrow> string list \<Rightarrow> rview \<Rightarrow> rview \<Rightarrow> bool" where
  "unlisted a ks v0 v \<longleftrightarrow>
     hashes v = (hashes v0)(session_key a := Map.empty) \<and> strings v = (strings v0)(session_key a := None)
     \<and> (\<forall>k. k \<noteq> session_key a \<longrightarrow> sets v k = (if k \<in> set ks then sets v0 k - {a} else sets v0 k))"

lemma gives_unlist:
  assumes "redis_ok api V"
  shows "gives V (\<lambda>v. unlisted a ks v0 v \<and> b) (srem_all api ks' a) (\<lambda>_ v. unlisted a (ks @ ks') v0 v \<and> b)"
proof (rule gives_each)
  fix v1 assume v1: "unlisted a ks v0 v1 \<and> b"
  show "gives V (\<lambda>v. v = v1) (srem_all api ks' a) (\<lambda>_ v. unlisted a (ks @ ks') v0 v \<and> b)"
  proof (rule gives_post [OF gives_srem_all [OF assms]])
    fix v :: rview assume "hashes v = hashes v1 \<and> strings v = strings v1
      \<and> (\<forall>k. sets v k = (if k \<in> set ks' then sets v1 k - {a} else sets v1 k))"
    with v1 show "unlisted a (ks @ ks') v0 v \<and> b" unfolding unlisted_def by auto
  qed
qed

definition v_deleted :: "(string \<Rightarrow> string) \<Rightarrow> string \<Rightarrow> session_record option \<Rightarrow> rview \<Rightarrow> rview \<Rightarrow> bool" where
  "v_deleted U a known v0 v \<longleftrightarrow>
     (\<exists>v1. unlisted a (STATUS_SETS @ record_sets U known) v0 v1 \<and> v = v_del (claim_key a) v1)"

lemma delete_session_view:
  assumes api: "redis_ok api V"
  shows "gives V (\<lambda>v. v = v0) (delete_session api U a known)
    (\<lambda>existed v. a \<noteq> [] \<and> v_deleted U a known v0 v \<and> existed = key_present v0 (session_key a))"
proof (cases "a = []")
  case True
  then show ?thesis by (simp add: delete_session_def gives_fail)
next
  case False
  let ?e = "\<lambda>n. (0 < (n :: nat)) = key_present v0 (session_key a)"
  have s1: "gives V (\<lambda>v. v = v0) (context_io c (rd_del api (session_key a)))
      (\<lambda>n v. unlisted a [] v0 v \<and> ?e n)" for c
    by (rule gives_post [OF gives_del [OF api]]) (auto simp: unlisted_def)
  have s2: "gives V (\<lambda>v. unlisted a [] v0 v \<and> ?e n) (srem_all api STATUS_SETS a)
      (\<lambda>_ v. unlisted a STATUS_SETS v0 v \<and> ?e n)" for n
    using gives_unlist [OF api, of a "[]" v0 _ STATUS_SETS] by simp
  have s3: "gives V (\<lambda>v. unlisted a STATUS_SETS v0 v \<and> ?e n) (srem_all api (record_sets U known) a)
      (\<lambda>_ v. unlisted a (STATUS_SETS @ record_sets U known) v0 v \<and> ?e n)" for n
    by (rule gives_unlist [OF api])
  have s4: "gives V (\<lambda>v. unlisted a (STATUS_SETS @ record_sets U known) v0 v \<and> ?e n)
      (context_io c (rd_del api (claim_key a))) (\<lambda>_ v. v_deleted U a known v0 v \<and> ?e n)" for c n
    by (rule gives_context, rule gives_does [OF redis_laws(8) [OF api]]) (auto simp: v_deleted_def)
  have s5: "gives V (\<lambda>v. v_deleted U a known v0 v \<and> ?e n) (ok (0 < n))
      (\<lambda>existed v. a \<noteq> [] \<and> v_deleted U a known v0 v \<and> existed = key_present v0 (session_key a))" for n
    using False by (intro gives_ok) simp
  show ?thesis
    unfolding delete_session_def record_sets_def [symmetric] if_not_P [OF False]
  proof (rule gives_bind [OF s1])
    fix n
    show "gives V (\<lambda>v. unlisted a [] v0 v \<and> ?e n)
      (bind_io (srem_all api STATUS_SETS a) (\<lambda>_. bind_io (srem_all api (record_sets U known) a)
        (\<lambda>_. bind_io (context_io ''DEL claim failed'' (rd_del api (claim_key a))) (\<lambda>_. ok (0 < n)))))
      (\<lambda>existed v. a \<noteq> [] \<and> v_deleted U a known v0 v \<and> existed = key_present v0 (session_key a))"
      by (rule gives_bind [OF s2 gives_bind [OF s3 gives_bind [OF s4 s5]]])
  qed
qed

lemma index_keys_apart: "os_index_key U os \<noteq> session_key a" "os_index_key U os \<noteq> claim_key a"
    "mode_index_key m \<noteq> session_key a" "mode_index_key m \<noteq> claim_key a"
  by (simp_all add: os_index_key_def mode_index_key_def session_key_def claim_key_def)

lemma total_delete_session:
  assumes "a \<noteq> []" shows "total (delete_session mem_redis U a known)"
  unfolding delete_session_def srem_all_def if_not_P [OF assms] by (intro total_rules)

text \<open>
  C19. A deleted session leaves nothing behind. A successful \<open>delete_session\<close> has removed the record,
  the claim and the session's entry in every status set and in the platform and mode sets of its
  record (in all of them when no record was found); it reports whether a record was there; and no
  other session has lost its record, its claim or a membership.
\<close>

theorem delete_session_complete:
  assumes "redis_ok api V" and "delete_session api U a known s = (Inr existed, s')"
  shows "hashes (V s') (session_key a) = Map.empty \<and> strings (V s') (claim_key a) = None
    \<and> (\<forall>k \<in> set STATUS_SETS \<union> set (record_sets U known). a \<notin> sets (V s') k)
    \<and> existed = key_present (V s) (session_key a)
    \<and> (\<forall>b. b \<noteq> a \<longrightarrow> hashes (V s') (session_key b) = hashes (V s) (session_key b)
          \<and> strings (V s') (claim_key b) = strings (V s) (claim_key b)
          \<and> (\<forall>k. k \<noteq> session_key a \<and> k \<noteq> claim_key a \<longrightarrow> (b \<in> sets (V s') k \<longleftrightarrow> b \<in> sets (V s) k)))"
proof -
  obtain v1 where v1: "unlisted a (STATUS_SETS @ record_sets U known) (V s) v1"
    "V s' = v_del (claim_key a) v1" "existed = key_present (V s) (session_key a)"
    using givesD [OF delete_session_view [OF assms(1)] refl assms(2)] by (auto simp: v_deleted_def)
  have "k \<noteq> session_key a \<and> k \<noteq> claim_key a" if "k \<in> set STATUS_SETS \<union> set (record_sets U known)" for k
    using that index_keys_apart status_set_not_key
    by (cases known) (auto simp: record_sets_def; metis)+
  with v1 show ?thesis by (auto simp: unlisted_def)
qed

theorem delete_session_complete_witness:
  "hashes (mem_view (snd (delete_session mem_redis id ''s1'' None one_session))) (session_key ''s1'') = Map.empty"
proof -
  have "(''s1'' :: string) \<noteq> []" by simp
  from total_run [OF total_delete_session [OF this]]
  obtain e s' where run: "delete_session mem_redis id ''s1'' None one_session = (Inr e, s')" by blast
  show ?thesis
    by (rule conjunct1 [OF delete_session_complete [OF mem_redis_ok, of id "''s1''" None one_session e]])
      (simp only: run snd_conv)
qed

section \<open>Retention\<close>

text \<open>An invariant of the \<open>SCAN\<close> loop: kept by every key the server may return.\<close>

definition scan_step :: "('r \<Rightarrow> rview) \<Rightarrow> ('a \<Rightarrow> rview \<Rightarrow> bool) \<Rightarrow> string \<Rightarrow> (string \<Rightarrow> 'a \<Rightarrow> ('r, 'a) io) \<Rightarrow> bool" where
  "scan_step V I p f \<longleftrightarrow> (\<forall>x a s r s'. prefix p x \<longrightarrow> I a (V s) \<longrightarrow> f x a s = (r, s') \<longrightarrow>
     V s' = V s \<and> (\<forall>b. r = Inr b \<longrightarrow> I b (V s')))"

lemma fold_io_inv:
  assumes step: "scan_step V I p f"
  shows "\<forall>x \<in> set xs. prefix p x \<Longrightarrow> I a (V s) \<Longrightarrow> fold_io f xs a s = (r, s') \<Longrightarrow>
    V s' = V s \<and> (\<forall>b. r = Inr b \<longrightarrow> I b (V s'))"
proof (induction xs arbitrary: a s)
  case (Cons x xs)
  obtain r1 s1 where f: "f x a s = (r1, s1)" by fastforce
  have "prefix p x" using Cons.prems(1) by simp
  with step f Cons.prems(2) have s1: "V s1 = V s \<and> (\<forall>b. r1 = Inr b \<longrightarrow> I b (V s1))"
    unfolding scan_step_def by blast
  show ?case
  proof (cases r1)
    case (Inl e)
    with Cons.prems(3) f s1 show ?thesis by (auto simp: bind_io_def)
  next
    case (Inr b)
    with Cons.prems(3) f have "fold_io f xs b s1 = (r, s')" by (simp add: bind_io_def)
    with Cons.IH [of b s1] Cons.prems(1) s1 Inr show ?thesis by auto
  qed
qed (auto simp: ok_def)

lemma scan_loop_inv:
  assumes api: "redis_ok api V" and step: "scan_step V I p per_key"
    and "scan_loop api (p @ ''*'') n err per_key cursor acc s = Some (r, s')" and "I acc (V s)"
  shows "V s' = V s \<and> (\<forall>b. r = Inr b \<longrightarrow> I b (V s'))"
proof -
  let ?P = "\<lambda>api' pattern page err f cursor acc s res.
      api' = api \<longrightarrow> pattern = p @ ''*'' \<longrightarrow> f = per_key \<longrightarrow> I acc (V s) \<longrightarrow>
      V (snd res) = V s \<and> (\<forall>b. fst res = Inr b \<longrightarrow> I b (V (snd res)))"
  have "?P api (p @ ''*'') n err per_key cursor acc s (r, s')"
  proof (rule scan_loop.raw_induct [where P = ?P, OF _ assms(3)])
    fix rec api' pattern page err f cursor acc s res
    assume IH: "\<And>api' pattern page err f cursor acc s res.
        rec api' pattern page err f cursor acc s = Some res \<Longrightarrow> ?P api' pattern page err f cursor acc s res"
      and body: "(case context_io err (rd_scan api' cursor pattern page) s of
        (Inl e, s) \<Rightarrow> Some (Inl e, s)
      | (Inr (next_cursor, keys), s) \<Rightarrow>
          (case fold_io f keys acc s of
             (Inl e, s) \<Rightarrow> Some (Inl e, s)
           | (Inr acc, s) \<Rightarrow>
               if next_cursor = 0 then Some (Inr acc, s)
               else rec api' pattern page err f next_cursor acc s)) = Some res"
    show "?P api' pattern page err f cursor acc s res"
    proof (intro impI)
      assume same: "api' = api" "pattern = p @ ''*''" "f = per_key" and acc: "I acc (V s)"
      obtain q s1 where scan: "rd_scan api cursor (p @ ''*'') page s = (q, s1)" by fastforce
      have s1: "V s1 = V s" "\<And>c ks. q = Inr (c, ks) \<Longrightarrow> \<forall>x \<in> set ks. prefix p x"
        using reads_apply [OF redis_laws(14) [OF api] scan] by auto
      show "V (snd res) = V s \<and> (\<forall>b. fst res = Inr b \<longrightarrow> I b (V (snd res)))"
      proof (cases q)
        case (Inl e)
        with body scan same s1 show ?thesis by (auto simp: context_io_def)
      next
        case (Inr answer)
        then obtain c ks where page: "q = Inr (c, ks)" by (cases answer) auto
        obtain r2 s2 where keys: "fold_io per_key ks acc s1 = (r2, s2)" by fastforce
        have "I acc (V s1)" using acc s1(1) by simp
        note s2 = fold_io_inv [OF step s1(2) [OF page] this keys]
        show ?thesis
        proof (cases "isl r2 \<or> c = 0")
          case True
          have "fst res = r2 \<and> snd res = s2"
          proof (cases r2)
            case (Inl e)
            with body keys show ?thesis by (auto simp: context_io_def scan same page)
          next
            case (Inr b)
            with body keys True show ?thesis by (auto simp: context_io_def scan same page)
          qed
          with s2 show ?thesis by (metis s1(1))
        next
          case False
          then obtain b where b: "r2 = Inr b" "c \<noteq> 0" by (cases r2) auto
          with body scan same page keys have "rec api' pattern page err f c b s2 = Some res"
            by (auto simp: context_io_def)
          moreover have "I b (V s2)" using s2 b(1) by blast
          ultimately show ?thesis using IH s1(1) s2 same by metis
        qed
      qed
    qed
  qed
  with assms(4) show ?thesis unfolding fst_conv snd_conv by blast
qed

definition dated :: "clock_format \<Rightarrow> string option \<Rightarrow> int option" where
  "dated cf x = Option.bind x (\<lambda>s. case from_rfc3339 cf s of Inr t \<Rightarrow> Some t | Inl _ \<Rightarrow> None)"

lemma dated_Some: "dated cf x = Some t \<Longrightarrow> \<exists>u. x = Some u \<and> from_rfc3339 cf u = Inr t"
  by (cases x) (auto simp: dated_def split: sum.splits)

definition expired_in :: "clock_format \<Rightarrow> int \<Rightarrow> rview \<Rightarrow> string \<Rightarrow> bool" where
  "expired_in cf cutoff v a \<longleftrightarrow> a \<noteq> [] \<and> (\<exists>k u t. prefix ''session:'' k
     \<and> hashes v k ''session_id'' = Some a \<and> hashes v k ''status'' = Some ''incomplete''
     \<and> hashes v k ''updated_at'' = Some u \<and> from_rfc3339 cf u = Inr t \<and> t < cutoff)"

lemma expired_inI:
  "\<lbrakk>a \<noteq> []; prefix ''session:'' k; hashes v k ''session_id'' = Some a; hashes v k ''status'' = Some ''incomplete'';
    dated cf (hashes v k ''updated_at'') = Some t; t < cutoff\<rbrakk> \<Longrightarrow> expired_in cf cutoff v a"
  unfolding expired_in_def using dated_Some by blast

lemma incomplete_step_adds:
  assumes "incomplete_step api cf cutoff x ids s = (r, s')" and "rd_hgetall api x s = (Inr m, s1)"
    and "map_of m = h"
  shows "s' = s1 \<and> (r = Inr ids \<or> (\<exists>a t. r = Inr (ids @ [a]) \<and> a \<noteq> [] \<and> h ''session_id'' = Some a
    \<and> h ''status'' = Some ''incomplete'' \<and> dated cf (h ''updated_at'') = Some t \<and> t < cutoff))"
proof -
  let ?g = "map_of m"
  have "(if ?g ''status'' \<noteq> Some ''incomplete'' then ok ids
      else case dated cf (?g ''updated_at'') of None \<Rightarrow> ok ids
        | Some t \<Rightarrow> if cutoff \<le> t then ok ids
            else case ?g ''session_id'' of None \<Rightarrow> ok ids | Some a \<Rightarrow> ok (if a \<noteq> [] then ids @ [a] else ids)) s1 = (r, s')"
    using assms(1) unfolding dated_def by (simp add: incomplete_step_def bind_io_def context_io_def Let_def assms(2) split del: if_split)
  note eq = this [unfolded assms(3)]
  show ?thesis
  proof (cases "h ''status'' = Some ''incomplete''")
    case True
    note status = True
    show ?thesis
    proof (cases "dated cf (h ''updated_at'')")
      case (Some t)
      with eq status show ?thesis by (cases "h ''session_id''") (auto simp: ok_def split: if_splits)
    qed (use eq status in \<open>simp add: ok_def\<close>)
  qed (use eq in \<open>simp add: ok_def\<close>)
qed

lemma incomplete_step_scans:
  assumes api: "redis_ok api V"
  shows "scan_step V (\<lambda>ids v. v = v0 \<and> (\<forall>a \<in> set ids. expired_in cf cutoff v0 a)) ''session:''
    (incomplete_step api cf cutoff)"
  unfolding scan_step_def
proof (intro allI impI)
  fix x ids s r s'
  let ?I = "\<lambda>ids. \<forall>a \<in> set ids. expired_in cf cutoff v0 a"
  assume x: "prefix ''session:'' x" and I: "V s = v0 \<and> ?I ids" and run: "incomplete_step api cf cutoff x ids s = (r, s')"
  obtain q s1 where get: "rd_hgetall api x s = (q, s1)" by fastforce
  have s1: "V s1 = v0" "\<And>m. q = Inr m \<Longrightarrow> map_of m = hashes v0 x"
    using reads_apply [OF redis_laws(2) [OF api] get] I by auto
  show "V s' = V s \<and> (\<forall>b. r = Inr b \<longrightarrow> V s' = v0 \<and> ?I b)"
  proof (cases q)
    case (Inl e)
    with run get s1 I show ?thesis by (auto simp: incomplete_step_def bind_io_def context_io_def)
  next
    case (Inr m)
    note step = incomplete_step_adds [OF run get [unfolded Inr] s1(2) [OF Inr]]
    then consider "r = Inr ids" | a where "r = Inr (ids @ [a])" "expired_in cf cutoff v0 a"
      using expired_inI [OF _ x] by blast
    then have "\<forall>b. r = Inr b \<longrightarrow> ?I b" using I by cases auto
    moreover have "V s' = v0" using step s1(1) by simp
    ultimately show ?thesis using I by simp
  qed
qed

text \<open>
  The retention sweep is offered only what it may delete. Every id \<open>list_incomplete_before\<close>
  returns, and so every session the sweep will destroy, belongs to a record under \<open>session:*\<close> whose
  status is \<open>incomplete\<close> and whose \<open>updated_at\<close> can be read and lies before the cutoff; an undatable,
  younger or otherwise marked record is never named, and the scan changes nothing.
\<close>

lemma retention_names_only_old_incomplete:
  assumes "redis_ok api V" and "list_incomplete_before api cf cutoff s = Some (Inr ids, s')"
  shows "V s' = V s \<and> (\<forall>a \<in> set ids. a \<noteq> [] \<and> (\<exists>k u t. prefix ''session:'' k
    \<and> hashes (V s) k ''session_id'' = Some a \<and> hashes (V s) k ''status'' = Some ''incomplete''
    \<and> hashes (V s) k ''updated_at'' = Some u \<and> from_rfc3339 cf u = Inr t \<and> t < cutoff))"
proof -
  have scan: "scan_loop api (''session:'' @ ''*'') 100 ''SCAN session keys failed'' (incomplete_step api cf cutoff) 0 [] s
      = Some (Inr ids, s')" using assms(2) by (simp add: list_incomplete_before_def)
  have "V s' = V s \<and> (\<forall>a \<in> set ids. expired_in cf cutoff (V s) a)"
    using scan_loop_inv [OF assms(1) incomplete_step_scans [OF assms(1), of "V s" cf cutoff] scan] by simp
  then show ?thesis unfolding expired_in_def .
qed

definition stale_mem :: mem where
  "stale_mem = empty_mem\<lparr>mem_hashes := (\<lambda>_. [])(''session:s1'' := [(''session_id'', ''s1''),
     (''status'', ''incomplete''), (''updated_at'', ''5'')]), mem_keys := [''session:s1'']\<rparr>"

lemma stale_mem_scan: "list_incomplete_before mem_redis decimal_clock 10 stale_mem = Some (Inr [''s1''], stale_mem)"
proof -
  have "from_rfc3339 decimal_clock ''5'' = Inr 5"
    by (simp add: decimal_clock_def parse_digits_def is_digit_def digits_val_def)
  then have "incomplete_step mem_redis decimal_clock 10 ''session:s1'' [] stale_mem = (Inr [''s1''], stale_mem)"
    by (simp add: incomplete_step_def bind_io_def context_io_def ok_def mem_redis_def stale_mem_def empty_mem_def)
  moreover have "rd_scan mem_redis 0 ''session:*'' 100 stale_mem = (Inr (0, [''session:s1'']), stale_mem)"
    by (simp add: mem_redis_def stale_mem_def empty_mem_def mem_present_def)
  ultimately show ?thesis
    by (simp add: list_incomplete_before_def scan_loop.simps context_io_def bind_io_def ok_def)
qed

lemma retention_names_only_old_incomplete_witness:
  "\<exists>k u t. hashes (mem_view stale_mem) k ''session_id'' = Some ''s1''
    \<and> hashes (mem_view stale_mem) k ''updated_at'' = Some u \<and> from_rfc3339 decimal_clock u = Inr t \<and> t < 10"
  using retention_names_only_old_incomplete [OF mem_redis_ok stale_mem_scan] by auto

end
