(* ===== verification/MA_Doc.thy ===== *)
theory MA_Doc
  imports MA_Fs
begin

text \<open>
  Documents on the disk: JSON values as \<open>serde_json::Value\<close> holds them, text split into lines, and
  the interface of a document that is read as a whole and replaced atomically.

  The JSON grammar belongs to the serde crates: parsing and printing are parameters. What the code
  relies on is stated where it is used: a printed value parses back, and compact JSON is one line
  of UTF-8 that neither starts nor ends with white space.
\<close>

section \<open>JSON values\<close>

datatype json_num = PosInt nat | NegInt int | Float string

datatype json =
    Null | Bool bool | Number json_num | Str string | Array "json list" | Object "(string \<times> json) list"

fun json_get :: "string \<Rightarrow> json \<Rightarrow> json option" where
  "json_get k (Object kvs) = map_of kvs k"
| "json_get k _ = None"

fun as_str :: "json \<Rightarrow> string option" where
  "as_str (Str s) = Some s"
| "as_str _ = None"

fun as_u64 :: "json \<Rightarrow> nat option" where
  "as_u64 (Number (PosInt n)) = Some n"
| "as_u64 _ = None"

record json_codec =
  json_parse :: "string \<Rightarrow> json result"
  json_pretty :: "json \<Rightarrow> string"

section \<open>Lines\<close>

text \<open>\<open>str::lines\<close>: a line feed ends a line and takes a carriage return before it along.\<close>

definition strip_cr :: "string \<Rightarrow> string" where
  "strip_cr s = unwrap_or s (strip_suffix [carriage] s)"

definition str_lines :: "string \<Rightarrow> string list" where
  "str_lines s =
     (let ps = split_at (\<lambda>c. c = newline) s in
      map strip_cr (butlast ps) @ (if last ps = [] then [] else [last ps]))"

definition unlines :: "string list \<Rightarrow> string" where
  "unlines ls = concat (map (\<lambda>l. l @ [newline]) ls)"

text \<open>What a line of a JSON Lines file looks like.\<close>

definition plain_line :: "string \<Rightarrow> bool" where
  "plain_line l \<longleftrightarrow> newline \<notin> set l \<and> carriage \<notin> set l \<and> l \<noteq> [] \<and> is_visible (hd l) \<and> is_visible (last l) \<and> utf8 l"

lemma strip_cr_plain: "carriage \<notin> set l \<Longrightarrow> strip_cr l = l"
  by (auto simp: strip_cr_def strip_suffix_def suffix_def unwrap_or_def)

lemma split_unlines:
  "\<forall>l \<in> set ls. newline \<notin> set l \<Longrightarrow> split_at (\<lambda>c. c = newline) (unlines ls) = ls @ [[]]"
proof (induction ls)
  case (Cons l ls)
  then have "list_all (\<lambda>c. c \<noteq> newline) l" by (auto simp: list_all_iff)
  with Cons show ?case by (simp add: unlines_def split_at_append)
qed (simp add: unlines_def)

lemma lines_unlines:
  assumes "\<forall>l \<in> set ls. newline \<notin> set l \<and> carriage \<notin> set l" shows "str_lines (unlines ls) = ls"
proof -
  have "map strip_cr ls = ls" using assms by (intro map_idI) (simp add: strip_cr_plain)
  with assms show ?thesis by (simp add: str_lines_def split_unlines)
qed

lemma trim_plain: "plain_line l \<Longrightarrow> trim l = l"
proof (rule trim_none)
  assume l: "plain_line l"
  then show "ws_len l = 0" by (cases l) (auto simp: plain_line_def)
  from l have "l = butlast l @ last l # []" "is_visible (last l)" by (auto simp: plain_line_def)
  then show "ws_len_end l = 0" using ws_len_end_keeps [of "last l" "butlast l" "[]"] by simp
qed

lemma utf8_unlines: "\<forall>l \<in> set ls. utf8 l \<Longrightarrow> utf8 (unlines ls)"
proof (induction ls)
  case (Cons l ls)
  then have "utf8 (l @ newline # unlines ls) = utf8 (newline # unlines ls)" by (simp add: utf8_append)
  also have "\<dots> = utf8 (unlines ls)"
    using utf8_append [of "[newline]" "unlines ls"] by (simp add: utf8_all_ascii is_ascii_def)
  finally show ?case using Cons by (simp add: unlines_def)
qed (simp add: unlines_def)

lemma utf8_letter [simp]: "utf8 ''a''" "utf8 ''b''"
  by (simp_all add: utf8_all_ascii is_ascii_def)

section \<open>Documents\<close>

text \<open>
  A document is read whole and replaced atomically: \<open>store\<close> leaves either the new text or the file
  as it was, and touches nothing but the file and its temporary file.
\<close>

locale document =
  fixes load :: "(disk, 'a) io"
    and store :: "'a \<Rightarrow> (disk, unit) io"
    and path :: string
    and tmp :: string
    and enc :: "'a \<Rightarrow> string result"
    and dec :: "string \<Rightarrow> 'a result"
  assumes load_tree: "load d = (l, d') \<Longrightarrow> tree d' = tree d"
    and load_text: "load d = (Inr a, d') \<Longrightarrow> \<exists>raw. node_at d path = Some (File raw) \<and> dec raw = Inr a"
    and store_text: "store a d = (Inr u, d') \<Longrightarrow> \<exists>raw. enc a = Inr raw \<and> node_at d' path = Some (File raw)"
    and store_error: "store a d = (Inl e, d') \<Longrightarrow> node_at d' path = node_at d path"
    and store_frame: "store a d = (r, d') \<Longrightarrow> comps q \<noteq> comps path \<Longrightarrow> comps q \<noteq> comps tmp \<Longrightarrow>
      node_at d' q = node_at d q"
begin

lemma update_text:
  assumes "bind_io load (\<lambda>a. store (f a)) d = (r, d')"
  shows "case r of
      Inr _ \<Rightarrow> \<exists>a old raw. node_at d path = Some (File old) \<and> dec old = Inr a
        \<and> enc (f a) = Inr raw \<and> node_at d' path = Some (File raw)
    | Inl _ \<Rightarrow> node_at d' path = node_at d path"
proof -
  obtain q d1 where l: "load d = (q, d1)" by fastforce
  note same = node_at_same [OF load_tree [OF l]]
  show ?thesis
  proof (cases q)
    case (Inl e)
    with l assms have "r = Inl e" "d' = d1" by (simp_all add: bind_io_def)
    with same show ?thesis by simp
  next
    case (Inr a)
    with l assms have s: "store (f a) d1 = (r, d')" by (simp add: bind_io_def)
    show ?thesis
    proof (cases r)
      case (Inl e)
      with store_error s same show ?thesis by fastforce
    next
      case (Inr u)
      with store_text s load_text l \<open>q = Inr a\<close> show ?thesis by (fastforce split: sum.splits)
    qed
  qed
qed

lemma update_frame:
  assumes "bind_io load (\<lambda>a. store (f a)) d = (r, d')" and "comps q \<noteq> comps path" and "comps q \<noteq> comps tmp"
  shows "node_at d' q = node_at d q"
proof -
  obtain x d1 where l: "load d = (x, d1)" by fastforce
  note same = node_at_same [OF load_tree [OF l], of q]
  show ?thesis
    using assms(1) l same store_frame [OF _ assms(2,3)] by (cases x) (auto simp: bind_io_def)
qed

end

text \<open>The common way to store: a temporary file renamed over the target.\<close>

lemma fs_read_result:
  assumes "fs_read_to_string p d = (r, d')"
  shows "tree d' = tree d" and "r = Inr raw \<Longrightarrow> node_at d p = Some (File raw) \<and> utf8 raw"
proof -
  obtain q d1 where q: "fs_read p d = (q, d1)" by fastforce
  have "tree d1 = tree d \<and> (\<forall>raw. q = Inr raw \<longrightarrow> node_at d p = Some (File raw))"
    using q [unfolded fs_read_def]
  proof (cases rule: guarded_cases)
    case (1 d2)
    with node_at_same [OF 1(1), of p] show ?thesis by (auto split: option.splits node.splits)
  qed auto
  with assms q show "tree d' = tree d" and "r = Inr raw \<Longrightarrow> node_at d p = Some (File raw) \<and> utf8 raw"
    by (auto simp: fs_read_to_string_def bind_io_def ok_def fail_def split: sum.splits if_splits)
qed

lemma tmp_apart:
  assumes "list_all (\<lambda>c. c \<noteq> CHR ''/'') n" "n \<noteq> []" "n \<noteq> ''.''"
  shows "comps (path_join dir (n @ ''.tmp'')) \<noteq> comps (path_join dir n)"
proof -
  obtain c n' where n: "n = c # n'" "c \<noteq> CHR ''/''" using assms by (cases n) auto
  have names: "comps (n @ ''.tmp'') = [n @ ''.tmp'']" "comps n = [n]"
    using assms n by (auto simp: comps_name)
  have "\<not> prefix ''/'' n" "\<not> prefix ''/'' (n @ ''.tmp'')" using n by auto
  then show ?thesis
    using names by (cases "dir = []") (simp_all add: comps_join, simp add: path_join_def)
qed

end
