(* ===== verification/MA_Metadata.thy ===== *)
theory MA_Metadata
  imports MA_Doc MA_Fidelity MA_Schema
begin

text \<open>
  The session document (\<open>session/metadata.rs\<close>): its data and the operations that rewrite
  \<open>metadata.json\<close> as a whole. Serde's reading and printing are parameters; \<open>to_string_pretty\<close> and
  \<open>to_vec_pretty\<close> print the same text.
\<close>

section \<open>Data\<close>

record provider_token_counts =
  ptc_input_tokens :: u64
  ptc_output_tokens :: u64

definition no_tokens :: provider_token_counts where
  "no_tokens = \<lparr>ptc_input_tokens = 0, ptc_output_tokens = 0\<rparr>"

record os_info =
  oi_os_type :: string
  oi_os_version :: string
  oi_os_architecture :: string
  oi_os_environment_id :: string

record step_entry =
  se_step_id :: u32
  se_timestamp :: string
  se_action_type :: string
  se_action_subtype :: string
  se_image_path :: "string option"
  se_image_fetched :: bool
  se_marked :: bool
  se_before_image_path :: "string option"
  se_after_image_path :: "string option"
  se_raw_command :: string
  se_converted_command :: string
  se_record_suspect :: "record_suspect option"

record skipped_fetch =
  sk_step_id :: u32
  sk_reason :: string

record session_metadata =
  md_memory_name :: string
  md_memory_description :: string
  md_session_id :: string
  md_mode :: string
  md_status :: string
  md_os :: os_info
  md_capture_server_id :: string
  md_actuation_server_id :: string
  md_reasoning_model_id :: "string option"
  md_ma_core_addr :: string
  md_actuation_agent_version :: string
  md_actuation_transport :: string
  md_actuation_server_version :: string
  md_created_at :: int
  md_completed_at :: "int option"
  md_total_steps :: u32
  md_annotated_steps :: u32
  md_skipped_steps :: u32
  md_steps :: "step_entry list"
  md_skipped_image_fetches :: "skipped_fetch list"
  md_closing_image_path :: "string option"
  md_tenant_id :: string
  md_total_input_tokens :: u64
  md_total_output_tokens :: u64
  md_token_costs_by_provider :: "string \<rightharpoonup> provider_token_counts"
  md_in_progress :: "string option"
  md_kafka_partition :: "32 word option"
  md_kafka_offset :: "64 word option"
  md_model_provider :: string
  md_fallback_model_provider :: string
  md_fallback_model_endpoint :: string
  md_capture_server_addr :: string
  md_the_eyes_addr :: string

record metadata_codec =
  metadata_to_json :: "session_metadata \<Rightarrow> string result"
  metadata_from_json :: "string \<Rightarrow> session_metadata result"

section \<open>Changes\<close>

text \<open>The assignments the file operations and the capture state share.\<close>

definition push_step :: "step_entry \<Rightarrow> session_metadata \<Rightarrow> session_metadata" where
  "push_step step m = m\<lparr>md_total_steps := md_total_steps m + 1, md_steps := md_steps m @ [step]\<rparr>"

text \<open>\<open>iter_mut().find(..)\<close>: the first match is changed.\<close>

fun change_first :: "('a \<Rightarrow> bool) \<Rightarrow> ('a \<Rightarrow> 'a) \<Rightarrow> 'a list \<Rightarrow> 'a list" where
  "change_first P f [] = []"
| "change_first P f (x # xs) = (if P x then f x # xs else x # change_first P f xs)"

definition set_step_image ::
  "u32 \<Rightarrow> string \<Rightarrow> bool \<Rightarrow> string option \<Rightarrow> string option \<Rightarrow> session_metadata \<Rightarrow> session_metadata" where
  "set_step_image step_id image_path marked before after m =
     m\<lparr>md_steps := change_first (\<lambda>s. se_step_id s = step_id)
         (\<lambda>s. s\<lparr>se_image_path := Some image_path, se_image_fetched := True, se_marked := marked,
            se_before_image_path := before, se_after_image_path := after\<rparr>) (md_steps m)\<rparr>"

definition push_skipped :: "u32 \<Rightarrow> string \<Rightarrow> session_metadata \<Rightarrow> session_metadata" where
  "push_skipped step_id reason m =
     m\<lparr>md_skipped_image_fetches := md_skipped_image_fetches m @ [\<lparr>sk_step_id = step_id, sk_reason = reason\<rparr>]\<rparr>"

section \<open>The file\<close>

definition metadata_write :: "metadata_codec \<Rightarrow> string \<Rightarrow> session_metadata \<Rightarrow> (disk, unit) io" where
  "metadata_write mc memory_dir metadata =
     (let path = path_join memory_dir ''metadata.json'';
          tmp_path = path_join memory_dir ''metadata.json.tmp'' in
      bind_io (context_io ''Failed to serialise metadata'' (lift_result (metadata_to_json mc metadata))) (\<lambda>json.
      bind_io (context_io (''Failed to write temp metadata: '' @ tmp_path) (fs_write tmp_path json)) (\<lambda>_.
      context_io (''Failed to rename metadata into place: '' @ path) (fs_rename tmp_path path))))"

definition metadata_from_bytes :: "metadata_codec \<Rightarrow> string \<Rightarrow> session_metadata result" where
  "metadata_from_bytes mc bytes =
     (case metadata_from_json mc bytes of
        Inl e \<Rightarrow> Inl (''Failed to parse SessionMetadata from bytes: '' @ e) | Inr m \<Rightarrow> Inr m)"

definition metadata_read :: "metadata_codec \<Rightarrow> string \<Rightarrow> (disk, session_metadata) io" where
  "metadata_read mc memory_dir =
     (let path = path_join memory_dir ''metadata.json'' in
      bind_io (context_io (''Failed to read metadata.json: '' @ path) (fs_read_to_string path)) (\<lambda>raw.
      context_io (''Failed to parse metadata.json: '' @ path) (lift_result (metadata_from_json mc raw))))"

definition set_in_progress :: "metadata_codec \<Rightarrow> string \<Rightarrow> string \<Rightarrow> (disk, unit) io" where
  "set_in_progress mc memory_dir value =
     bind_io (metadata_read mc memory_dir) (\<lambda>m. metadata_write mc memory_dir (m\<lparr>md_in_progress := Some value\<rparr>))"

definition clear_in_progress :: "metadata_codec \<Rightarrow> string \<Rightarrow> (disk, unit) io" where
  "clear_in_progress mc memory_dir =
     bind_io (metadata_read mc memory_dir) (\<lambda>m. metadata_write mc memory_dir (m\<lparr>md_in_progress := None\<rparr>))"

definition set_closing_image :: "metadata_codec \<Rightarrow> string \<Rightarrow> string \<Rightarrow> (disk, unit) io" where
  "set_closing_image mc memory_dir path =
     bind_io (metadata_read mc memory_dir) (\<lambda>m.
       metadata_write mc memory_dir (m\<lparr>md_closing_image_path := Some path\<rparr>))"

definition append_step :: "metadata_codec \<Rightarrow> string \<Rightarrow> step_entry \<Rightarrow> (disk, unit) io" where
  "append_step mc memory_dir step =
     bind_io (metadata_read mc memory_dir) (\<lambda>m. metadata_write mc memory_dir (push_step step m))"

definition update_annotation_counters_file ::
  "metadata_codec \<Rightarrow> string \<Rightarrow> u32 \<Rightarrow> u32 \<Rightarrow> (disk, unit) io" where
  "update_annotation_counters_file mc memory_dir annotated skipped =
     bind_io (metadata_read mc memory_dir) (\<lambda>m.
       metadata_write mc memory_dir (m\<lparr>md_annotated_steps := annotated, md_skipped_steps := skipped\<rparr>))"

definition update_step_image_file ::
  "metadata_codec \<Rightarrow> string \<Rightarrow> u32 \<Rightarrow> string \<Rightarrow> bool \<Rightarrow> string option \<Rightarrow> string option \<Rightarrow> (disk, unit) io" where
  "update_step_image_file mc memory_dir step_id image_path marked before after =
     bind_io (metadata_read mc memory_dir) (\<lambda>m.
       metadata_write mc memory_dir (set_step_image step_id image_path marked before after m))"

definition append_skipped_fetch_file :: "metadata_codec \<Rightarrow> string \<Rightarrow> u32 \<Rightarrow> string \<Rightarrow> (disk, unit) io" where
  "append_skipped_fetch_file mc memory_dir step_id reason =
     bind_io (metadata_read mc memory_dir) (\<lambda>m.
       metadata_write mc memory_dir (push_skipped step_id reason m))"

definition update_kafka_position_file ::
  "metadata_codec \<Rightarrow> string \<Rightarrow> 32 word \<Rightarrow> 64 word \<Rightarrow> (disk, unit) io" where
  "update_kafka_position_file mc memory_dir part offset =
     bind_io (metadata_read mc memory_dir) (\<lambda>m.
       metadata_write mc memory_dir (m\<lparr>md_kafka_partition := Some part, md_kafka_offset := Some offset\<rparr>))"

definition mark_incomplete_status :: "metadata_codec \<Rightarrow> string \<Rightarrow> (disk, unit) io" where
  "mark_incomplete_status mc memory_dir =
     bind_io (metadata_read mc memory_dir) (\<lambda>m.
       metadata_write mc memory_dir (m\<lparr>md_status := ''incomplete''\<rparr>))"

text \<open>\<open>now\<close> is what \<open>Utc::now()\<close> returns.\<close>

definition mark_complete :: "metadata_codec \<Rightarrow> int \<Rightarrow> string \<Rightarrow> (disk, unit) io" where
  "mark_complete mc now memory_dir =
     bind_io (metadata_read mc memory_dir) (\<lambda>m.
       metadata_write mc memory_dir (m\<lparr>md_status := ''complete'', md_completed_at := Some now\<rparr>))"

section \<open>Atomicity\<close>

lemma metadata_paths: "comps (path_join dir ''metadata.json.tmp'') \<noteq> comps (path_join dir ''metadata.json'')"
  using tmp_apart [of "''metadata.json''" dir] by simp

lemma metadata_write_cases:
  assumes "metadata_write mc dir m d = (r, d')"
  obtains e where "metadata_to_json mc m = Inl e" "isl r" "d' = d"
  | json where "metadata_to_json mc m = Inr json"
      "node_at d' (path_join dir ''metadata.json'')
        = (case r of Inr _ \<Rightarrow> Some (File json) | Inl _ \<Rightarrow> node_at d (path_join dir ''metadata.json''))"
      "\<And>q. comps q \<noteq> comps (path_join dir ''metadata.json.tmp'') \<Longrightarrow>
         comps q \<noteq> comps (path_join dir ''metadata.json'') \<Longrightarrow> node_at d' q = node_at d q"
proof (cases "metadata_to_json mc m")
  case (Inl e)
  with assms have "isl r" "d' = d" by (auto simp: metadata_write_def)
  with Inl show ?thesis by (rule that(1))
next
  case (Inr json)
  with assms have "bind_io (context_io (''Failed to write temp metadata: '' @ path_join dir ''metadata.json.tmp'')
        (fs_write (path_join dir ''metadata.json.tmp'') json))
      (\<lambda>_. context_io (''Failed to rename metadata into place: '' @ path_join dir ''metadata.json'')
        (fs_rename (path_join dir ''metadata.json.tmp'') (path_join dir ''metadata.json''))) d = (r, d')"
    by (simp add: metadata_write_def Let_def)
  note atomic = write_rename_atomic [OF this metadata_paths]
  show ?thesis by (rule that(2) [OF Inr atomic])
qed

interpretation metadata_file: document "metadata_read mc dir" "metadata_write mc dir"
  "path_join dir ''metadata.json''" "path_join dir ''metadata.json.tmp''"
  "metadata_to_json mc" "metadata_from_json mc" for mc dir
proof
  let ?path = "path_join dir ''metadata.json''"
  have read: "tree d' = tree d \<and> (\<forall>a. r = Inr a \<longrightarrow> (\<exists>raw. node_at d ?path = Some (File raw) \<and> metadata_from_json mc raw = Inr a))"
    if "metadata_read mc dir d = (r, d')" for d r d'
  proof -
    obtain q d1 where q: "fs_read_to_string ?path d = (q, d1)" by fastforce
    note R = fs_read_result [OF q]
    show ?thesis
    proof (cases q)
      case (Inl e)
      with that q R(1) show ?thesis by (auto simp: metadata_read_def Let_def bind_context_Inl)
    next
      case (Inr raw)
      with that q have "context_io (''Failed to parse metadata.json: '' @ ?path)
          (lift_result (metadata_from_json mc raw)) d1 = (r, d')"
        by (simp add: metadata_read_def Let_def bind_context_Inr)
      with R Inr show ?thesis by (cases "metadata_from_json mc raw") auto
    qed
  qed
  show "tree d' = tree d" if "metadata_read mc dir d = (l, d')" for d l d' using read [OF that] by blast
  show "\<exists>raw. node_at d ?path = Some (File raw) \<and> metadata_from_json mc raw = Inr a"
    if "metadata_read mc dir d = (Inr a, d')" for d a d' using read [OF that] by blast
  show "\<exists>raw. metadata_to_json mc a = Inr raw \<and> node_at d' ?path = Some (File raw)"
    if "metadata_write mc dir a d = (Inr u, d')" for a d u d'
    using that by (cases rule: metadata_write_cases) auto
  show "node_at d' ?path = node_at d ?path" if "metadata_write mc dir a d = (Inl e, d')" for a d e d'
    using that by (cases rule: metadata_write_cases) auto
  show "node_at d' q = node_at d q"
    if "metadata_write mc dir a d = (r, d')" "comps q \<noteq> comps ?path"
      "comps q \<noteq> comps (path_join dir ''metadata.json.tmp'')" for a d r d' q
    using that(1) by (cases rule: metadata_write_cases) (use that(2,3) in auto)
qed

text \<open>What the documentation of the serde crates gives for this type.\<close>

definition metadata_codec_ok :: "metadata_codec \<Rightarrow> bool" where
  "metadata_codec_ok mc \<longleftrightarrow>
     (\<forall>m raw. metadata_to_json mc m = Inr raw \<longrightarrow> utf8 raw \<and> metadata_from_json mc raw = Inr m)"

text \<open>The document a directory holds.\<close>

definition metadata_at :: "metadata_codec \<Rightarrow> string \<Rightarrow> disk \<Rightarrow> session_metadata option" where
  "metadata_at mc dir d =
     (case node_at d (path_join dir ''metadata.json'') of
        Some (File raw) \<Rightarrow> (case metadata_from_json mc raw of Inr m \<Rightarrow> Some m | Inl _ \<Rightarrow> None)
      | _ \<Rightarrow> None)"

text \<open>An operation that applies \<open>f\<close> to the document of a directory, all or nothing.\<close>

definition applies :: "metadata_codec \<Rightarrow> string \<Rightarrow> (session_metadata \<Rightarrow> session_metadata) \<Rightarrow> (disk, unit) io \<Rightarrow> bool" where
  "applies mc dir f op \<longleftrightarrow>
     (\<forall>d r d'. op d = (r, d') \<longrightarrow>
        (case r of
           Inr _ \<Rightarrow> \<exists>m. metadata_at mc dir d = Some m \<and> metadata_at mc dir d' = Some (f m)
         | Inl _ \<Rightarrow> node_at d' (path_join dir ''metadata.json'') = node_at d (path_join dir ''metadata.json''))
        \<and> (\<forall>q. comps q \<noteq> comps (path_join dir ''metadata.json'') \<and> comps q \<noteq> comps (path_join dir ''metadata.json.tmp'')
             \<longrightarrow> node_at d' q = node_at d q))"

lemma applies_update:
  assumes "metadata_codec_ok mc"
  shows "applies mc dir f (bind_io (metadata_read mc dir) (\<lambda>m. metadata_write mc dir (f m)))"
  unfolding applies_def
proof (intro allI impI conjI)
  fix d r d'
  assume run: "bind_io (metadata_read mc dir) (\<lambda>m. metadata_write mc dir (f m)) d = (r, d')"
  from metadata_file.update_text [OF run] assms
  show "case r of
      Inr _ \<Rightarrow> \<exists>m. metadata_at mc dir d = Some m \<and> metadata_at mc dir d' = Some (f m)
    | Inl _ \<Rightarrow> node_at d' (path_join dir ''metadata.json'') = node_at d (path_join dir ''metadata.json'')"
    by (auto simp: metadata_at_def metadata_codec_ok_def split: sum.splits)
  fix q
  assume "comps q \<noteq> comps (path_join dir ''metadata.json'') \<and> comps q \<noteq> comps (path_join dir ''metadata.json.tmp'')"
  with metadata_file.update_frame [OF run] show "node_at d' q = node_at d q" by blast
qed

text \<open>
  C21. Every change of \<open>metadata.json\<close> is all or nothing. Each operation of the module, on whatever
  disk and wherever a system call fails or a write is cut short, either returns success, and then
  the document on disk is the one it found with exactly its own fields changed, or returns an error
  and leaves the bytes of the file as they were; no file but the document and its temporary file
  changes.
\<close>

theorem metadata_updates_atomic:
  assumes "metadata_codec_ok mc"
  shows "applies mc dir (\<lambda>m. m\<lparr>md_in_progress := Some v\<rparr>) (set_in_progress mc dir v)
    \<and> applies mc dir (\<lambda>m. m\<lparr>md_in_progress := None\<rparr>) (clear_in_progress mc dir)
    \<and> applies mc dir (\<lambda>m. m\<lparr>md_closing_image_path := Some p\<rparr>) (set_closing_image mc dir p)
    \<and> applies mc dir (push_step step) (append_step mc dir step)
    \<and> applies mc dir (\<lambda>m. m\<lparr>md_annotated_steps := i, md_skipped_steps := j\<rparr>) (update_annotation_counters_file mc dir i j)
    \<and> applies mc dir (set_step_image k p b x y) (update_step_image_file mc dir k p b x y)
    \<and> applies mc dir (push_skipped k why) (append_skipped_fetch_file mc dir k why)
    \<and> applies mc dir (\<lambda>m. m\<lparr>md_kafka_partition := Some part, md_kafka_offset := Some off\<rparr>)
        (update_kafka_position_file mc dir part off)
    \<and> applies mc dir (\<lambda>m. m\<lparr>md_status := ''incomplete''\<rparr>) (mark_incomplete_status mc dir)
    \<and> applies mc dir (\<lambda>m. m\<lparr>md_status := ''complete'', md_completed_at := Some now\<rparr>) (mark_complete mc now dir)"
  unfolding set_in_progress_def clear_in_progress_def set_closing_image_def append_step_def
    update_annotation_counters_file_def update_step_image_file_def append_skipped_fetch_file_def
    update_kafka_position_file_def mark_incomplete_status_def mark_complete_def
  by (intro conjI applies_update assms)

definition two_docs :: "session_metadata \<Rightarrow> session_metadata \<Rightarrow> metadata_codec" where
  "two_docs a b =
     \<lparr>metadata_to_json = \<lambda>m. if m = a then Inr ''a'' else if m = b then Inr ''b'' else Inl ''unprintable'',
      metadata_from_json = \<lambda>s. if s = ''a'' then Inr a else if s = ''b'' then Inr b else Inl ''EOF''\<rparr>"

definition one_doc_disk :: disk where
  "one_doc_disk = \<lparr>tree = [([''m'', ''metadata.json''], File ''a''), ([''m''], Dir)], faults = []\<rparr>"

lemma two_docs_ok: "metadata_codec_ok (two_docs a b)"
  by (simp add: metadata_codec_ok_def two_docs_def)

lemma one_doc_paths:
  "path_join ''m'' ''metadata.json'' = ''m/metadata.json''" "path_join ''m'' ''metadata.json.tmp'' = ''m/metadata.json.tmp''"
  "comps ''m/metadata.json'' = [''m'', ''metadata.json'']" "comps ''m/metadata.json.tmp'' = [''m'', ''metadata.json.tmp'']"
  by (simp_all add: path_join_def suffix_def comps_def)

theorem metadata_updates_atomic_witness:
  "\<forall>m :: session_metadata. \<exists>mc d. metadata_at mc ''m'' (snd (set_in_progress mc ''m'' ''capturing'' d)) = Some (m\<lparr>md_in_progress := Some ''capturing''\<rparr>)"
proof
  fix m :: session_metadata
  let ?n = "m\<lparr>md_in_progress := Some ''capturing''\<rparr>"
  let ?run = "set_in_progress (two_docs m ?n) ''m'' ''capturing'' one_doc_disk"
  have "fst ?run = Inr ()"
    by (simp add: set_in_progress_def metadata_read_def metadata_write_def Let_def bind_io_def context_io_def
        lift_result_def one_doc_paths fs_read_to_string_def fs_read_def fs_write_def fs_rename_def guarded_def
        next_fault_def one_doc_disk_def node_at_def ok_def two_docs_def put_file_def do_rename_def parent_ok_def)
  then have run: "?run = (Inr (), snd ?run)" by (simp add: prod_eq_iff)
  have "applies (two_docs m ?n) ''m'' (\<lambda>m. m\<lparr>md_in_progress := Some ''capturing''\<rparr>)
      (set_in_progress (two_docs m ?n) ''m'' ''capturing'')"
    using metadata_updates_atomic [OF two_docs_ok] by blast
  with run obtain m' where "metadata_at (two_docs m ?n) ''m'' one_doc_disk = Some m'"
    "metadata_at (two_docs m ?n) ''m'' (snd ?run) = Some (m'\<lparr>md_in_progress := Some ''capturing''\<rparr>)"
    unfolding applies_def by fastforce
  moreover have "metadata_at (two_docs m ?n) ''m'' one_doc_disk = Some m"
    by (simp add: metadata_at_def one_doc_paths node_at_def one_doc_disk_def two_docs_def)
  ultimately show "\<exists>mc d. metadata_at mc ''m'' (snd (set_in_progress mc ''m'' ''capturing'' d)) = Some ?n"
    by auto
qed

end
