(* ===== verification/MA_Session.thy ===== *)
theory MA_Session
  imports MA_Metadata
begin

text \<open>
  The memory directory of a session (\<open>session/mod.rs\<close>): creating it, flagging it as incomplete and
  removing it when its \<open>metadata.json\<close> shows who owns it.
\<close>

section \<open>Creation\<close>

definition build_initial_metadata :: "int \<Rightarrow> session_record \<Rightarrow> session_metadata" where
  "build_initial_metadata now record =
     \<lparr>md_memory_name = rec_memory_name record,
      md_memory_description = [],
      md_session_id = rec_session_id record,
      md_mode = mode_str (rec_mode record),
      md_status = status_str (rec_status record),
      md_os = \<lparr>oi_os_type = rec_os_type record, oi_os_version = rec_os_version record,
        oi_os_architecture = rec_os_architecture record, oi_os_environment_id = rec_os_environment_id record\<rparr>,
      md_capture_server_id = rec_capture_server_id record,
      md_actuation_server_id = rec_actuation_server_id record,
      md_reasoning_model_id = rec_reasoning_model_id record,
      md_ma_core_addr = rec_ma_core_addr record,
      md_actuation_agent_version = [],
      md_actuation_transport = [],
      md_actuation_server_version = [],
      md_created_at = now,
      md_completed_at = None,
      md_total_steps = 0,
      md_annotated_steps = 0,
      md_skipped_steps = 0,
      md_steps = [],
      md_skipped_image_fetches = [],
      md_closing_image_path = None,
      md_tenant_id = rec_tenant_id record,
      md_total_input_tokens = 0,
      md_total_output_tokens = 0,
      md_token_costs_by_provider = Map.empty,
      md_in_progress = None,
      md_kafka_partition = None,
      md_kafka_offset = None,
      md_model_provider = rec_model_provider record,
      md_fallback_model_provider = rec_fallback_model_provider record,
      md_fallback_model_endpoint = rec_fallback_model_endpoint record,
      md_capture_server_addr = rec_capture_server_addr record,
      md_the_eyes_addr = rec_the_eyes_addr record\<rparr>"

definition initialise ::
  "metadata_codec \<Rightarrow> int \<Rightarrow> session_record \<Rightarrow> string \<Rightarrow> bool \<Rightarrow> (disk, string) io" where
  "initialise mc now record storage_path is_cloud_primary =
     (let memory_dir = path_join storage_path (rec_memory_name record) in
      bind_io (\<lambda>d.
        if is_cloud_primary then
          bind_io (\<lambda>d. if fs_exists d memory_dir
              then context_io (''Failed to remove stale memory directory: '' @ memory_dir)
                     (fs_remove_dir_all memory_dir) d
              else (Inr (), d)) (\<lambda>_.
          context_io (''Failed to create commands directory: '' @ memory_dir)
            (fs_create_dir_all (path_join memory_dir ''commands''))) d
        else if fs_exists d memory_dir
        then (Inl (''Memory directory already exists: '' @ memory_dir @ '' '' @ em_dash
                @ '' choose a different memory_name''), d)
        else fold_io (\<lambda>subdir _.
               context_io (''Failed to create directory: '' @ path_join memory_dir subdir)
                 (fs_create_dir_all (path_join memory_dir subdir)))
             [''commands'', ''vision/frames'', ''reasoning''] () d) (\<lambda>_.
      bind_io (metadata_write mc memory_dir (build_initial_metadata now record)) (\<lambda>_.
      ok memory_dir)))"

section \<open>Flagging as incomplete\<close>

definition incomplete_suffix :: string where
  "incomplete_suffix = '' (incomplete)''"

definition right_arrow :: string where
  "right_arrow = [CHR 0xE2, CHR 0x86, CHR 0x92]"

definition mark_incomplete :: "string \<Rightarrow> (disk, string) io" where
  "mark_incomplete memory_dir =
     (case parent memory_dir of
        None \<Rightarrow> fail ''Memory directory has no parent''
      | Some up \<Rightarrow>
          (case file_name memory_dir of
             None \<Rightarrow> fail ''Memory directory has no name''
           | Some current_name \<Rightarrow>
               if suffix incomplete_suffix current_name then ok memory_dir
               else
                 (let incomplete_dir = path_join up (current_name @ incomplete_suffix) in
                  bind_io (context_io (''Failed to rename '' @ memory_dir @ '' '' @ right_arrow @ '' '' @ incomplete_dir)
                    (fs_rename memory_dir incomplete_dir)) (\<lambda>_.
                  ok incomplete_dir))))"

section \<open>Removal\<close>

definition owner_of_json :: "json_codec \<Rightarrow> string \<Rightarrow> string \<Rightarrow> string result" where
  "owner_of_json jc path raw =
     (case json_parse jc raw of
        Inl e \<Rightarrow> Inl (''Failed to parse metadata.json: '' @ path @ '': '' @ e)
      | Inr v \<Rightarrow>
          (case Option.bind (json_get ''session_id'' v) as_str of
             Some s \<Rightarrow> if s \<noteq> [] then Inr s else Inl (''metadata.json has no session_id: '' @ path)
           | None \<Rightarrow> Inl (''metadata.json has no session_id: '' @ path)))"

definition read_owner_session_id :: "json_codec \<Rightarrow> string \<Rightarrow> (disk, string) io" where
  "read_owner_session_id jc memory_dir =
     (let path = path_join memory_dir ''metadata.json'' in
      bind_io (context_io (''Failed to read metadata.json: '' @ path) (fs_read_to_string path)) (\<lambda>raw.
      lift_result (owner_of_json jc path raw)))"

text \<open>One candidate directory; refusals are logged.\<close>

definition purge_candidate :: "json_codec \<Rightarrow> string \<Rightarrow> string \<Rightarrow> bool \<Rightarrow> (disk, bool) io" where
  "purge_candidate jc sid candidate removed d =
     (if \<not> fs_exists d candidate then (Inr removed, d)
      else
        (case read_owner_session_id jc candidate d of
           (Inr owner, d) \<Rightarrow>
             if owner = sid
             then bind_io (context_io (''Failed to remove memory directory: '' @ candidate)
                    (fs_remove_dir_all candidate)) (\<lambda>_. ok True) d
             else (Inr removed, d)
         | (Inl _, d) \<Rightarrow> (Inr removed, d)))"

definition purge_memory_dir :: "json_codec \<Rightarrow> string \<Rightarrow> string \<Rightarrow> (disk, bool) io" where
  "purge_memory_dir jc memory_path sid =
     fold_io (purge_candidate jc sid) [memory_path, memory_path @ incomplete_suffix] False"

section \<open>Facts\<close>

text \<open>The directory's \<open>metadata.json\<close> names the session.\<close>

definition owned_by :: "json_codec \<Rightarrow> string \<Rightarrow> string \<Rightarrow> disk \<Rightarrow> bool" where
  "owned_by jc sid dir d \<longleftrightarrow>
     (\<exists>raw v. node_at d (path_join dir ''metadata.json'') = Some (File raw) \<and> json_parse jc raw = Inr v
        \<and> json_get ''session_id'' v = Some (Str sid) \<and> sid \<noteq> [])"

lemma as_str_Some: "as_str v = Some s \<longleftrightarrow> v = Str s"
  by (cases v) auto

lemma owner_of_json_Inr:
  "owner_of_json jc path raw = Inr s \<Longrightarrow>
     \<exists>v. json_parse jc raw = Inr v \<and> json_get ''session_id'' v = Some (Str s) \<and> s \<noteq> []"
  by (auto simp: owner_of_json_def as_str_Some bind_eq_Some_conv split: sum.splits option.splits if_splits)

lemma read_owner_result:
  assumes "read_owner_session_id jc dir d = (r, d')"
  shows "tree d' = tree d" and "r = Inr s \<Longrightarrow> owned_by jc s dir d"
proof -
  let ?path = "path_join dir ''metadata.json''"
  obtain q d1 where q: "fs_read_to_string ?path d = (q, d1)" by fastforce
  note R = fs_read_result [OF q]
  have "tree d' = tree d \<and> (r = Inr s \<longrightarrow> owned_by jc s dir d)"
  proof (cases q)
    case (Inl e)
    with assms q R(1) show ?thesis by (auto simp: read_owner_session_id_def Let_def bind_context_Inl)
  next
    case (Inr raw)
    with assms q have "r = owner_of_json jc ?path raw" "d' = d1"
      by (auto simp: read_owner_session_id_def Let_def bind_context_Inr lift_result_def)
    with R Inr owner_of_json_Inr [of jc ?path raw s] show ?thesis by (auto simp: owned_by_def)
  qed
  then show "tree d' = tree d" and "r = Inr s \<Longrightarrow> owned_by jc s dir d" by auto
qed

text \<open>A candidate loses something only when it is owned; nothing outside it is touched.\<close>

lemma purge_candidate_step:
  assumes "purge_candidate jc sid c b d = (r, d')"
  shows "(\<forall>q. node_at d' q = node_at d q \<or> owned_by jc sid c d \<and> prefix (comps c) (comps q))"
    and "r = Inr True \<Longrightarrow> b \<or> owned_by jc sid c d"
proof -
  have "(\<forall>q. node_at d' q = node_at d q \<or> owned_by jc sid c d \<and> prefix (comps c) (comps q))
    \<and> (r = Inr True \<longrightarrow> b \<or> owned_by jc sid c d)"
  proof (cases "fs_exists d c")
    case False
    with assms show ?thesis by (auto simp: purge_candidate_def)
  next
    case True
    obtain x d1 where x: "read_owner_session_id jc c d = (x, d1)" by fastforce
    note R = read_owner_result [OF x]
    show ?thesis
    proof (cases "x = Inr sid")
      case False
      with assms True x have "r = Inr b" "d' = d1" by (auto simp: purge_candidate_def split: sum.splits)
      with node_at_same [OF R(1)] show ?thesis by simp
    next
      case own: True
      then have o: "owned_by jc sid c d" by (rule R(2))
      obtain y d2 where y: "fs_remove_dir_all c d1 = (y, d2)" by fastforce
      have "d' = d2" using assms True x own y
        by (cases y) (auto simp: purge_candidate_def bind_context_Inl bind_context_Inr)
      with o remove_dir_all_frame [OF y] node_at_same [OF R(1)] show ?thesis by auto
    qed
  qed
  then show "\<forall>q. node_at d' q = node_at d q \<or> owned_by jc sid c d \<and> prefix (comps c) (comps q)"
    and "r = Inr True \<Longrightarrow> b \<or> owned_by jc sid c d" by auto
qed

lemma purge_candidate_shrinks:
  assumes "purge_candidate jc sid c b d = (r, d')" and "node_at d' q = Some (File raw)"
  shows "node_at d q = Some (File raw)"
proof (cases "fs_exists d c")
  case False
  with assms show ?thesis by (simp add: purge_candidate_def)
next
  case True
  obtain x d1 where x: "read_owner_session_id jc c d = (x, d1)" by fastforce
  have same: "node_at d1 q = node_at d q" by (rule node_at_same [OF read_owner_result(1) [OF x]])
  show ?thesis
  proof (cases "x = Inr sid")
    case False
    with assms(1) True x have "d' = d1" by (auto simp: purge_candidate_def split: sum.splits)
    with same assms(2) show ?thesis by simp
  next
    case own: True
    obtain y d2 where y: "fs_remove_dir_all c d1 = (y, d2)" by fastforce
    have "d' = d2" using assms(1) True x own y
      by (cases y) (auto simp: purge_candidate_def bind_context_Inl bind_context_Inr)
    with remove_dir_all_shrinks [OF y] assms(2) same show ?thesis by simp
  qed
qed

lemma owned_by_shrinks:
  "purge_candidate jc sid c b d = (r, d') \<Longrightarrow> owned_by jc s dir d' \<Longrightarrow> owned_by jc s dir d"
  unfolding owned_by_def using purge_candidate_shrinks by blast

text \<open>
  C20. Only what is proved to be the session's is ever deleted. Whatever \<open>purge_memory_dir\<close> finds and
  however it ends, a path of the disk that it changed lies in the recorded directory or in its
  \<open> (incomplete)\<close> sibling, and that directory's \<open>metadata.json\<close> named the session before the call;
  and when it reports that it removed something, one of the two was the session's.
\<close>

theorem purge_only_owned:
  assumes "purge_memory_dir jc memory_path sid d = (r, d')"
  shows "(\<forall>q. node_at d' q = node_at d q
       \<or> (\<exists>c \<in> {memory_path, memory_path @ incomplete_suffix}. owned_by jc sid c d \<and> prefix (comps c) (comps q)))
    \<and> (r = Inr True \<longrightarrow> (\<exists>c \<in> {memory_path, memory_path @ incomplete_suffix}. owned_by jc sid c d))"
proof -
  let ?c1 = "memory_path" and ?c2 = "memory_path @ incomplete_suffix"
  obtain b1 d1 where one: "purge_candidate jc sid ?c1 False d = (b1, d1)" by fastforce
  note P1 = purge_candidate_step [OF one]
  show ?thesis
  proof (cases b1)
    case (Inl e)
    with assms one have "d' = d1" "r = Inl e" by (auto simp: purge_memory_dir_def bind_io_def)
    with P1(1) show ?thesis by auto
  next
    case (Inr b)
    then have two: "purge_candidate jc sid ?c2 b d1 = (r, d')"
      using assms one by (cases "purge_candidate jc sid ?c2 b d1") (auto simp: purge_memory_dir_def bind_io_def split: sum.splits)
    note P2 = purge_candidate_step [OF two]
    have own2: "owned_by jc sid ?c2 d" if "owned_by jc sid ?c2 d1" using owned_by_shrinks [OF one that] .
    have "b \<Longrightarrow> owned_by jc sid ?c1 d" using P1(2) Inr by simp
    with P2(2) own2 have "r = Inr True \<longrightarrow> owned_by jc sid ?c1 d \<or> owned_by jc sid ?c2 d" by blast
    moreover have "node_at d' q = node_at d q \<or> owned_by jc sid ?c1 d \<and> prefix (comps ?c1) (comps q)
        \<or> owned_by jc sid ?c2 d \<and> prefix (comps ?c2) (comps q)" for q
      using P1(1) P2(1) own2 by metis
    ultimately show ?thesis by blast
  qed
qed

definition one_owner :: json_codec where
  "one_owner = \<lparr>json_parse = \<lambda>s. if s = ''a'' then Inr (Object [(''session_id'', Str ''s1'')]) else Inl ''EOF'',
     json_pretty = \<lambda>_. ''a''\<rparr>"

theorem purge_only_owned_witness:
  "node_at (snd (purge_memory_dir one_owner ''m'' ''s2'' one_doc_disk)) ''m/metadata.json'' = Some (File ''a'')"
proof -
  let ?run = "purge_memory_dir one_owner ''m'' ''s2'' one_doc_disk"
  have m: "\<not> owned_by one_owner ''s2'' ''m'' one_doc_disk"
    by (simp add: owned_by_def one_doc_paths node_at_def one_doc_disk_def one_owner_def)
  have "comps ''m (incomplete)/metadata.json'' = [''m (incomplete)'', ''metadata.json'']" by (simp add: comps_def)
  then have i: "\<not> owned_by one_owner ''s2'' (''m'' @ incomplete_suffix) one_doc_disk"
    by (simp add: owned_by_def incomplete_suffix_def path_join_def suffix_def node_at_def one_doc_disk_def)
  have "?run = (fst ?run, snd ?run)" by simp
  from purge_only_owned [OF this] m i
  have "node_at (snd ?run) ''m/metadata.json'' = node_at one_doc_disk ''m/metadata.json''" by blast
  then show ?thesis by (simp add: node_at_def one_doc_disk_def one_doc_paths)
qed

text \<open>A new directory: refused when it exists, complete when it is returned.\<close>

lemma initialise_refuses_existing:
  "fs_exists d (path_join storage_path (rec_memory_name record)) \<Longrightarrow>
     \<exists>e. initialise mc now record storage_path False d = (Inl e, d)"
  by (simp add: initialise_def Let_def bind_io_def)

lemma initialise_document:
  assumes "metadata_codec_ok mc" and "initialise mc now record storage_path cloud d = (Inr dir, d')"
  shows "dir = path_join storage_path (rec_memory_name record)
    \<and> metadata_at mc dir d' = Some (build_initial_metadata now record)"
proof -
  let ?dir = "path_join storage_path (rec_memory_name record)"
  from assms(2) obtain d1 where "metadata_write mc ?dir (build_initial_metadata now record) d1 = (Inr (), d')" "dir = ?dir"
    by (auto simp: initialise_def Let_def bind_io_Inr_iff)
  with metadata_file.store_text [OF this(1)] assms(1) show ?thesis
    by (auto simp: metadata_at_def metadata_codec_ok_def)
qed

end
