(* ===== verification/MA_Config.thy ===== *)
theory MA_Config
  imports MA_Doc MA_Stream
begin

text \<open>
  The configuration (\<open>config/mod.rs\<close>): its data, the compiled-in defaults and loading and saving it.
  The environment and the serde codec are parameters. Values of \<open>u64\<close>, \<open>usize\<close>, \<open>u16\<close> and \<open>i64\<close>
  that are only compared or passed on are machine words.
\<close>

section \<open>Data\<close>

record observability_config =
  ob_metrics_port :: "16 word"
  ob_metrics_bind_addr :: string
  ob_metrics_token :: string
  ob_log_level :: string
  ob_log_output :: string
  ob_log_file_path :: string
  ob_log_forward_url :: string
  ob_alert_webhook_url :: string
  ob_memory_warn_mb :: u64
  ob_kafka_lag_warn :: "64 word"
  ob_upload_queue_warn :: u64
  ob_ipc_push_queue_warn :: u64

record aws_config =
  aws_bucket :: string
  aws_region :: string

record azure_config =
  az_container :: string
  az_account :: string

record gcp_config =
  gcp_bucket :: string
  gcp_project :: string

record named_backend_config =
  nb_name :: string
  nb_provider :: string
  nb_bucket :: string
  nb_region :: string
  nb_account :: string
  nb_container :: string
  nb_project :: string

record routing_rule_config =
  rr_match_tenant_prefix :: string
  rr_match_default :: bool
  rr_backend :: string

record cloud_config =
  cl_provider :: string
  cl_aws :: aws_config
  cl_azure :: azure_config
  cl_gcp :: gcp_config
  cl_backends :: "named_backend_config list"
  cl_routing_rules :: "routing_rule_config list"

record config =
  cfg_redis_url :: string
  cfg_ipc_socket_path :: string
  cfg_storage_path :: string
  cfg_control_center_addr :: string
  cfg_control_center_tls_ca :: string
  cfg_control_center_token :: string
  cfg_control_center_security :: cc_security
  cfg_control_center_max_version :: string
  cfg_control_center_allow_unsupported :: bool
  cfg_the_eyes_addr :: string
  cfg_the_eyes_poll_interval_seconds :: u64
  cfg_silence_timeout_seconds :: u64
  cfg_press_fetch_delay_ms :: u64
  cfg_type_fetch_delay_ms :: u64
  cfg_before_fetch_offset_ms :: u64
  cfg_after_fetch_delay_ms :: u64
  cfg_kafka_broker :: string
  cfg_kafka_channel_capacity :: u64
  cfg_metadata_flush_interval :: u32
  cfg_ipc_port :: "16 word option"
  cfg_ipc_bind_addr :: string
  cfg_annotator_mgmt_port :: "16 word option"
  cfg_storage_mode :: string
  cfg_cloud :: cloud_config
  cfg_observability :: observability_config

section \<open>Defaults\<close>

text \<open>What the process environment gives: \<open>HOME\<close>, \<open>USERPROFILE\<close>, the override, the temp directory.\<close>

record environment =
  env_var :: "string \<rightharpoonup> string"
  temp_dir :: string

definition home_dir :: "environment \<Rightarrow> string" where
  "home_dir env =
     (case env_var env ''HOME'' of
        Some h \<Rightarrow> h
      | None \<Rightarrow> (case env_var env ''USERPROFILE'' of Some h \<Rightarrow> h | None \<Rightarrow> temp_dir env))"

definition default_ipc_socket_path :: "environment \<Rightarrow> string" where
  "default_ipc_socket_path env = path_join (path_join (home_dir env) ''.memory-archive'') ''ma.sock''"

definition default_storage_path :: "environment \<Rightarrow> string" where
  "default_storage_path env = path_join (path_join (home_dir env) ''.memory-archive'') ''memories''"

definition default_observability :: observability_config where
  "default_observability =
     \<lparr>ob_metrics_port = 9091, ob_metrics_bind_addr = ''127.0.0.1'', ob_metrics_token = [],
      ob_log_level = ''info'', ob_log_output = ''stdout'', ob_log_file_path = [], ob_log_forward_url = [],
      ob_alert_webhook_url = [], ob_memory_warn_mb = 4096, ob_kafka_lag_warn = 10000,
      ob_upload_queue_warn = 1000, ob_ipc_push_queue_warn = 500\<rparr>"

definition default_cloud :: cloud_config where
  "default_cloud =
     \<lparr>cl_provider = [], cl_aws = \<lparr>aws_bucket = [], aws_region = []\<rparr>,
      cl_azure = \<lparr>az_container = [], az_account = []\<rparr>, cl_gcp = \<lparr>gcp_bucket = [], gcp_project = []\<rparr>,
      cl_backends = [], cl_routing_rules = []\<rparr>"

definition default_config :: "environment \<Rightarrow> config" where
  "default_config env =
     \<lparr>cfg_redis_url = ''redis://127.0.0.1:6379'',
      cfg_ipc_socket_path = default_ipc_socket_path env,
      cfg_storage_path = default_storage_path env,
      cfg_control_center_addr = [],
      cfg_control_center_tls_ca = [],
      cfg_control_center_token = [],
      cfg_control_center_security = Auto,
      cfg_control_center_max_version = [],
      cfg_control_center_allow_unsupported = False,
      cfg_the_eyes_addr = [],
      cfg_the_eyes_poll_interval_seconds = 10,
      cfg_silence_timeout_seconds = 30,
      cfg_press_fetch_delay_ms = 1000,
      cfg_type_fetch_delay_ms = 1000,
      cfg_before_fetch_offset_ms = 1000,
      cfg_after_fetch_delay_ms = 1000,
      cfg_kafka_broker = [],
      cfg_kafka_channel_capacity = 1000,
      cfg_metadata_flush_interval = 10,
      cfg_ipc_port = None,
      cfg_ipc_bind_addr = ''0.0.0.0'',
      cfg_annotator_mgmt_port = None,
      cfg_storage_mode = ''local'',
      cfg_cloud = default_cloud,
      cfg_observability = default_observability\<rparr>"

section \<open>Loading and saving\<close>

record config_codec =
  config_to_json :: "config \<Rightarrow> string result"
  config_from_json :: "string \<Rightarrow> config result"

definition config_path :: "environment \<Rightarrow> string" where
  "config_path env =
     (case env_var env ''MEMORY_ARCHIVE_CONFIG'' of
        Some path \<Rightarrow> path
      | None \<Rightarrow>
          path_join (path_join
            (case env_var env ''HOME'' of
               Some h \<Rightarrow> h
             | None \<Rightarrow> (case env_var env ''USERPROFILE'' of Some h \<Rightarrow> h | None \<Rightarrow> ''/tmp''))
            ''.memory-archive'') ''config.json'')"

definition load_config :: "config_codec \<Rightarrow> environment \<Rightarrow> (disk, config) io" where
  "load_config cc env d =
     (let path = config_path env in
      if \<not> fs_exists d path then (Inr (default_config env), d)
      else bind_io (context_io (''Failed to read config: '' @ path) (fs_read_to_string path)) (\<lambda>raw.
           context_io (''Failed to parse config: '' @ path) (lift_result (config_from_json cc raw))) d)"

text \<open>The permissions call is the last step; permissions themselves are not part of the disk model.\<close>

definition save_to :: "config_codec \<Rightarrow> (string \<Rightarrow> (disk, unit) io) \<Rightarrow> string \<Rightarrow> config \<Rightarrow> (disk, unit) io" where
  "save_to cc restrict path config =
     bind_io (case parent path of
                Some up \<Rightarrow> context_io (''Failed to create config directory: '' @ up) (fs_create_dir_all up)
              | None \<Rightarrow> ok ()) (\<lambda>_.
     bind_io (context_io ''Failed to serialise config'' (lift_result (config_to_json cc config))) (\<lambda>json.
     bind_io (context_io (''Failed to write config: '' @ path) (fs_write path json)) (\<lambda>_.
     context_io (''Failed to restrict permissions on '' @ path) (restrict path))))"

end
