(* ===== verification/MA_Storage.thy ===== *)
theory MA_Storage
  imports MA_Config MA_Schema
begin

text \<open>
  The storage trait (\<open>storage/mod.rs\<close>) as a record of its operations over a state, its local
  implementation over the disk, and the router (\<open>storage/router.rs\<close>). A listing walks pages or
  directories, so it may not end: \<^const>\<open>None\<close>.
\<close>

section \<open>Operations that may not end\<close>

type_synonym ('s, 'a) loop = "'s \<Rightarrow> ('a result \<times> 's) option"

definition bind_loop :: "('s, 'a) loop \<Rightarrow> ('a \<Rightarrow> ('s, 'b) loop) \<Rightarrow> ('s, 'b) loop" where
  "bind_loop m f = (\<lambda>s. case m s of
     None \<Rightarrow> None | Some (Inl e, s) \<Rightarrow> Some (Inl e, s) | Some (Inr a, s) \<Rightarrow> f a s)"

definition ends :: "('s, 'a) io \<Rightarrow> ('s, 'a) loop" where
  "ends m = (\<lambda>s. Some (m s))"

lemma bind_loop_Some_iff:
  "bind_loop m f s = Some (r, s') \<longleftrightarrow>
     (\<exists>e. m s = Some (Inl e, s') \<and> r = Inl e) \<or> (\<exists>a s1. m s = Some (Inr a, s1) \<and> f a s1 = Some (r, s'))"
  by (auto simp: bind_loop_def split: option.splits prod.splits sum.splits)

section \<open>The trait\<close>

text \<open>\<open>dbg\<close> is the \<open>Debug\<close> form of a string, quoted and escaped by the Unicode tables.\<close>

definition validate_session_id :: "(string \<Rightarrow> string) \<Rightarrow> string \<Rightarrow> unit result" where
  "validate_session_id dbg sid =
     (if sid = [] \<or> sid = ''.'' \<or> sid = ''..'' \<or> str_contains ''/'' sid
         \<or> str_contains [backslash] sid \<or> str_contains ''..'' sid \<or> prefix ''/'' sid
      then Inl (''invalid session id for storage operation: '' @ dbg sid) else Inr ())"

record 's storage_backend =
  sb_put :: "string \<Rightarrow> string \<Rightarrow> string \<Rightarrow> string \<Rightarrow> ('s, unit) io"
  sb_get :: "string \<Rightarrow> string \<Rightarrow> ('s, string) io"
  sb_list :: "string \<Rightarrow> string \<Rightarrow> ('s, string list) loop"
  sb_delete :: "string \<Rightarrow> string \<Rightarrow> ('s, unit) io"
  sb_delete_all :: "string \<Rightarrow> ('s, nat) loop"

text \<open>The trait's default \<open>delete_all\<close>.\<close>

definition default_delete_all ::
  "(string \<Rightarrow> string) \<Rightarrow> (string \<Rightarrow> string \<Rightarrow> ('s, string list) loop) \<Rightarrow> (string \<Rightarrow> string \<Rightarrow> ('s, unit) io) \<Rightarrow> string \<Rightarrow> ('s, nat) loop" where
  "default_delete_all dbg list delete sid =
     bind_loop (ends (lift_result (validate_session_id dbg sid))) (\<lambda>_.
     bind_loop (list sid []) (\<lambda>paths.
     ends (fold_io (\<lambda>rel removed. bind_io (delete sid rel) (\<lambda>_. ok (removed + 1))) paths 0)))"

section \<open>The local backend\<close>

definition local_resolve :: "string \<Rightarrow> string \<Rightarrow> string \<Rightarrow> string" where
  "local_resolve storage_path sid relative_path = path_join (path_join storage_path sid) relative_path"

definition local_put :: "string \<Rightarrow> string \<Rightarrow> string \<Rightarrow> string \<Rightarrow> string \<Rightarrow> (disk, unit) io" where
  "local_put storage_path sid relative_path bytes content_type =
     (let path = local_resolve storage_path sid relative_path;
          tmp = with_extension path ''tmp'' in
      bind_io (case parent path of Some up \<Rightarrow> fs_create_dir_all up | None \<Rightarrow> ok ()) (\<lambda>_.
      bind_io (fs_write tmp bytes) (\<lambda>_.
      fs_rename tmp path)))"

definition local_get :: "string \<Rightarrow> string \<Rightarrow> string \<Rightarrow> (disk, string) io" where
  "local_get storage_path sid relative_path =
     fs_read (local_resolve storage_path sid relative_path)"

text \<open>\<open>read_dir\<close>: the names in a directory, in some order.\<close>

definition fs_read_dir :: "string \<Rightarrow> (disk, string list) io" where
  "fs_read_dir p = guarded (\<lambda>k d. d)
     (\<lambda>d. case node_at d p of
            None \<Rightarrow> (Inl not_found, d)
          | Some (File _) \<Rightarrow> (Inl not_a_directory, d)
          | Some Dir \<Rightarrow>
              (Inr (remdups (map last (filter (\<lambda>k. k \<noteq> [] \<and> butlast k = comps p) (map fst (tree d))))), d))"

text \<open>\<open>strip_prefix\<close> works on components.\<close>

definition path_strip_prefix :: "string \<Rightarrow> string \<Rightarrow> string option" where
  "path_strip_prefix base p =
     (if prefix (comps base) (comps p) then Some (path_of (drop (length (comps base)) (comps p))) else None)"

definition list_entry ::
  "disk \<Rightarrow> string \<Rightarrow> string \<Rightarrow> string \<Rightarrow> string list \<times> string list \<Rightarrow> string list \<times> string list" where
  "list_entry d base dir name = (\<lambda>(stack, results).
     let path = path_join dir name in
     if node_at d path = Some Dir then (stack @ [path], results)
     else (case path_strip_prefix base path of
             Some rel \<Rightarrow> (stack, results @ [rel])
           | None \<Rightarrow> (stack, results)))"

partial_function (option) local_list_loop :: "string \<Rightarrow> string list \<Rightarrow> string list \<Rightarrow> (disk, string list) loop" where
  "local_list_loop base stack results d =
     (if stack = [] then Some (Inr results, d)
      else
        (case fs_read_dir (last stack) d of
           (Inl e, d) \<Rightarrow> Some (Inl e, d)
         | (Inr names, d) \<Rightarrow>
             (case fold (list_entry d base (last stack)) names (butlast stack, results) of
                (stack, results) \<Rightarrow> local_list_loop base stack results d)))"

declare local_list_loop.simps [code]

definition local_list :: "string \<Rightarrow> string \<Rightarrow> string \<Rightarrow> (disk, string list) loop" where
  "local_list storage_path sid pre d =
     (let base = local_resolve storage_path sid pre in
      if \<not> fs_exists d base then Some (Inr [], d)
      else local_list_loop (path_join storage_path sid) [base] [] d)"

definition local_delete :: "string \<Rightarrow> string \<Rightarrow> string \<Rightarrow> (disk, unit) io" where
  "local_delete storage_path sid relative_path d =
     (let path = local_resolve storage_path sid relative_path in
      if fs_exists d path then fs_remove_file path d else (Inr (), d))"

text \<open>A listing that fails counts as zero objects.\<close>

definition local_delete_all :: "(string \<Rightarrow> string) \<Rightarrow> string \<Rightarrow> string \<Rightarrow> (disk, nat) loop" where
  "local_delete_all dbg storage_path sid =
     bind_loop (ends (lift_result (validate_session_id dbg sid))) (\<lambda>_ d.
     let dir = path_join storage_path sid in
     if \<not> fs_exists d dir then Some (Inr 0, d)
     else
       (case local_list storage_path sid [] d of
          None \<Rightarrow> None
        | Some (listed, d) \<Rightarrow>
            (let count = (case listed of Inr v \<Rightarrow> length v | Inl _ \<Rightarrow> 0) in
             ends (bind_io (context_io (''Failed to remove session dir: '' @ dir) (fs_remove_dir_all dir))
               (\<lambda>_. ok count)) d)))"

definition local_backend :: "(string \<Rightarrow> string) \<Rightarrow> string \<Rightarrow> disk storage_backend" where
  "local_backend dbg storage_path =
     \<lparr>sb_put = local_put storage_path, sb_get = local_get storage_path, sb_list = local_list storage_path,
      sb_delete = local_delete storage_path, sb_delete_all = local_delete_all dbg storage_path\<rparr>"

section \<open>The router\<close>

datatype rule_matcher = TenantPrefix string | DefaultRule

record routing_rule =
  rule_matcher :: rule_matcher
  rule_backend_name :: string

text \<open>The pool is a hash map: an association list, whose order stands for the order of iteration.\<close>

record 'b storage_router =
  router_pool :: "(string \<times> 'b) list"
  router_rules :: "routing_rule list"

definition rule_matches :: "rule_matcher \<Rightarrow> string \<Rightarrow> bool" where
  "rule_matches m tenant_id =
     (case m of
        TenantPrefix p \<Rightarrow> tenant_id \<noteq> [] \<and> prefix p tenant_id
      | DefaultRule \<Rightarrow> True)"

fun resolve_rules :: "(string \<times> 'b) list \<Rightarrow> routing_rule list \<Rightarrow> string \<Rightarrow> (string \<times> 'b) option" where
  "resolve_rules pool [] tenant_id =
     (case pool of [] \<Rightarrow> None | (name, backend) # _ \<Rightarrow> Some (name, backend))"
| "resolve_rules pool (rule # rules) tenant_id =
     (if rule_matches (rule_matcher rule) tenant_id
      then (case map_of pool (rule_backend_name rule) of
              Some backend \<Rightarrow> Some (rule_backend_name rule, backend)
            | None \<Rightarrow> resolve_rules pool rules tenant_id)
      else resolve_rules pool rules tenant_id)"

text \<open>\<^const>\<open>None\<close> is the panic on an empty pool.\<close>

definition resolve :: "'b storage_router \<Rightarrow> string \<Rightarrow> (string \<times> 'b) option" where
  "resolve router tenant_id = resolve_rules (router_pool router) (router_rules router) tenant_id"

definition resolve_for_session :: "'b storage_router \<Rightarrow> session_record \<Rightarrow> 'b option" where
  "resolve_for_session router record =
     (case if rec_storage_backend record \<noteq> [] then map_of (router_pool router) (rec_storage_backend record) else None of
        Some backend \<Rightarrow> Some backend
      | None \<Rightarrow> map_option snd (resolve router (rec_tenant_id record)))"

definition get_by_name :: "'b storage_router \<Rightarrow> string \<Rightarrow> 'b option" where
  "get_by_name router name = map_of (router_pool router) name"

section \<open>Building the router\<close>

text \<open>
  Constructing a cloud backend probes the cloud: \<open>connect\<close> is the outcome for a provider and its
  settings. In a multi-backend configuration one failure ends the process (\<^const>\<open>Inl\<close>, with the
  messages).
\<close>

record 'b backend_maker =
  make_local :: "string \<Rightarrow> 'b"
  make_s3 :: "string \<Rightarrow> string \<Rightarrow> 'b result"
  make_azure :: "string \<Rightarrow> string \<Rightarrow> 'b result"
  make_gcp :: "string \<Rightarrow> 'b result"

definition named_error :: "string \<Rightarrow> string \<Rightarrow> string \<Rightarrow> string" where
  "named_error name provider e = ''backend '' @ [squote] @ name @ [squote] @ '' ('' @ provider @ ''): '' @ e"

definition make_named :: "'b backend_maker \<Rightarrow> named_backend_config \<Rightarrow> 'b result" where
  "make_named mk bc =
     (let tagged = (\<lambda>p r. case r of Inl e \<Rightarrow> Inl (named_error (nb_name bc) p e) | Inr b \<Rightarrow> Inr b) in
      if nb_provider bc = ''aws'' then tagged ''aws'' (make_s3 mk (nb_bucket bc) (nb_region bc))
      else if nb_provider bc = ''azure'' then tagged ''azure'' (make_azure mk (nb_account bc) (nb_container bc))
      else if nb_provider bc = ''gcp'' then tagged ''gcp'' (make_gcp mk (nb_bucket bc))
      else Inl (''backend '' @ [squote] @ nb_name bc @ [squote] @ '': unknown provider ''
             @ [squote] @ nb_provider bc @ [squote]))"

text \<open>\<open>HashMap::insert\<close> on the pool.\<close>

definition pool_insert :: "string \<Rightarrow> 'b \<Rightarrow> (string \<times> 'b) list \<Rightarrow> (string \<times> 'b) list" where
  "pool_insert name b pool = (if map_of pool name = None then pool @ [(name, b)]
     else map (\<lambda>(k, x). if k = name then (k, b) else (k, x)) pool)"

fun make_pool ::
  "'b backend_maker \<Rightarrow> named_backend_config list \<Rightarrow> (string \<times> 'b) list \<Rightarrow> string list
   \<Rightarrow> (string \<times> 'b) list \<times> string list" where
  "make_pool mk [] pool errors = (pool, errors)"
| "make_pool mk (bc # rest) pool errors =
     (case make_named mk bc of
        Inr b \<Rightarrow> make_pool mk rest (pool_insert (nb_name bc) b pool) errors
      | Inl e \<Rightarrow> make_pool mk rest pool (errors @ [e]))"

definition rules_of_config :: "cloud_config \<Rightarrow> routing_rule list" where
  "rules_of_config cloud =
     (let rules = List.map_filter (\<lambda>rc.
            if rr_match_default rc
            then Some \<lparr>rule_matcher = DefaultRule, rule_backend_name = rr_backend rc\<rparr>
            else if rr_match_tenant_prefix rc \<noteq> []
            then Some \<lparr>rule_matcher = TenantPrefix (rr_match_tenant_prefix rc), rule_backend_name = rr_backend rc\<rparr>
            else None) (cl_routing_rules cloud);
          has_default = list_ex rr_match_default (cl_routing_rules cloud) in
      if has_default then rules
      else (case cl_backends cloud of
              first # _ \<Rightarrow> rules @ [\<lparr>rule_matcher = DefaultRule, rule_backend_name = nb_name first\<rparr>]
            | [] \<Rightarrow> rules))"

definition build_single_backend_from_flat :: "'b backend_maker \<Rightarrow> config \<Rightarrow> string \<times> 'b" where
  "build_single_backend_from_flat mk config =
     (let local = (''local'', make_local mk (cfg_storage_path config));
          cloud = cfg_cloud config;
          or_local = (\<lambda>name r. case r of Inr b \<Rightarrow> (name, b) | Inl _ \<Rightarrow> local) in
      if cfg_storage_mode config = ''cloud_primary'' then
        (if cl_provider cloud = ''aws''
         then or_local ''aws'' (make_s3 mk (aws_bucket (cl_aws cloud)) (aws_region (cl_aws cloud)))
         else if cl_provider cloud = ''azure''
         then or_local ''azure'' (make_azure mk (az_account (cl_azure cloud)) (az_container (cl_azure cloud)))
         else if cl_provider cloud = ''gcp'' then or_local ''gcp'' (make_gcp mk (gcp_bucket (cl_gcp cloud)))
         else local)
      else local)"

definition build_router :: "'b backend_maker \<Rightarrow> config \<Rightarrow> string list + 'b storage_router" where
  "build_router mk config =
     (let cloud = cfg_cloud config in
      if cl_backends cloud \<noteq> [] then
        (let (pool, errors) =
           (if cfg_storage_mode config \<noteq> ''cloud_primary''
            then (fold (\<lambda>bc pool. pool_insert (nb_name bc) (make_local mk (cfg_storage_path config)) pool)
                   (cl_backends cloud) [], [])
            else make_pool mk (cl_backends cloud) [] []) in
         if errors \<noteq> [] then Inl errors
         else Inr \<lparr>router_pool = pool, router_rules = rules_of_config cloud\<rparr>)
      else
        (case build_single_backend_from_flat mk config of
           (name, backend) \<Rightarrow>
             Inr \<lparr>router_pool = pool_insert name backend [],
                  router_rules = [\<lparr>rule_matcher = DefaultRule, rule_backend_name = name\<rparr>]\<rparr>))"

section \<open>Facts\<close>

lemma pool_insert_nonempty [simp]: "pool_insert n b p \<noteq> []"
  by (auto simp: pool_insert_def split: if_splits)

lemma fold_insert_nonempty: "p \<noteq> [] \<Longrightarrow> fold (\<lambda>bc. pool_insert (f bc) b) bcs p \<noteq> []"
  by (induction bcs arbitrary: p) auto

lemma make_pool_errors: "make_pool mk bcs p es = (p', es') \<Longrightarrow> prefix es es'"
proof (induction mk bcs p es rule: make_pool.induct)
  case (2 mk bc rest p es)
  then show ?case by (cases "make_named mk bc") (auto dest: append_prefixD)
qed auto

lemma make_pool_nonempty: "make_pool mk bcs p es = (p', []) \<Longrightarrow> bcs \<noteq> [] \<or> p \<noteq> [] \<Longrightarrow> p' \<noteq> []"
proof (induction mk bcs p es rule: make_pool.induct)
  case (2 mk bc rest p es)
  then show ?case by (cases "make_named mk bc") (auto dest: make_pool_errors)
qed auto

lemma resolve_rules_sound:
  "pool \<noteq> [] \<Longrightarrow> distinct (map fst pool) \<Longrightarrow> \<exists>n b. resolve_rules pool rs t = Some (n, b) \<and> map_of pool n = Some b"
  by (induction pool rs t rule: resolve_rules.induct) (auto split: option.splits list.splits)

lemma pool_insert_keys: "distinct (map fst p) \<Longrightarrow> distinct (map fst (pool_insert n b p))"
proof -
  assume d: "distinct (map fst p)"
  have "map fst (map (\<lambda>(k, x). if k = n then (k, b) else (k, x)) p) = map fst p" by (induction p) auto
  with d show ?thesis by (auto simp: pool_insert_def map_of_eq_None_iff simp del: map_map)
qed

lemma make_pool_keys: "make_pool mk bcs p es = (p', es') \<Longrightarrow> distinct (map fst p) \<Longrightarrow> distinct (map fst p')"
proof (induction mk bcs p es rule: make_pool.induct)
  case (2 mk bc rest p es)
  then show ?case by (cases "make_named mk bc") (auto simp: pool_insert_keys)
qed auto

lemma fold_insert_keys: "distinct (map fst p) \<Longrightarrow> distinct (map fst (fold (\<lambda>bc. pool_insert (f bc) b) bcs p))"
  by (induction bcs arbitrary: p) (auto simp: pool_insert_keys)

lemma build_router_pool:
  assumes "build_router mk config = Inr r"
  shows "router_pool r \<noteq> [] \<and> distinct (map fst (router_pool r))"
proof (cases "cl_backends (cfg_cloud config) = []")
  case True
  with assms show ?thesis by (auto simp: build_router_def pool_insert_def split: prod.splits)
next
  case False
  then obtain bc bcs where bcs: "cl_backends (cfg_cloud config) = bc # bcs" by (cases "cl_backends (cfg_cloud config)") auto
  show ?thesis
  proof (cases "cfg_storage_mode config = ''cloud_primary''")
    case True
    with assms False obtain p where "make_pool mk (cl_backends (cfg_cloud config)) [] [] = (p, [])" "router_pool r = p"
      by (auto simp: build_router_def Let_def split: prod.splits if_splits)
    with make_pool_nonempty [OF this(1)] make_pool_keys [OF this(1)] False show ?thesis by auto
  next
    case local: False
    with assms False have "router_pool r = fold (\<lambda>bc. pool_insert (nb_name bc) (make_local mk (cfg_storage_path config))) (bc # bcs) []"
      by (auto simp: build_router_def Let_def bcs)
    then show ?thesis
      by (simp add: fold_insert_nonempty fold_insert_keys pool_insert_keys)
  qed
qed

text \<open>
  C23. A session stays with its backend. The router the program builds never panics: every tenant
  resolves to a backend of the pool; and the backend registered sessions are pinned to is the one
  every later lookup returns, also under other routing rules as long as the pool has that name.
\<close>

theorem sessions_stay_with_backend:
  assumes "build_router mk config = Inr r"
  shows "\<exists>name b. resolve r tenant = Some (name, b)
    \<and> (\<forall>record rules'. rec_storage_backend record = name \<longrightarrow> name \<noteq> [] \<longrightarrow>
         resolve_for_session (r\<lparr>router_rules := rules'\<rparr>) record = Some b)"
proof -
  obtain n b where "resolve_rules (router_pool r) (router_rules r) tenant = Some (n, b)" "map_of (router_pool r) n = Some b"
    using build_router_pool [OF assms] resolve_rules_sound by blast
  then show ?thesis by (auto simp: resolve_def resolve_for_session_def)
qed

definition local_only :: "string backend_maker" where
  "local_only = \<lparr>make_local = (\<lambda>p. p), make_s3 = \<lambda>_ _. Inl ''no S3'', make_azure = \<lambda>_ _. Inl ''no Azure'',
     make_gcp = \<lambda>_. Inl ''no GCS''\<rparr>"

theorem sessions_stay_with_backend_witness:
  "\<exists>r b. build_router local_only (default_config \<lparr>env_var = Map.empty, temp_dir = ''/tmp''\<rparr>) = Inr r
     \<and> resolve r ''acme'' = Some (''local'', b)"
proof -
  let ?cfg = "default_config \<lparr>env_var = Map.empty, temp_dir = ''/tmp''\<rparr>"
  obtain r where r: "build_router local_only ?cfg = Inr r" "map fst (router_pool r) = [''local'']"
    by (simp add: build_router_def build_single_backend_from_flat_def default_config_def default_cloud_def
        pool_insert_def Let_def)
  from sessions_stay_with_backend [OF r(1), of "''acme''"]
  obtain n b where "resolve r ''acme'' = Some (n, b)" by blast
  moreover have "n = ''local''"
    using calculation r by (auto simp: build_router_def build_single_backend_from_flat_def default_config_def
        default_cloud_def Let_def resolve_def rule_matches_def pool_insert_def)
  ultimately show ?thesis using r(1) by blast
qed

section \<open>Deletion stays inside\<close>

lemma contains_char: "str_contains [c] s \<longleftrightarrow> c \<in> set s"
  by (simp add: str_contains_def str_find_char_iff)

lemma valid_id_comps:
  assumes "validate_session_id dbg sid = Inr u"
  shows "comps (path_join storage sid) = comps storage @ [sid]"
proof -
  have id: "sid \<noteq> []" "sid \<noteq> ''.''" "list_all (\<lambda>c. c \<noteq> CHR ''/'') sid" "\<not> prefix ''/'' sid"
    using assms by (auto simp: validate_session_id_def contains_char list_all_iff split: if_splits)
  then have "comps sid = [sid]" by (simp add: comps_name)
  with id show ?thesis
    by (cases "storage = []") (simp_all add: comps_join, simp add: path_join_def comps_def)
qed

lemma read_dir_tree: "fs_read_dir p d = (r, d') \<Longrightarrow> tree d' = tree d"
  unfolding fs_read_dir_def by (erule guarded_cases) (auto split: option.splits node.splits)

lemma local_list_loop_tree: "local_list_loop base stack results d = Some (r, d') \<Longrightarrow> tree d' = tree d"
proof -
  let ?P = "\<lambda>base stack results d res. tree (snd res) = tree d"
  assume "local_list_loop base stack results d = Some (r, d')"
  then have "?P base stack results d (r, d')"
  proof (rule local_list_loop.raw_induct [where P = ?P, rotated])
    fix rec base stack results d res
    assume IH: "\<And>base stack results d res. rec base stack results d = Some res \<Longrightarrow> ?P base stack results d res"
      and body: "(if stack = [] then Some (Inr results, d)
        else case fs_read_dir (last stack) d of
           (Inl e, d) \<Rightarrow> Some (Inl e, d)
         | (Inr names, d) \<Rightarrow>
             (case fold (list_entry d base (last stack)) names (butlast stack, results) of
                (stack, results) \<Rightarrow> rec base stack results d)) = Some res"
    obtain q d1 where q: "fs_read_dir (last stack) d = (q, d1)" by fastforce
    note same = read_dir_tree [OF q]
    show "?P base stack results d res"
    proof (cases "stack = []")
      case True
      with body show ?thesis by auto
    next
      case False
      show ?thesis
      proof (cases q)
        case (Inl e)
        with body False q same show ?thesis by auto
      next
        case (Inr names)
        obtain st rs where "fold (list_entry d1 base (last stack)) names (butlast stack, results) = (st, rs)" by fastforce
        with body False q Inr have "rec base st rs d1 = Some res" by simp
        from IH [OF this] same show ?thesis by simp
      qed
    qed
  qed
  then show ?thesis by simp
qed

lemma local_list_tree: "local_list storage sid pre d = Some (r, d') \<Longrightarrow> tree d' = tree d"
  by (auto simp: local_list_def Let_def split: if_splits dest: local_list_loop_tree)

text \<open>
  Deleting a session's local objects stays inside the session's directory. \<open>delete_all\<close> refuses
  every id that is empty, a dot name or holds a separator or \<open>..\<close>, without touching the disk; for any
  other id, however it ends, no path outside \<open>storage_path/id\<close> changes, and on success nothing is
  left in there.
\<close>

lemma local_delete_all_confined:
  assumes "local_delete_all dbg storage sid d = Some (r, d')"
  shows "(isl (validate_session_id dbg sid) \<longrightarrow> isl r \<and> d' = d)
    \<and> (validate_session_id dbg sid = Inr () \<longrightarrow>
         (\<forall>q. \<not> prefix (comps storage @ [sid]) (comps q) \<longrightarrow> node_at d' q = node_at d q)
         \<and> (\<forall>n. r = Inr n \<longrightarrow> node_at d' (path_join storage sid) = None))"
proof (cases "validate_session_id dbg sid")
  case (Inl e)
  with assms show ?thesis by (auto simp: local_delete_all_def bind_loop_def ends_def lift_result_def)
next
  case (Inr u)
  let ?dir = "path_join storage sid"
  have dir: "comps ?dir = comps storage @ [sid]" by (rule valid_id_comps [OF Inr])
  show ?thesis
  proof (cases "fs_exists d ?dir")
    case False
    with assms Inr show ?thesis
      by (auto simp: local_delete_all_def bind_loop_def ends_def lift_result_def fs_exists_def Let_def)
  next
    case True
    obtain x d1 where x: "local_list storage sid [] d = Some (x, d1)"
      and rm: "bind_io (context_io (''Failed to remove session dir: '' @ ?dir) (fs_remove_dir_all ?dir))
          (\<lambda>_. ok (case x of Inr v \<Rightarrow> length v | Inl _ \<Rightarrow> 0)) d1 = (r, d')"
      using assms Inr True
      by (auto simp: local_delete_all_def bind_loop_def ends_def lift_result_def Let_def split: option.splits)
    obtain y d2 where y: "fs_remove_dir_all ?dir d1 = (y, d2)" by fastforce
    have d': "d' = d2" "r = Inr n \<Longrightarrow> y = Inr ()" for n
      using rm y by (cases y; auto simp: bind_context_Inl bind_context_Inr)+
    have "\<not> prefix (comps storage @ [sid]) (comps q) \<Longrightarrow> node_at d' q = node_at d q" for q
      using remove_dir_all_frame [OF y, of q] node_at_same [OF local_list_tree [OF x], of q] d'(1) dir by simp
    moreover have "sid \<noteq> ''/''" using Inr by (auto simp: validate_session_id_def contains_char)
    then have "node_at d' ?dir = None" if "r = Inr n" for n
      using remove_dir_all_done [of ?dir d1 "()" d2 ?dir] y d' that dir by auto
    ultimately show ?thesis using Inr by auto
  qed
qed

lemma local_delete_all_confined_witness:
  "node_at (snd (the (local_delete_all id ''m'' ''..'' \<lparr>tree = [([''m''], Dir)], faults = []\<rparr>))) ''m'' = Some Dir"
proof -
  let ?d = "\<lparr>tree = [([''m''], Dir)], faults = []\<rparr> :: disk"
  have "isl (validate_session_id id ''..'')" by (simp add: validate_session_id_def)
  moreover obtain r d' where run: "local_delete_all id ''m'' ''..'' ?d = Some (r, d')"
    by (simp add: local_delete_all_def bind_loop_def ends_def lift_result_def validate_session_id_def)
  ultimately have "d' = ?d" using local_delete_all_confined [OF run] by blast
  with run show ?thesis by (simp add: node_at_def comps_def)
qed

end
