(* ===== verification/MA_Reasoning_Maps.thy ===== *)
theory MA_Reasoning_Maps
  imports MA_Prelude
begin

text \<open>
  \<open>ReasoningMaps\<close> of \<open>capture/mod.rs\<close>: the tokens reported for running sessions and not yet written
  down, the per-session write locks and the degraded flags. Each operation holds the mutexes it
  takes for its whole body, so it is one step; a lock is known by a number.
\<close>

type_synonym token_counts = "u64 \<times> u64"
type_synonym provider_tokens = "string \<rightharpoonup> token_counts"

record reasoning_maps =
  rm_tokens :: "string \<rightharpoonup> token_counts"
  rm_provider_tokens :: "string \<rightharpoonup> provider_tokens"
  rm_write_locks :: "string \<rightharpoonup> nat"
  rm_next_lock :: nat
  rm_degraded :: "string set"

definition empty_maps :: reasoning_maps where
  "empty_maps = \<lparr>rm_tokens = Map.empty, rm_provider_tokens = Map.empty, rm_write_locks = Map.empty,
     rm_next_lock = 0, rm_degraded = {}\<rparr>"

text \<open>\<open>u64\<close> additions, which wrap.\<close>

definition plus_counts :: "token_counts \<Rightarrow> token_counts \<Rightarrow> token_counts" where
  "plus_counts a b = (fst a + fst b, snd a + snd b)"

definition add_tokens :: "string \<Rightarrow> u64 \<Rightarrow> u64 \<Rightarrow> reasoning_maps \<Rightarrow> reasoning_maps" where
  "add_tokens sid inp out m =
     m\<lparr>rm_tokens := (rm_tokens m)(sid \<mapsto> plus_counts (unwrap_or (0, 0) (rm_tokens m sid)) (inp, out))\<rparr>"

definition drain_tokens :: "string \<Rightarrow> reasoning_maps \<Rightarrow> token_counts \<times> reasoning_maps" where
  "drain_tokens sid m =
     (unwrap_or (0, 0) (rm_tokens m sid), m\<lparr>rm_tokens := (rm_tokens m)(sid := None)\<rparr>)"

definition add_provider_tokens :: "string \<Rightarrow> string \<Rightarrow> u64 \<Rightarrow> u64 \<Rightarrow> reasoning_maps \<Rightarrow> reasoning_maps" where
  "add_provider_tokens sid provider inp out m =
     (if provider = [] then m
      else
        let inner = unwrap_or Map.empty (rm_provider_tokens m sid) in
        m\<lparr>rm_provider_tokens := (rm_provider_tokens m)
            (sid \<mapsto> inner(provider \<mapsto> plus_counts (unwrap_or (0, 0) (inner provider)) (inp, out)))\<rparr>)"

definition drain_provider_tokens :: "string \<Rightarrow> reasoning_maps \<Rightarrow> provider_tokens \<times> reasoning_maps" where
  "drain_provider_tokens sid m =
     (unwrap_or Map.empty (rm_provider_tokens m sid),
      m\<lparr>rm_provider_tokens := (rm_provider_tokens m)(sid := None)\<rparr>)"

definition session_write_lock :: "string \<Rightarrow> reasoning_maps \<Rightarrow> nat \<times> reasoning_maps" where
  "session_write_lock sid m =
     (case rm_write_locks m sid of
        Some l \<Rightarrow> (l, m)
      | None \<Rightarrow> (rm_next_lock m, m\<lparr>rm_write_locks := (rm_write_locks m)(sid \<mapsto> rm_next_lock m),
                  rm_next_lock := rm_next_lock m + 1\<rparr>))"

definition mark_degraded :: "string \<Rightarrow> reasoning_maps \<Rightarrow> reasoning_maps" where
  "mark_degraded sid m = m\<lparr>rm_degraded := insert sid (rm_degraded m)\<rparr>"

definition reset_degraded :: "string \<Rightarrow> reasoning_maps \<Rightarrow> reasoning_maps" where
  "reset_degraded sid m = m\<lparr>rm_degraded := rm_degraded m - {sid}\<rparr>"

definition is_degraded :: "string \<Rightarrow> reasoning_maps \<Rightarrow> bool" where
  "is_degraded sid m \<longleftrightarrow> sid \<in> rm_degraded m"

definition remove_session :: "string \<Rightarrow> reasoning_maps \<Rightarrow> reasoning_maps" where
  "remove_session sid m =
     m\<lparr>rm_tokens := (rm_tokens m)(sid := None),
       rm_provider_tokens := (rm_provider_tokens m)(sid := None),
       rm_write_locks := (rm_write_locks m)(sid := None),
       rm_degraded := rm_degraded m - {sid}\<rparr>"

section \<open>The ledger\<close>

text \<open>What is recorded for a session and not yet drained, in total and for one provider.\<close>

definition pending :: "string \<Rightarrow> reasoning_maps \<Rightarrow> token_counts" where
  "pending sid m = unwrap_or (0, 0) (rm_tokens m sid)"

definition pending_for :: "string \<Rightarrow> string \<Rightarrow> reasoning_maps \<Rightarrow> token_counts" where
  "pending_for sid p m = unwrap_or (0, 0) (unwrap_or Map.empty (rm_provider_tokens m sid) p)"

lemma plus_counts_ac:
  "plus_counts (plus_counts a b) c = plus_counts a (plus_counts b c)"
  "plus_counts a b = plus_counts b a"
  "plus_counts a (0, 0) = a" "plus_counts (0, 0) a = a"
  by (cases a; simp add: plus_counts_def ac_simps)+

lemma unwrap_or_simps [simp]: "unwrap_or d None = d" "unwrap_or d (Some x) = x"
  by (simp_all add: unwrap_or_def)

lemma pending_simps [simp]:
  "pending sid (add_tokens s i o' m) = (if s = sid then plus_counts (pending sid m) (i, o') else pending sid m)"
  "pending sid (add_provider_tokens s p i o' m) = pending sid m"
  "pending sid (snd (drain_tokens s m)) = (if s = sid then (0, 0) else pending sid m)"
  "fst (drain_tokens s m) = pending s m"
  "pending sid (snd (drain_provider_tokens s m)) = pending sid m"
  "pending sid (mark_degraded s m) = pending sid m" "pending sid (reset_degraded s m) = pending sid m"
  "pending sid (remove_session s m) = (if s = sid then (0, 0) else pending sid m)"
  "pending sid (snd (session_write_lock s m)) = pending sid m"
  by (simp_all add: pending_def add_tokens_def add_provider_tokens_def drain_tokens_def drain_provider_tokens_def
      mark_degraded_def reset_degraded_def remove_session_def session_write_lock_def Let_def split: option.splits)

lemma pending_for_simps [simp]:
  "pending_for sid p (add_tokens s i o' m) = pending_for sid p m"
  "pending_for sid p (add_provider_tokens s q i o' m) =
     (if s = sid \<and> q = p \<and> q \<noteq> [] then plus_counts (pending_for sid p m) (i, o') else pending_for sid p m)"
  "pending_for sid p (snd (drain_tokens s m)) = pending_for sid p m"
  "pending_for sid p (snd (drain_provider_tokens s m)) = (if s = sid then (0, 0) else pending_for sid p m)"
  "unwrap_or (0, 0) (fst (drain_provider_tokens s m) p) = pending_for s p m"
  by (simp_all add: pending_for_def add_tokens_def add_provider_tokens_def drain_tokens_def drain_provider_tokens_def Let_def)

end
