(* ===== verification/MA_Messages.thy ===== *)
theory MA_Messages
  imports MA_Registry MA_Doc
begin

text \<open>
  The messages of the local protocol (\<open>ipc/messages.rs\<close>): what the Python side may send and what the
  core answers or pushes. Byte vectors are strings; their base64 form on the wire is serde's.
\<close>

record file_entry =
  fe_path :: string
  fe_size :: u64

record context_step =
  cx_step_id :: u32
  cx_converted_command :: string
  cx_reasoning :: string

record session_config =
  sc_model_provider :: string
  sc_model_endpoint :: string
  sc_model_api_key_ref :: string
  sc_context_window_steps :: u32
  sc_fallback_model_provider :: string
  sc_fallback_model_endpoint :: string
  sc_fallback_api_key_ref :: string

record register_fields =
  rg_mode :: string
  rg_os_type :: string
  rg_os_version :: string
  rg_os_architecture :: string
  rg_os_environment_id :: string
  rg_capture_server_id :: string
  rg_actuation_server_id :: string
  rg_memory_name :: string
  rg_reasoning_model_id :: "string option"
  rg_tenant_id :: "string option"
  rg_session_config :: "session_config option"
  rg_capture_server_addr :: string
  rg_the_eyes_addr :: string

record reasoning_fields =
  rf_session_id :: string
  rf_step_id :: u32
  rf_reasoning :: string
  rf_source :: string
  rf_provider :: string
  rf_model_id :: string
  rf_api_version :: string
  rf_input_tokens :: u32
  rf_output_tokens :: u32
  rf_latency_ms :: u32
  rf_action_intent :: "string option"
  rf_confidence :: "32 word option"
  rf_keyboard_visual_annotation :: "json option"

text \<open>The large variants carry a record of their fields; the others have them in the order of the source.\<close>

datatype inbound =
    Ping
  | RegisterSession register_fields
  | GetSessionStatus string
  | StartWatch string
  | Done string
  | LoadSession string
  | UpdateAnnotationProgress string u32 u32
  | CloseAnnotation string
  | CompleteAnnotation string
  | FinalizeMemory string
  | ReasoningResult reasoning_fields
  | ReasoningDegraded string u32
  | CircuitReset string
  | CompileMemory string
  | FetchFile string string
  | ListSessionFiles string string
  | UploadFile string string string string
  | AnnotatorAuth string string
  | ListAnnotationQueue
  | ClaimSession string
  | ReleaseSession string string
  | HeartbeatClaim string string
  | PricingRegistryStatus string "int option"
  | RegisterAnnotator string "string list" u32
  | DeactivateAnnotator string
  | RotateAnnotatorKey string
  | ListAnnotators
  | DeleteSession string bool

record queue_item =
  qi_session_id :: string
  qi_memory_name :: string
  qi_total_steps :: u32
  qi_created_at :: string

record watch_started_fields =
  ws_session_id :: string
  ws_memory_path :: string
  ws_model_provider :: string
  ws_model_endpoint :: string
  ws_model_api_key_ref :: string
  ws_fallback_model_provider :: string
  ws_fallback_model_endpoint :: string
  ws_fallback_api_key_ref :: string

record step_ready_fields =
  sr_session_id :: string
  sr_step_id :: u32
  sr_action_type :: string
  sr_action_subtype :: string
  sr_converted_command :: string
  sr_at_frame_bytes :: string
  sr_before_frame_bytes :: string
  sr_after_frame_bytes :: string
  sr_context_steps :: "context_step list"

datatype outbound =
    Pong string
  | SessionRegistered string
  | SessionStatus "(string \<times> json) list"
  | WatchStarted watch_started_fields
  | SessionComplete string u32
  | SessionDisconnected string string
  | SessionLoaded string string bool
  | AnnotationClosed string
  | AnnotationCompleted string
  | AnnotationProgressUpdated string u32 u32
  | MemoryFinalized string
  | ReasoningResultAccepted string u32
  | CircuitResetAck string
  | SessionStarted string
  | SessionFailed string string
  | ReasoningDegradedEvent string u32
  | StepReadyForReasoning step_ready_fields
  | MemoryCompileReady string string
  | FileWritten string string string
  | FileData string string string nat
  | SessionFileList string "file_entry list"
  | FileUploaded string string
  | AnnotatorAuthenticated string
  | AnnotationQueue "queue_item list"
  | SessionClaimed string string
  | ClaimConflict string
  | SessionReleased string
  | ClaimRefreshed string
  | AnnotatorRegistered string string
  | AnnotatorDeactivated string
  | AnnotatorKeyRotated string string
  | AnnotatorList "annotator_info list"
  | ClaimLimitReached string u32 u32
  | PricingStatusAck
  | SessionDeleted string string bool nat bool
  | Error string string

end
