(* ===== verification/MA_World.thy ===== *)
theory MA_World
  imports MA_Storage MA_Reasoning_Maps MA_Messages
begin

text \<open>
  The state the tasks of the core share: the disk, the cloud store behind a backend, the Redis
  server, the reasoning maps, the messages pushed to the client, the wall clock, and which sessions
  have a live watch loop and a Kafka channel. The cloud store
  and the server are known through the operations the code calls, so their states are type variables.

  A component works on its own part of this state and is lifted to the whole; the frame of the
  lifting is the locale \<open>lens\<close>, interpreted for every part below.
\<close>

section \<open>Parts of a state\<close>

definition zoom :: "('w \<Rightarrow> 's) \<Rightarrow> ('s \<Rightarrow> 'w \<Rightarrow> 'w) \<Rightarrow> ('s, 'a) io \<Rightarrow> ('w, 'a) io" where
  "zoom get put m = (\<lambda>w. case m (get w) of (r, s) \<Rightarrow> (r, put s w))"

definition zoom_loop :: "('w \<Rightarrow> 's) \<Rightarrow> ('s \<Rightarrow> 'w \<Rightarrow> 'w) \<Rightarrow> ('s, 'a) loop \<Rightarrow> ('w, 'a) loop" where
  "zoom_loop get put m = (\<lambda>w. map_option (\<lambda>(r, s). (r, put s w)) (m (get w)))"

locale lens =
  fixes get :: "'w \<Rightarrow> 's" and put :: "'s \<Rightarrow> 'w \<Rightarrow> 'w"
  assumes get_put: "get (put s w) = s"
    and put_get: "put (get w) w = w"
    and put_put: "put s (put t w) = put s w"
begin

lemma zoom_apply: "m (get w) = (r, s) \<Longrightarrow> zoom get put m w = (r, put s w)"
  by (simp add: zoom_def)

lemma zoom_result: "zoom get put m w = (r, w') \<Longrightarrow> m (get w) = (r, get w') \<and> w' = put (get w') w"
  by (auto simp: zoom_def get_put split: prod.splits)

lemma zoom_bind: "zoom get put (bind_io m f) = bind_io (zoom get put m) (\<lambda>a. zoom get put (f a))"
  by (rule ext) (auto simp: zoom_def bind_io_def get_put put_put split: prod.splits sum.splits)

lemma zoom_context: "zoom get put (context_io c m) = context_io c (zoom get put m)"
  by (rule ext) (auto simp: zoom_def context_io_def split: prod.splits sum.splits)

lemma zoom_ok: "zoom get put (ok a) = ok a"
  by (rule ext) (simp add: zoom_def put_get)

end

text \<open>Two parts that do not overlap: working on one leaves the other alone.\<close>

locale apart = a: lens get put + b: lens get' put'
  for get :: "'w \<Rightarrow> 's" and put and get' :: "'w \<Rightarrow> 't" and put' +
  assumes other: "get' (put s w) = get' w"
begin

lemma frame: "get' (snd (zoom get put m w)) = get' w"
  by (simp add: zoom_def other split: prod.splits)

end

section \<open>The shared state\<close>

record ('c, 'r) world =
  w_disk :: disk
  w_cloud :: 'c
  w_redis :: 'r
  w_maps :: reasoning_maps
  w_pushed :: "outbound list"
  w_push_fails :: "bool list"
  w_clock :: "int list"
  w_done_handles :: "string set"
  w_kafka_sessions :: "string set"

definition on_disk :: "(disk, 'a) io \<Rightarrow> (('c, 'r) world, 'a) io" where
  "on_disk = zoom w_disk (\<lambda>d w. w\<lparr>w_disk := d\<rparr>)"

definition on_cloud :: "('c, 'a) io \<Rightarrow> (('c, 'r) world, 'a) io" where
  "on_cloud = zoom w_cloud (\<lambda>c w. w\<lparr>w_cloud := c\<rparr>)"

definition on_redis :: "('r, 'a) io \<Rightarrow> (('c, 'r) world, 'a) io" where
  "on_redis = zoom w_redis (\<lambda>r w. w\<lparr>w_redis := r\<rparr>)"

interpretation disk_lens: lens w_disk "\<lambda>d w. w\<lparr>w_disk := d\<rparr>" by unfold_locales simp_all
interpretation cloud_lens: lens w_cloud "\<lambda>c w. w\<lparr>w_cloud := c\<rparr>" by unfold_locales simp_all
interpretation redis_lens: lens w_redis "\<lambda>r w. w\<lparr>w_redis := r\<rparr>" by unfold_locales simp_all

interpretation disk_maps: apart w_disk "\<lambda>d w. w\<lparr>w_disk := d\<rparr>" w_maps "\<lambda>m w. w\<lparr>w_maps := m\<rparr>"
  by unfold_locales simp_all
interpretation cloud_maps: apart w_cloud "\<lambda>c w. w\<lparr>w_cloud := c\<rparr>" w_maps "\<lambda>m w. w\<lparr>w_maps := m\<rparr>"
  by unfold_locales simp_all

text \<open>A failure that is logged and not returned.\<close>

definition attempt :: "('s, 'a) io \<Rightarrow> ('s, 'a result) io" where
  "attempt m = (\<lambda>s. case m s of (r, s) \<Rightarrow> (Inr r, s))"

definition ignore :: "('s, 'a) io \<Rightarrow> ('s, unit) io" where
  "ignore m = (\<lambda>s. case m s of (_, s) \<Rightarrow> (Inr (), s))"

definition reading :: "('s \<Rightarrow> 'a) \<Rightarrow> ('s, 'a) io" where
  "reading f = (\<lambda>s. (Inr (f s), s))"

definition changing :: "('s \<Rightarrow> 's) \<Rightarrow> ('s, unit) io" where
  "changing f = (\<lambda>s. (Inr (), f s))"

lemma attempt_apply: "m s = (r, s') \<Longrightarrow> attempt m s = (Inr r, s')"
  by (simp add: attempt_def)

lemma ignore_apply: "m s = (r, s') \<Longrightarrow> ignore m s = (Inr (), s')"
  by (simp add: ignore_def)

lemma attempt_state [simp]: "snd (attempt m s) = snd (m s)"
  by (simp add: attempt_def split: prod.splits)

lemma ignore_state [simp]: "snd (ignore m s) = snd (m s)"
  by (simp add: ignore_def split: prod.splits)

lemma bind_reading [simp]: "bind_io (reading g) f s = f (g s) s"
  by (simp add: bind_io_def reading_def)

lemma bind_changing [simp]: "bind_io (changing g) f s = f () (g s)"
  by (simp add: bind_io_def changing_def)

lemma bind_attempt: "bind_io (attempt m) f s = f (fst (m s)) (snd (m s))"
  by (simp add: bind_io_def attempt_def split: prod.splits)

lemma bind_ignore: "bind_io (ignore m) f s = f () (snd (m s))"
  by (simp add: bind_io_def ignore_def split: prod.splits)

text \<open>Running a sequence forwards and backwards.\<close>

lemma bind_io_go: "m s = (Inr a, s') \<Longrightarrow> f a s' = x \<Longrightarrow> bind_io m f s = x"
  by (simp add: bind_io_def)

lemma bind_io_stop: "m s = (Inl e, s') \<Longrightarrow> (Inl e, s') = x \<Longrightarrow> bind_io m f s = x"
  by (simp add: bind_io_def)

lemma bind_io_cases:
  assumes "bind_io m f s = (r, s')"
  obtains (stop) e where "m s = (Inl e, s')" "r = Inl e"
    | (go) a s1 where "m s = (Inr a, s1)" "f a s1 = (r, s')"
  using assms by (auto simp: bind_io_def split: prod.splits sum.splits)

lemma context_io_cases:
  assumes "context_io c m s = (r, s')"
  obtains (stop) e where "m s = (Inl e, s')" "r = Inl (c @ '': '' @ e)"
    | (go) a where "m s = (Inr a, s')" "r = Inr a"
  using assms by (auto simp: context_io_def split: prod.splits sum.splits)

text \<open>
  What an operation keeps, as a preorder between the state before and after: it is enough that every
  step keeps it.
\<close>

definition stays :: "('s \<Rightarrow> 's \<Rightarrow> bool) \<Rightarrow> ('s, 'a) io \<Rightarrow> bool" where
  "stays R m \<longleftrightarrow> (\<forall>s. R s (snd (m s)))"

lemma staysD: "stays R m \<Longrightarrow> m s = (r, s') \<Longrightarrow> R s s'"
  unfolding stays_def by (metis snd_conv)

locale kept =
  fixes R :: "'s \<Rightarrow> 's \<Rightarrow> bool"
  assumes R_refl: "R s s" and R_trans: "R s t \<Longrightarrow> R t u \<Longrightarrow> R s u"
begin

lemma keep_bind: "stays R m \<Longrightarrow> (\<And>a. stays R (f a)) \<Longrightarrow> stays R (bind_io m f)"
  unfolding stays_def bind_io_def
  by (auto split: prod.splits sum.splits intro: R_trans) (metis snd_conv R_trans)+

lemma keep_context: "stays R m \<Longrightarrow> stays R (context_io c m)"
  by (simp add: stays_def)

lemma keep_pure: "stays R (ok a)" "stays R (fail e)" "stays R (lift_result r)" "stays R (reading g)"
  by (simp_all add: stays_def lift_result_def reading_def R_refl)

lemma keep_change: "(\<And>s. R s (g s)) \<Longrightarrow> stays R (changing g)"
  by (simp add: stays_def changing_def)

lemma keep_attempt: "stays R m \<Longrightarrow> stays R (attempt m)"
  by (simp add: stays_def)

lemma keep_ignore: "stays R m \<Longrightarrow> stays R (ignore m)"
  by (simp add: stays_def)

lemma keep_fold: "(\<And>x a. stays R (f x a)) \<Longrightarrow> stays R (fold_io f xs a)"
  by (induction xs arbitrary: a) (simp_all add: keep_pure keep_bind)

end

text \<open>\<open>Utc::now()\<close>: the readings of the clock, the last of which is kept.\<close>

definition utc_now :: "(('c, 'r) world, int) io" where
  "utc_now w =
     (case w_clock w of
        [] \<Rightarrow> (Inr 0, w)
      | [t] \<Rightarrow> (Inr t, w)
      | t # ts \<Rightarrow> (Inr t, w\<lparr>w_clock := ts\<rparr>))"

text \<open>\<open>try_send\<close> on the bounded push channel: it may be full or closed.\<close>

definition try_send :: "outbound \<Rightarrow> (('c, 'r) world, unit) io" where
  "try_send msg w =
     (case w_push_fails w of
        True # fs \<Rightarrow> (Inl ''channel full or closed'', w\<lparr>w_push_fails := fs\<rparr>)
      | fs \<Rightarrow> (Inr (), w\<lparr>w_pushed := w_pushed w @ [msg], w_push_fails := tl fs\<rparr>))"

text \<open>A backend whose operations work on a part.\<close>

definition lift_backend :: "('w \<Rightarrow> 's) \<Rightarrow> ('s \<Rightarrow> 'w \<Rightarrow> 'w) \<Rightarrow> 's storage_backend \<Rightarrow> 'w storage_backend" where
  "lift_backend get put b =
     \<lparr>sb_put = \<lambda>sid p bytes ct. zoom get put (sb_put b sid p bytes ct),
      sb_get = \<lambda>sid p. zoom get put (sb_get b sid p),
      sb_list = \<lambda>sid p. zoom_loop get put (sb_list b sid p),
      sb_delete = \<lambda>sid p. zoom get put (sb_delete b sid p),
      sb_delete_all = \<lambda>sid. zoom_loop get put (sb_delete_all b sid)\<rparr>"

text \<open>
  What the documentation of the object stores gives: a successful upload replaces the object under
  its name, a failed one has replaced it or not, and no other object changes.
\<close>

definition stores :: "('w \<Rightarrow> string \<times> string \<rightharpoonup> string) \<Rightarrow> 'w storage_backend \<Rightarrow> bool" where
  "stores V b \<longleftrightarrow> (\<forall>sid p bytes ct w r w'. sb_put b sid p bytes ct w = (r, w') \<longrightarrow>
     V w' = (V w)((sid, p) \<mapsto> bytes) \<or> isl r \<and> V w' = V w)"

lemma storesD: "stores V b \<Longrightarrow> sb_put b sid p bytes ct w = (Inr u, w') \<Longrightarrow> V w' = (V w)((sid, p) \<mapsto> bytes)"
  unfolding stores_def by fastforce

text \<open>An object store held in a map, on which the properties about cloud sessions are witnessed.\<close>

definition memory_store :: "(string \<times> string \<rightharpoonup> string) storage_backend" where
  "memory_store =
     \<lparr>sb_put = \<lambda>sid p bytes ct m. (Inr (), m((sid, p) \<mapsto> bytes)),
      sb_get = \<lambda>sid p m. (case m (sid, p) of Some bytes \<Rightarrow> Inr bytes | None \<Rightarrow> Inl ''not found'', m),
      sb_list = \<lambda>sid p. ends (ok []),
      sb_delete = \<lambda>sid p m. (Inr (), m((sid, p) := None)),
      sb_delete_all = \<lambda>sid. ends (ok 0)\<rparr>"

lemma memory_store_stores: "stores w_cloud (lift_backend w_cloud (\<lambda>c w. w\<lparr>w_cloud := c\<rparr>) memory_store)"
  by (auto simp: stores_def lift_backend_def memory_store_def zoom_def)

end
