(* ===== verification/MA_Writer.thy ===== *)
theory MA_Writer
  imports MA_World MA_Convert
begin

text \<open>
  The command files of a session (\<open>capture/writer.rs\<close>): two markdown tables and two JSON Lines files,
  appended to on the disk in local mode and kept in memory and uploaded in cloud mode. The serde
  texts of an event and of a replay entry and the printed time are parameters. Operations run on the
  pair of the writer and the world.
\<close>

section \<open>State\<close>

record ('c, 'r) command_writer =
  cw_commands_dir :: string
  cw_step_counter :: u32
  cw_is_cloud_primary :: bool
  cw_session_id :: string
  cw_memory_name :: string
  cw_storage :: "('c, 'r) world storage_backend"
  cw_raw_input_buf :: string
  cw_converted_input_buf :: string
  cw_actuation_buf :: string
  cw_cc_buf :: string
  cw_raw_header_written :: bool
  cw_converted_header_written :: bool

record cc_command_entry =
  cce_step_id :: u32
  cce_os :: string
  cce_command :: string

record writer_codec =
  event_to_json :: "command_event \<Rightarrow> string result"
  cc_entry_to_json :: "cc_command_entry \<Rightarrow> string result"
  header_time :: "int \<Rightarrow> string"

type_synonym ('c, 'r) writing = "('c, 'r) command_writer \<times> ('c, 'r) world"

definition writer_world :: "(('c, 'r) world, 'a) io \<Rightarrow> (('c, 'r) writing, 'a) io" where
  "writer_world = zoom snd (\<lambda>w (cw, _). (cw, w))"

definition writer_self :: "(('c, 'r) command_writer \<Rightarrow> ('c, 'r) command_writer) \<Rightarrow> (('c, 'r) writing, unit) io" where
  "writer_self f = changing (\<lambda>(cw, w). (f cw, w))"

definition writer_new ::
  "string \<Rightarrow> bool \<Rightarrow> string \<Rightarrow> ('c, 'r) world storage_backend \<Rightarrow> ('c, 'r) command_writer" where
  "writer_new memory_dir is_cloud_primary sid storage =
     \<lparr>cw_commands_dir = path_join memory_dir ''commands'', cw_step_counter = 0,
      cw_is_cloud_primary = is_cloud_primary, cw_session_id = sid,
      cw_memory_name = unwrap_or [] (file_name memory_dir), cw_storage = storage,
      cw_raw_input_buf = [], cw_converted_input_buf = [], cw_actuation_buf = [], cw_cc_buf = [],
      cw_raw_header_written = False, cw_converted_header_written = False\<rparr>"

definition writer_cloud_path :: "('c, 'r) command_writer \<Rightarrow> string \<Rightarrow> string" where
  "writer_cloud_path cw relative_path = cw_memory_name cw @ ''/'' @ relative_path"

section \<open>Texts\<close>

definition md_cell :: "string \<Rightarrow> string" where
  "md_cell text = concat (map (\<lambda>ch.
     if ch = CHR ''|'' then backslash # ''|'' else if ch = newline \<or> ch = carriage then '' '' else [ch]) text)"

text \<open>\<open>{:>4}\<close>.\<close>

definition pad4 :: "u32 \<Rightarrow> string" where
  "pad4 n = (let s = show_nat (unat n) in replicate (4 - length s) (CHR '' '') @ s)"

definition failed_prefix :: "command_event \<Rightarrow> string" where
  "failed_prefix event = (if \<not> success event then ''[FAILED] '' else [])"

definition table_row :: "u32 \<Rightarrow> command_event \<Rightarrow> string \<Rightarrow> string" where
  "table_row step event text =
     ''| '' @ pad4 step @ '' | '' @ timestamp event @ '' | '' @ failed_prefix event @ md_cell text @ '' |'' @ [newline]"

definition table_header :: "string \<Rightarrow> string \<Rightarrow> string \<Rightarrow> string \<Rightarrow> string" where
  "table_header title column rule now =
     ''# '' @ title @ [newline, newline] @ ''_Generated by Memory Archive '' @ em_dash @ '' '' @ now @ ''_''
     @ [newline, newline] @ ''| Step | Timestamp | '' @ column @ '' |'' @ [newline]
     @ ''|------|-----------|'' @ rule @ ''|'' @ [newline]"

definition raw_header :: "writer_codec \<Rightarrow> int \<Rightarrow> string" where
  "raw_header wc now = table_header ''Raw Input'' ''Command'' ''----------'' (header_time wc now)"

definition converted_header :: "writer_codec \<Rightarrow> int \<Rightarrow> string" where
  "converted_header wc now = table_header ''Converted Input'' ''Action'' ''--------'' (header_time wc now)"

definition cc_entry :: "u32 \<Rightarrow> command_event \<Rightarrow> cc_command_entry" where
  "cc_entry step event = \<lparr>cce_step_id = step, cce_os = os_type event, cce_command = to_cc_command event\<rparr>"

section \<open>Buffers\<close>

definition buffer_raw :: "writer_codec \<Rightarrow> u32 \<Rightarrow> command_event \<Rightarrow> (('c, 'r) writing, unit) io" where
  "buffer_raw wc step event =
     bind_io (\<lambda>(cw, w).
       if \<not> cw_raw_header_written cw then
         bind_io (writer_world utc_now) (\<lambda>now.
         writer_self (\<lambda>cw. cw\<lparr>cw_raw_input_buf := cw_raw_input_buf cw @ raw_header wc now,
                              cw_raw_header_written := True\<rparr>)) (cw, w)
       else (Inr (), (cw, w))) (\<lambda>_.
     writer_self (\<lambda>cw. cw\<lparr>cw_raw_input_buf := cw_raw_input_buf cw @ table_row step event (raw_command event)\<rparr>))"

definition buffer_converted :: "writer_codec \<Rightarrow> u32 \<Rightarrow> command_event \<Rightarrow> string \<Rightarrow> (('c, 'r) writing, unit) io" where
  "buffer_converted wc step event converted =
     bind_io (\<lambda>(cw, w).
       if \<not> cw_converted_header_written cw then
         bind_io (writer_world utc_now) (\<lambda>now.
         writer_self (\<lambda>cw. cw\<lparr>cw_converted_input_buf := cw_converted_input_buf cw @ converted_header wc now,
                              cw_converted_header_written := True\<rparr>)) (cw, w)
       else (Inr (), (cw, w))) (\<lambda>_.
     writer_self (\<lambda>cw. cw\<lparr>cw_converted_input_buf := cw_converted_input_buf cw @ table_row step event converted\<rparr>))"

definition buffer_jsonl :: "writer_codec \<Rightarrow> command_event \<Rightarrow> (('c, 'r) writing, unit) io" where
  "buffer_jsonl wc event =
     bind_io (context_io ''Failed to serialise CommandEvent to JSON'' (lift_result (event_to_json wc event))) (\<lambda>json.
     writer_self (\<lambda>cw. cw\<lparr>cw_actuation_buf := cw_actuation_buf cw @ json @ [newline]\<rparr>))"

definition buffer_cc_command :: "writer_codec \<Rightarrow> u32 \<Rightarrow> command_event \<Rightarrow> (('c, 'r) writing, unit) io" where
  "buffer_cc_command wc step event =
     bind_io (context_io ''Failed to serialise CcCommandEntry'' (lift_result (cc_entry_to_json wc (cc_entry step event)))) (\<lambda>json.
     writer_self (\<lambda>cw. cw\<lparr>cw_cc_buf := cw_cc_buf cw @ json @ [newline]\<rparr>))"

section \<open>Files\<close>

text \<open>The file is opened for append, gets its header when it did not exist, and then the line.\<close>

definition append_line :: "writer_codec \<Rightarrow> string \<Rightarrow> string \<Rightarrow> (('c, 'r) world, unit) io" where
  "append_line wc path line = (\<lambda>w.
     let needs_header = \<not> fs_exists (w_disk w) path in
     bind_io (context_io (''Failed to open: '' @ path) (on_disk (fs_append path []))) (\<lambda>_.
     bind_io (if needs_header then
         (if file_name path = Some ''raw_input.md'' then
            bind_io utc_now (\<lambda>now. context_io ''Failed to write file header''
              (on_disk (fs_append path (raw_header wc now))))
          else if file_name path = Some ''converted_input.md'' then
            bind_io utc_now (\<lambda>now. context_io ''Failed to write file header''
              (on_disk (fs_append path (converted_header wc now))))
          else ok ())
       else ok ()) (\<lambda>_.
     context_io (''Failed to write line to: '' @ path) (on_disk (fs_append path line)))) w)"

definition append_raw :: "writer_codec \<Rightarrow> string \<Rightarrow> u32 \<Rightarrow> command_event \<Rightarrow> (('c, 'r) world, unit) io" where
  "append_raw wc dir step event =
     context_io ''Failed to append to raw_input.md''
       (append_line wc (path_join dir ''raw_input.md'') (table_row step event (raw_command event)))"

definition append_converted :: "writer_codec \<Rightarrow> string \<Rightarrow> u32 \<Rightarrow> command_event \<Rightarrow> string \<Rightarrow> (('c, 'r) world, unit) io" where
  "append_converted wc dir step event converted =
     context_io ''Failed to append to converted_input.md''
       (append_line wc (path_join dir ''converted_input.md'') (table_row step event converted))"

definition append_jsonl :: "writer_codec \<Rightarrow> string \<Rightarrow> command_event \<Rightarrow> (('c, 'r) world, unit) io" where
  "append_jsonl wc dir event =
     bind_io (context_io ''Failed to serialise CommandEvent to JSON'' (lift_result (event_to_json wc event))) (\<lambda>json.
     context_io ''Failed to append to actuation_commands.json''
       (append_line wc (path_join dir ''actuation_commands.json'') (json @ [newline])))"

definition append_cc_command :: "writer_codec \<Rightarrow> string \<Rightarrow> u32 \<Rightarrow> command_event \<Rightarrow> (('c, 'r) world, unit) io" where
  "append_cc_command wc dir step event =
     bind_io (context_io ''Failed to serialise CcCommandEntry'' (lift_result (cc_entry_to_json wc (cc_entry step event)))) (\<lambda>json.
     context_io ''Failed to append to cc_commands.json''
       (append_line wc (path_join dir ''cc_commands.json'') (json @ [newline])))"

section \<open>One event\<close>

definition write_event :: "writer_codec \<Rightarrow> command_event \<Rightarrow> string \<Rightarrow> (('c, 'r) writing, u32) io" where
  "write_event wc event converted =
     bind_io (writer_self (\<lambda>cw. cw\<lparr>cw_step_counter := cw_step_counter cw + 1\<rparr>)) (\<lambda>_ (cw, w).
     let step = cw_step_counter cw; dir = cw_commands_dir cw in
     bind_io (if cw_is_cloud_primary cw then
         bind_io (buffer_raw wc step event) (\<lambda>_.
         bind_io (buffer_converted wc step event converted) (\<lambda>_.
         bind_io (buffer_jsonl wc event) (\<lambda>_.
         buffer_cc_command wc step event)))
       else writer_world (
         bind_io (append_raw wc dir step event) (\<lambda>_.
         bind_io (append_converted wc dir step event converted) (\<lambda>_.
         bind_io (append_jsonl wc dir event) (\<lambda>_.
         append_cc_command wc dir step event))))) (\<lambda>_.
     ok step) (cw, w))"

section \<open>The end of a session\<close>

definition put_command_file :: "string \<Rightarrow> (('c, 'r) command_writer \<Rightarrow> string) \<Rightarrow> string \<Rightarrow> (('c, 'r) writing, unit) io" where
  "put_command_file name buf content_type = (\<lambda>(cw, w).
     context_io (''Failed to flush '' @ name @ '' to cloud'')
       (writer_world (sb_put (cw_storage cw) (cw_session_id cw) (writer_cloud_path cw (''commands/'' @ name))
          (buf cw) content_type)) (cw, w))"

definition flush_to_cloud :: "(('c, 'r) writing, unit) io" where
  "flush_to_cloud = (\<lambda>(cw, w).
     if \<not> cw_is_cloud_primary cw then (Inr (), (cw, w))
     else
       bind_io (put_command_file ''raw_input.md'' cw_raw_input_buf ''text/markdown'') (\<lambda>_.
       bind_io (put_command_file ''converted_input.md'' cw_converted_input_buf ''text/markdown'') (\<lambda>_.
       bind_io (put_command_file ''actuation_commands.json'' cw_actuation_buf ''application/json'') (\<lambda>_.
       put_command_file ''cc_commands.json'' cw_cc_buf ''application/json''))) (cw, w))"

text \<open>The lines of a JSON Lines text, blank ones skipped; the first that does not parse is the error.\<close>

fun parse_jsonl :: "json_codec \<Rightarrow> string \<Rightarrow> string list \<Rightarrow> json list result" where
  "parse_jsonl jc filename [] = Inr []"
| "parse_jsonl jc filename (line # rest) =
     (if trim line = [] then parse_jsonl jc filename rest
      else
        (case json_parse jc line of
           Inl e \<Rightarrow> Inl (''Failed to parse JSONL line in '' @ filename @ '': '' @ line @ '': '' @ e)
         | Inr v \<Rightarrow> and_then (parse_jsonl jc filename rest) (\<lambda>vs. Inr (v # vs))))"

definition finalise_jsonl_buf_cloud :: "json_codec \<Rightarrow> string \<Rightarrow> string \<Rightarrow> (('c, 'r) writing, unit) io" where
  "finalise_jsonl_buf_cloud jc filename buf =
     bind_io (lift_result (if trim buf = [] then Inr [] else parse_jsonl jc filename (str_lines buf))) (\<lambda>entries (cw, w).
     context_io (''Failed to upload finalised '' @ filename @ '' to cloud'')
       (writer_world (sb_put (cw_storage cw) (cw_session_id cw) (writer_cloud_path cw (''commands/'' @ filename))
          (json_pretty jc (Array entries)) ''application/json'')) (cw, w))"

definition finalise_jsonl_file :: "json_codec \<Rightarrow> string \<Rightarrow> string \<Rightarrow> (disk, unit) io" where
  "finalise_jsonl_file jc dir filename = (\<lambda>d.
     let jsonl_path = path_join dir filename;
         tmp = path_join dir (filename @ ''.tmp'') in
     if \<not> fs_exists d jsonl_path then
       bind_io (context_io (''Failed to write empty '' @ filename) (fs_write tmp (''[]'' @ [newline]))) (\<lambda>_.
       context_io (''Failed to rename '' @ filename) (fs_rename tmp jsonl_path)) d
     else
       bind_io (context_io (''Failed to read '' @ filename @ '' for finalisation'') (fs_read_to_string jsonl_path)) (\<lambda>raw.
       bind_io (lift_result (parse_jsonl jc filename (str_lines raw))) (\<lambda>entries.
       bind_io (context_io (''Failed to write '' @ filename @ ''.tmp'') (fs_write tmp (json_pretty jc (Array entries)))) (\<lambda>_.
       context_io (''Failed to rename '' @ filename) (fs_rename tmp jsonl_path)))) d)"

definition finalise :: "json_codec \<Rightarrow> (('c, 'r) writing, unit) io" where
  "finalise jc = (\<lambda>(cw, w).
     if cw_is_cloud_primary cw then
       bind_io (finalise_jsonl_buf_cloud jc ''actuation_commands.json'' (cw_actuation_buf cw)) (\<lambda>_.
       bind_io (finalise_jsonl_buf_cloud jc ''cc_commands.json'' (cw_cc_buf cw)) (\<lambda>_.
       flush_to_cloud)) (cw, w)
     else
       writer_world (on_disk (bind_io (finalise_jsonl_file jc (cw_commands_dir cw) ''actuation_commands.json'') (\<lambda>_.
         finalise_jsonl_file jc (cw_commands_dir cw) ''cc_commands.json''))) (cw, w))"

end
