(* ===== verification/MA_Writer_Facts.thy ===== *)
theory MA_Writer_Facts
  imports MA_Writer MA_Doc
begin

text \<open>
  What the command files hold: the rows of the tables read back, the files of local mode and the
  buffers of cloud mode agree, and the finalised arrays are complete.
\<close>

section \<open>Table rows\<close>

text \<open>A reader of the tables: a bar splits cells unless a backslash stands before it.\<close>

fun split_cells :: "bool \<Rightarrow> string \<Rightarrow> string list" where
  "split_cells escaped [] = [[]]"
| "split_cells escaped (c # cs) =
     (if c = CHR ''|'' \<and> \<not> escaped then [] # split_cells False cs
      else case split_cells (c = backslash) cs of x # xs \<Rightarrow> (c # x) # xs | [] \<Rightarrow> [[c]])"

fun md_uncell :: "string \<Rightarrow> string" where
  "md_uncell [] = []"
| "md_uncell [c] = [c]"
| "md_uncell (c # d # cs) =
     (if c = backslash \<and> d = CHR ''|'' then CHR ''|'' # md_uncell cs else c # md_uncell (d # cs))"

definition fold_newlines :: "string \<Rightarrow> string" where
  "fold_newlines = map (\<lambda>c. if c = newline \<or> c = carriage then CHR '' '' else c)"

text \<open>No bar of the text splits a cell.\<close>

fun one_cell :: "bool \<Rightarrow> string \<Rightarrow> bool" where
  "one_cell escaped [] = True"
| "one_cell escaped (c # cs) = ((c = CHR ''|'' \<longrightarrow> escaped) \<and> one_cell (c = backslash) cs)"

lemma split_cells_nonempty [simp]: "split_cells b s \<noteq> []"
  by (cases s) (auto split: list.splits)

lemma split_one_cell:
  "one_cell b s \<Longrightarrow> split_cells b (s @ '' |'' @ r) = (s @ '' '') # split_cells False r"
  by (induction s arbitrary: b) auto

lemma one_cell_plain: "CHR ''|'' \<notin> set s \<Longrightarrow> one_cell b s"
  by (induction s arbitrary: b) auto

lemma one_cell_append: "CHR ''|'' \<notin> set s \<Longrightarrow> (\<And>b. one_cell b t) \<Longrightarrow> one_cell b (s @ t)"
  by (induction s arbitrary: b) auto

lemma md_cell_Cons: "md_cell (c # t) =
    (if c = CHR ''|'' then backslash # ''|'' else if c = newline \<or> c = carriage then '' '' else [c]) @ md_cell t"
  by (simp add: md_cell_def)

lemma one_cell_md: "one_cell b (md_cell t)"
  by (induction t arbitrary: b) (simp_all add: md_cell_Cons md_cell_def [of "[]"])

lemma md_uncell_plain: "c \<noteq> backslash \<Longrightarrow> md_uncell (c # s) = c # md_uncell s"
  by (cases s) auto

lemma md_uncell_cell: "md_uncell (md_cell t) = fold_newlines t"
proof (induction t)
  case Nil
  then show ?case by (simp add: md_cell_def fold_newlines_def)
next
  case (Cons c t)
  have "md_uncell (backslash # md_cell t) = backslash # md_uncell (md_cell t)"
    by (cases t) (auto simp: md_cell_Cons md_cell_def [of "[]"])
  with Cons show ?case
    by (cases "c = backslash") (auto simp: md_cell_Cons fold_newlines_def md_uncell_plain)
qed

lemma md_cell_newline: "newline \<notin> set (md_cell t)"
  by (auto simp: md_cell_def)

lemma digits_plain: "c \<in> set (show_nat n) \<Longrightarrow> c \<noteq> CHR ''|'' \<and> c \<noteq> newline"
  using show_nat_digits [of n] by (auto simp: list_all_iff is_digit_def)

text \<open>
  A row of the tables reads back. Whatever the command holds - bars, backslashes, line breaks -
  its row is one line, a reader that splits at the unescaped bars finds exactly the step, the
  timestamp and the command, and undoing the escape gives the command with its line breaks as spaces.
\<close>

lemma row_reads_back:
  assumes "CHR ''|'' \<notin> set (timestamp event)" and "newline \<notin> set (timestamp event)"
  shows "\<exists>line cell. table_row step event text = line @ [newline] \<and> newline \<notin> set line
    \<and> split_cells False line =
        [[], '' '' @ pad4 step @ '' '', '' '' @ timestamp event @ '' '', '' '' @ failed_prefix event @ cell @ '' '', []]
    \<and> md_uncell cell = fold_newlines text"
proof (intro exI conjI)
  have pad: "CHR ''|'' \<notin> set (pad4 step)" "newline \<notin> set (pad4 step)"
    by (auto simp: pad4_def Let_def dest: digits_plain)
  let ?line = "''| '' @ pad4 step @ '' | '' @ timestamp event @ '' | '' @ failed_prefix event @ md_cell text @ '' |''"
  show "table_row step event text = ?line @ [newline]" by (simp add: table_row_def)
  show "newline \<notin> set ?line" using pad assms(2) md_cell_newline by (auto simp: failed_prefix_def)
  have "split_cells False ('' '' @ pad4 step @ '' |'' @ r) = ('' '' @ pad4 step @ '' '') # split_cells False r" for r
    using split_one_cell [of False "'' '' @ pad4 step" r] pad(1) by (simp add: one_cell_plain)
  moreover have "split_cells False ('' '' @ timestamp event @ '' |'' @ r) = ('' '' @ timestamp event @ '' '') # split_cells False r" for r
    using split_one_cell [of False "'' '' @ timestamp event" r] assms(1) by (simp add: one_cell_plain)
  moreover have "one_cell False ('' '' @ failed_prefix event @ md_cell text)"
    using one_cell_append [of "'' '' @ failed_prefix event" "md_cell text"] one_cell_md
    by (simp add: failed_prefix_def)
  then have "split_cells False ('' '' @ failed_prefix event @ md_cell text @ '' |'' @ r) =
      ('' '' @ failed_prefix event @ md_cell text @ '' '') # split_cells False r" for r
    using split_one_cell [of False "'' '' @ failed_prefix event @ md_cell text" r] by simp
  from this [of "[]"] have "split_cells False ('' '' @ failed_prefix event @ md_cell text @ '' |'') =
      ['' '' @ failed_prefix event @ md_cell text @ '' '', []]" by simp
  ultimately show "split_cells False ?line =
      [[], '' '' @ pad4 step @ '' '', '' '' @ timestamp event @ '' '', '' '' @ failed_prefix event @ md_cell text @ '' '', []]"
    by simp
  show "md_uncell (md_cell text) = fold_newlines text" by (rule md_uncell_cell)
qed

lemma row_reads_back_witness:
  "\<exists>line cell. table_row 2 default_event ''ls | wc'' = line @ [newline] \<and> newline \<notin> set line
    \<and> split_cells False line =
        [[], '' '' @ pad4 2 @ '' '', '' '' @ timestamp default_event @ '' '', '' '' @ failed_prefix default_event @ cell @ '' '', []]
    \<and> md_uncell cell = fold_newlines ''ls | wc''"
  by (rule row_reads_back) (simp_all add: default_event_def)

section \<open>The files of local mode\<close>

definition text_at :: "disk \<Rightarrow> string \<Rightarrow> string" where
  "text_at d p = (case node_at d p of Some (File t) \<Rightarrow> t | _ \<Rightarrow> [])"

lemma do_append_result:
  assumes "do_append p bytes d = (r, d')"
  shows "comps q \<noteq> comps p \<Longrightarrow> node_at d' q = node_at d q"
    and "r = Inr () \<Longrightarrow> node_at d' p = Some (File (text_at d p @ bytes))"
  using assms by (auto simp: do_append_def text_at_def node_at_put split: option.splits node.splits if_splits)
    (auto simp: node_at_def split: if_splits)

lemma fs_append_result:
  assumes "fs_append p bytes d = (r, d')"
  shows "\<And>q. comps q \<noteq> comps p \<Longrightarrow> node_at d' q = node_at d q"
    and "r = Inr () \<Longrightarrow> node_at d' p = Some (File (text_at d p @ bytes))"
proof -
  have "(\<forall>q. comps q \<noteq> comps p \<longrightarrow> node_at d' q = node_at d q)
      \<and> (r = Inr () \<longrightarrow> node_at d' p = Some (File (text_at d p @ bytes)))"
    using assms [unfolded fs_append_def]
  proof (cases rule: guarded_cases)
    case (1 d1)
    with do_append_result [OF 1(2)] node_at_same [OF 1(1)] show ?thesis by (auto simp: text_at_def)
  next
    case (2 e k d1)
    obtain r1 where "do_append p (take k bytes) d1 = (r1, d')" using 2(3) by (metis prod.collapse)
    from do_append_result(1) [OF this] node_at_same [OF 2(1)] 2(2) show ?thesis by auto
  qed
  then show "\<And>q. comps q \<noteq> comps p \<Longrightarrow> node_at d' q = node_at d q"
    and "r = Inr () \<Longrightarrow> node_at d' p = Some (File (text_at d p @ bytes))" by auto
qed

lemma on_disk_apply: "on_disk m w = (r, w') \<longleftrightarrow> (\<exists>d. m (w_disk w) = (r, d) \<and> w' = w\<lparr>w_disk := d\<rparr>)"
  by (auto simp: on_disk_def zoom_def split: prod.splits)

lemma utc_now_frame: "utc_now w = (r, w') \<Longrightarrow> w_disk w' = w_disk w \<and> (\<exists>t. r = Inr t)"
  by (auto simp: utc_now_def split: list.splits)

text \<open>The header a new file of this name gets.\<close>

definition header_of :: "writer_codec \<Rightarrow> string \<Rightarrow> int \<Rightarrow> string" where
  "header_of wc path now =
     (if file_name path = Some ''raw_input.md'' then raw_header wc now
      else if file_name path = Some ''converted_input.md'' then converted_header wc now else [])"

definition has_header :: "string \<Rightarrow> bool" where
  "has_header path \<longleftrightarrow> file_name path = Some ''raw_input.md'' \<or> file_name path = Some ''converted_input.md''"

lemma append_line_alt:
  "append_line wc path line w =
     (let needs_header = \<not> fs_exists (w_disk w) path in
      bind_io (context_io (''Failed to open: '' @ path) (on_disk (fs_append path []))) (\<lambda>_.
      bind_io (if needs_header \<and> has_header path then
          bind_io utc_now (\<lambda>now. context_io ''Failed to write file header''
            (on_disk (fs_append path (header_of wc path now))))
        else ok ()) (\<lambda>_.
      context_io (''Failed to write line to: '' @ path) (on_disk (fs_append path line)))) w)"
  by (auto simp: append_line_def Let_def header_of_def has_header_def)

text \<open>A line that was appended successfully is at the end of the file, behind what was there.\<close>

lemma append_line_result:
  assumes "append_line wc path line w = (r, w')"
  shows "\<And>q. comps q \<noteq> comps path \<Longrightarrow> node_at (w_disk w') q = node_at (w_disk w) q"
    and "r = Inr () \<Longrightarrow> \<exists>now. node_at (w_disk w') path = Some (File
      ((if fs_exists (w_disk w) path then text_at (w_disk w) path else header_of wc path now) @ line))"
proof -
  let ?q = "\<lambda>w'. \<forall>q. comps q \<noteq> comps path \<longrightarrow> node_at (w_disk w') q = node_at (w_disk w) q"
  have appended: "?q w2 \<and> (r = Inr () \<longrightarrow> node_at (w_disk w2) path = Some (File (text_at (w_disk w1) path @ t)))"
    if "context_io c (on_disk (fs_append path t)) w1 = (r, w2)" "?q w1" for c t w1 r w2
    using that fs_append_result [of path t "w_disk w1"]
    by (cases "fs_append path t (w_disk w1)") (auto simp: context_io_def on_disk_def zoom_def split: sum.splits)
  have fresh: "text_at (w_disk w) path = []" if "\<not> fs_exists (w_disk w) path"
    using that by (simp add: fs_exists_def text_at_def)
  have "?q w' \<and> (r = Inr () \<longrightarrow> (\<exists>now. node_at (w_disk w') path = Some (File
      ((if fs_exists (w_disk w) path then text_at (w_disk w) path else header_of wc path now) @ line))))"
    using assms [unfolded append_line_alt Let_def]
  proof (cases rule: bind_io_cases)
    case (stop e)
    with appended [OF stop(1)] show ?thesis by simp
  next
    case opened: (go u w1)
    have w1: "?q w1" "text_at (w_disk w1) path = text_at (w_disk w) path"
      using appended [OF opened(1)] by (auto simp: text_at_def)
    let ?text = "\<lambda>now. if fs_exists (w_disk w) path then text_at (w_disk w) path else header_of wc path now"
    have H: "?q w2 \<and> (r2 = Inr () \<longrightarrow> (\<exists>now. text_at (w_disk w2) path = ?text now))"
      if "(if \<not> fs_exists (w_disk w) path \<and> has_header path then
          bind_io utc_now (\<lambda>now. context_io ''Failed to write file header'' (on_disk (fs_append path (header_of wc path now))))
        else ok ()) w1 = (r2, w2)" for r2 w2
    proof (cases "\<not> fs_exists (w_disk w) path \<and> has_header path")
      case True
      with that have "bind_io utc_now (\<lambda>now. context_io ''Failed to write file header''
          (on_disk (fs_append path (header_of wc path now)))) w1 = (r2, w2)" by simp
      then show ?thesis
      proof (cases rule: bind_io_cases)
        case (stop e)
        with utc_now_frame [of w1] show ?thesis by auto
      next
        case (go now w3)
        with appended [OF go(2)] utc_now_frame [OF go(1)] w1 fresh True show ?thesis by (auto simp: text_at_def)
      qed
    next
      case False
      with that have "r2 = Inr ()" "w2 = w1" by auto
      with w1 False fresh show ?thesis by (auto simp: header_of_def has_header_def)
    qed
    show ?thesis using opened(2)
    proof (cases rule: bind_io_cases)
      case (stop e)
      with H [OF stop(1)] show ?thesis by simp
    next
      case (go u w2)
      with H [OF go(1)] appended [OF go(2)] show ?thesis by auto
    qed
  qed
  then show "\<And>q. comps q \<noteq> comps path \<Longrightarrow> node_at (w_disk w') q = node_at (w_disk w) q"
    and "r = Inr () \<Longrightarrow> \<exists>now. node_at (w_disk w') path = Some (File
      ((if fs_exists (w_disk w) path then text_at (w_disk w) path else header_of wc path now) @ line))" by blast+
qed

text \<open>The names in the commands directory.\<close>

definition plain_name :: "string \<Rightarrow> bool" where
  "plain_name n \<longleftrightarrow> list_all (\<lambda>c. c \<noteq> CHR ''/'') n \<and> n \<noteq> [] \<and> n \<noteq> ''.'' \<and> n \<noteq> ''..''"

lemma comps_child: "plain_name n \<Longrightarrow> comps (path_join dir n) = comps dir @ [n]"
proof -
  assume n: "plain_name n"
  then have "\<not> prefix ''/'' n" "comps n = [n]" by (cases n; auto simp: plain_name_def comps_name)+
  then show ?thesis by (cases "dir = []") (simp_all add: comps_join, simp add: path_join_def comps_def)
qed

lemma file_name_child: "plain_name n \<Longrightarrow> file_name (path_join dir n) = Some n"
  by (auto simp: file_name_def comps_child plain_name_def Let_def)

lemma plain_names [simp]:
  "plain_name ''raw_input.md''" "plain_name ''converted_input.md''"
  "plain_name ''actuation_commands.json''" "plain_name ''cc_commands.json''"
  "plain_name ''actuation_commands.json.tmp''" "plain_name ''cc_commands.json.tmp''"
  by (simp_all add: plain_name_def)

abbreviation command_path :: "('c, 'r) command_writer \<Rightarrow> string \<Rightarrow> string" where
  "command_path cw n \<equiv> path_join (cw_commands_dir cw) n"

definition grown :: "('c, 'r) world \<Rightarrow> string \<Rightarrow> string \<Rightarrow> ('c, 'r) world \<Rightarrow> bool" where
  "grown w p t w' \<longleftrightarrow> node_at (w_disk w') p = Some (File (text_at (w_disk w) p @ t))"

text \<open>
  An event that was written successfully in local mode has a line at the end of both JSON Lines
  files, and the counter gives its step.
\<close>

lemma write_event_local:
  assumes "write_event wc ev conv (cw, w) = (Inr k, (cw', w'))" and "\<not> cw_is_cloud_primary cw"
  shows "k = cw_step_counter cw + 1" and "cw' = cw\<lparr>cw_step_counter := k\<rparr>"
    and "\<exists>json. event_to_json wc ev = Inr json \<and> grown w (command_path cw ''actuation_commands.json'') (json @ [newline]) w'"
    and "\<exists>json. cc_entry_to_json wc (cc_entry k ev) = Inr json \<and> grown w (command_path cw ''cc_commands.json'') (json @ [newline]) w'"
proof -
  let ?cw = "cw\<lparr>cw_step_counter := cw_step_counter cw + 1\<rparr>"
  let ?k = "cw_step_counter cw + 1" and ?dir = "cw_commands_dir cw"
  have "bind_io (writer_world (
         bind_io (append_raw wc ?dir ?k ev) (\<lambda>_.
         bind_io (append_converted wc ?dir ?k ev conv) (\<lambda>_.
         bind_io (append_jsonl wc ?dir ev) (\<lambda>_.
         append_cc_command wc ?dir ?k ev))))) (\<lambda>_. ok ?k) (?cw, w) = (Inr k, (cw', w'))"
    using assms by (simp add: write_event_def writer_self_def Let_def)
  then have k: "k = ?k" "cw' = ?cw" and "bind_io (append_raw wc ?dir ?k ev) (\<lambda>_.
         bind_io (append_converted wc ?dir ?k ev conv) (\<lambda>_.
         bind_io (append_jsonl wc ?dir ev) (\<lambda>_.
         append_cc_command wc ?dir ?k ev))) w = (Inr (), w')"
    by (auto simp: bind_io_Inr_iff writer_world_def zoom_def split: prod.splits)
  then obtain w1 w2 w3 where run: "append_raw wc ?dir ?k ev w = (Inr (), w1)"
    "append_converted wc ?dir ?k ev conv w1 = (Inr (), w2)" "append_jsonl wc ?dir ev w2 = (Inr (), w3)"
    "append_cc_command wc ?dir ?k ev w3 = (Inr (), w')"
    by (auto simp: bind_io_Inr_iff)
  from run(3,4) obtain j cj where j: "event_to_json wc ev = Inr j"
    "append_line wc (path_join ?dir ''actuation_commands.json'') (j @ [newline]) w2 = (Inr (), w3)"
    "cc_entry_to_json wc (cc_entry ?k ev) = Inr cj"
    "append_line wc (path_join ?dir ''cc_commands.json'') (cj @ [newline]) w3 = (Inr (), w')"
    by (auto simp: append_jsonl_def append_cc_command_def bind_io_Inr_iff lift_result_def)
  from run(1,2) have md: "append_line wc (path_join ?dir ''raw_input.md'') (table_row ?k ev (raw_command ev)) w = (Inr (), w1)"
    "append_line wc (path_join ?dir ''converted_input.md'') (table_row ?k ev conv) w1 = (Inr (), w2)"
    by (simp_all add: append_raw_def append_converted_def)
  note L = append_line_result
  note frame = L(1) [OF md(1)] L(1) [OF md(2)] L(1) [OF j(2)] L(1) [OF j(4)]
  have a: "grown w (path_join ?dir ''actuation_commands.json'') (j @ [newline]) w'"
    using L(2) [OF j(2)] frame
    by (auto simp: grown_def comps_child header_of_def file_name_child fs_exists_def text_at_def)
  have c: "grown w (path_join ?dir ''cc_commands.json'') (cj @ [newline]) w'"
    using L(2) [OF j(4)] frame
    by (auto simp: grown_def comps_child header_of_def file_name_child fs_exists_def text_at_def)
  show "k = cw_step_counter cw + 1" "cw' = cw\<lparr>cw_step_counter := k\<rparr>" by (simp_all add: k)
  show "\<exists>json. event_to_json wc ev = Inr json \<and> grown w (command_path cw ''actuation_commands.json'') (json @ [newline]) w'"
    using a j(1) by blast
  show "\<exists>json. cc_entry_to_json wc (cc_entry k ev) = Inr json \<and> grown w (command_path cw ''cc_commands.json'') (json @ [newline]) w'"
    using c j(3) k by auto
qed

section \<open>A whole session\<close>

text \<open>The events of a session, each with its human-readable form; a failure is logged and the next is taken.\<close>

fun write_all :: "writer_codec \<Rightarrow> (command_event \<times> string) list \<Rightarrow> ('c, 'r) writing \<Rightarrow> u32 result list \<times> ('c, 'r) writing" where
  "write_all wc [] s = ([], s)"
| "write_all wc ((ev, conv) # evs) s =
     (case write_event wc ev conv s of (r, s) \<Rightarrow>
        (case write_all wc evs s of (rs, s) \<Rightarrow> (r # rs, s)))"

text \<open>
  What the documentation of serde gives: a printed value is one line, parses back, and an array of
  values is printed as text.
\<close>

definition writer_codec_ok ::
  "writer_codec \<Rightarrow> json_codec \<Rightarrow> (command_event \<Rightarrow> json) \<Rightarrow> (cc_command_entry \<Rightarrow> json) \<Rightarrow> bool" where
  "writer_codec_ok wc jc ev_value cc_value \<longleftrightarrow>
     (\<forall>ev l. event_to_json wc ev = Inr l \<longrightarrow> plain_line l \<and> json_parse jc l = Inr (ev_value ev))
     \<and> (\<forall>e l. cc_entry_to_json wc e = Inr l \<longrightarrow> plain_line l \<and> json_parse jc l = Inr (cc_value e))"

text \<open>The replay entries of events numbered from a step on.\<close>

fun cc_entries :: "u32 \<Rightarrow> (command_event \<times> string) list \<Rightarrow> cc_command_entry list" where
  "cc_entries k [] = []"
| "cc_entries k ((ev, _) # evs) = cc_entry (k + 1) ev # cc_entries (k + 1) evs"

definition holds_lines :: "json_codec \<Rightarrow> disk \<Rightarrow> string \<Rightarrow> json list \<Rightarrow> bool" where
  "holds_lines jc d p vs \<longleftrightarrow>
     (\<exists>ls. text_at d p = unlines ls \<and> (node_at d p = None \<and> ls = [] \<or> node_at d p = Some (File (unlines ls)))
        \<and> list_all2 (\<lambda>l v. plain_line l \<and> json_parse jc l = Inr v) ls vs)"

lemma unlines_snoc: "unlines (ls @ [l]) = unlines ls @ l @ [newline]"
  by (simp add: unlines_def)

lemma holds_lines_grown:
  assumes "holds_lines jc (w_disk w) p vs" and "grown w p (l @ [newline]) w'"
    and "plain_line l" and "json_parse jc l = Inr v"
  shows "holds_lines jc (w_disk w') p (vs @ [v])"
proof -
  from assms(1) obtain ls where ls: "text_at (w_disk w) p = unlines ls"
    "list_all2 (\<lambda>l v. plain_line l \<and> json_parse jc l = Inr v) ls vs" by (auto simp: holds_lines_def)
  with assms(2) have "node_at (w_disk w') p = Some (File (unlines (ls @ [l])))"
    by (simp add: grown_def unlines_snoc)
  with ls assms(3,4) show ?thesis
    unfolding holds_lines_def by (intro exI [of _ "ls @ [l]"]) (auto simp: text_at_def intro: list_all2_appendI)
qed

lemma write_all_local:
  assumes "writer_codec_ok wc jc ev_value cc_value"
    and "write_all wc evs (cw, w) = (rs, (cw', w'))" and "list_all (\<lambda>r. \<not> isl r) rs" and "\<not> cw_is_cloud_primary cw"
    and "holds_lines jc (w_disk w) (command_path cw ''actuation_commands.json'') vs"
    and "holds_lines jc (w_disk w) (command_path cw ''cc_commands.json'') us"
  shows "\<not> cw_is_cloud_primary cw' \<and> cw_commands_dir cw' = cw_commands_dir cw
    \<and> holds_lines jc (w_disk w') (command_path cw ''actuation_commands.json'') (vs @ map (ev_value \<circ> fst) evs)
    \<and> holds_lines jc (w_disk w') (command_path cw ''cc_commands.json'') (us @ map cc_value (cc_entries (cw_step_counter cw) evs))"
  using assms(2-)
proof (induction evs arbitrary: cw w rs vs us)
  case Nil
  then show ?case by simp
next
  case (Cons e evs)
  obtain ev conv where e: "e = (ev, conv)" by fastforce
  obtain r cw1 w1 where one: "write_event wc ev conv (cw, w) = (r, (cw1, w1))" by (metis prod_cases3)
  obtain rs' where rest: "write_all wc evs (cw1, w1) = (rs', (cw', w'))" "rs = r # rs'"
    using Cons.prems(1) by (auto simp: e one split: prod.splits)
  with Cons.prems(2) obtain k where r: "r = Inr k" by (cases r) auto
  note W = write_event_local [OF one [unfolded r] Cons.prems(3)]
  from W(3) obtain j where j: "event_to_json wc ev = Inr j"
    "grown w (command_path cw ''actuation_commands.json'') (j @ [newline]) w1" by blast
  from W(4) obtain cj where cj: "cc_entry_to_json wc (cc_entry k ev) = Inr cj"
    "grown w (command_path cw ''cc_commands.json'') (cj @ [newline]) w1" by blast
  from assms(1) j cj have codec: "plain_line j" "json_parse jc j = Inr (ev_value ev)"
    "plain_line cj" "json_parse jc cj = Inr (cc_value (cc_entry k ev))" by (simp_all add: writer_codec_ok_def)
  have "holds_lines jc (w_disk w1) (command_path cw1 ''actuation_commands.json'') (vs @ [ev_value ev])"
    using holds_lines_grown [OF Cons.prems(4) j(2) codec(1,2)] W(2) by simp
  moreover have "holds_lines jc (w_disk w1) (command_path cw1 ''cc_commands.json'') (us @ [cc_value (cc_entry k ev)])"
    using holds_lines_grown [OF Cons.prems(5) cj(2) codec(3,4)] W(2) by simp
  moreover have "\<not> cw_is_cloud_primary cw1" using Cons.prems(3) W(2) by simp
  moreover have "list_all (\<lambda>r. \<not> isl r) rs'" using Cons.prems(2) rest(2) by simp
  ultimately show ?case
    using Cons.IH [of cw1 w1 rs' "vs @ [ev_value ev]" "us @ [cc_value (cc_entry k ev)]"] rest(1) W(1,2) by (simp add: e)
qed

section \<open>Finalising\<close>

lemma parse_jsonl_lines:
  "list_all2 (\<lambda>l v. plain_line l \<and> json_parse jc l = Inr v) ls vs \<Longrightarrow> parse_jsonl jc f ls = Inr vs"
  by (induction rule: list_all2_induct) (auto simp: trim_plain plain_line_def)

lemma list_all2_plain: "list_all2 (\<lambda>l v. plain_line l \<and> Q l v) ls vs \<Longrightarrow> str_lines (unlines ls) = ls"
  by (rule lines_unlines) (auto simp: list_all2_conv_all_nth in_set_conv_nth plain_line_def)

definition finalised :: "json_codec \<Rightarrow> json list \<Rightarrow> bool \<Rightarrow> string" where
  "finalised jc vs there = (if there then json_pretty jc (Array vs) else ''[]'' @ [newline])"

lemma finalise_jsonl_result:
  assumes "finalise_jsonl_file jc dir f d = (r, d')" and "holds_lines jc d (path_join dir f) vs"
    and "plain_name f" and "plain_name (f @ ''.tmp'')"
  shows "node_at d' (path_join dir f) =
      (if isl r then node_at d (path_join dir f)
       else Some (File (finalised jc vs (fs_exists d (path_join dir f)))))"
    and "comps q \<noteq> comps (path_join dir f) \<Longrightarrow> comps q \<noteq> comps (path_join dir (f @ ''.tmp'')) \<Longrightarrow> node_at d' q = node_at d q"
proof -
  let ?p = "path_join dir f" and ?t = "path_join dir (f @ ''.tmp'')"
  have apart: "comps ?t \<noteq> comps ?p" using assms(3,4) by (simp add: comps_child)
  from assms(2) obtain ls where ls: "node_at d ?p = None \<and> ls = [] \<or> node_at d ?p = Some (File (unlines ls))"
    "list_all2 (\<lambda>l v. plain_line l \<and> json_parse jc l = Inr v) ls vs" by (auto simp: holds_lines_def)
  have "node_at d' ?p = (if isl r then node_at d ?p else Some (File (finalised jc vs (fs_exists d ?p))))
      \<and> (\<forall>q. comps q \<noteq> comps ?p \<longrightarrow> comps q \<noteq> comps ?t \<longrightarrow> node_at d' q = node_at d q)"
  proof (cases "fs_exists d ?p")
    case False
    with assms(1) have run: "bind_io (context_io (''Failed to write empty '' @ f) (fs_write ?t (''[]'' @ [newline]))) (\<lambda>_.
       context_io (''Failed to rename '' @ f) (fs_rename ?t ?p)) d = (r, d')"
      by (simp add: finalise_jsonl_file_def Let_def)
    from write_rename_atomic [OF run apart] False show ?thesis
      by (auto simp: finalised_def split: sum.splits)
  next
    case True
    with ls(1) have present: "node_at d ?p = Some (File (unlines ls))" by (auto simp: fs_exists_def)
    from True assms(1) have "bind_io (context_io (''Failed to read '' @ f @ '' for finalisation'') (fs_read_to_string ?p)) (\<lambda>raw.
       bind_io (lift_result (parse_jsonl jc f (str_lines raw))) (\<lambda>entries.
       bind_io (context_io (''Failed to write '' @ f @ ''.tmp'') (fs_write ?t (json_pretty jc (Array entries)))) (\<lambda>_.
       context_io (''Failed to rename '' @ f) (fs_rename ?t ?p)))) d = (r, d')"
      by (simp add: finalise_jsonl_file_def Let_def)
    then show ?thesis
    proof (cases rule: bind_io_cases)
      case (stop e)
      obtain q d1 where q: "fs_read_to_string ?p d = (q, d1)" by fastforce
      with stop have "d' = d1" by (cases q) (auto simp: context_io_def)
      with node_at_same [OF fs_read_result(1) [OF q]] stop show ?thesis by simp
    next
      case (go raw d1)
      then have q: "fs_read_to_string ?p d = (Inr raw, d1)" by simp
      note R = fs_read_result [OF q]
      from R(2) present have raw: "raw = unlines ls" by simp
      have "bind_io (context_io (''Failed to write '' @ f @ ''.tmp'') (fs_write ?t (json_pretty jc (Array vs)))) (\<lambda>_.
          context_io (''Failed to rename '' @ f) (fs_rename ?t ?p)) d1 = (r, d')"
        using go(2) by (simp add: raw list_all2_plain [OF ls(2)] parse_jsonl_lines [OF ls(2)] bind_io_def lift_result_def)
      from write_rename_atomic [OF this apart] node_at_same [OF R(1)] True show ?thesis
        by (auto simp: finalised_def split: sum.splits)
    qed
  qed
  then show "node_at d' ?p = (if isl r then node_at d ?p else Some (File (finalised jc vs (fs_exists d ?p))))"
    "comps q \<noteq> comps ?p \<Longrightarrow> comps q \<noteq> comps ?t \<Longrightarrow> node_at d' q = node_at d q" by blast+
qed

text \<open>
  C26. Nothing recorded is lost on the way into the final files. When every event of a local session was
  written with success and the session is finalised with success, the two JSON files hold arrays
  with exactly one entry per event, in order: the event itself, and the replay command numbered by
  its step. The disk may be full or fail at any point in between; then it is one of the results that
  says so.
\<close>

theorem recorded_events_survive:
  assumes "writer_codec_ok wc jc ev_value cc_value"
    and "node_at (w_disk w) (path_join (path_join dir ''commands'') ''actuation_commands.json'') = None"
    and "node_at (w_disk w) (path_join (path_join dir ''commands'') ''cc_commands.json'') = None"
    and "write_all wc evs (writer_new dir False sid b, w) = (rs, s')" and "list_all (\<lambda>r. \<not> isl r) rs"
    and "finalise jc s' = (Inr (), (cw, w''))"
  shows "node_at (w_disk w'') (path_join (path_join dir ''commands'') ''actuation_commands.json'')
        = Some (File (finalised jc (map (ev_value \<circ> fst) evs) (evs \<noteq> [])))
    \<and> node_at (w_disk w'') (path_join (path_join dir ''commands'') ''cc_commands.json'')
        = Some (File (finalised jc (map cc_value (cc_entries 0 evs)) (evs \<noteq> [])))"
proof -
  let ?cw = "writer_new dir False sid b"
  let ?A = "path_join (path_join dir ''commands'') ''actuation_commands.json''"
  let ?C = "path_join (path_join dir ''commands'') ''cc_commands.json''"
  have new: "\<not> cw_is_cloud_primary ?cw" "cw_commands_dir ?cw = path_join dir ''commands''" "cw_step_counter ?cw = 0"
    by (simp_all add: writer_new_def)
  obtain cw1 w1 where s': "s' = (cw1, w1)" by fastforce
  have empty: "holds_lines jc (w_disk w) ?A []" "holds_lines jc (w_disk w) ?C []"
    using assms(2,3) by (simp_all add: holds_lines_def text_at_def unlines_def)
  have H: "\<not> cw_is_cloud_primary cw1" "cw_commands_dir cw1 = path_join dir ''commands''"
    "holds_lines jc (w_disk w1) ?A (map (ev_value \<circ> fst) evs)"
    "holds_lines jc (w_disk w1) ?C (map cc_value (cc_entries 0 evs))"
    using write_all_local [OF assms(1) assms(4) [unfolded s'] assms(5) new(1), of "[]" "[]"] empty new by simp_all
  have there: "fs_exists (w_disk w1) ?A = (evs \<noteq> [])" "fs_exists (w_disk w1) ?C = (evs \<noteq> [])"
  proof -
    have "evs = [] \<Longrightarrow> w1 = w" using assms(4) s' by simp
    with H(3,4) assms(2,3)
    show "fs_exists (w_disk w1) ?A = (evs \<noteq> [])" "fs_exists (w_disk w1) ?C = (evs \<noteq> [])"
      by (cases evs; auto simp: fs_exists_def holds_lines_def)+
  qed
  from assms(6) H(1,2) obtain d1 where run:
    "finalise_jsonl_file jc (path_join dir ''commands'') ''actuation_commands.json'' (w_disk w1) = (Inr (), d1)"
    "finalise_jsonl_file jc (path_join dir ''commands'') ''cc_commands.json'' d1 = (Inr (), w_disk w'')"
    by (auto simp: s' finalise_def writer_world_def zoom_def on_disk_def bind_io_Inr_iff split: prod.splits)
  have names: "plain_name (''actuation_commands.json'' @ ''.tmp'')" "plain_name (''cc_commands.json'' @ ''.tmp'')"
    by (simp_all add: plain_name_def)
  note A = finalise_jsonl_result [OF run(1) H(3) plain_names(3) names(1)]
  have same: "node_at d1 ?C = node_at (w_disk w1) ?C" using A(2) by (simp add: comps_child)
  with H(4) have "holds_lines jc d1 ?C (map cc_value (cc_entries 0 evs))" by (simp add: holds_lines_def text_at_def)
  note C = finalise_jsonl_result [OF run(2) this plain_names(4) names(2)]
  have "node_at (w_disk w'') ?A = node_at d1 ?A" using C(2) by (simp add: comps_child)
  with A(1) C(1) there same show ?thesis by (simp add: fs_exists_def)
qed

text \<open>A codec of one-byte documents and a disk with an empty commands directory.\<close>

definition letter_codec :: writer_codec where
  "letter_codec = \<lparr>event_to_json = \<lambda>_. Inr ''a'', cc_entry_to_json = \<lambda>_. Inr ''b'', header_time = \<lambda>_. ''now''\<rparr>"

definition letter_json :: json_codec where
  "letter_json = \<lparr>json_parse = \<lambda>s. Inr (Str s), json_pretty = \<lambda>_. ''x''\<rparr>"

definition commands_world :: "'c \<Rightarrow> ('c, unit) world" where
  "commands_world c =
     \<lparr>w_disk = \<lparr>tree = [([''m'', ''commands''], Dir), ([''m''], Dir)], faults = []\<rparr>, w_cloud = c, w_redis = (),
      w_maps = empty_maps, w_pushed = [], w_push_fails = [], w_clock = [],
      w_done_handles = {}, w_kafka_sessions = {}\<rparr>"

lemma letter_codec_ok: "writer_codec_ok letter_codec letter_json (\<lambda>_. Str ''a'') (\<lambda>_. Str ''b'')"
  by (simp add: writer_codec_ok_def letter_codec_def letter_json_def plain_line_def is_visible_def is_ascii_def is_ascii_ws_def)

definition demo_events :: "(command_event \<times> string) list" where
  "demo_events = [(default_event, ''x'')]"

definition demo_writing :: "(unit, unit) writing" where
  "demo_writing =
     (writer_new ''m'' False ''s'' (lift_backend w_disk (\<lambda>d w. w\<lparr>w_disk := d\<rparr>) (local_backend (\<lambda>s. s) [])), commands_world ())"

lemma demo_run:
  "fst (write_all letter_codec demo_events demo_writing) = [Inr 1]"
  "fst (finalise letter_json (snd (write_all letter_codec demo_events demo_writing))) = Inr ()"
  by code_simp+

theorem recorded_events_survive_witness:
  "\<exists>w''. node_at (w_disk w'') (path_join (path_join ''m'' ''commands'') ''actuation_commands.json'') = Some (File ''x'')
     \<and> snd (snd (finalise letter_json (snd (write_all letter_codec demo_events demo_writing)))) = w''"
proof -
  obtain s' where s': "write_all letter_codec demo_events demo_writing = ([Inr 1], s')"
    using demo_run(1) by (metis prod.collapse)
  then obtain cw w'' where f: "finalise letter_json s' = (Inr (), (cw, w''))"
    using demo_run(2) by (metis prod.collapse snd_conv)
  have "node_at (w_disk (commands_world ())) (path_join (path_join ''m'' ''commands'') n) = None"
    if "n \<in> {''actuation_commands.json'', ''cc_commands.json''}" for n
    using that by (auto simp: commands_world_def node_at_def path_join_def suffix_def comps_def)
  then have "node_at (w_disk w'') (path_join (path_join ''m'' ''commands'') ''actuation_commands.json'')
      = Some (File (finalised letter_json (map ((\<lambda>_. Str ''a'') \<circ> fst) demo_events) (demo_events \<noteq> [])))"
    using recorded_events_survive [OF letter_codec_ok _ _ s' [unfolded demo_writing_def] _ f] by simp
  moreover have "finalised letter_json (map ((\<lambda>_. Str ''a'') \<circ> fst) demo_events) (demo_events \<noteq> []) = ''x''"
    by (simp add: finalised_def demo_events_def letter_json_def)
  ultimately show ?thesis by (simp add: s' f)
qed

section \<open>Both modes record the same\<close>

text \<open>
  The buffers of a cloud session mirror the files of a local one: the same texts, and a file exists
  exactly when something was written to it.
\<close>

definition mirrors :: "string \<Rightarrow> ('c, 'r) writing \<Rightarrow> ('c, 'r) writing \<Rightarrow> bool" where
  "mirrors dir = (\<lambda>(lw, w) (cw, v).
     let holds = (\<lambda>name there buf. node_at (w_disk w) (path_join dir name) = (if there then Some (File buf) else None)) in
     cw_commands_dir lw = dir \<and> \<not> cw_is_cloud_primary lw \<and> cw_is_cloud_primary cw
     \<and> cw_step_counter lw = cw_step_counter cw \<and> w_clock w = w_clock v
     \<and> node_at (w_disk w) dir = Some Dir \<and> faults (w_disk w) = []
     \<and> holds ''raw_input.md'' (cw_raw_header_written cw) (cw_raw_input_buf cw)
     \<and> holds ''converted_input.md'' (cw_converted_header_written cw) (cw_converted_input_buf cw)
     \<and> (\<not> cw_raw_header_written cw \<longrightarrow> cw_raw_input_buf cw = [])
     \<and> (\<not> cw_converted_header_written cw \<longrightarrow> cw_converted_input_buf cw = [])
     \<and> holds ''actuation_commands.json'' (cw_actuation_buf cw \<noteq> []) (cw_actuation_buf cw)
     \<and> holds ''cc_commands.json'' (cw_cc_buf cw \<noteq> []) (cw_cc_buf cw))"

lemma fs_append_clean:
  assumes "faults d = []" and "node_at d dir = Some Dir" and "plain_name n" and "node_at d (path_join dir n) \<noteq> Some Dir"
  shows "fs_append (path_join dir n) bytes d =
    (Inr (), d\<lparr>tree := tree_put (comps dir @ [n]) (File (text_at d (path_join dir n) @ bytes)) (tree d)\<rparr>)"
proof -
  have "parent_ok d (comps dir @ [n])"
    using assms(2) by (auto simp: parent_ok_def node_at_def split: if_splits)
  with assms show ?thesis
    by (auto simp: fs_append_def guarded_def next_fault_def do_append_def text_at_def comps_child
        split: option.splits node.splits)
qed

lemma node_at_child_put:
  assumes "plain_name n" and "plain_name k"
  shows "node_at (d\<lparr>tree := tree_put (comps dir @ [n]) x t\<rparr>) (path_join dir k) =
      (if k = n then Some x else node_at (d\<lparr>tree := t\<rparr>) (path_join dir k))"
    and "node_at (d\<lparr>tree := tree_put (comps dir @ [n]) x t\<rparr>) dir = node_at (d\<lparr>tree := t\<rparr>) dir"
  using assms by (auto simp: node_at_def comps_child plain_name_def)

definition clock_now :: "int list \<Rightarrow> int" where
  "clock_now ts = (case ts of [] \<Rightarrow> 0 | t # _ \<Rightarrow> t)"

definition clock_rest :: "int list \<Rightarrow> int list" where
  "clock_rest ts = (case ts of t # t' # r \<Rightarrow> t' # r | _ \<Rightarrow> ts)"

lemma utc_now_alt: "utc_now w = (Inr (clock_now (w_clock w)), w\<lparr>w_clock := clock_rest (w_clock w)\<rparr>)"
  by (auto simp: utc_now_def clock_now_def clock_rest_def split: list.splits)

definition ready :: "disk \<Rightarrow> string \<Rightarrow> bool" where
  "ready d dir \<longleftrightarrow> faults d = [] \<and> node_at d dir = Some Dir"

lemma fs_append_ready:
  assumes "ready d dir" and "plain_name n" and "node_at d (path_join dir n) \<noteq> Some Dir"
  shows "\<exists>d'. fs_append (path_join dir n) bytes d = (Inr (), d') \<and> ready d' dir
    \<and> node_at d' (path_join dir n) = Some (File (text_at d (path_join dir n) @ bytes))
    \<and> (\<forall>k. plain_name k \<and> k \<noteq> n \<longrightarrow> node_at d' (path_join dir k) = node_at d (path_join dir k))"
  using fs_append_clean [of d dir n bytes] node_at_child_put [OF assms(2)] assms by (simp add: ready_def)

lemma append_line_ready:
  fixes w :: "('c, 'r) world"
  assumes "ready (w_disk w) dir" and "plain_name n" and "node_at (w_disk w) (path_join dir n) \<noteq> Some Dir"
  defines "need \<equiv> \<not> fs_exists (w_disk w) (path_join dir n) \<and> has_header (path_join dir n)"
  shows "\<exists>d'. append_line wc (path_join dir n) line w =
      (Inr (), w\<lparr>w_disk := d', w_clock := if need then clock_rest (w_clock w) else w_clock w\<rparr>)
    \<and> ready d' dir
    \<and> node_at d' (path_join dir n) = Some (File (text_at (w_disk w) (path_join dir n)
        @ (if need then header_of wc (path_join dir n) (clock_now (w_clock w)) else []) @ line))
    \<and> (\<forall>k. plain_name k \<and> k \<noteq> n \<longrightarrow> node_at d' (path_join dir k) = node_at (w_disk w) (path_join dir k))"
proof -
  let ?p = "path_join dir n"
  obtain d1 where d1: "fs_append ?p [] (w_disk w) = (Inr (), d1)" "ready d1 dir"
    "node_at d1 ?p = Some (File (text_at (w_disk w) ?p))"
    "\<forall>k. plain_name k \<and> k \<noteq> n \<longrightarrow> node_at d1 (path_join dir k) = node_at (w_disk w) (path_join dir k)"
    using fs_append_ready [OF assms(1-3), of "[]"] by auto
  let ?h = "if need then header_of wc ?p (clock_now (w_clock w)) else []"
  let ?clock = "if need then clock_rest (w_clock w) else w_clock w"
  obtain d2 where d2: "(if need then
          bind_io utc_now (\<lambda>now. context_io ''Failed to write file header'' (on_disk (fs_append ?p (header_of wc ?p now))))
        else ok ()) (w\<lparr>w_disk := d1\<rparr>) = (Inr (), w\<lparr>w_disk := d2, w_clock := ?clock\<rparr>)" "ready d2 dir"
    "node_at d2 ?p = Some (File (text_at (w_disk w) ?p @ ?h))"
    "\<forall>k. plain_name k \<and> k \<noteq> n \<longrightarrow> node_at d2 (path_join dir k) = node_at (w_disk w) (path_join dir k)"
  proof (cases need)
    case True
    obtain d2 where d2: "fs_append ?p ?h d1 = (Inr (), d2)" "ready d2 dir"
      "node_at d2 ?p = Some (File (text_at d1 ?p @ ?h))"
      "\<forall>k. plain_name k \<and> k \<noteq> n \<longrightarrow> node_at d2 (path_join dir k) = node_at d1 (path_join dir k)"
      using fs_append_ready [OF d1(2) assms(2), of ?h] d1(3) by auto
    with True d1 show ?thesis
      by (intro that [of d2]) (simp_all add: bind_io_def context_io_def on_disk_def zoom_def utc_now_alt text_at_def)
  next
    case False
    with d1 show ?thesis by (intro that [of d1]) simp_all
  qed
  obtain d3 where d3: "fs_append ?p line d2 = (Inr (), d3)" "ready d3 dir"
    "node_at d3 ?p = Some (File (text_at d2 ?p @ line))"
    "\<forall>k. plain_name k \<and> k \<noteq> n \<longrightarrow> node_at d3 (path_join dir k) = node_at d2 (path_join dir k)"
    using fs_append_ready [OF d2(2) assms(2), of line] d2(3) by auto
  have o1: "context_io (''Failed to open: '' @ ?p) (on_disk (fs_append ?p [])) w = (Inr (), w\<lparr>w_disk := d1\<rparr>)"
    by (simp add: context_io_def on_disk_def zoom_def d1(1))
  have o3: "context_io (''Failed to write line to: '' @ ?p) (on_disk (fs_append ?p line)) (w\<lparr>w_disk := d2, w_clock := ?clock\<rparr>)
      = (Inr (), w\<lparr>w_disk := d3, w_clock := ?clock\<rparr>)"
    by (simp add: context_io_def on_disk_def zoom_def d3(1))
  have "append_line wc ?p line w = (Inr (), w\<lparr>w_disk := d3, w_clock := ?clock\<rparr>)"
    unfolding append_line_alt Let_def need_def [symmetric]
    by (rule bind_io_go, rule o1, rule bind_io_go, rule d2(1), rule o3)
  with d2 d3 show ?thesis by (intro exI [of _ d3]) (auto simp: text_at_def)
qed

lemma on_writer_apply: "writer_world m (cw, w) = (fst (m w), (cw, snd (m w)))"
  by (simp add: writer_world_def zoom_def split: prod.splits)

lemma header_children [simp]:
  "has_header (path_join dir ''raw_input.md'')" "has_header (path_join dir ''converted_input.md'')"
  "\<not> has_header (path_join dir ''actuation_commands.json'')" "\<not> has_header (path_join dir ''cc_commands.json'')"
  "header_of wc (path_join dir ''raw_input.md'') now = raw_header wc now"
  "header_of wc (path_join dir ''converted_input.md'') now = converted_header wc now"
  by (simp_all add: has_header_def header_of_def file_name_child)

text \<open>One event, in four parts.\<close>

lemma mirror_raw:
  assumes "mirrors dir (lw, w) (cw, v)"
  shows "\<exists>w' cw' v'. append_raw wc dir k ev w = (Inr (), w') \<and> buffer_raw wc k ev (cw, v) = (Inr (), (cw', v'))
    \<and> mirrors dir (lw, w') (cw', v')"
proof -
  from assms have "ready (w_disk w) dir" "node_at (w_disk w) (path_join dir ''raw_input.md'') \<noteq> Some Dir"
    by (auto simp: mirrors_def ready_def Let_def)
  from append_line_ready [OF this(1) plain_names(1) this(2), of wc "table_row k ev (raw_command ev)"] assms
  show ?thesis
    by (cases "cw_raw_header_written cw")
      (auto simp: append_raw_def context_io_def buffer_raw_def mirrors_def Let_def ready_def fs_exists_def text_at_def
        writer_self_def changing_def bind_io_def on_writer_apply utc_now_alt)
qed

lemma mirror_converted:
  assumes "mirrors dir (lw, w) (cw, v)"
  shows "\<exists>w' cw' v'. append_converted wc dir k ev conv w = (Inr (), w')
    \<and> buffer_converted wc k ev conv (cw, v) = (Inr (), (cw', v')) \<and> mirrors dir (lw, w') (cw', v')"
proof -
  from assms have "ready (w_disk w) dir" "node_at (w_disk w) (path_join dir ''converted_input.md'') \<noteq> Some Dir"
    by (auto simp: mirrors_def ready_def Let_def)
  from append_line_ready [OF this(1) plain_names(2) this(2), of wc "table_row k ev conv"] assms
  show ?thesis
    by (cases "cw_converted_header_written cw")
      (auto simp: append_converted_def context_io_def buffer_converted_def mirrors_def Let_def ready_def fs_exists_def text_at_def
        writer_self_def changing_def bind_io_def on_writer_apply utc_now_alt)
qed

lemma mirror_jsonl:
  assumes "mirrors dir (lw, w) (cw, v)"
  shows "\<exists>r w' cw' v'. append_jsonl wc dir ev w = (r, w') \<and> buffer_jsonl wc ev (cw, v) = (r, (cw', v'))
    \<and> mirrors dir (lw, w') (cw', v')"
proof (cases "event_to_json wc ev")
  case (Inl e)
  with assms show ?thesis by (simp add: append_jsonl_def buffer_jsonl_def)
next
  case (Inr j)
  from assms have "ready (w_disk w) dir" "node_at (w_disk w) (path_join dir ''actuation_commands.json'') \<noteq> Some Dir"
    by (auto simp: mirrors_def ready_def Let_def split: if_splits)
  from append_line_ready [OF this(1) plain_names(3) this(2), of wc "j @ [newline]"] obtain d' where d':
    "append_line wc (path_join dir ''actuation_commands.json'') (j @ [newline]) w = (Inr (), w\<lparr>w_disk := d'\<rparr>)" "ready d' dir"
    "node_at d' (path_join dir ''actuation_commands.json'')
      = Some (File (text_at (w_disk w) (path_join dir ''actuation_commands.json'') @ j @ [newline]))"
    "\<And>k. plain_name k \<Longrightarrow> k \<noteq> ''actuation_commands.json'' \<Longrightarrow> node_at d' (path_join dir k) = node_at (w_disk w) (path_join dir k)"
    by auto
  have buf: "text_at (w_disk w) (path_join dir ''actuation_commands.json'') = cw_actuation_buf cw"
    using assms by (auto simp: mirrors_def text_at_def Let_def)
  from d'(1) Inr have l: "append_jsonl wc dir ev w = (Inr (), w\<lparr>w_disk := d'\<rparr>)"
    by (simp add: append_jsonl_def)
  from Inr have c: "buffer_jsonl wc ev (cw, v) = (Inr (), (cw\<lparr>cw_actuation_buf := cw_actuation_buf cw @ j @ [newline]\<rparr>, v))"
    by (simp add: buffer_jsonl_def writer_self_def changing_def)
  have "mirrors dir (lw, w\<lparr>w_disk := d'\<rparr>) (cw\<lparr>cw_actuation_buf := cw_actuation_buf cw @ j @ [newline]\<rparr>, v)"
    using assms d'(2-4) buf by (simp add: mirrors_def Let_def ready_def)
  with l c show ?thesis by blast
qed

lemma mirror_cc:
  assumes "mirrors dir (lw, w) (cw, v)"
  shows "\<exists>r w' cw' v'. append_cc_command wc dir k ev w = (r, w') \<and> buffer_cc_command wc k ev (cw, v) = (r, (cw', v'))
    \<and> mirrors dir (lw, w') (cw', v')"
proof (cases "cc_entry_to_json wc (cc_entry k ev)")
  case (Inl e)
  with assms show ?thesis by (simp add: append_cc_command_def buffer_cc_command_def)
next
  case (Inr j)
  from assms have "ready (w_disk w) dir" "node_at (w_disk w) (path_join dir ''cc_commands.json'') \<noteq> Some Dir"
    by (auto simp: mirrors_def ready_def Let_def split: if_splits)
  from append_line_ready [OF this(1) plain_names(4) this(2), of wc "j @ [newline]"] obtain d' where d':
    "append_line wc (path_join dir ''cc_commands.json'') (j @ [newline]) w = (Inr (), w\<lparr>w_disk := d'\<rparr>)" "ready d' dir"
    "node_at d' (path_join dir ''cc_commands.json'')
      = Some (File (text_at (w_disk w) (path_join dir ''cc_commands.json'') @ j @ [newline]))"
    "\<And>k. plain_name k \<Longrightarrow> k \<noteq> ''cc_commands.json'' \<Longrightarrow> node_at d' (path_join dir k) = node_at (w_disk w) (path_join dir k)"
    by auto
  have buf: "text_at (w_disk w) (path_join dir ''cc_commands.json'') = cw_cc_buf cw"
    using assms by (auto simp: mirrors_def text_at_def Let_def)
  from d'(1) Inr have l: "append_cc_command wc dir k ev w = (Inr (), w\<lparr>w_disk := d'\<rparr>)"
    by (simp add: append_cc_command_def)
  from Inr have c: "buffer_cc_command wc k ev (cw, v) = (Inr (), (cw\<lparr>cw_cc_buf := cw_cc_buf cw @ j @ [newline]\<rparr>, v))"
    by (simp add: buffer_cc_command_def writer_self_def changing_def)
  have "mirrors dir (lw, w\<lparr>w_disk := d'\<rparr>) (cw\<lparr>cw_cc_buf := cw_cc_buf cw @ j @ [newline]\<rparr>, v)"
    using assms d'(2-4) buf by (simp add: mirrors_def Let_def ready_def)
  with l c show ?thesis by blast
qed

lemma mirror_event:
  assumes "mirrors dir (lw, w) (cw, v)"
  shows "\<exists>r l' c'. write_event wc ev conv (lw, w) = (r, l') \<and> write_event wc ev conv (cw, v) = (r, c') \<and> mirrors dir l' c'"
proof -
  let ?k = "cw_step_counter cw + 1"
  let ?lw = "lw\<lparr>cw_step_counter := ?k\<rparr>" and ?cw = "cw\<lparr>cw_step_counter := ?k\<rparr>"
  from assms have same: "cw_step_counter lw = cw_step_counter cw" "cw_commands_dir lw = dir"
    "\<not> cw_is_cloud_primary lw" "cw_is_cloud_primary cw" by (auto simp: mirrors_def Let_def)
  from assms have 0: "mirrors dir (?lw, w) (?cw, v)" by (simp add: mirrors_def Let_def)
  from mirror_raw [OF 0] obtain w1 c1 v1 where 1: "append_raw wc dir ?k ev w = (Inr (), w1)"
    "buffer_raw wc ?k ev (?cw, v) = (Inr (), (c1, v1))" "mirrors dir (?lw, w1) (c1, v1)" by blast
  from mirror_converted [OF 1(3)] obtain w2 c2 v2 where 2: "append_converted wc dir ?k ev conv w1 = (Inr (), w2)"
    "buffer_converted wc ?k ev conv (c1, v1) = (Inr (), (c2, v2))" "mirrors dir (?lw, w2) (c2, v2)" by blast
  from mirror_jsonl [OF 2(3)] obtain r3 w3 c3 v3 where 3: "append_jsonl wc dir ev w2 = (r3, w3)"
    "buffer_jsonl wc ev (c2, v2) = (r3, (c3, v3))" "mirrors dir (?lw, w3) (c3, v3)" by blast
  let ?local = "bind_io (append_raw wc dir ?k ev) (\<lambda>_. bind_io (append_converted wc dir ?k ev conv) (\<lambda>_.
      bind_io (append_jsonl wc dir ev) (\<lambda>_. append_cc_command wc dir ?k ev)))"
  let ?cloud = "bind_io (buffer_raw wc ?k ev) (\<lambda>_. bind_io (buffer_converted wc ?k ev conv) (\<lambda>_.
      bind_io (buffer_jsonl wc ev) (\<lambda>_. buffer_cc_command wc ?k ev)))"
  have "\<exists>r w4 c4 v4. ?local w = (r, w4) \<and> ?cloud (?cw, v) = (r, (c4, v4)) \<and> mirrors dir (?lw, w4) (c4, v4)"
  proof (cases r3)
    case (Inl e)
    with 1 2 3 show ?thesis by (simp add: bind_io_def)
  next
    case (Inr u)
    with 1 2 3 mirror_cc [OF 3(3), of wc ?k ev] show ?thesis by (auto simp: bind_io_def)
  qed
  then obtain r w4 c4 v4 where run: "?local w = (r, w4)" "?cloud (?cw, v) = (r, (c4, v4))" "mirrors dir (?lw, w4) (c4, v4)"
    by blast
  have "write_event wc ev conv (lw, w) = bind_io (writer_world ?local) (\<lambda>_. ok ?k) (?lw, w)"
    using same by (simp add: write_event_def writer_self_def Let_def)
  moreover have "write_event wc ev conv (cw, v) = bind_io ?cloud (\<lambda>_. ok ?k) (?cw, v)"
    using same by (simp add: write_event_def writer_self_def Let_def)
  ultimately show ?thesis
    using run by (cases r) (auto simp: bind_io_def on_writer_apply)
qed

text \<open>
  Cloud mode records what local mode records. A session whose events go to a healthy disk and one
  whose events go to the buffers report the same result for every event, and at every point the
  four buffers hold exactly the bytes the four files hold, headers and serialisation failures
  included.
\<close>

lemma cloud_buffers_match_files:
  assumes "mirrors dir l c"
  shows "fst (write_all wc evs l) = fst (write_all wc evs c)
    \<and> mirrors dir (snd (write_all wc evs l)) (snd (write_all wc evs c))"
  using assms
proof (induction evs arbitrary: l c)
  case (Cons e evs)
  obtain ev conv where e: "e = (ev, conv)" by fastforce
  from mirror_event [of dir "fst l" "snd l" "fst c" "snd c"] Cons.prems
  obtain r l' c' where "write_event wc ev conv l = (r, l')" "write_event wc ev conv c = (r, c')" "mirrors dir l' c'"
    by auto blast
  with Cons.IH [of l' c'] show ?case by (simp add: e split_beta)
qed simp

lemma cloud_buffers_match_files_witness:
  "\<exists>c. mirrors ''m/commands'' demo_writing c \<and>
     fst (write_all letter_codec demo_events demo_writing) = fst (write_all letter_codec demo_events c)"
proof -
  let ?c = "(writer_new ''m'' True ''s'' (cw_storage (fst demo_writing)), commands_world ())"
  have "mirrors ''m/commands'' demo_writing ?c"
    by (simp add: mirrors_def demo_writing_def writer_new_def commands_world_def Let_def node_at_def path_join_def
        suffix_def comps_def)
  with cloud_buffers_match_files [OF this] show ?thesis by blast
qed

section \<open>The end of a cloud session\<close>

lemma put_command_file_result:
  assumes "put_command_file n buf ct (cw, w) = (Inr (), (cw', w'))" and "stores V (cw_storage cw)"
  shows "cw' = cw \<and> V w' = (V w)((cw_session_id cw, writer_cloud_path cw (''commands/'' @ n)) \<mapsto> buf cw)"
proof -
  let ?put = "sb_put (cw_storage cw) (cw_session_id cw) (writer_cloud_path cw (''commands/'' @ n)) (buf cw) ct w"
  from assms(1) have "writer_world (sb_put (cw_storage cw) (cw_session_id cw) (writer_cloud_path cw (''commands/'' @ n))
      (buf cw) ct) (cw, w) = (Inr (), (cw', w'))" by (simp add: put_command_file_def)
  then have "?put = (Inr (), w')" "cw' = cw" by (auto simp: on_writer_apply prod_eq_iff)
  with storesD [OF assms(2) this(1)] show ?thesis by simp
qed

lemma put_then:
  assumes "bind_io (put_command_file n buf ct) f (cw, w) = (Inr u, s')" and "stores V (cw_storage cw)"
  shows "\<exists>w1. V w1 = (V w)((cw_session_id cw, writer_cloud_path cw (''commands/'' @ n)) \<mapsto> buf cw)
    \<and> f () (cw, w1) = (Inr u, s')"
  using assms(1)
proof (cases rule: bind_io_cases)
  case (go a s1)
  obtain cw1 w1 where s1: "s1 = (cw1, w1)" by fastforce
  with go have put: "put_command_file n buf ct (cw, w) = (Inr (), (cw1, w1))" and rest: "f () (cw1, w1) = (Inr u, s')" by simp_all
  from put_command_file_result [OF put assms(2)] rest show ?thesis by (intro exI [of _ w1]) simp
qed simp

text \<open>
  C34. In cloud mode the finalised arrays do not last. After a finalisation that reports success, the
  object store holds the JSON Lines buffers under the names of the two arrays it had just uploaded:
  the last flush overwrites them.
\<close>

theorem cloud_finalise_overwrites_arrays:
  assumes "stores V (cw_storage cw)" and "cw_is_cloud_primary cw" and "finalise jc (cw, w) = (Inr (), (cw', w'))"
  shows "V w' (cw_session_id cw, writer_cloud_path cw ''commands/actuation_commands.json'') = Some (cw_actuation_buf cw)
    \<and> V w' (cw_session_id cw, writer_cloud_path cw ''commands/cc_commands.json'') = Some (cw_cc_buf cw)"
proof -
  have array: "cw1 = cw" if "finalise_jsonl_buf_cloud jc f t (cw, v) = (Inr (), (cw1, v1))" for f t v cw1 v1
    using that by (auto simp: finalise_jsonl_buf_cloud_def bind_io_Inr_iff lift_result_def on_writer_apply)
  from assms(2,3) have "bind_io (finalise_jsonl_buf_cloud jc ''actuation_commands.json'' (cw_actuation_buf cw)) (\<lambda>_.
       bind_io (finalise_jsonl_buf_cloud jc ''cc_commands.json'' (cw_cc_buf cw)) (\<lambda>_.
       flush_to_cloud)) (cw, w) = (Inr (), (cw', w'))" by (simp add: finalise_def)
  then obtain s1 s2 where "finalise_jsonl_buf_cloud jc ''actuation_commands.json'' (cw_actuation_buf cw) (cw, w) = (Inr (), s1)"
    "finalise_jsonl_buf_cloud jc ''cc_commands.json'' (cw_cc_buf cw) s1 = (Inr (), s2)"
    "flush_to_cloud s2 = (Inr (), (cw', w'))" by (auto simp: bind_io_Inr_iff)
  with array obtain v where "flush_to_cloud (cw, v) = (Inr (), (cw', w'))" by (metis surj_pair)
  with assms(2) have "bind_io (put_command_file ''raw_input.md'' cw_raw_input_buf ''text/markdown'') (\<lambda>_.
       bind_io (put_command_file ''converted_input.md'' cw_converted_input_buf ''text/markdown'') (\<lambda>_.
       bind_io (put_command_file ''actuation_commands.json'' cw_actuation_buf ''application/json'') (\<lambda>_.
       put_command_file ''cc_commands.json'' cw_cc_buf ''application/json''))) (cw, v) = (Inr (), (cw', w'))"
    by (simp add: flush_to_cloud_def)
  from put_then [OF this assms(1)] obtain v1 where
    "bind_io (put_command_file ''converted_input.md'' cw_converted_input_buf ''text/markdown'') (\<lambda>_.
       bind_io (put_command_file ''actuation_commands.json'' cw_actuation_buf ''application/json'') (\<lambda>_.
       put_command_file ''cc_commands.json'' cw_cc_buf ''application/json'')) (cw, v1) = (Inr (), (cw', w'))" by blast
  from put_then [OF this assms(1)] obtain v2 where
    "bind_io (put_command_file ''actuation_commands.json'' cw_actuation_buf ''application/json'') (\<lambda>_.
       put_command_file ''cc_commands.json'' cw_cc_buf ''application/json'') (cw, v2) = (Inr (), (cw', w'))" by blast
  from put_then [OF this assms(1)] obtain v3 where v3:
    "V v3 = (V v2)((cw_session_id cw, writer_cloud_path cw (''commands/'' @ ''actuation_commands.json'')) \<mapsto> cw_actuation_buf cw)"
    "put_command_file ''cc_commands.json'' cw_cc_buf ''application/json'' (cw, v3) = (Inr (), (cw', w'))" by blast
  from put_command_file_result [OF v3(2) assms(1)] v3(1) show ?thesis by (simp add: writer_cloud_path_def)
qed

definition demo_cloud :: "(string \<times> string \<rightharpoonup> string, unit) writing" where
  "demo_cloud =
     (writer_new ''m'' True ''s'' (lift_backend w_cloud (\<lambda>c w. w\<lparr>w_cloud := c\<rparr>) memory_store), commands_world Map.empty)"

theorem cloud_finalise_overwrites_arrays_witness:
  "\<exists>s'. finalise letter_json demo_cloud = (Inr (), s')
     \<and> w_cloud (snd s') (''s'', ''m/commands/actuation_commands.json'') = Some []"
proof -
  obtain cw w where s: "demo_cloud = (cw, w)" by fastforce
  then have cw: "stores w_cloud (cw_storage cw)" "cw_is_cloud_primary cw" "cw_session_id cw = ''s''" "cw_actuation_buf cw = []"
    "writer_cloud_path cw ''commands/actuation_commands.json'' = ''m/commands/actuation_commands.json''"
    by (auto simp: demo_cloud_def writer_new_def memory_store_stores writer_cloud_path_def file_name_def comps_def unwrap_or_def)
  have "fst (finalise letter_json demo_cloud) = Inr ()" by code_simp
  then obtain cw' w' where run: "finalise letter_json (cw, w) = (Inr (), (cw', w'))" using s by (metis surj_pair prod.sel(1))
  from cloud_finalise_overwrites_arrays [OF cw(1,2) run] cw(3-) run s show ?thesis by auto
qed

end
