(* ===== verification/MA_Marker.thy ===== *)
theory MA_Marker
  imports MA_Fs
begin

text \<open>
  The click marker (\<open>vision/marker.rs\<close>): where the arrow and the coordinate box go and what is drawn.
  Decoding, encoding and the drawing primitives belong to the image crates and are parameters on an
  unknown canvas. Coordinates are integers; \<open>as_i32\<close> is the cast of an image dimension, and with
  dimensions below \<open>2 ^ 30\<close> no intermediate value leaves the 32-bit range.
\<close>

section \<open>Constants\<close>

definition CIRCLE_RADIUS :: int where "CIRCLE_RADIUS = 5"
definition ARROW_GAP :: int where "ARROW_GAP = 5"
definition ARROW_LENGTH :: int where "ARROW_LENGTH = 65"
definition ARROWHEAD :: int where "ARROWHEAD = 9"
definition BOX_PAD :: int where "BOX_PAD = 8"
definition FONT_SCALE :: nat where "FONT_SCALE = 2"
definition CHAR_W :: nat where "CHAR_W = 5 * FONT_SCALE"
definition CHAR_H :: nat where "CHAR_H = 7 * FONT_SCALE"
definition CHAR_SP :: nat where "CHAR_SP = FONT_SCALE"

lemmas marker_constants = CIRCLE_RADIUS_def ARROW_GAP_def ARROW_LENGTH_def ARROWHEAD_def BOX_PAD_def
  FONT_SCALE_def CHAR_W_def CHAR_H_def CHAR_SP_def

datatype dir = Right | Left | Down | Up

type_synonym point = "int \<times> int"
type_synonym rgba = "nat \<times> nat \<times> nat \<times> nat"

definition RED :: rgba where "RED = (220, 38, 38, 255)"
definition BLUE :: rgba where "BLUE = (59, 130, 246, 255)"
definition WHITE :: rgba where "WHITE = (255, 255, 255, 255)"
definition BLACK :: rgba where "BLACK = (0, 0, 0, 255)"

datatype image_format = Jpeg | WebP | Bmp | Tiff | Png

text \<open>A rectangle is its corner and its size.\<close>

record 'cv image_ops =
  im_load :: "string \<Rightarrow> 'cv result"
  im_width :: "'cv \<Rightarrow> u32"
  im_height :: "'cv \<Rightarrow> u32"
  im_filled_circle :: "point \<Rightarrow> int \<Rightarrow> rgba \<Rightarrow> 'cv \<Rightarrow> 'cv"
  im_hollow_circle :: "point \<Rightarrow> int \<Rightarrow> rgba \<Rightarrow> 'cv \<Rightarrow> 'cv"
  im_line :: "point \<Rightarrow> point \<Rightarrow> rgba \<Rightarrow> 'cv \<Rightarrow> 'cv"
  im_filled_rect :: "point \<Rightarrow> int \<times> int \<Rightarrow> rgba \<Rightarrow> 'cv \<Rightarrow> 'cv"
  im_hollow_rect :: "point \<Rightarrow> int \<times> int \<Rightarrow> rgba \<Rightarrow> 'cv \<Rightarrow> 'cv"
  im_put_pixel :: "nat \<times> nat \<Rightarrow> rgba \<Rightarrow> 'cv \<Rightarrow> 'cv"
  im_write :: "'cv \<Rightarrow> bool \<Rightarrow> image_format \<Rightarrow> string result"

definition as_i32 :: "u32 \<Rightarrow> int" where
  "as_i32 n = sint n"

text \<open>\<open>Ord::clamp\<close> panics when the bounds cross: \<^const>\<open>None\<close>.\<close>

definition clamp :: "int \<Rightarrow> int \<Rightarrow> int \<Rightarrow> int option" where
  "clamp x lo hi = (if lo > hi then None else Some (if x < lo then lo else if x > hi then hi else x))"

section \<open>Geometry\<close>

text \<open>\<open>max_by_key\<close> returns the last of the greatest.\<close>

fun max_by_score :: "(int \<times> dir) list \<Rightarrow> (int \<times> dir) option" where
  "max_by_score [] = None"
| "max_by_score (c # cs) =
     (case max_by_score cs of
        None \<Rightarrow> Some c
      | Some d \<Rightarrow> if fst c > fst d then Some c else Some d)"

definition best_direction :: "int \<Rightarrow> int \<Rightarrow> u32 \<Rightarrow> u32 \<Rightarrow> int \<Rightarrow> int \<Rightarrow> dir" where
  "best_direction cx cy img_w img_h box_w box_h =
     (let need_h = CIRCLE_RADIUS + ARROW_GAP + ARROW_LENGTH + box_w;
          need_v = CIRCLE_RADIUS + ARROW_GAP + ARROW_LENGTH + box_h;
          candidates = [(as_i32 img_w - cx - need_h, Right), (cx - need_h, Left),
                        (as_i32 img_h - cy - need_v, Down), (cy - need_v, Up)] in
      (case max_by_score candidates of Some (_, d) \<Rightarrow> d | None \<Rightarrow> Right))"

text \<open>\<open>i32\<close> division rounds toward zero; the box sizes are positive.\<close>

definition arrow_and_box :: "int \<Rightarrow> int \<Rightarrow> int \<Rightarrow> int \<Rightarrow> dir \<Rightarrow> point \<times> point \<times> point" where
  "arrow_and_box cx cy box_w box_h d =
     (case d of
        Right \<Rightarrow> (let x0 = cx + CIRCLE_RADIUS + ARROW_GAP; x1 = x0 + ARROW_LENGTH in
                  ((x0, cy), (x1, cy), (x1, cy - box_h div 2)))
      | Left \<Rightarrow> (let x0 = cx - CIRCLE_RADIUS - ARROW_GAP; x1 = x0 - ARROW_LENGTH in
                 ((x0, cy), (x1, cy), (x1 - box_w, cy - box_h div 2)))
      | Down \<Rightarrow> (let y0 = cy + CIRCLE_RADIUS + ARROW_GAP; y1 = y0 + ARROW_LENGTH in
                 ((cx, y0), (cx, y1), (cx - box_w div 2, y1)))
      | Up \<Rightarrow> (let y0 = cy - CIRCLE_RADIUS - ARROW_GAP; y1 = y0 - ARROW_LENGTH in
               ((cx, y0), (cx, y1), (cx - box_w div 2, y1 - box_h))))"

definition clamp_box :: "point \<Rightarrow> int \<Rightarrow> int \<Rightarrow> int \<Rightarrow> int \<Rightarrow> point option" where
  "clamp_box origin box_w box_h img_w img_h =
     Option.bind (clamp (fst origin) 0 (max (img_w - box_w) 0)) (\<lambda>x.
     Option.bind (clamp (snd origin) 0 (max (img_h - box_h) 0)) (\<lambda>y. Some (x, y)))"

section \<open>Text\<close>

definition char_bitmap :: "char \<Rightarrow> nat list" where
  "char_bitmap c = unwrap_or [0, 0, 0, 0, 0, 0, 0] (map_of
     [(CHR ''0'', [0b01110, 0b10001, 0b10011, 0b10101, 0b11001, 0b10001, 0b01110]),
      (CHR ''1'', [0b00100, 0b01100, 0b00100, 0b00100, 0b00100, 0b00100, 0b01110]),
      (CHR ''2'', [0b01110, 0b10001, 0b00001, 0b00110, 0b01000, 0b10000, 0b11111]),
      (CHR ''3'', [0b01110, 0b10001, 0b00001, 0b00110, 0b00001, 0b10001, 0b01110]),
      (CHR ''4'', [0b00010, 0b00110, 0b01010, 0b10010, 0b11111, 0b00010, 0b00010]),
      (CHR ''5'', [0b11111, 0b10000, 0b11110, 0b00001, 0b00001, 0b10001, 0b01110]),
      (CHR ''6'', [0b01110, 0b10001, 0b10000, 0b11110, 0b10001, 0b10001, 0b01110]),
      (CHR ''7'', [0b11111, 0b00001, 0b00010, 0b00100, 0b00100, 0b01000, 0b01000]),
      (CHR ''8'', [0b01110, 0b10001, 0b10001, 0b01110, 0b10001, 0b10001, 0b01110]),
      (CHR ''9'', [0b01110, 0b10001, 0b10001, 0b01111, 0b00001, 0b00010, 0b01100]),
      (CHR ''X'', [0b10001, 0b10001, 0b01010, 0b00100, 0b01010, 0b10001, 0b10001]),
      (CHR ''Y'', [0b10001, 0b10001, 0b01010, 0b00100, 0b00100, 0b00100, 0b00100]),
      (CHR '':'', [0b00000, 0b00100, 0b00100, 0b00000, 0b00100, 0b00100, 0b00000])] c)"

text \<open>The labels are ASCII, so the characters are the bytes.\<close>

definition text_pixel_width :: "string \<Rightarrow> nat" where
  "text_pixel_width t = (let n = length t in if n = 0 then 0 else n * CHAR_W + (n - 1) * CHAR_SP)"

text \<open>The pixels of one character and of a text, in the order they are put.\<close>

definition char_pixels :: "nat \<Rightarrow> nat \<Rightarrow> char \<Rightarrow> (nat \<times> nat) list" where
  "char_pixels cursor y ch =
     concat (map (\<lambda>(row, bits). concat (map (\<lambda>col.
         if odd (bits div 2 ^ (4 - col))
         then concat (map (\<lambda>dy. map (\<lambda>dx. (cursor + col * FONT_SCALE + dx, y + row * FONT_SCALE + dy)) [0..<FONT_SCALE])
                [0..<FONT_SCALE])
         else []) [0..<5]))
       (enumerate 0 (char_bitmap ch)))"

fun text_pixels :: "nat \<Rightarrow> nat \<Rightarrow> string \<Rightarrow> (nat \<times> nat) list" where
  "text_pixels cursor y [] = []"
| "text_pixels cursor y (ch # t) = char_pixels cursor y ch @ text_pixels (cursor + (CHAR_W + CHAR_SP)) y t"

definition draw_text :: "'cv image_ops \<Rightarrow> string \<Rightarrow> nat \<Rightarrow> nat \<Rightarrow> rgba \<Rightarrow> 'cv \<Rightarrow> 'cv" where
  "draw_text im t x y color canvas =
     (let img_w = unat (im_width im canvas); img_h = unat (im_height im canvas) in
      fold (\<lambda>(px, py) cv. if px < img_w \<and> py < img_h then im_put_pixel im (px, py) color cv else cv)
        (text_pixels x y t) canvas)"

section \<open>Drawing\<close>

definition draw_arrowhead :: "'cv image_ops \<Rightarrow> point \<Rightarrow> dir \<Rightarrow> rgba \<Rightarrow> 'cv \<Rightarrow> 'cv" where
  "draw_arrowhead im tip d color canvas =
     (let (tx, ty) = tip; a = ARROWHEAD;
          arms = (case d of
            Right \<Rightarrow> [(tx - a, ty - a div 2), (tx - a, ty + a div 2)]
          | Left \<Rightarrow> [(tx + a, ty - a div 2), (tx + a, ty + a div 2)]
          | Down \<Rightarrow> [(tx - a div 2, ty - a), (tx + a div 2, ty - a)]
          | Up \<Rightarrow> [(tx - a div 2, ty + a), (tx + a div 2, ty + a)]) in
      fold (\<lambda>p2. im_line im (tx, ty) p2 color) arms canvas)"

definition draw_shaft :: "'cv image_ops \<Rightarrow> point \<Rightarrow> point \<Rightarrow> dir \<Rightarrow> rgba \<Rightarrow> 'cv \<Rightarrow> 'cv" where
  "draw_shaft im a_start a_end d color canvas =
     fold (\<lambda>off.
       let (ox, oy) = (if d = Right \<or> d = Left then (0, off) else (off, 0)) in
       im_line im (fst a_start + ox, snd a_start + oy) (fst a_end + ox, snd a_end + oy) color) [0, 1] canvas"

definition draw_box :: "'cv image_ops \<Rightarrow> point \<Rightarrow> int \<Rightarrow> int \<Rightarrow> string \<Rightarrow> rgba \<Rightarrow> 'cv \<Rightarrow> 'cv" where
  "draw_box im origin box_w box_h label color canvas =
     (let canvas = im_filled_rect im origin (box_w, box_h) WHITE canvas;
          canvas = im_hollow_rect im (fst origin + 1, snd origin + 1) (box_w - 2, box_h - 2) color canvas;
          canvas = im_hollow_rect im origin (box_w, box_h) BLACK canvas in
      draw_text im label (nat (fst origin + BOX_PAD)) (nat (snd origin + BOX_PAD)) BLACK canvas)"

definition ext_to_format :: "(string \<Rightarrow> string) \<Rightarrow> string \<Rightarrow> image_format" where
  "ext_to_format lower ext =
     (let e = lower ext in
      if e = ''jpg'' \<or> e = ''jpeg'' then Jpeg
      else if e = ''webp'' then WebP
      else if e = ''bmp'' then Bmp
      else if e = ''tiff'' \<or> e = ''tif'' then Tiff
      else Png)"

text \<open>JPEG has no alpha channel: the canvas is written as RGB then.\<close>

definition encode_canvas :: "'cv image_ops \<Rightarrow> (string \<Rightarrow> string) \<Rightarrow> 'cv \<Rightarrow> string \<Rightarrow> string result" where
  "encode_canvas im lower canvas ext =
     (let format = ext_to_format lower ext in
      (case im_write im canvas (format = Jpeg) format of
         Inl e \<Rightarrow> Inl (''Failed to encode image as '' @ ext @ '': '' @ e)
       | Inr out \<Rightarrow> Inr out))"

definition label_of :: "int \<Rightarrow> int \<Rightarrow> string" where
  "label_of x y = ''X: '' @ show_int x @ ''  Y: '' @ show_int y"

definition box_size :: "string \<Rightarrow> int \<times> int" where
  "box_size label = (int (text_pixel_width label) + BOX_PAD * 2, int CHAR_H + BOX_PAD * 2)"

text \<open>Where the parts of a marker go; \<^const>\<open>None\<close> is a panic of the clamp.\<close>

definition layout :: "int \<Rightarrow> int \<Rightarrow> u32 \<Rightarrow> u32 \<Rightarrow> int \<Rightarrow> int \<Rightarrow> (dir \<times> point \<times> point \<times> point) option" where
  "layout cx cy img_w img_h box_w box_h =
     (let d = best_direction cx cy img_w img_h box_w box_h;
          (a_start, a_end, raw_box) = arrow_and_box cx cy box_w box_h d in
      map_option (\<lambda>box_origin. (d, a_start, a_end, box_origin))
        (clamp_box raw_box box_w box_h (as_i32 img_w) (as_i32 img_h)))"

definition mark :: "'cv image_ops \<Rightarrow> (string \<Rightarrow> string) \<Rightarrow> string \<Rightarrow> int \<Rightarrow> int \<Rightarrow> string \<Rightarrow> string result option" where
  "mark im lower image_bytes click_x click_y ext =
     (case im_load im image_bytes of
        Inl e \<Rightarrow> Some (Inl (''Failed to decode image from The-Eyes: '' @ e))
      | Inr canvas \<Rightarrow>
          (let img_w = im_width im canvas; img_h = im_height im canvas in
           Option.bind (clamp click_x 0 (as_i32 img_w - 1)) (\<lambda>cx.
           Option.bind (clamp click_y 0 (as_i32 img_h - 1)) (\<lambda>cy.
           let label = label_of click_x click_y; (box_w, box_h) = box_size label in
           map_option (\<lambda>(d, a_start, a_end, box_origin).
             let canvas = im_filled_circle im (cx, cy) CIRCLE_RADIUS RED canvas;
                 canvas = im_hollow_circle im (cx, cy) CIRCLE_RADIUS BLACK canvas;
                 canvas = draw_shaft im a_start a_end d RED canvas;
                 canvas = draw_arrowhead im a_end d RED canvas;
                 canvas = draw_box im box_origin box_w box_h label RED canvas in
             encode_canvas im lower canvas ext)
           (layout cx cy img_w img_h box_w box_h)))))"

text \<open>The annotation of a text field and a cursor.\<close>

definition mark_field :: "'cv image_ops \<Rightarrow> int \<times> int \<times> u32 \<times> u32 \<Rightarrow> 'cv \<Rightarrow> 'cv option" where
  "mark_field im = (\<lambda>(rx, ry, rw, rh) canvas.
     let img_w = im_width im canvas; img_h = im_height im canvas in
     Option.bind (clamp rx 0 (as_i32 img_w - 1)) (\<lambda>rx.
     Option.bind (clamp ry 0 (as_i32 img_h - 1)) (\<lambda>ry.
     let rw = max (min (unat rw) (unat img_w - nat rx)) 1;
         rh = max (min (unat rh) (unat img_h - nat ry)) 1;
         canvas = im_hollow_rect im (rx, ry) (int rw, int rh) BLUE canvas in
     Some (if rw > 2 \<and> rh > 2
           then im_hollow_rect im (rx + 1, ry + 1) (int rw - 2, int rh - 2) BLUE canvas else canvas))))"

definition mark_cursor :: "'cv image_ops \<Rightarrow> point \<Rightarrow> 'cv \<Rightarrow> 'cv option" where
  "mark_cursor im = (\<lambda>(cx, cy) canvas.
     let img_w = im_width im canvas; img_h = im_height im canvas in
     Option.bind (clamp cx 0 (as_i32 img_w - 1)) (\<lambda>cx.
     Option.bind (clamp cy 0 (as_i32 img_h - 1)) (\<lambda>cy.
     let canvas = im_hollow_circle im (cx, cy) CIRCLE_RADIUS BLUE canvas;
         canvas = (if CIRCLE_RADIUS > 1 then im_hollow_circle im (cx, cy) (CIRCLE_RADIUS - 1) BLUE canvas else canvas);
         label = label_of cx cy; (box_w, box_h) = box_size label in
     map_option (\<lambda>(d, a_start, a_end, box_origin).
       let canvas = draw_shaft im a_start a_end d BLUE canvas;
           canvas = draw_arrowhead im a_end d BLUE canvas in
       draw_box im box_origin box_w box_h label BLUE canvas)
     (layout cx cy img_w img_h box_w box_h))))"

definition mark_type ::
  "'cv image_ops \<Rightarrow> (string \<Rightarrow> string) \<Rightarrow> string \<Rightarrow> (int \<times> int \<times> u32 \<times> u32) option \<Rightarrow> point option \<Rightarrow> string
   \<Rightarrow> string result option" where
  "mark_type im lower image_bytes diff_rect cursor_pos ext =
     (case im_load im image_bytes of
        Inl e \<Rightarrow> Some (Inl (''Failed to decode image for type annotation: '' @ e))
      | Inr canvas \<Rightarrow>
          Option.bind (case diff_rect of Some r \<Rightarrow> mark_field im r canvas | None \<Rightarrow> Some canvas) (\<lambda>canvas.
          Option.bind (case cursor_pos of Some p \<Rightarrow> mark_cursor im p canvas | None \<Rightarrow> Some canvas) (\<lambda>canvas.
          Some (encode_canvas im lower canvas ext))))"

section \<open>Facts\<close>

lemma max_by_score_some: "cs \<noteq> [] \<Longrightarrow> \<exists>d. max_by_score cs = Some d"
  by (cases cs) (auto split: option.splits)

lemma max_by_score_max:
  "max_by_score cs = Some d \<Longrightarrow> d \<in> set cs \<and> (\<forall>c \<in> set cs. fst c \<le> fst d)"
proof (induction cs arbitrary: d)
  case (Cons c cs)
  show ?case
  proof (cases "max_by_score cs")
    case None
    then have "cs = []" using max_by_score_some by fastforce
    with Cons.prems show ?thesis by simp
  next
    case (Some e)
    from Cons.IH [OF Some] Cons.prems Some show ?thesis by (auto split: if_splits intro: order.trans less_imp_le)
  qed
qed simp

lemma clamp_in: "lo \<le> hi \<Longrightarrow> clamp x lo hi = Some (if x < lo then lo else if x > hi then hi else x)"
  by (simp add: clamp_def)

definition need_room :: "int \<Rightarrow> int" where
  "need_room box = CIRCLE_RADIUS + ARROW_GAP + ARROW_LENGTH + box"

text \<open>The direction taken has the most room.\<close>

lemma best_direction_room:
  assumes "as_i32 w - cx - need_room bw \<ge> 0 \<or> cx - need_room bw \<ge> 0
    \<or> as_i32 h - cy - need_room bh \<ge> 0 \<or> cy - need_room bh \<ge> 0"
  shows "case best_direction cx cy w h bw bh of
      Right \<Rightarrow> as_i32 w - cx - need_room bw \<ge> 0 | Left \<Rightarrow> cx - need_room bw \<ge> 0
    | Down \<Rightarrow> as_i32 h - cy - need_room bh \<ge> 0 | Up \<Rightarrow> cy - need_room bh \<ge> 0"
proof -
  let ?cs = "[(as_i32 w - cx - need_room bw, Right), (cx - need_room bw, Left),
      (as_i32 h - cy - need_room bh, Down), (cy - need_room bh, Up)]"
  obtain k d where best: "max_by_score ?cs = Some (k, d)" using max_by_score_some [of ?cs] by auto
  then have "best_direction cx cy w h bw bh = d" by (simp add: best_direction_def need_room_def Let_def)
  with max_by_score_max [OF best] assms show ?thesis by auto
qed

text \<open>The pixels of a text lie in its line.\<close>

lemma char_bitmap_rows: "length (char_bitmap c) = 7"
  by (auto simp: char_bitmap_def unwrap_or_def split: option.splits dest!: map_of_SomeD)

lemma char_pixels_in:
  assumes "(px, py) \<in> set (char_pixels cursor y c)"
  shows "cursor \<le> px \<and> px < cursor + CHAR_W \<and> y \<le> py \<and> py < y + CHAR_H"
  using assms char_bitmap_rows [of c]
  by (auto simp: char_pixels_def marker_constants in_set_enumerate_eq split: if_splits)

lemma text_pixels_in:
  "(px, py) \<in> set (text_pixels x y t) \<Longrightarrow>
    x \<le> px \<and> px + CHAR_SP < x + length t * (CHAR_W + CHAR_SP) \<and> y \<le> py \<and> py < y + CHAR_H"
proof (induction t arbitrary: x)
  case (Cons c t)
  then consider "(px, py) \<in> set (char_pixels x y c)" | "(px, py) \<in> set (text_pixels (x + (CHAR_W + CHAR_SP)) y t)"
    by auto
  then show ?case
  proof cases
    case 1
    from char_pixels_in [OF this] show ?thesis by (simp add: algebra_simps)
  next
    case 2
    from Cons.IH [OF this] show ?thesis by (simp add: algebra_simps)
  qed
qed simp

lemma text_width: "t \<noteq> [] \<Longrightarrow> text_pixel_width t + CHAR_SP = length t * (CHAR_W + CHAR_SP)"
  by (cases t) (simp_all add: text_pixel_width_def algebra_simps)

text \<open>No value of the geometry leaves the \<open>i32\<close> range on images of up to a thousand million pixels a side.\<close>

lemma geometry_in_range:
  assumes "0 \<le> cx" "cx < 2 ^ 30" "0 \<le> cy" "cy < 2 ^ 30" "0 \<le> as_i32 w" "as_i32 w \<le> 2 ^ 30"
    and "0 \<le> as_i32 h" "as_i32 h \<le> 2 ^ 30" "0 \<le> bw" "bw \<le> 1000" "0 \<le> bh" "bh \<le> 1000"
    and "arrow_and_box cx cy bw bh d = ((sx, sy), (ex, ey), (ox, oy))"
  shows "list_all in_i32 [as_i32 w - cx - need_room bw, cx - need_room bw, as_i32 h - cy - need_room bh, cy - need_room bh,
    sx, sy, ex, ey, ox, oy, ox + bw, oy + bh]"
  using assms by (cases d) (auto simp: arrow_and_box_def Let_def in_i32_def need_room_def marker_constants)

text \<open>
  A marker is always placed, and placed legibly. For every non-empty image and every point in it the
  layout exists; a box that fits the image lies inside it; if any of the four sides has room for the
  arrow and the box, the box does not touch the circle around the marked point; and every pixel of
  the label lies inside the box, within its padding.
\<close>

lemma marker_legible:
  assumes "0 \<le> cx" "cx < as_i32 w" "0 \<le> cy" "cy < as_i32 h" and "box_size label = (bw, bh)" and "label \<noteq> []"
  shows "\<exists>d s e x y. layout cx cy w h bw bh = Some (d, s, e, (x, y))
    \<and> 0 \<le> x \<and> 0 \<le> y \<and> (bw \<le> as_i32 w \<longrightarrow> x + bw \<le> as_i32 w) \<and> (bh \<le> as_i32 h \<longrightarrow> y + bh \<le> as_i32 h)
    \<and> (as_i32 w - cx - need_room bw \<ge> 0 \<or> cx - need_room bw \<ge> 0
         \<or> as_i32 h - cy - need_room bh \<ge> 0 \<or> cy - need_room bh \<ge> 0 \<longrightarrow>
       cx + CIRCLE_RADIUS < x \<or> x + bw < cx - CIRCLE_RADIUS \<or> cy + CIRCLE_RADIUS < y \<or> y + bh < cy - CIRCLE_RADIUS)
    \<and> (\<forall>(px, py) \<in> set (text_pixels (nat (x + BOX_PAD)) (nat (y + BOX_PAD)) label).
         x + BOX_PAD \<le> int px \<and> int px < x + bw - BOX_PAD \<and> y + BOX_PAD \<le> int py \<and> int py < y + bh - BOX_PAD)"
proof -
  obtain s e ox oy where ab: "arrow_and_box cx cy bw bh (best_direction cx cy w h bw bh) = (s, e, (ox, oy))"
    by (metis prod_cases4)
  have size: "bw = int (text_pixel_width label) + 16" "bh = 30"
    using assms(5) by (simp_all add: box_size_def marker_constants)
  let ?cl = "\<lambda>o' hi. if o' < 0 then 0 else if o' > hi then hi else o' :: int"
  let ?x = "?cl ox (max (as_i32 w - bw) 0)" and ?y = "?cl oy (max (as_i32 h - bh) 0)"
  have cl: "clamp_box (ox, oy) bw bh (as_i32 w) (as_i32 h) = Some (?x, ?y)"
    unfolding clamp_box_def fst_conv snd_conv
    by (simp only: clamp_in [OF max.cobounded2] Option.bind.bind_lunit)
  have l: "layout cx cy w h bw bh = Some (best_direction cx cy w h bw bh, s, e, (?x, ?y))"
    by (simp add: layout_def Let_def ab cl)
  have bounds: "0 \<le> ?x" "0 \<le> ?y" "bw \<le> as_i32 w \<longrightarrow> ?x + bw \<le> as_i32 w" "bh \<le> as_i32 h \<longrightarrow> ?y + bh \<le> as_i32 h"
    using assms(1-4) size by auto
  have apart: "cx + CIRCLE_RADIUS < ?x \<or> ?x + bw < cx - CIRCLE_RADIUS \<or> cy + CIRCLE_RADIUS < ?y \<or> ?y + bh < cy - CIRCLE_RADIUS"
    if room: "as_i32 w - cx - need_room bw \<ge> 0 \<or> cx - need_room bw \<ge> 0
      \<or> as_i32 h - cy - need_room bh \<ge> 0 \<or> cy - need_room bh \<ge> 0"
  proof (cases "best_direction cx cy w h bw bh")
    case Right
    with best_direction_room [OF room] ab have "ox = cx + 75" "as_i32 w - cx - 75 - bw \<ge> 0"
      by (auto simp: arrow_and_box_def Let_def need_room_def marker_constants)
    with assms(1) have "?x = cx + 75" by auto
    then show ?thesis by (simp add: marker_constants)
  next
    case Left
    with best_direction_room [OF room] ab have "ox = cx - 75 - bw" "cx - 75 - bw \<ge> 0"
      by (auto simp: arrow_and_box_def Let_def need_room_def marker_constants)
    with assms(2) have "?x = cx - 75 - bw" by auto
    then show ?thesis by (simp add: marker_constants)
  next
    case Down
    with best_direction_room [OF room] ab have "oy = cy + 75" "as_i32 h - cy - 75 - bh \<ge> 0"
      by (auto simp: arrow_and_box_def Let_def need_room_def marker_constants)
    with assms(3) have "?y = cy + 75" by auto
    then show ?thesis by (simp add: marker_constants)
  next
    case Up
    with best_direction_room [OF room] ab have "oy = cy - 75 - bh" "cy - 75 - bh \<ge> 0"
      by (auto simp: arrow_and_box_def Let_def need_room_def marker_constants)
    with assms(4) have "?y = cy - 75 - bh" by auto
    then show ?thesis by (simp add: marker_constants)
  qed
  obtain d x y where dxy: "best_direction cx cy w h bw bh = d" "?x = x" "?y = y" by blast
  note facts = l [unfolded dxy] bounds [unfolded dxy] apart [unfolded dxy]
  have "x + BOX_PAD \<le> int px \<and> int px < x + bw - BOX_PAD \<and> y + BOX_PAD \<le> int py \<and> int py < y + bh - BOX_PAD"
    if "(px, py) \<in> set (text_pixels (nat (x + BOX_PAD)) (nat (y + BOX_PAD)) label)" for px py
  proof -
    have "int px + int CHAR_SP < x + BOX_PAD + int (text_pixel_width label) + int CHAR_SP"
      using text_pixels_in [OF that] text_width [OF assms(6)] facts(2) by (simp add: marker_constants) arith
    with text_pixels_in [OF that] facts(2,3) size show ?thesis by (simp add: marker_constants) arith
  qed
  then have "\<forall>(px, py) \<in> set (text_pixels (nat (x + BOX_PAD)) (nat (y + BOX_PAD)) label).
         x + BOX_PAD \<le> int px \<and> int px < x + bw - BOX_PAD \<and> y + BOX_PAD \<le> int py \<and> int py < y + bh - BOX_PAD"
    by (intro ballI, simp only: split_paired_all case_prod_conv)
  with facts show ?thesis by (intro exI conjI impI) (assumption | erule mp)+
qed

lemma marker_legible_witness:
  "\<exists>d s e x y. layout 790 10 800 600 170 30 = Some (d, s, e, (x, y)) \<and> 0 \<le> x \<and> x + 170 \<le> 800"
proof -
  have box: "box_size ''X: 790  Y: 10'' = (170, 30)" by (simp add: box_size_def marker_constants text_pixel_width_def)
  have dims: "as_i32 800 = 800" "as_i32 600 = 600" by (simp_all add: as_i32_def)
  have pre: "(0::int) \<le> 790" "790 < as_i32 800" "(0::int) \<le> 10" "10 < as_i32 600" by (simp_all add: dims)
  from marker_legible [OF pre box] obtain d s e x y where "layout 790 10 800 600 170 30 = Some (d, s, e, (x, y))"
    "0 \<le> x" "170 \<le> as_i32 800 \<longrightarrow> x + 170 \<le> as_i32 800" by (elim exE conjE meta_impE) (simp, blast)
  then show ?thesis by (auto simp: dims)
qed

end
