(* ===== verification/MA_Vision.thy ===== *)
theory MA_Vision
  imports MA_World MA_Marker
begin

text \<open>
  The frames of a step (\<open>vision/mod.rs\<close>, \<open>vision/client.rs\<close>). The Eyes is an HTTP service: what it
  answers to the three fetches of a step is a parameter. Parsing and printing of timestamps are
  chrono's, with instants in nanoseconds; the marker is a parameter of the pipeline and instantiated
  with \<^const>\<open>mark\<close>. An error of a computation stands for a panic; failures are values.
\<close>

section \<open>Decisions\<close>

datatype fetch_decision = Skip string | FetchAt bool | FetchAfter u64

definition decide :: "command_event \<Rightarrow> u64 \<Rightarrow> u64 \<Rightarrow> fetch_decision" where
  "decide event press_delay_ms type_delay_ms =
     (if \<not> success event then Skip ''command failed''
      else if action_type event = ''mouse'' then FetchAt (position_captured event)
      else if action_type event = ''keyboard'' then
        (if action_subtype event = ''type'' then FetchAfter type_delay_ms
         else if action_subtype event = ''press'' then FetchAfter press_delay_ms
         else Skip ''keyboard subtype does not trigger fetch'')
      else Skip ''action type does not trigger fetch'')"

record step_image_result =
  ir_image_path :: string
  ir_marked :: bool
  ir_before_image_path :: "string option"
  ir_after_image_path :: "string option"
  ir_at_frame_bytes :: string
  ir_before_frame_bytes :: string
  ir_after_frame_bytes :: string

record ('c, 'r) vision_pipeline =
  vp_addr :: string
  vp_memory_dir :: string
  vp_memory_name :: string
  vp_press_delay_ms :: u64
  vp_type_delay_ms :: u64
  vp_before_offset_ms :: u64
  vp_after_delay_ms :: u64
  vp_session_id :: string
  vp_storage :: "('c, 'r) world storage_backend"
  vp_is_cloud_primary :: bool
  vp_is_automated :: bool

text \<open>\<open>client_ok\<close>: whether the HTTP client could be built.\<close>

definition vision_new ::
  "bool \<Rightarrow> string \<Rightarrow> string \<Rightarrow> config \<Rightarrow> string \<Rightarrow> ('c, 'r) world storage_backend \<Rightarrow> bool \<Rightarrow> ('c, 'r) vision_pipeline option" where
  "vision_new client_ok the_eyes_addr memory_dir cfg sid storage is_automated =
     (if the_eyes_addr = [] then None
      else if \<not> client_ok then None
      else Some \<lparr>vp_addr = the_eyes_addr, vp_memory_dir = memory_dir, vp_memory_name = unwrap_or [] (file_name memory_dir),
             vp_press_delay_ms = cfg_press_fetch_delay_ms cfg, vp_type_delay_ms = cfg_type_fetch_delay_ms cfg,
             vp_before_offset_ms = cfg_before_fetch_offset_ms cfg, vp_after_delay_ms = cfg_after_fetch_delay_ms cfg,
             vp_session_id = sid, vp_storage = storage,
             vp_is_cloud_primary = (cfg_storage_mode cfg = ''cloud_primary''), vp_is_automated = is_automated\<rparr>)"

definition vision_cloud_path :: "('c, 'r) vision_pipeline \<Rightarrow> string \<Rightarrow> string" where
  "vision_cloud_path vp relative_path = vp_memory_name vp @ ''/'' @ relative_path"

section \<open>Timestamps\<close>

text \<open>An instant with its offset for RFC 3339, an instant in UTC for the naive form.\<close>

record chrono =
  ch_rfc3339 :: "string \<Rightarrow> (int \<times> int) option"
  ch_naive :: "string \<Rightarrow> int option"
  ch_print :: "int \<times> int \<Rightarrow> string"

definition first_19 :: "string \<Rightarrow> string \<Rightarrow> string" where
  "first_19 other ts = unwrap_or other (str_slice 0 19 ts)"

definition adjust_timestamp_ms :: "chrono \<Rightarrow> string \<Rightarrow> int \<Rightarrow> string" where
  "adjust_timestamp_ms ch ts delta_ms =
     (case ch_rfc3339 ch ts of
        Some (t, offset) \<Rightarrow> ch_print ch (t + delta_ms * 1000000, offset)
      | None \<Rightarrow>
          (case ch_naive ch (first_19 ts ts) of
             Some t \<Rightarrow> ch_print ch (t + delta_ms * 1000000, 0)
           | None \<Rightarrow> ts))"

definition parse_timestamp_unix :: "(string \<Rightarrow> string) \<Rightarrow> chrono \<Rightarrow> string \<Rightarrow> int result" where
  "parse_timestamp_unix dbg ch ts =
     (case ch_rfc3339 ch ts of
        Some (t, _) \<Rightarrow> Inr (t div 1000000)
      | None \<Rightarrow>
          (case ch_naive ch (first_19 ts ts) of
             Some t \<Rightarrow> Inr (t div 1000000)
           | None \<Rightarrow> Inl (''Cannot parse timestamp: '' @ dbg ts)))"

definition timestamp_compact :: "string \<Rightarrow> string" where
  "timestamp_compact ts =
     (let digits = filter is_digit (first_19 ''0000-00-00T00:00:00'' ts) in
      if length digits \<ge> 14 then take 8 digits @ ''_'' @ take 6 (drop 8 digits) else ''00000000_000000'')"

section \<open>Fetching\<close>

datatype slot = Before | At | After

record eyes_reply =
  er_content_type :: "string option"
  er_body :: "string result"

type_synonym eyes = "slot \<Rightarrow> int \<Rightarrow> eyes_reply result"

definition content_type_to_ext :: "string \<Rightarrow> string" where
  "content_type_to_ext content_type =
     (let t = trim (hd (split_at (\<lambda>c. c = CHR '';'') content_type)) in
      if t = ''image/webp'' then ''webp''
      else if t = ''image/jpeg'' then ''jpg''
      else if t = ''image/bmp'' then ''bmp''
      else if t = ''image/tiff'' then ''tiff''
      else ''png'')"

definition fetch_closest :: "eyes \<Rightarrow> slot \<Rightarrow> int \<Rightarrow> (string \<times> string) result" where
  "fetch_closest eyes which target_unix_ms =
     (case eyes which target_unix_ms of
        Inl e \<Rightarrow> Inl (''Failed to fetch closest frame from The-Eyes: '' @ e)
      | Inr reply \<Rightarrow>
          (case er_body reply of
             Inl e \<Rightarrow> Inl (''Failed to read frame body bytes: '' @ e)
           | Inr bytes \<Rightarrow> Inr (bytes, content_type_to_ext (unwrap_or [] (er_content_type reply)))))"

record vision_env =
  ve_dbg :: "string \<Rightarrow> string"
  ve_lower :: "string \<Rightarrow> string"
  ve_chrono :: chrono
  ve_mark :: "string \<Rightarrow> int \<Rightarrow> int \<Rightarrow> string \<Rightarrow> string result option"

definition fetch_at :: "vision_env \<Rightarrow> eyes \<Rightarrow> slot \<Rightarrow> string \<Rightarrow> (string \<times> string) result" where
  "fetch_at ve eyes which ts = and_then (parse_timestamp_unix (ve_dbg ve) (ve_chrono ve) ts) (fetch_closest eyes which)"

section \<open>Saving\<close>

definition ext_to_content_type :: "(string \<Rightarrow> string) \<Rightarrow> string \<Rightarrow> string" where
  "ext_to_content_type lower ext =
     (let e = lower ext in
      if e = ''jpg'' \<or> e = ''jpeg'' then ''image/jpeg''
      else if e = ''webp'' then ''image/webp''
      else if e = ''bmp'' then ''image/bmp''
      else if e = ''tiff'' \<or> e = ''tif'' then ''image/tiff''
      else ''image/png'')"

text \<open>\<open>{:04}\<close>.\<close>

definition zeros4 :: "u32 \<Rightarrow> string" where
  "zeros4 n = (let s = show_nat (unat n) in replicate (4 - length s) (CHR ''0'') @ s)"

definition frame_name :: "u32 \<Rightarrow> string \<Rightarrow> string \<Rightarrow> string \<Rightarrow> string" where
  "frame_name step_id ts role ext =
     ''step_'' @ zeros4 step_id @ ''_'' @ timestamp_compact ts @ ''_'' @ role @ ''.'' @ ext"

definition frame_rel :: "string \<Rightarrow> string" where
  "frame_rel filename = ''vision/frames/'' @ filename"

definition put_frame :: "('c, 'r) vision_pipeline \<Rightarrow> string \<Rightarrow> string \<Rightarrow> string \<Rightarrow> (('c, 'r) world, string option) io" where
  "put_frame vp filename bytes content_type =
     (let rel_path = frame_rel filename in
      bind_io (attempt (
        if vp_is_cloud_primary vp
        then sb_put (vp_storage vp) (vp_session_id vp) (vision_cloud_path vp rel_path) bytes content_type
        else on_disk (fs_write (path_join (path_join (path_join (vp_memory_dir vp) ''vision'') ''frames'') filename) bytes)))
      (\<lambda>r. ok (case r of Inr _ \<Rightarrow> Some rel_path | Inl _ \<Rightarrow> None)))"

definition save_at_marked ::
  "vision_env \<Rightarrow> ('c, 'r) vision_pipeline \<Rightarrow> string \<Rightarrow> u32 \<Rightarrow> string \<Rightarrow> int \<Rightarrow> int \<Rightarrow> string
   \<Rightarrow> (('c, 'r) world, (string \<times> bool) option) io" where
  "save_at_marked ve vp raw_bytes step_id ts x y ext =
     (case ve_mark ve raw_bytes x y ext of
        None \<Rightarrow> fail ''panic''
      | Some (Inl e) \<Rightarrow> ok None
      | Some (Inr marked_bytes) \<Rightarrow>
          bind_io (put_frame vp (frame_name step_id ts ''at'' ext) marked_bytes ''image/png'')
            (\<lambda>p. ok (map_option (\<lambda>rel. (rel, True)) p)))"

definition save_at ::
  "vision_env \<Rightarrow> ('c, 'r) vision_pipeline \<Rightarrow> string \<Rightarrow> u32 \<Rightarrow> string \<Rightarrow> bool \<Rightarrow> string
   \<Rightarrow> (('c, 'r) world, (string \<times> bool) option) io" where
  "save_at ve vp bytes step_id ts marked ext =
     bind_io (put_frame vp (frame_name step_id ts ''at'' ext) bytes (ext_to_content_type (ve_lower ve) ext))
       (\<lambda>p. ok (map_option (\<lambda>rel. (rel, marked)) p))"

definition save_frame ::
  "vision_env \<Rightarrow> ('c, 'r) vision_pipeline \<Rightarrow> string \<Rightarrow> u32 \<Rightarrow> string \<Rightarrow> string \<Rightarrow> string
   \<Rightarrow> (('c, 'r) world, string option) io" where
  "save_frame ve vp bytes step_id ts role ext =
     put_frame vp (frame_name step_id ts role ext) bytes (ext_to_content_type (ve_lower ve) ext)"

definition read_frame_bytes :: "('c, 'r) vision_pipeline \<Rightarrow> string \<Rightarrow> (('c, 'r) world, string) io" where
  "read_frame_bytes vp relative_path =
     bind_io (attempt (
       if vp_is_cloud_primary vp
       then sb_get (vp_storage vp) (vp_session_id vp) (vision_cloud_path vp relative_path)
       else on_disk (fs_read (path_join (vp_memory_dir vp) relative_path))))
     (\<lambda>r. ok (case r of Inr b \<Rightarrow> b | Inl _ \<Rightarrow> []))"

section \<open>One step\<close>

text \<open>A frame before or after the action: best effort.\<close>

definition save_optional ::
  "vision_env \<Rightarrow> ('c, 'r) vision_pipeline \<Rightarrow> (string \<times> string) result \<Rightarrow> u32 \<Rightarrow> string \<Rightarrow> string
   \<Rightarrow> (('c, 'r) world, string option) io" where
  "save_optional ve vp fetched step_id ts role =
     (case fetched of
        Inr (b, ext) \<Rightarrow> save_frame ve vp b step_id ts role ext
      | Inl e \<Rightarrow> ok None)"

definition read_optional :: "('c, 'r) vision_pipeline \<Rightarrow> string option \<Rightarrow> (('c, 'r) world, string) io" where
  "read_optional vp p = (case p of Some p \<Rightarrow> read_frame_bytes vp p | None \<Rightarrow> ok [])"

definition finish_frames ::
  "vision_env \<Rightarrow> ('c, 'r) vision_pipeline \<Rightarrow> (string \<times> string) result \<Rightarrow> (string \<times> string) result \<Rightarrow> u32 \<Rightarrow> string
   \<Rightarrow> string \<times> bool \<Rightarrow> (('c, 'r) world, step_image_result) io" where
  "finish_frames ve vp before_result after_result step_id ts = (\<lambda>(image_path, marked).
     bind_io (save_optional ve vp before_result step_id ts ''before'') (\<lambda>before_image_path.
     bind_io (save_optional ve vp after_result step_id ts ''after'') (\<lambda>after_image_path.
     bind_io (if vp_is_automated vp then read_frame_bytes vp image_path else ok []) (\<lambda>at_bytes.
     bind_io (if vp_is_automated vp then read_optional vp before_image_path else ok []) (\<lambda>before_bytes.
     bind_io (if vp_is_automated vp then read_optional vp after_image_path else ok []) (\<lambda>after_bytes.
     ok \<lparr>ir_image_path = image_path, ir_marked = marked, ir_before_image_path = before_image_path,
         ir_after_image_path = after_image_path, ir_at_frame_bytes = at_bytes, ir_before_frame_bytes = before_bytes,
         ir_after_frame_bytes = after_bytes\<rparr>))))))"

definition process_delayed_fetch ::
  "vision_env \<Rightarrow> ('c, 'r) vision_pipeline \<Rightarrow> eyes \<Rightarrow> command_event \<Rightarrow> u32 \<Rightarrow> u64
   \<Rightarrow> (('c, 'r) world, step_image_result option) io" where
  "process_delayed_fetch ve vp eyes event step_id delay =
     (let adjust = adjust_timestamp_ms (ve_chrono ve) (timestamp event);
          before_result = fetch_at ve eyes Before (adjust (- sint (vp_before_offset_ms vp)));
          action_result = fetch_at ve eyes At (adjust (sint delay));
          after_result = fetch_at ve eyes After (adjust (sint (delay + vp_after_delay_ms vp))) in
      case action_result of
        Inl e \<Rightarrow> ok None
      | Inr (action_bytes, action_ext) \<Rightarrow>
          bind_io (save_at ve vp action_bytes step_id (timestamp event) False action_ext) (\<lambda>saved.
          case saved of
            None \<Rightarrow> ok None
          | Some at \<Rightarrow> bind_io (finish_frames ve vp before_result after_result step_id (timestamp event) at) (\<lambda>r. ok (Some r))))"

definition process ::
  "vision_env \<Rightarrow> ('c, 'r) vision_pipeline \<Rightarrow> eyes \<Rightarrow> command_event \<Rightarrow> u32
   \<Rightarrow> (('c, 'r) world, step_image_result option) io" where
  "process ve vp eyes event step_id =
     (case decide event (vp_press_delay_ms vp) (vp_type_delay_ms vp) of
        Skip why \<Rightarrow> ok None
      | FetchAt marking \<Rightarrow>
          (let adjust = adjust_timestamp_ms (ve_chrono ve) (timestamp event);
               before_result = fetch_at ve eyes Before (adjust (- sint (vp_before_offset_ms vp)));
               action_result = fetch_at ve eyes At (timestamp event);
               after_result = fetch_at ve eyes After (adjust (sint (vp_after_delay_ms vp))) in
           case action_result of
             Inl e \<Rightarrow> ok None
           | Inr (action_bytes, action_ext) \<Rightarrow>
               bind_io (if marking
                  then save_at_marked ve vp action_bytes step_id (timestamp event) (mouse_x event) (mouse_y event) action_ext
                  else save_at ve vp action_bytes step_id (timestamp event) False action_ext) (\<lambda>saved.
               case saved of
                 None \<Rightarrow> ok None
               | Some at \<Rightarrow> bind_io (finish_frames ve vp before_result after_result step_id (timestamp event) at) (\<lambda>r. ok (Some r))))
      | FetchAfter delay \<Rightarrow> process_delayed_fetch ve vp eyes event step_id delay)"

end
