(* ===== verification/MA_Vision_Facts.thy ===== *)
theory MA_Vision_Facts
  imports MA_Vision MA_Writer_Facts
begin

text \<open>
  The frames on the disk: their names never collide, and a step that reports an image has left
  exactly the bytes that were fetched, or marked, under the names it reports.
\<close>

section \<open>Names\<close>

text \<open>The roles a frame has in its step.\<close>

fun role_name :: "slot \<Rightarrow> string" where
  "role_name Before = ''before''"
| "role_name At = ''at''"
| "role_name After = ''after''"

definition image_exts :: "string set" where
  "image_exts = {''webp'', ''jpg'', ''bmp'', ''tiff'', ''png''}"

lemma content_type_ext: "content_type_to_ext t \<in> image_exts"
  by (simp add: content_type_to_ext_def image_exts_def Let_def)

lemma fetch_ext: "fetch_at ve eyes s ts = Inr (b, ext) \<Longrightarrow> ext \<in> image_exts"
  unfolding fetch_at_def and_then_Inr_iff fetch_closest_def
  by (elim exE conjE) (auto simp: content_type_ext split: sum.split_asm)

lemma zeros4_digits: "list_all is_digit (zeros4 n)"
  by (auto simp: zeros4_def Let_def list_all_iff is_digit_def [of "CHR ''0''"] dest: show_nat_digitsD)

lemma digits_val_zeros4: "digits_val (zeros4 n) = unat n"
proof -
  have "digits_val (replicate k (CHR ''0'') @ s) = digits_val s" for k s
    by (induction k) (simp_all add: digits_val_def)
  then show ?thesis by (simp add: zeros4_def Let_def digits_val_show_nat)
qed

lemma timestamp_compact_length: "length (timestamp_compact ts) = 15"
  by (simp add: timestamp_compact_def Let_def)

lemma timestamp_compact_chars: "c \<in> set (timestamp_compact ts) \<Longrightarrow> is_digit c \<or> c = CHR ''_''"
  by (auto simp: timestamp_compact_def Let_def is_digit_def [of "CHR ''0''"] dest!: in_set_takeD in_set_dropD split: if_splits)

lemma digits_then_inject:
  assumes "list_all is_digit x" "list_all is_digit y" "x @ ''_'' @ r = y @ ''_'' @ s"
  shows "x = y \<and> r = s"
proof -
  have "takeWhile is_digit (x @ ''_'' @ r) = x" "takeWhile is_digit (y @ ''_'' @ s) = y"
    using assms(1,2) by (simp_all add: takeWhile_append2 list_all_iff is_digit_def)
  with assms(3) show ?thesis by simp
qed

lemma role_inject: "role_name s @ ''.'' @ e = role_name s' @ ''.'' @ e' \<Longrightarrow> s = s'"
  by (cases s; cases s') auto

lemma frame_name_inject:
  "(frame_name k ts (role_name s) e = frame_name k' ts' (role_name s') e')
    = (k = k' \<and> s = s' \<and> e = e' \<and> timestamp_compact ts = timestamp_compact ts')"
proof
  assume "frame_name k ts (role_name s) e = frame_name k' ts' (role_name s') e'"
  then have eq: "zeros4 k @ ''_'' @ timestamp_compact ts @ ''_'' @ role_name s @ ''.'' @ e
      = zeros4 k' @ ''_'' @ timestamp_compact ts' @ ''_'' @ role_name s' @ ''.'' @ e'"
    by (simp add: frame_name_def)
  from digits_then_inject [OF zeros4_digits zeros4_digits eq] have z: "zeros4 k = zeros4 k'"
    "timestamp_compact ts @ ''_'' @ role_name s @ ''.'' @ e = timestamp_compact ts' @ ''_'' @ role_name s' @ ''.'' @ e'"
    by simp_all
  from z(1) have "unat k = unat k'" using digits_val_zeros4 [of k] digits_val_zeros4 [of k'] by simp
  then have "k = k'" by (simp add: word_unat_eq_iff)
  moreover from z(2) have t: "timestamp_compact ts = timestamp_compact ts'" "role_name s @ ''.'' @ e = role_name s' @ ''.'' @ e'"
    using timestamp_compact_length by (auto simp: append_eq_append_conv)
  moreover from t(2) have "s = s'" by (rule role_inject)
  ultimately show "k = k' \<and> s = s' \<and> e = e' \<and> timestamp_compact ts = timestamp_compact ts'" by simp
qed (simp add: frame_name_def)

text \<open>
  No frame of a session overwrites another. Whatever the timestamps and formats, the names of
  two frames are equal only if they belong to the same step and have the same role in it.
\<close>

lemma frame_names_distinct:
  "(frame_name k ts (role_name s) e = frame_name k' ts' (role_name s') e') = (k = k' \<and> s = s' \<and> e = e' \<and> timestamp_compact ts = timestamp_compact ts')"
  by (rule frame_name_inject)

section \<open>Frames on the disk\<close>

lemma plain_frame_name: "e \<in> image_exts \<Longrightarrow> plain_name (frame_name k ts (role_name s) e)"
proof -
  assume e: "e \<in> image_exts"
  have "c \<noteq> CHR ''/''" if "c \<in> set (frame_name k ts (role_name s) e)" for c
    using that e zeros4_digits [of k] timestamp_compact_chars [of c ts]
    by (cases s) (auto simp: frame_name_def image_exts_def list_all_iff is_digit_def)
  then show ?thesis by (auto simp: plain_name_def list_all_iff) (simp_all add: frame_name_def)
qed

definition frame_path :: "string \<Rightarrow> string \<Rightarrow> string" where
  "frame_path dir name = path_join (path_join (path_join dir ''vision'') ''frames'') name"

lemma comps_frame:
  assumes "plain_name n"
  shows "comps (frame_path dir n) = comps dir @ [''vision'', ''frames'', n]"
    and "comps (path_join dir (frame_rel n)) = comps dir @ [''vision'', ''frames'', n]"
proof -
  have names: "plain_name ''vision''" "plain_name ''frames''" by (simp_all add: plain_name_def)
  show "comps (frame_path dir n) = comps dir @ [''vision'', ''frames'', n]"
    using assms names by (simp add: frame_path_def comps_child)
  have rel: "path_join ''vision/frames'' n = ''vision/frames/'' @ n"
    using assms by (cases n) (auto simp: path_join_def suffix_def plain_name_def)
  have "comps (''vision/frames/'' @ n) = [''vision'', ''frames'', n]"
    using comps_child [OF assms, of "''vision/frames''"] unfolding rel by (simp add: comps_def)
  then show "comps (path_join dir (frame_rel n)) = comps dir @ [''vision'', ''frames'', n]"
    unfolding frame_rel_def by (cases "dir = []") (simp_all add: comps_join, simp add: path_join_def comps_def)
qed

lemma put_frame_local:
  assumes "put_frame vp n bytes ct w = (r, w')" and "\<not> vp_is_cloud_primary vp" and "plain_name n"
  shows "\<exists>p. r = Inr p \<and> (p = None \<or> p = Some (frame_rel n)
      \<and> node_at (w_disk w') (path_join (vp_memory_dir vp) (frame_rel n)) = Some (File bytes))"
    and "comps q \<noteq> comps (vp_memory_dir vp) @ [''vision'', ''frames'', n] \<Longrightarrow> node_at (w_disk w') q = node_at (w_disk w) q"
proof -
  let ?p = "frame_path (vp_memory_dir vp) n"
  obtain res d' where run: "fs_write ?p bytes (w_disk w) = (res, d')" by fastforce
  have out: "r = Inr (case res of Inr _ \<Rightarrow> Some (frame_rel n) | Inl _ \<Rightarrow> None)" "w_disk w' = d'"
    using assms(1,2) run
    by (auto simp: put_frame_def frame_path_def Let_def attempt_def bind_io_def on_disk_def zoom_def)
  have same: "node_at d (path_join (vp_memory_dir vp) (frame_rel n)) = node_at d ?p" for d
    by (simp add: node_at_def comps_frame [OF assms(3)])
  from fs_write_result [OF run] out same
  show "\<exists>p. r = Inr p \<and> (p = None \<or> p = Some (frame_rel n)
      \<and> node_at (w_disk w') (path_join (vp_memory_dir vp) (frame_rel n)) = Some (File bytes))"
    by (cases res) auto
  from fs_write_result(1) [OF run] out
  show "comps q \<noteq> comps (vp_memory_dir vp) @ [''vision'', ''frames'', n] \<Longrightarrow> node_at (w_disk w') q = node_at (w_disk w) q"
    by (simp add: comps_frame [OF assms(3)])
qed

lemma read_frame_disk: "node_at (w_disk (snd (read_frame_bytes vp p w))) q = node_at (w_disk w) q" if "\<not> vp_is_cloud_primary vp"
proof -
  obtain r d' where run: "fs_read (path_join (vp_memory_dir vp) p) (w_disk w) = (r, d')" by fastforce
  then have "tree d' = tree (w_disk w)"
    unfolding fs_read_def by (elim guarded_cases) (auto split: option.splits node.splits)
  with run that show ?thesis
    by (auto simp: read_frame_bytes_def bind_io_def attempt_def on_disk_def zoom_def intro: node_at_same)
qed

text \<open>The frames of a step, by role.\<close>

definition step_frame :: "string \<Rightarrow> u32 \<Rightarrow> string \<Rightarrow> slot \<Rightarrow> string \<Rightarrow> bool" where
  "step_frame dir k ts s q \<longleftrightarrow> (\<exists>e. comps q = comps dir @ [''vision'', ''frames'', frame_name k ts (role_name s) e])"

lemma step_frame_once: "step_frame dir k ts s q \<Longrightarrow> step_frame dir k ts s' q \<Longrightarrow> s = s'"
  by (auto simp: step_frame_def frame_name_inject)

definition only_frames :: "string \<Rightarrow> u32 \<Rightarrow> string \<Rightarrow> slot set \<Rightarrow> ('c, 'r) world \<Rightarrow> ('c, 'r) world \<Rightarrow> bool" where
  "only_frames dir k ts S w w' \<longleftrightarrow>
     (\<forall>q. (\<forall>s \<in> S. \<not> step_frame dir k ts s q) \<longrightarrow> node_at (w_disk w') q = node_at (w_disk w) q)"

text \<open>The file of a role, when the result names one.\<close>

definition frame_held ::
  "vision_env \<Rightarrow> eyes \<Rightarrow> string \<Rightarrow> u32 \<Rightarrow> string \<Rightarrow> slot \<Rightarrow> string \<Rightarrow> string option \<Rightarrow> ('c, 'r) world \<Rightarrow> bool" where
  "frame_held ve eyes dir k ts s t p w \<longleftrightarrow>
     (\<forall>rel. p = Some rel \<longrightarrow> (\<exists>b e. fetch_at ve eyes s t = Inr (b, e) \<and> step_frame dir k ts s (path_join dir rel)
        \<and> node_at (w_disk w) (path_join dir rel) = Some (File b)))"

lemma save_optional_held:
  assumes "save_optional ve vp (fetch_at ve eyes s t) k ts (role_name s) w = (Inr p, w')" and "\<not> vp_is_cloud_primary vp"
  shows "frame_held ve eyes (vp_memory_dir vp) k ts s t p w' \<and> only_frames (vp_memory_dir vp) k ts {s} w w'"
proof (cases "fetch_at ve eyes s t")
  case (Inl e)
  with assms show ?thesis by (auto simp: save_optional_def frame_held_def only_frames_def)
next
  case (Inr be)
  obtain b e where be: "be = (b, e)" by fastforce
  let ?n = "frame_name k ts (role_name s) e"
  from Inr be fetch_ext have plain: "plain_name ?n" by (auto intro: plain_frame_name)
  from assms(1) Inr be have "put_frame vp ?n b (ext_to_content_type (ve_lower ve) e) w = (Inr p, w')"
    by (simp add: save_optional_def save_frame_def)
  note P = put_frame_local [OF this assms(2) plain]
  have "step_frame (vp_memory_dir vp) k ts s (path_join (vp_memory_dir vp) (frame_rel ?n))"
    by (auto simp: step_frame_def comps_frame [OF plain])
  with P(1) Inr be have "frame_held ve eyes (vp_memory_dir vp) k ts s t p w'" by (auto simp: frame_held_def)
  moreover from P(2) have "only_frames (vp_memory_dir vp) k ts {s} w w'"
    by (auto simp: only_frames_def step_frame_def)
  ultimately show ?thesis ..
qed

lemma held_later:
  "frame_held ve eyes dir k ts s t p w \<Longrightarrow> only_frames dir k ts S w w' \<Longrightarrow> s \<notin> S \<Longrightarrow> frame_held ve eyes dir k ts s t p w'"
  unfolding frame_held_def only_frames_def by (metis step_frame_once)

lemma only_frames_trans:
  "only_frames dir k ts S w w1 \<Longrightarrow> only_frames dir k ts T w1 w2 \<Longrightarrow> only_frames dir k ts (S \<union> T) w w2"
  by (simp add: only_frames_def)

lemma reads_only:
  assumes "(if vp_is_automated vp then read_frame_bytes vp p else ok []) w = (r, w')" and "\<not> vp_is_cloud_primary vp"
  shows "only_frames dir k ts {} w w'"
  using assms read_frame_disk [OF assms(2), of p w] by (auto simp: only_frames_def split: if_splits)

lemma reads_optional_only:
  assumes "(if vp_is_automated vp then read_optional vp p else ok []) w = (r, w')" and "\<not> vp_is_cloud_primary vp"
  shows "only_frames dir k ts {} w w'"
  using assms read_frame_disk [OF assms(2), of _ w]
  by (auto simp: only_frames_def read_optional_def split: if_splits option.splits) (metis snd_conv)

lemma finish_frames_held:
  assumes "finish_frames ve vp (fetch_at ve eyes Before tb) (fetch_at ve eyes After ta) k ts at w = (Inr r, w')"
    and "\<not> vp_is_cloud_primary vp"
  shows "at = (ir_image_path r, ir_marked r)
    \<and> frame_held ve eyes (vp_memory_dir vp) k ts Before tb (ir_before_image_path r) w'
    \<and> frame_held ve eyes (vp_memory_dir vp) k ts After ta (ir_after_image_path r) w'
    \<and> only_frames (vp_memory_dir vp) k ts {Before, After} w w'"
proof -
  let ?d = "vp_memory_dir vp"
  obtain ip mk where at: "at = (ip, mk)" by fastforce
  from assms(1) obtain pb w1 pa w2 ab w3 bb w4 xb where run:
    "save_optional ve vp (fetch_at ve eyes Before tb) k ts ''before'' w = (Inr pb, w1)"
    "save_optional ve vp (fetch_at ve eyes After ta) k ts ''after'' w1 = (Inr pa, w2)"
    "(if vp_is_automated vp then read_frame_bytes vp ip else ok []) w2 = (Inr ab, w3)"
    "(if vp_is_automated vp then read_optional vp pb else ok []) w3 = (Inr bb, w4)"
    "(if vp_is_automated vp then read_optional vp pa else ok []) w4 = (Inr xb, w')"
    "r = \<lparr>ir_image_path = ip, ir_marked = mk, ir_before_image_path = pb, ir_after_image_path = pa,
       ir_at_frame_bytes = ab, ir_before_frame_bytes = bb, ir_after_frame_bytes = xb\<rparr>"
    by (auto simp: finish_frames_def at bind_io_Inr_iff)
  note B = save_optional_held [of ve vp eyes Before tb k ts w pb w1, simplified role_name.simps, OF run(1) assms(2)]
  note A = save_optional_held [of ve vp eyes After ta k ts w1 pa w2, simplified role_name.simps, OF run(2) assms(2)]
  have R: "only_frames ?d k ts {} w2 w'"
    using only_frames_trans [OF only_frames_trans [OF reads_only [OF run(3) assms(2)] reads_optional_only [OF run(4) assms(2)]]
        reads_optional_only [OF run(5) assms(2)]] by simp
  from A have "only_frames ?d k ts {After} w1 w'" using only_frames_trans [OF conjunct2 [OF A] R] by simp
  with held_later [OF conjunct1 [OF B] this] held_later [OF conjunct1 [OF A] R] only_frames_trans [OF conjunct2 [OF B] this]
  show ?thesis by (simp add: run(6) at insert_commute)
qed

text \<open>The image of the action.\<close>

definition image_held ::
  "vision_env \<Rightarrow> eyes \<Rightarrow> string \<Rightarrow> u32 \<Rightarrow> command_event \<Rightarrow> string \<Rightarrow> string \<times> bool \<Rightarrow> ('c, 'r) world \<Rightarrow> bool" where
  "image_held ve eyes dir k ev t = (\<lambda>(rel, marked) w. \<exists>b e bytes.
     fetch_at ve eyes At t = Inr (b, e)
     \<and> (if marked then ve_mark ve b (mouse_x ev) (mouse_y ev) e = Some (Inr bytes) else bytes = b)
     \<and> step_frame dir k (timestamp ev) At (path_join dir rel)
     \<and> node_at (w_disk w) (path_join dir rel) = Some (File bytes))"

lemma save_image_held:
  assumes "(if marking then save_at_marked ve vp b k (timestamp ev) (mouse_x ev) (mouse_y ev) e
      else save_at ve vp b k (timestamp ev) False e) w = (Inr (Some at), w')"
    and "fetch_at ve eyes At t = Inr (b, e)" and "\<not> vp_is_cloud_primary vp"
  shows "image_held ve eyes (vp_memory_dir vp) k ev t at w' \<and> only_frames (vp_memory_dir vp) k (timestamp ev) {At} w w'"
proof -
  let ?n = "frame_name k (timestamp ev) (role_name At) e"
  have plain: "plain_name ?n" by (rule plain_frame_name [OF fetch_ext [OF assms(2)]])
  from assms(1) obtain bytes ct where put: "put_frame vp ?n bytes ct w = (Inr (Some (fst at)), w')"
    "snd at = marking" "if marking then ve_mark ve b (mouse_x ev) (mouse_y ev) e = Some (Inr bytes) else bytes = b"
    by (cases marking)
      (auto simp: save_at_marked_def save_at_def bind_io_Inr_iff split: option.splits sum.splits)
  note P = put_frame_local [OF put(1) assms(3) plain]
  have "step_frame (vp_memory_dir vp) k (timestamp ev) At (path_join (vp_memory_dir vp) (frame_rel ?n))"
    unfolding step_frame_def by (rule exI [of _ e], rule comps_frame(2) [OF plain])
  with P(1) put assms(2) have "image_held ve eyes (vp_memory_dir vp) k ev t at w'"
    by (cases at) (auto simp: image_held_def)
  moreover from P(2) have "only_frames (vp_memory_dir vp) k (timestamp ev) {At} w w'"
    by (auto simp: only_frames_def step_frame_def)
  ultimately show ?thesis ..
qed

lemma image_then_frames:
  assumes "bind_io (if marking then save_at_marked ve vp b k (timestamp ev) (mouse_x ev) (mouse_y ev) e
      else save_at ve vp b k (timestamp ev) False e) (\<lambda>saved.
      case saved of None \<Rightarrow> ok None
      | Some at \<Rightarrow> bind_io (finish_frames ve vp (fetch_at ve eyes Before tb) (fetch_at ve eyes After ta) k (timestamp ev) at)
          (\<lambda>r. ok (Some r))) w = (Inr (Some r), w')"
    and "fetch_at ve eyes At t = Inr (b, e)" and "\<not> vp_is_cloud_primary vp"
  shows "image_held ve eyes (vp_memory_dir vp) k ev t (ir_image_path r, ir_marked r) w'
    \<and> frame_held ve eyes (vp_memory_dir vp) k (timestamp ev) Before tb (ir_before_image_path r) w'
    \<and> frame_held ve eyes (vp_memory_dir vp) k (timestamp ev) After ta (ir_after_image_path r) w'
    \<and> only_frames (vp_memory_dir vp) k (timestamp ev) {At, Before, After} w w'"
proof -
  from assms(1) obtain at w1 where run:
    "(if marking then save_at_marked ve vp b k (timestamp ev) (mouse_x ev) (mouse_y ev) e
      else save_at ve vp b k (timestamp ev) False e) w = (Inr (Some at), w1)"
    "finish_frames ve vp (fetch_at ve eyes Before tb) (fetch_at ve eyes After ta) k (timestamp ev) at w1 = (Inr r, w')"
    by (auto simp: bind_io_Inr_iff split: option.splits)
  note I = save_image_held [OF run(1) assms(2,3)]
  note F = finish_frames_held [OF run(2) assms(3)]
  from I F have "image_held ve eyes (vp_memory_dir vp) k ev t (ir_image_path r, ir_marked r) w1"
    "only_frames (vp_memory_dir vp) k (timestamp ev) {Before, After} w1 w'" by simp_all
  then have "image_held ve eyes (vp_memory_dir vp) k ev t (ir_image_path r, ir_marked r) w'"
    unfolding image_held_def only_frames_def prod.case by (metis insertE singletonD slot.distinct(1) slot.distinct(5) step_frame_once)
  with F only_frames_trans [OF conjunct2 [OF I], of "{Before, After}" w'] show ?thesis by (simp add: insert_commute)
qed


definition demo_vision :: vision_env where
  "demo_vision = \<lparr>ve_dbg = \<lambda>s. s, ve_lower = \<lambda>s. s,
     ve_chrono = \<lparr>ch_rfc3339 = \<lambda>_. Some (0, 0), ch_naive = \<lambda>_. None, ch_print = \<lambda>_. ''t''\<rparr>,
     ve_mark = \<lambda>b x y e. Some (Inr (b @ ''+mark''))\<rparr>"

definition demo_eyes :: eyes where
  "demo_eyes s t = Inr \<lparr>er_content_type = Some ''image/webp'', er_body = Inr ''frame''\<rparr>"

definition demo_pipeline :: "(unit, unit) vision_pipeline" where
  "demo_pipeline =
     \<lparr>vp_addr = ''eyes'', vp_memory_dir = ''m'', vp_memory_name = ''m'', vp_press_delay_ms = 500, vp_type_delay_ms = 1000,
      vp_before_offset_ms = 500, vp_after_delay_ms = 500, vp_session_id = ''s'',
      vp_storage = lift_backend w_disk (\<lambda>d w. w\<lparr>w_disk := d\<rparr>) (local_backend (\<lambda>s. s) []),
      vp_is_cloud_primary = False, vp_is_automated = False\<rparr>"

definition demo_click :: command_event where
  "demo_click = default_event\<lparr>action_type := ''mouse'', success := True, position_captured := True, mouse_x := 3, mouse_y := 4\<rparr>"

definition frames_world :: "(unit, unit) world" where
  "frames_world = (commands_world ())\<lparr>w_disk :=
     \<lparr>tree = [([''m'', ''vision'', ''frames''], Dir), ([''m'', ''vision''], Dir), ([''m''], Dir)], faults = []\<rparr>\<rparr>"

lemma demo_process:
  "case process demo_vision demo_pipeline demo_eyes demo_click 7 frames_world of
     (Inr (Some r), _) \<Rightarrow> ir_marked r \<and> ir_before_image_path r \<noteq> None | _ \<Rightarrow> False"
  by code_simp


end
