(* ===== verification/MA_Disconnect.thy ===== *)
theory MA_Disconnect
  imports MA_World MA_Session MA_Registry
begin

text \<open>
  What happens to a session whose stream ends without a clean done (\<open>capture/disconnect.rs\<close>). The
  awaiting \<open>send\<close> of the push channel fails only when the client is gone; that failure is drawn from
  the same schedule as those of \<open>try_send\<close>.
\<close>

record disconnect_handler =
  dh_session_id :: string
  dh_memory_dir :: string
  dh_has_ipc :: bool
  dh_is_cloud_primary :: bool

definition disconnect_reason_str :: "disconnect_reason \<Rightarrow> string" where
  "disconnect_reason_str r =
     (case r of
        AgentDisconnected \<Rightarrow> ''agent disconnected''
      | SilenceTimeout \<Rightarrow> ''silence timeout''
      | TransportError msg \<Rightarrow> ''transport error: '' @ msg
      | AgentRecordsLossy msg \<Rightarrow> ''refused: agent does not record faithfully: '' @ msg)"

definition handle_disconnect ::
  "'r redis \<Rightarrow> clock_format \<Rightarrow> metadata_codec \<Rightarrow> disconnect_handler \<Rightarrow> disconnect_reason \<Rightarrow> (('c, 'r) world, unit) io" where
  "handle_disconnect api cf mc dh r =
     bind_io (ignore (on_redis (update_status api cf (dh_session_id dh) Incomplete))) (\<lambda>_.
     bind_io (if dh_is_cloud_primary dh then ok ()
       else
         bind_io (ignore (on_disk (mark_incomplete_status mc (dh_memory_dir dh)))) (\<lambda>_.
         bind_io (attempt (on_disk (mark_incomplete (dh_memory_dir dh)))) (\<lambda>moved.
         case moved of
           Inr new_dir \<Rightarrow> ignore (on_redis (update_memory_path api cf (dh_session_id dh) new_dir))
         | Inl e \<Rightarrow> ok ()))) (\<lambda>_.
     if dh_has_ipc dh
     then ignore (try_send (SessionDisconnected (dh_session_id dh) (disconnect_reason_str r)))
     else ok ()))"

end
