(* ===== verification/MA_Capture_State.thy ===== *)
theory MA_Capture_State
  imports MA_World MA_Metadata
begin

text \<open>
  \<open>CaptureState\<close> (\<open>capture/session_state.rs\<close>): the document of a running session, held in memory and
  flushed to the disk or to the cloud. The methods that change memory only are functions on the
  state; those that do I/O run on the pair of the state and the world. Metrics and log lines are not
  modelled.
\<close>

section \<open>State\<close>

record ('c, 'r) capture_state =
  cs_metadata :: session_metadata
  cs_session_id :: string
  cs_memory_dir :: string
  cs_is_cloud_primary :: bool
  cs_storage :: "('c, 'r) world storage_backend"
  cs_flush_interval :: u32
  cs_steps_since_flush :: u32

definition capture_new ::
  "session_metadata \<Rightarrow> string \<Rightarrow> string \<Rightarrow> ('c, 'r) world storage_backend \<Rightarrow> u32 \<Rightarrow> bool \<Rightarrow> ('c, 'r) capture_state" where
  "capture_new metadata sid memory_dir storage flush_interval is_cloud_primary =
     \<lparr>cs_metadata = metadata, cs_session_id = sid, cs_memory_dir = memory_dir,
      cs_is_cloud_primary = is_cloud_primary, cs_storage = storage,
      cs_flush_interval = max flush_interval 1, cs_steps_since_flush = 0\<rparr>"

definition capture_cloud_path :: "('c, 'r) capture_state \<Rightarrow> string \<Rightarrow> string" where
  "capture_cloud_path cs relative_path = md_memory_name (cs_metadata cs) @ ''/'' @ relative_path"

definition edit :: "(session_metadata \<Rightarrow> session_metadata) \<Rightarrow> ('c, 'r) capture_state \<Rightarrow> ('c, 'r) capture_state" where
  "edit f cs = cs\<lparr>cs_metadata := f (cs_metadata cs)\<rparr>"

section \<open>Changes in memory\<close>

definition cs_set_in_progress :: "string \<Rightarrow> ('c, 'r) capture_state \<Rightarrow> ('c, 'r) capture_state" where
  "cs_set_in_progress v = edit (\<lambda>m. m\<lparr>md_in_progress := Some v\<rparr>)"

definition cs_clear_in_progress :: "('c, 'r) capture_state \<Rightarrow> ('c, 'r) capture_state" where
  "cs_clear_in_progress = edit (\<lambda>m. m\<lparr>md_in_progress := None\<rparr>)"

definition cs_set_closing_image :: "string \<Rightarrow> ('c, 'r) capture_state \<Rightarrow> ('c, 'r) capture_state" where
  "cs_set_closing_image p = edit (\<lambda>m. m\<lparr>md_closing_image_path := Some p\<rparr>)"

definition cs_set_actuation_transport :: "string \<Rightarrow> ('c, 'r) capture_state \<Rightarrow> ('c, 'r) capture_state" where
  "cs_set_actuation_transport t = edit (\<lambda>m. m\<lparr>md_actuation_transport := t\<rparr>)"

definition cs_set_actuation_server_version :: "string \<Rightarrow> ('c, 'r) capture_state \<Rightarrow> ('c, 'r) capture_state" where
  "cs_set_actuation_server_version v = edit (\<lambda>m. m\<lparr>md_actuation_server_version := v\<rparr>)"

definition record_agent_version :: "string \<Rightarrow> ('c, 'r) capture_state \<Rightarrow> ('c, 'r) capture_state" where
  "record_agent_version v cs =
     (if md_actuation_agent_version (cs_metadata cs) = [] \<and> v \<noteq> []
      then edit (\<lambda>m. m\<lparr>md_actuation_agent_version := v\<rparr>) cs else cs)"

definition cs_mark_complete :: "int \<Rightarrow> ('c, 'r) capture_state \<Rightarrow> ('c, 'r) capture_state" where
  "cs_mark_complete now = edit (\<lambda>m. m\<lparr>md_status := ''complete'', md_completed_at := Some now\<rparr>)"

definition cs_mark_incomplete :: "('c, 'r) capture_state \<Rightarrow> ('c, 'r) capture_state" where
  "cs_mark_incomplete = edit (\<lambda>m. m\<lparr>md_status := ''incomplete''\<rparr>)"

definition cs_append_step :: "step_entry \<Rightarrow> ('c, 'r) capture_state \<Rightarrow> ('c, 'r) capture_state" where
  "cs_append_step step = edit (push_step step)"

definition cs_update_step_image ::
  "u32 \<Rightarrow> string \<Rightarrow> bool \<Rightarrow> string option \<Rightarrow> string option \<Rightarrow> ('c, 'r) capture_state \<Rightarrow> ('c, 'r) capture_state" where
  "cs_update_step_image step_id image_path marked before after =
     edit (set_step_image step_id image_path marked before after)"

definition cs_append_skipped_fetch :: "u32 \<Rightarrow> string \<Rightarrow> ('c, 'r) capture_state \<Rightarrow> ('c, 'r) capture_state" where
  "cs_append_skipped_fetch step_id why = edit (push_skipped step_id why)"

definition cs_update_kafka_position :: "32 word \<Rightarrow> 64 word \<Rightarrow> ('c, 'r) capture_state \<Rightarrow> ('c, 'r) capture_state" where
  "cs_update_kafka_position part offset = edit (\<lambda>m. m\<lparr>md_kafka_partition := Some part, md_kafka_offset := Some offset\<rparr>)"

definition mark_recovered :: "('c, 'r) capture_state \<Rightarrow> ('c, 'r) capture_state" where
  "mark_recovered = edit (\<lambda>m. m\<lparr>md_status := ''pending_annotation'', md_in_progress := None\<rparr>)"

definition recent_steps_context :: "u32 \<Rightarrow> ('c, 'r) capture_state \<Rightarrow> context_step list" where
  "recent_steps_context n cs =
     (let steps = md_steps (cs_metadata cs) in
      map (\<lambda>s. \<lparr>cx_step_id = se_step_id s, cx_converted_command = se_action_type s @ ''/'' @ se_action_subtype s,
                cx_reasoning = []\<rparr>)
        (drop (length steps - unat n) steps))"

section \<open>Flushing\<close>

type_synonym ('c, 'r) capturing = "('c, 'r) capture_state \<times> ('c, 'r) world"

definition on_world :: "(('c, 'r) world, 'a) io \<Rightarrow> (('c, 'r) capturing, 'a) io" where
  "on_world = zoom snd (\<lambda>w (cs, _). (cs, w))"

interpretation world_lens: lens "snd :: ('c, 'r) capturing \<Rightarrow> ('c, 'r) world" "\<lambda>w (cs, _). (cs, w)"
  by unfold_locales auto

text \<open>The tokens reported since the last flush move into the document; additions wrap.\<close>

definition add_totals :: "token_counts \<Rightarrow> session_metadata \<Rightarrow> session_metadata" where
  "add_totals c m =
     (if fst c > 0 \<or> snd c > 0
      then m\<lparr>md_total_input_tokens := md_total_input_tokens m + fst c,
             md_total_output_tokens := md_total_output_tokens m + snd c\<rparr>
      else m)"

definition add_provider_costs :: "provider_tokens \<Rightarrow> session_metadata \<Rightarrow> session_metadata" where
  "add_provider_costs drained m =
     m\<lparr>md_token_costs_by_provider := (\<lambda>p.
         case drained p of
           None \<Rightarrow> md_token_costs_by_provider m p
         | Some (pin, pout) \<Rightarrow>
             let entry = unwrap_or no_tokens (md_token_costs_by_provider m p) in
             Some (entry\<lparr>ptc_input_tokens := ptc_input_tokens entry + pin,
                         ptc_output_tokens := ptc_output_tokens entry + pout\<rparr>))\<rparr>"

definition drain_into :: "('c, 'r) capturing \<Rightarrow> ('c, 'r) capturing" where
  "drain_into = (\<lambda>(cs, w).
     let (tokens, maps) = drain_tokens (cs_session_id cs) (w_maps w);
         (providers, maps) = drain_provider_tokens (cs_session_id cs) maps in
     (edit (\<lambda>m. add_provider_costs providers (add_totals tokens m)) cs, w\<lparr>w_maps := maps\<rparr>))"

definition COMMAND_FILES :: "(string \<times> string) list" where
  "COMMAND_FILES =
     [(''commands/raw_input.md'', ''text/markdown''), (''commands/converted_input.md'', ''text/markdown''),
      (''commands/actuation_commands.json'', ''application/json''),
      (''commands/cc_commands.json'', ''application/json'')]"

definition flush_command_files :: "(('c, 'r) capturing, unit) io" where
  "flush_command_files =
     fold_io (\<lambda>(rel, content_type) _. \<lambda>(cs, w).
       let abs_path = path_join (cs_memory_dir cs) rel in
       if \<not> fs_exists (w_disk w) abs_path then (Inr (), (cs, w))
       else on_world (ignore (bind_io (on_disk (fs_read abs_path)) (\<lambda>bytes.
         sb_put (cs_storage cs) (cs_session_id cs) (capture_cloud_path cs rel) bytes content_type))) (cs, w))
     COMMAND_FILES ()"

definition flush :: "metadata_codec \<Rightarrow> (('c, 'r) capturing, unit) io" where
  "flush mc =
     bind_io (changing drain_into) (\<lambda>_ (cs, w).
       if cs_is_cloud_primary cs then
         bind_io (context_io ''Failed to serialize metadata for flush'' (lift_result (metadata_to_json mc (cs_metadata cs)))) (\<lambda>bytes.
         bind_io (context_io ''StorageBackend::put failed for metadata.json''
           (on_world (sb_put (cs_storage cs) (cs_session_id cs) (capture_cloud_path cs ''metadata.json'')
              bytes ''application/json''))) (\<lambda>_.
         flush_command_files)) (cs, w)
       else
         context_io ''metadata::write failed''
           (on_world (on_disk (metadata_write mc (cs_memory_dir cs) (cs_metadata cs)))) (cs, w))"

definition flush_now :: "metadata_codec \<Rightarrow> (('c, 'r) capturing, unit) io" where
  "flush_now mc = bind_io (changing (\<lambda>(cs, w). (cs\<lparr>cs_steps_since_flush := 0\<rparr>, w))) (\<lambda>_. flush mc)"

definition flush_if_due :: "metadata_codec \<Rightarrow> (('c, 'r) capturing, unit) io" where
  "flush_if_due mc =
     bind_io (changing (\<lambda>(cs, w). (cs\<lparr>cs_steps_since_flush := cs_steps_since_flush cs + 1\<rparr>, w))) (\<lambda>_ (cs, w).
       if \<not> cs_is_cloud_primary cs \<or> cs_steps_since_flush cs \<ge> cs_flush_interval cs
       then flush mc (cs\<lparr>cs_steps_since_flush := 0\<rparr>, w)
       else (Inr (), (cs, w)))"

definition capture_put_file :: "string \<Rightarrow> string \<Rightarrow> string \<Rightarrow> (('c, 'r) capturing, unit) io" where
  "capture_put_file relative_path bytes content_type = (\<lambda>(cs, w).
     if cs_is_cloud_primary cs then
       context_io (''StorageBackend::put failed for '' @ relative_path)
         (on_world (sb_put (cs_storage cs) (cs_session_id cs) (capture_cloud_path cs relative_path) bytes content_type))
         (cs, w)
     else
       (let abs_path = path_join (cs_memory_dir cs) relative_path;
            tmp = with_extension abs_path ''tmp'' in
        on_world (on_disk
          (bind_io (case parent abs_path of Some up \<Rightarrow> fs_create_dir_all up | None \<Rightarrow> ok ()) (\<lambda>_.
           bind_io (fs_write tmp bytes) (\<lambda>_.
           fs_rename tmp abs_path)))) (cs, w)))"

end
