(* ===== verification/MA_Reasoning.thy ===== *)
theory MA_Reasoning
  imports MA_Metadata "HOL-Library.AList" "HOL-Library.Multiset"
begin

text \<open>
  The reasoning file (\<open>session/reasoning.rs\<close>): one JSON object per line, at most one per step after
  every write. A hash map is an association list; the code sorts what it takes out of it by the key.
  The \<open>f32\<close> confidence is kept as its bits, the code only passes it on.
\<close>

section \<open>Data\<close>

record reasoning_entry =
  re_step_id :: u32
  re_timestamp_action :: string
  re_timestamp_annotated :: string
  re_action_type :: string
  re_action_subtype :: string
  re_raw_command :: string
  re_converted_command :: string
  re_image_path :: "string option"
  re_reasoning :: string
  re_skipped :: bool
  re_source :: string
  re_provider :: "string option"
  re_model_id :: "string option"
  re_api_version :: "string option"
  re_input_tokens :: "u32 option"
  re_output_tokens :: "u32 option"
  re_latency_ms :: "u32 option"
  re_action_intent :: "string option"
  re_confidence :: "32 word option"
  re_keyboard_visual_annotation :: "json option"

record automated_reasoning =
  ar_reasoning :: string
  ar_source :: string
  ar_provider :: "string option"
  ar_model_id :: "string option"
  ar_api_version :: "string option"
  ar_input_tokens :: "u32 option"
  ar_output_tokens :: "u32 option"
  ar_latency_ms :: "u32 option"
  ar_action_intent :: "string option"
  ar_confidence :: "32 word option"
  ar_keyboard_visual_annotation :: "json option"

definition build_automated_entry :: "string \<Rightarrow> step_entry \<Rightarrow> automated_reasoning \<Rightarrow> reasoning_entry" where
  "build_automated_entry now step model =
     \<lparr>re_step_id = se_step_id step,
      re_timestamp_action = se_timestamp step,
      re_timestamp_annotated = now,
      re_action_type = se_action_type step,
      re_action_subtype = se_action_subtype step,
      re_raw_command = se_raw_command step,
      re_converted_command = se_converted_command step,
      re_image_path = se_image_path step,
      re_reasoning = ar_reasoning model,
      re_skipped = False,
      re_source = ar_source model,
      re_provider = ar_provider model,
      re_model_id = ar_model_id model,
      re_api_version = ar_api_version model,
      re_input_tokens = ar_input_tokens model,
      re_output_tokens = ar_output_tokens model,
      re_latency_ms = ar_latency_ms model,
      re_action_intent = ar_action_intent model,
      re_confidence = ar_confidence model,
      re_keyboard_visual_annotation = ar_keyboard_visual_annotation model\<rparr>"

record entry_codec =
  entry_to_json :: "reasoning_entry \<Rightarrow> string result"
  entry_from_json :: "string \<Rightarrow> reasoning_entry result"

section \<open>Reading and writing\<close>

text \<open>The well-formed lines in order; the others are logged and skipped.\<close>

definition parse_line :: "entry_codec \<Rightarrow> string \<Rightarrow> reasoning_entry option" where
  "parse_line ec line =
     (let line = trim line in
      if line = [] then None
      else (case entry_from_json ec line of Inr e \<Rightarrow> Some e | Inl _ \<Rightarrow> None))"

definition parse_entries :: "entry_codec \<Rightarrow> string \<Rightarrow> reasoning_entry list" where
  "parse_entries ec raw = List.map_filter (parse_line ec) (str_lines raw)"

definition reasoning_dir :: "string \<Rightarrow> string" where
  "reasoning_dir memory_dir = path_join memory_dir ''reasoning''"

definition reasoning_path :: "string \<Rightarrow> string" where
  "reasoning_path memory_dir = path_join (reasoning_dir memory_dir) ''reasoning.jsonl''"

definition reasoning_tmp :: "string \<Rightarrow> string" where
  "reasoning_tmp memory_dir = path_join (reasoning_dir memory_dir) ''reasoning.jsonl.tmp''"

definition render_entries :: "entry_codec \<Rightarrow> reasoning_entry list \<Rightarrow> string" where
  "render_entries ec es =
     unlines (filter (\<lambda>s. s \<noteq> []) (map (\<lambda>e. case entry_to_json ec e of Inr s \<Rightarrow> s | Inl _ \<Rightarrow> []) es))"

definition load_entries :: "entry_codec \<Rightarrow> string \<Rightarrow> (disk, (u32 \<times> reasoning_entry) list) io" where
  "load_entries ec path d =
     (if fs_exists d path
      then bind_io (context_io (''Failed to read reasoning.jsonl: '' @ path) (fs_read_to_string path))
        (\<lambda>raw. ok (fold (\<lambda>e m. AList.update (re_step_id e) e m) (parse_entries ec raw) [])) d
      else (Inr [], d))"

definition upsert_entry :: "entry_codec \<Rightarrow> string \<Rightarrow> reasoning_entry \<Rightarrow> (disk, unit) io" where
  "upsert_entry ec memory_dir entry =
     bind_io (context_io (''Failed to create reasoning dir: '' @ reasoning_dir memory_dir)
       (fs_create_dir_all (reasoning_dir memory_dir))) (\<lambda>_.
     let path = reasoning_path memory_dir; tmp = reasoning_tmp memory_dir in
     bind_io (load_entries ec path) (\<lambda>entries.
     let entries = AList.update (re_step_id entry) entry entries;
         content = render_entries ec (sort_key re_step_id (map snd entries)) in
     bind_io (context_io (''Failed to write reasoning.jsonl.tmp: '' @ tmp) (fs_write tmp content)) (\<lambda>_.
     context_io (''Failed to rename reasoning.jsonl.tmp: '' @ tmp) (fs_rename tmp path))))"

definition read_all :: "entry_codec \<Rightarrow> string \<Rightarrow> (disk, reasoning_entry list) io" where
  "read_all ec memory_dir d =
     (let path = reasoning_path memory_dir in
      if \<not> fs_exists d path then (Inr [], d)
      else bind_io (context_io (''Failed to read reasoning.jsonl: '' @ path) (fs_read_to_string path))
        (\<lambda>raw. ok (sort_key re_step_id (parse_entries ec raw))) d)"

section \<open>Facts\<close>

text \<open>What serde_json documents of an entry printed as a compact object.\<close>

definition printable :: "entry_codec \<Rightarrow> reasoning_entry \<Rightarrow> bool" where
  "printable ec e \<longleftrightarrow> (\<exists>l. entry_to_json ec e = Inr l \<and> plain_line l \<and> entry_from_json ec l = Inr e)"

definition entries_at :: "entry_codec \<Rightarrow> string \<Rightarrow> disk \<Rightarrow> reasoning_entry list" where
  "entries_at ec memory_dir d =
     (case node_at d (reasoning_path memory_dir) of Some (File raw) \<Rightarrow> parse_entries ec raw | _ \<Rightarrow> [])"

text \<open>The entry of a step: the last one when a file written by other means has several.\<close>

definition entry_of :: "reasoning_entry list \<Rightarrow> u32 \<rightharpoonup> reasoning_entry" where
  "entry_of es = map_of (rev (map (\<lambda>e. (re_step_id e, e)) es))"

lemma entry_of_append: "entry_of (es @ [e]) = (entry_of es)(re_step_id e \<mapsto> e)"
  by (simp add: entry_of_def)

definition keyed :: "(u32 \<times> reasoning_entry) list \<Rightarrow> bool" where
  "keyed m \<longleftrightarrow> distinct (map fst m) \<and> (\<forall>(k, e) \<in> set m. re_step_id e = k)"

lemma keyed_update: "keyed m \<Longrightarrow> keyed (AList.update (re_step_id e) e m)"
  unfolding keyed_def
proof (intro conjI, goal_cases)
  case 1
  then show ?case by (simp add: AList.distinct_update)
next
  case 2
  have "set (AList.update (re_step_id e) e m) \<subseteq> insert (re_step_id e, e) (set m)"
    by (induction m) auto
  with 2 show ?case by blast
qed

lemma keyed_fold: "keyed m \<Longrightarrow> keyed (fold (\<lambda>e m. AList.update (re_step_id e) e m) es m)"
  by (induction es arbitrary: m) (auto simp: keyed_update)

lemma fold_update_entry_of:
  "map_of (fold (\<lambda>e m. AList.update (re_step_id e) e m) es m) = map_of m ++ entry_of es"
  by (induction es arbitrary: m) (auto simp: entry_of_def AList.update_conv' map_add_def fun_eq_iff split: option.splits)

lemma entry_of_distinct:
  "distinct (map re_step_id es) \<Longrightarrow> entry_of es k = Some e \<longleftrightarrow> e \<in> set es \<and> re_step_id e = k"
proof -
  assume "distinct (map re_step_id es)"
  then have "distinct (map fst (rev (map (\<lambda>e. (re_step_id e, e)) es)))" by (simp add: rev_map [symmetric] comp_def)
  from map_of_eq_Some_iff [OF this] show ?thesis unfolding entry_of_def by auto
qed

lemma entry_of_eqI:
  assumes "distinct (map re_step_id es)" "distinct (map re_step_id es')" "set es = set es'"
  shows "entry_of es = entry_of es'"
proof
  fix k
  have "entry_of es k = Some e \<longleftrightarrow> entry_of es' k = Some e" for e
    using entry_of_distinct [OF assms(1)] entry_of_distinct [OF assms(2)] assms(3) by simp
  then show "entry_of es k = entry_of es' k" by (metis option.exhaust)
qed

lemma keyed_ids: "keyed m \<Longrightarrow> map re_step_id (map snd m) = map fst m"
  by (auto simp: keyed_def)

lemma keyed_lookup: "keyed m \<Longrightarrow> entry_of (map snd m) = map_of m"
proof
  fix k
  assume m: "keyed m"
  have "entry_of (map snd m) k = Some e \<longleftrightarrow> map_of m k = Some e" for e
  proof -
    have "entry_of (map snd m) k = Some e \<longleftrightarrow> e \<in> set (map snd m) \<and> re_step_id e = k"
      by (rule entry_of_distinct, unfold keyed_ids [OF m]) (use m in \<open>simp add: keyed_def\<close>)
    moreover have "map_of m k = Some e \<longleftrightarrow> (k, e) \<in> set m" using m by (simp add: keyed_def)
    ultimately show ?thesis using m by (force simp: keyed_def)
  qed
  then show "entry_of (map snd m) k = map_of m k" by (metis option.exhaust)
qed

lemma distinct_sort_ids: "distinct (map re_step_id (sort_key re_step_id es)) = distinct (map re_step_id es)"
proof -
  have "mset (map re_step_id (sort_key re_step_id es)) = mset (map re_step_id es)" by simp
  then show ?thesis by (rule mset_eq_imp_distinct_iff)
qed

lemma entry_of_sort:
  "distinct (map re_step_id es) \<Longrightarrow> entry_of (sort_key re_step_id es) = entry_of es"
  by (rule entry_of_eqI) (simp_all add: distinct_sort_ids)

text \<open>What is written is read back.\<close>

lemma parse_render:
  assumes "\<forall>e \<in> set es. printable ec e"
  shows "parse_entries ec (render_entries ec es) = es" and "utf8 (render_entries ec es)"
proof -
  let ?f = "\<lambda>e. case entry_to_json ec e of Inr s \<Rightarrow> s | Inl _ \<Rightarrow> []"
  have f: "plain_line (?f e) \<and> entry_from_json ec (?f e) = Inr e" if "e \<in> set es" for e
    using assms that by (auto simp: printable_def)
  then have nonempty: "filter (\<lambda>s. s \<noteq> []) (map ?f es) = map ?f es" by (fastforce simp: filter_id_conv plain_line_def)
  have "\<forall>l \<in> set (map ?f es). newline \<notin> set l \<and> carriage \<notin> set l" using f by (auto simp: plain_line_def)
  then have "str_lines (unlines (map ?f es)) = map ?f es" by (rule lines_unlines)
  moreover have "map (\<lambda>e. parse_line ec (?f e)) es = map Some es"
    using f by (auto simp: parse_line_def Let_def trim_plain plain_line_def)
  then have "List.map_filter (parse_line ec) (map ?f es) = es"
    by (induction es) (simp_all add: List.map_filter_def)
  ultimately show "parse_entries ec (render_entries ec es) = es"
    by (simp add: render_entries_def parse_entries_def nonempty)
  have "\<forall>l \<in> set (map ?f es). utf8 l" using f by (auto simp: plain_line_def)
  then show "utf8 (render_entries ec es)" unfolding render_entries_def nonempty by (rule utf8_unlines)
qed

text \<open>Creating directories changes no path that is not above the new one.\<close>

lemma make_dirs_frame:
  "make_dirs css d = (r, d') \<Longrightarrow> comps q \<notin> set css \<Longrightarrow> node_at d' q = node_at d q"
proof (induction css d rule: make_dirs.induct)
  case (2 cs rest d)
  then show ?case by (auto split: option.splits node.splits if_splits simp: node_at_put) (auto simp: node_at_def)
qed auto

lemma create_dir_frame:
  assumes "fs_create_dir_all p d = (r, d')" and "\<not> prefix (comps q) (comps p)"
  shows "node_at d' q = node_at d q"
proof -
  have "set (tl (prefixes (comps p))) \<subseteq> set (prefixes (comps p))" by (cases "prefixes (comps p)") auto
  then have "comps q \<notin> set (tl (prefixes (comps p)))" using assms(2) by auto
  note absent = this
  show ?thesis
    using assms(1) [unfolded fs_create_dir_all_def]
  proof (cases rule: guarded_cases)
    case (1 d1)
    show ?thesis using make_dirs_frame [OF 1(2) absent] node_at_same [OF 1(1)] by simp
  next
    case (2 e k d1)
    then show ?thesis using node_at_same [OF 2(1)] by simp
  qed
qed

lemma reasoning_comps:
  "comps (reasoning_path dir) = comps (reasoning_dir dir) @ [''reasoning.jsonl'']"
  "comps (reasoning_tmp dir) = comps (reasoning_dir dir) @ [''reasoning.jsonl.tmp'']"
proof -
  have "reasoning_dir dir \<noteq> []" by (auto simp: reasoning_dir_def path_join_def)
  then show "comps (reasoning_path dir) = comps (reasoning_dir dir) @ [''reasoning.jsonl'']"
    "comps (reasoning_tmp dir) = comps (reasoning_dir dir) @ [''reasoning.jsonl.tmp'']"
    by (simp_all add: reasoning_path_def reasoning_tmp_def comps_join comps_name)
qed

lemma values_update: "snd ` set (AList.update k e m) \<subseteq> insert e (snd ` set m)"
  by (induction m) auto

lemma load_entries_result:
  assumes "load_entries ec (reasoning_path dir) d = (q, d')"
  shows "tree d' = tree d"
    and "q = Inr m \<Longrightarrow> keyed m \<and> map_of m = entry_of (entries_at ec dir d)
      \<and> snd ` set m \<subseteq> set (entries_at ec dir d)"
proof -
  have sub: "snd ` set (fold (\<lambda>e m. AList.update (re_step_id e) e m) es m) \<subseteq> snd ` set m \<union> set es"
    for es and m :: "(u32 \<times> reasoning_entry) list"
  proof (induction es arbitrary: m)
    case (Cons e es)
    have "snd ` set (AList.update (re_step_id e) e m) \<union> set es \<subseteq> insert e (snd ` set m) \<union> set es"
      by (rule Un_mono [OF values_update subset_refl])
    from order_trans [OF Cons this] show ?case by (simp add: ac_simps)
  qed simp
  have "tree d' = tree d \<and> (\<forall>m. q = Inr m \<longrightarrow> keyed m \<and> map_of m = entry_of (entries_at ec dir d)
      \<and> snd ` set m \<subseteq> set (entries_at ec dir d))"
  proof (cases "fs_exists d (reasoning_path dir)")
    case False
    with assms show ?thesis
      by (auto simp: load_entries_def fs_exists_def keyed_def entries_at_def entry_of_def)
  next
    case True
    obtain x d1 where x: "fs_read_to_string (reasoning_path dir) d = (x, d1)" by fastforce
    note R = fs_read_result [OF x]
    show ?thesis
    proof (cases x)
      case (Inl e)
      with assms True x R(1) show ?thesis by (auto simp: load_entries_def bind_context_Inl)
    next
      case (Inr raw)
      then have es: "entries_at ec dir d = parse_entries ec raw" using R(2) by (simp add: entries_at_def)
      have "q = Inr (fold (\<lambda>e m. AList.update (re_step_id e) e m) (parse_entries ec raw) [])" "d' = d1"
        using assms True x Inr by (auto simp: load_entries_def bind_context_Inr)
      with R(1) es sub [of "parse_entries ec raw" "[]"] show ?thesis
        by (auto simp: fold_update_entry_of intro!: keyed_fold simp: keyed_def [of "[]"])
    qed
  qed
  then show "tree d' = tree d"
    and "q = Inr m \<Longrightarrow> keyed m \<and> map_of m = entry_of (entries_at ec dir d)
      \<and> snd ` set m \<subseteq> set (entries_at ec dir d)" by auto
qed

lemma entries_at_same: "tree d = tree d' \<Longrightarrow> entries_at ec dir d = entries_at ec dir d'"
  using node_at_same [of d d' "reasoning_path dir"] by (simp add: entries_at_def)

lemma upsert_entry_step:
  assumes "\<forall>e \<in> set (entries_at ec dir d) \<union> {entry}. printable ec e" and "upsert_entry ec dir entry d = (r, d')"
  shows "(case r of
      Inr _ \<Rightarrow> sorted (map re_step_id (entries_at ec dir d')) \<and> distinct (map re_step_id (entries_at ec dir d'))
        \<and> entry_of (entries_at ec dir d') = (entry_of (entries_at ec dir d))(re_step_id entry \<mapsto> entry)
        \<and> set (entries_at ec dir d') \<subseteq> insert entry (set (entries_at ec dir d))
    | Inl _ \<Rightarrow> node_at d' (reasoning_path dir) = node_at d (reasoning_path dir))"
proof -
  let ?path = "reasoning_path dir" and ?tmp = "reasoning_tmp dir"
  obtain r1 d1 where mk: "fs_create_dir_all (reasoning_dir dir) d = (r1, d1)" by fastforce
  have same1: "node_at d1 ?path = node_at d ?path"
    by (rule create_dir_frame [OF mk]) (simp add: reasoning_comps)
  show ?thesis
  proof (cases r1)
    case (Inl e)
    with assms(2) mk same1 show ?thesis by (auto simp: upsert_entry_def bind_context_Inl)
  next
    case (Inr u)
    obtain q d2 where ld: "load_entries ec ?path d1 = (q, d2)" by fastforce
    note L = load_entries_result [OF ld]
    have es1: "entries_at ec dir d1 = entries_at ec dir d" using same1 by (simp add: entries_at_def)
    have same2: "node_at d2 ?path = node_at d ?path" using node_at_same [OF L(1)] same1 by simp
    show ?thesis
    proof (cases q)
      case (Inl e)
      with assms(2) mk \<open>r1 = Inr u\<close> ld same2 show ?thesis
        by (auto simp: upsert_entry_def bind_context_Inr Let_def bind_io_apply_Inl)
    next
      case (Inr m)
      let ?m = "AList.update (re_step_id entry) entry m"
      let ?es = "sort_key re_step_id (map snd ?m)"
      have m: "keyed m" "map_of m = entry_of (entries_at ec dir d)" "snd ` set m \<subseteq> set (entries_at ec dir d)"
        using L(2) [OF Inr] es1 by auto
      have sub: "set ?es \<subseteq> insert entry (set (entries_at ec dir d))"
        using order_trans [OF values_update insert_mono [OF m(3)]] by simp
      have keyed: "keyed ?m" by (rule keyed_update [OF m(1)])
      then have dist: "distinct (map re_step_id (map snd ?m))" unfolding keyed_ids [OF keyed] by (simp add: keyed_def)
      have print: "\<forall>e \<in> set ?es. printable ec e" using assms(1) sub by blast
      have "bind_io (context_io (''Failed to write reasoning.jsonl.tmp: '' @ ?tmp) (fs_write ?tmp (render_entries ec ?es)))
          (\<lambda>_. context_io (''Failed to rename reasoning.jsonl.tmp: '' @ ?tmp) (fs_rename ?tmp ?path)) d2 = (r, d')"
        using assms(2) mk \<open>r1 = Inr u\<close> ld Inr
        by (simp add: upsert_entry_def bind_context_Inr Let_def bind_io_apply_Inr del: map_map)
      from write_rename_atomic(1) [OF this] reasoning_comps
      have at: "node_at d' ?path = (case r of Inr _ \<Rightarrow> Some (File (render_entries ec ?es)) | Inl _ \<Rightarrow> node_at d2 ?path)"
        by simp
      show ?thesis
      proof (cases r)
        case (Inl e)
        with at same2 show ?thesis by simp
      next
        case (Inr v)
        with at have after: "entries_at ec dir d' = ?es" by (simp add: entries_at_def parse_render(1) [OF print])
        have "entry_of ?es = entry_of (map snd ?m)" by (rule entry_of_sort [OF dist])
        also have "\<dots> = map_of ?m" by (rule keyed_lookup [OF keyed])
        also have "\<dots> = (entry_of (entries_at ec dir d))(re_step_id entry \<mapsto> entry)"
          by (simp add: AList.update_conv' m(2))
        finally have "entry_of ?es = (entry_of (entries_at ec dir d))(re_step_id entry \<mapsto> entry)" .
        moreover have "distinct (map re_step_id ?es)" using dist by (simp only: distinct_sort_ids)
        moreover have "sorted (map re_step_id ?es)" by (rule sorted_sort_key)
        ultimately show ?thesis using Inr sub unfolding after by (simp del: map_map)
      qed
    qed
  qed
qed

text \<open>
  C22. \<open>upsert_entry\<close> inserts or replaces exactly one entry. When it succeeds, every step has the
  entry it had and the given step has the given one, and the file has one line per step in the
  order of the steps; when it fails, wherever that is, the file is what it was.
\<close>

theorem upsert_entry_exact:
  assumes "\<forall>e \<in> set (entries_at ec dir d) \<union> {entry}. printable ec e" and "upsert_entry ec dir entry d = (r, d')"
  shows "case r of
      Inr _ \<Rightarrow> sorted (map re_step_id (entries_at ec dir d')) \<and> distinct (map re_step_id (entries_at ec dir d'))
        \<and> entry_of (entries_at ec dir d') = (entry_of (entries_at ec dir d))(re_step_id entry \<mapsto> entry)
    | Inl _ \<Rightarrow> node_at d' (reasoning_path dir) = node_at d (reasoning_path dir)"
  using upsert_entry_step [OF assms] by (auto split: sum.splits)

definition one_line_codec :: "reasoning_entry \<Rightarrow> entry_codec" where
  "one_line_codec x =
     \<lparr>entry_to_json = \<lambda>e. if e = x then Inr ''a'' else Inl ''unprintable'',
      entry_from_json = \<lambda>s. if s = ''a'' then Inr x else Inl ''EOF''\<rparr>"

definition empty_disk :: disk where
  "empty_disk = \<lparr>tree = [([''m''], Dir)], faults = []\<rparr>"

theorem upsert_entry_exact_witness:
  "\<forall>x. let ec = one_line_codec x; d' = snd (upsert_entry ec ''m'' x empty_disk) in
     entry_of (entries_at ec ''m'' d') (re_step_id x) = Some x"
proof
  fix x :: reasoning_entry
  let ?ec = "one_line_codec x"
  have paths: "reasoning_dir ''m'' = ''m/reasoning''" "reasoning_path ''m'' = ''m/reasoning/reasoning.jsonl''"
    "reasoning_tmp ''m'' = ''m/reasoning/reasoning.jsonl.tmp''"
    by (simp_all add: reasoning_dir_def reasoning_path_def reasoning_tmp_def path_join_def suffix_def)
  have names: "comps ''m/reasoning'' = [''m'', ''reasoning'']"
    "comps ''m/reasoning/reasoning.jsonl'' = [''m'', ''reasoning'', ''reasoning.jsonl'']"
    "comps ''m/reasoning/reasoning.jsonl.tmp'' = [''m'', ''reasoning'', ''reasoning.jsonl.tmp'']"
    by (simp_all add: comps_def)
  have "fst (upsert_entry ?ec ''m'' x empty_disk) = Inr ()"
    by (simp add: upsert_entry_def load_entries_def Let_def bind_io_def context_io_def paths names
        fs_write_def fs_rename_def fs_create_dir_all_def guarded_def next_fault_def empty_disk_def node_at_def
        fs_exists_def put_file_def do_rename_def parent_ok_def tree_put_def)
  then have run: "upsert_entry ?ec ''m'' x empty_disk = (Inr (), snd (upsert_entry ?ec ''m'' x empty_disk))"
    by (simp add: prod_eq_iff)
  have "\<forall>e \<in> set (entries_at ?ec ''m'' empty_disk) \<union> {x}. printable ?ec e"
    by (simp add: entries_at_def paths names node_at_def empty_disk_def printable_def one_line_codec_def
        plain_line_def is_visible_def is_ascii_def is_ascii_ws_def)
  from upsert_entry_exact [OF this run] show "let ec = ?ec; d' = snd (upsert_entry ec ''m'' x empty_disk) in
     entry_of (entries_at ec ''m'' d') (re_step_id x) = Some x"
    by (simp add: Let_def)
qed

end
