(* ===== verification/MA_Watch_Loop.thy ===== *)
theory MA_Watch_Loop
  imports MA_Disconnect MA_Capture_State MA_Writer MA_Vision MA_Reasoning
begin

text \<open>
  The watch loop of a session (\<open>run_watch_loop\<close> of \<open>capture/mod.rs\<close>). The \<open>select!\<close> of the loop is a
  sequence of inputs, one per turn: an event with what The Eyes answer about it, the end of the
  stream, the done signal, the liveness alarm, or the work of other tasks on the shared state. An
  error of a computation is a panic of the task. Metrics, log lines and the liveness poller, which
  only raises the alarm, are not modelled; connecting is \<open>MA_Stream\<close>, of which only the answer matters.
\<close>

section \<open>Data\<close>

record event_with_position =
  ep_event :: command_event
  ep_kafka_partition :: "32 word option"
  ep_kafka_offset :: "64 word option"

record 'r capture_env =
  ce_redis :: "'r redis"
  ce_clock :: clock_format
  ce_upper :: "string \<Rightarrow> string"
  ce_metadata :: metadata_codec
  ce_entries :: entry_codec
  ce_writer :: writer_codec
  ce_json :: json_codec
  ce_vision :: vision_env

record ('c, 'r) watch_loop_args =
  wa_session_id :: string
  wa_config :: config
  wa_storage :: "('c, 'r) world storage_backend"

record ('c, 'r) watching =
  wt_session_id :: string
  wt_record :: session_record
  wt_config :: config
  wt_memory_dir :: string
  wt_is_cloud_primary :: bool
  wt_is_automated :: bool
  wt_storage :: "('c, 'r) world storage_backend"
  wt_state :: "('c, 'r) capture_state"
  wt_writer :: "('c, 'r) command_writer"
  wt_vision :: "('c, 'r) vision_pipeline option"
  wt_last_click :: "(int \<times> int) option"

type_synonym ('c, 'r) watch = "('c, 'r) watching \<times> ('c, 'r) world"

definition in_world :: "(('c, 'r) world, 'a) io \<Rightarrow> (('c, 'r) watch, 'a) io" where
  "in_world = zoom snd (\<lambda>w (wt, _). (wt, w))"

definition in_state :: "(('c, 'r) capturing, 'a) io \<Rightarrow> (('c, 'r) watch, 'a) io" where
  "in_state = zoom (\<lambda>(wt, w). (wt_state wt, w)) (\<lambda>(cs, w) (wt, _). (wt\<lparr>wt_state := cs\<rparr>, w))"

definition in_writer :: "(('c, 'r) writing, 'a) io \<Rightarrow> (('c, 'r) watch, 'a) io" where
  "in_writer = zoom (\<lambda>(wt, w). (wt_writer wt, w)) (\<lambda>(cw, w) (wt, _). (wt\<lparr>wt_writer := cw\<rparr>, w))"

definition on_state :: "(('c, 'r) capture_state \<Rightarrow> ('c, 'r) capture_state) \<Rightarrow> (('c, 'r) watch, unit) io" where
  "on_state f = changing (\<lambda>(wt, w). (wt\<lparr>wt_state := f (wt_state wt)\<rparr>, w))"

interpretation watch_state_lens: lens "\<lambda>(wt, w). (wt_state wt, w)" "\<lambda>(cs, w) (wt, _). (wt\<lparr>wt_state := cs\<rparr>, w)"
  by unfold_locales auto
interpretation watch_writer_lens: lens "\<lambda>(wt, w). (wt_writer wt, w)" "\<lambda>(cw, w) (wt, _). (wt\<lparr>wt_writer := cw\<rparr>, w)"
  by unfold_locales auto

section \<open>Starting\<close>

text \<open>How a start that gave up answered the caller: with a reason, or not at all.\<close>

datatype 'a start = GaveUp "string option" | Up 'a

definition initial_metadata ::
  "'r capture_env \<Rightarrow> ('c, 'r) watch_loop_args \<Rightarrow> session_record \<Rightarrow> bool \<Rightarrow> (('c, 'r) world, session_metadata) io" where
  "initial_metadata E A record is_cloud_primary =
     (if is_cloud_primary
      then bind_io (sb_get (wa_storage A) (wa_session_id A) (rec_memory_name record @ ''/metadata.json''))
             (\<lambda>bytes. lift_result (metadata_from_bytes (ce_metadata E) bytes))
      else on_disk (metadata_read (ce_metadata E) (rec_memory_path record)))"

definition endpoint_of :: "config \<Rightarrow> string \<Rightarrow> cc_endpoint" where
  "endpoint_of cfg cc_addr =
     \<lparr>addr = cc_addr, tls_ca = cfg_control_center_tls_ca cfg, token = cfg_control_center_token cfg,
      security = cfg_control_center_security cfg, max_version = cfg_control_center_max_version cfg,
      allow_unsupported = cfg_control_center_allow_unsupported cfg\<rparr>"

definition no_addr_msg :: string where
  "no_addr_msg = ''control_center_addr not set '' @ em_dash
     @ '' run: memory-archive config --control-center-addr https://<host>:<port>''"

text \<open>The event source: the Kafka channel, or a stream whose transport and server version are recorded.\<close>

definition open_source ::
  "('c, 'r) watch_loop_args \<Rightarrow> (cc_endpoint \<Rightarrow> watch_stream result) \<Rightarrow> string \<Rightarrow> bool
   \<Rightarrow> (('c, 'r) capturing, unit) io" where
  "open_source A connected effective_cc_addr is_cloud_primary =
     (let cfg = wa_config A in
      if cfg_kafka_broker cfg \<noteq> [] \<and> is_cloud_primary
      then changing (\<lambda>(cs, w). (cs, w\<lparr>w_kafka_sessions := insert (wa_session_id A) (w_kafka_sessions w)\<rparr>))
      else if effective_cc_addr = [] then fail no_addr_msg
      else
        (case connected (endpoint_of cfg effective_cc_addr) of
           Inl e \<Rightarrow> fail e
         | Inr s \<Rightarrow> changing (\<lambda>(cs, w).
             (cs_set_actuation_server_version (server_version s) (cs_set_actuation_transport (transport_as_str (transport s)) cs), w))))"

text \<open>Up to the point where events can flow and the caller is told so.\<close>

definition start_watch ::
  "'r capture_env \<Rightarrow> ('c, 'r) watch_loop_args \<Rightarrow> (cc_endpoint \<Rightarrow> watch_stream result) \<Rightarrow> bool
   \<Rightarrow> ('c, 'r) world \<Rightarrow> ('c, 'r) watching start \<times> ('c, 'r) world" where
  "start_watch E A connected client_ok w =
     (let sid = wa_session_id A; cfg = wa_config A in
      case on_redis (registry_get (ce_redis E) (ce_clock E) sid) w of
        (Inl e, w) \<Rightarrow> (GaveUp (Some (''failed to load session: '' @ e)), w)
      | (Inr record, w) \<Rightarrow>
          (let memory_dir = rec_memory_path record;
               cloud = (cfg_storage_mode cfg = ''cloud_primary'');
               eyes_addr = (if rec_the_eyes_addr record \<noteq> [] then rec_the_eyes_addr record else cfg_the_eyes_addr cfg);
               cc_addr = (if rec_capture_server_addr record \<noteq> [] then rec_capture_server_addr record
                          else cfg_control_center_addr cfg);
               automated = (rec_mode record = Automated) in
           case initial_metadata E A record cloud w of
             (Inl e, w) \<Rightarrow> (GaveUp None, w)
           | (Inr metadata, w) \<Rightarrow>
               (case open_source A connected cc_addr cloud
                       (capture_new metadata sid memory_dir (wa_storage A) (cfg_metadata_flush_interval cfg) cloud, w) of
                  (Inl e, (cs, w)) \<Rightarrow> (GaveUp (Some e), w)
                | (Inr _, (cs, w)) \<Rightarrow>
                    (Up \<lparr>wt_session_id = sid, wt_record = record, wt_config = cfg, wt_memory_dir = memory_dir,
                         wt_is_cloud_primary = cloud, wt_is_automated = automated, wt_storage = wa_storage A,
                         wt_state = cs, wt_writer = writer_new memory_dir cloud sid (wa_storage A),
                         wt_vision = vision_new client_ok eyes_addr memory_dir cfg sid (wa_storage A) automated,
                         wt_last_click = None\<rparr>,
                     w))))"

definition begin_capture :: "'r capture_env \<Rightarrow> (('c, 'r) watch, unit) io" where
  "begin_capture E = (\<lambda>(wt, w).
     bind_io (in_world (changing (\<lambda>w. w\<lparr>w_done_handles := insert (wt_session_id wt) (w_done_handles w)\<rparr>))) (\<lambda>_.
     bind_io (on_state (cs_set_in_progress ''capturing'')) (\<lambda>_.
     bind_io (ignore (in_state (flush (ce_metadata E)))) (\<lambda>_.
     if wt_is_automated wt then ignore (in_world (try_send (SessionStarted (wt_session_id wt)))) else ok ()))) (wt, w))"

section \<open>One event\<close>

definition emit_file_written :: "string \<Rightarrow> (('c, 'r) watch, unit) io" where
  "emit_file_written rel = (\<lambda>(wt, w).
     if wt_is_cloud_primary wt then (Inr (), (wt, w))
     else ignore (in_world (try_send (FileWritten (wt_session_id wt) rel (path_join (wt_memory_dir wt) rel)))) (wt, w))"

definition step_entry_of :: "u32 \<Rightarrow> command_event \<Rightarrow> string \<Rightarrow> step_entry" where
  "step_entry_of step event converted =
     \<lparr>se_step_id = step, se_timestamp = timestamp event, se_action_type = action_type event,
      se_action_subtype = action_subtype event, se_image_path = None, se_image_fetched = False, se_marked = False,
      se_before_image_path = None, se_after_image_path = None, se_raw_command = raw_command event,
      se_converted_command = converted, se_record_suspect = inspect event\<rparr>"

definition step_ready_msg :: "('c, 'r) watching \<Rightarrow> u32 \<Rightarrow> command_event \<Rightarrow> string \<Rightarrow> step_image_result \<Rightarrow> outbound" where
  "step_ready_msg wt step event converted r =
     StepReadyForReasoning \<lparr>sr_session_id = wt_session_id wt, sr_step_id = step, sr_action_type = action_type event,
       sr_action_subtype = action_subtype event, sr_converted_command = converted,
       sr_at_frame_bytes = ir_at_frame_bytes r, sr_before_frame_bytes = ir_before_frame_bytes r,
       sr_after_frame_bytes = ir_after_frame_bytes r,
       sr_context_steps = recent_steps_context (rec_context_window_steps (wt_record wt)) (wt_state wt)\<rparr>"

definition emit_optional :: "string option \<Rightarrow> (('c, 'r) watch, unit) io" where
  "emit_optional p = (case p of Some p \<Rightarrow> emit_file_written p | None \<Rightarrow> ok ())"

definition vision_step ::
  "'r capture_env \<Rightarrow> eyes \<Rightarrow> command_event \<Rightarrow> u32 \<Rightarrow> string \<Rightarrow> (('c, 'r) watch, unit) io" where
  "vision_step E eyes event step converted = (\<lambda>(wt, w).
     (case wt_vision wt of
        None \<Rightarrow> ok ()
      | Some vp \<Rightarrow>
          bind_io (in_world (process (ce_vision E) vp eyes event step)) (\<lambda>processed.
          case processed of
            Some r \<Rightarrow>
              bind_io (\<lambda>(wt, w).
                if wt_is_automated wt \<and> \<not> is_degraded (wt_session_id wt) (w_maps w)
                then ignore (in_world (try_send (step_ready_msg wt step event converted r))) (wt, w)
                else (Inr (), (wt, w))) (\<lambda>_.
              bind_io (on_state (cs_update_step_image step (ir_image_path r) (ir_marked r)
                (ir_before_image_path r) (ir_after_image_path r))) (\<lambda>_.
              bind_io (emit_file_written (ir_image_path r)) (\<lambda>_.
              bind_io (emit_optional (ir_before_image_path r)) (\<lambda>_.
              emit_optional (ir_after_image_path r)))))
          | None \<Rightarrow>
              on_state (cs_append_skipped_fetch step
                (if \<not> success event then ''command failed''
                 else case decide event (cfg_press_fetch_delay_ms (wt_config wt)) (cfg_type_fetch_delay_ms (wt_config wt)) of
                   Skip _ \<Rightarrow> ''action type does not trigger fetch''
                 | _ \<Rightarrow> ''fetch failed'')))) (wt, w))"

definition flush_step :: "'r capture_env \<Rightarrow> (('c, 'r) watch, unit) io" where
  "flush_step E =
     bind_io (attempt (in_state (flush_if_due (ce_metadata E)))) (\<lambda>r.
     case r of
       Inl e \<Rightarrow> ok ()
     | Inr _ \<Rightarrow>
         bind_io (emit_file_written ''metadata.json'') (\<lambda>_ (wt, w).
         if wt_is_cloud_primary wt then ignore (in_writer flush_to_cloud) (wt, w) else (Inr (), (wt, w))))"

definition record_step :: "'r capture_env \<Rightarrow> eyes \<Rightarrow> command_event \<Rightarrow> string \<Rightarrow> u32 \<Rightarrow> (('c, 'r) watch, unit) io" where
  "record_step E eyes event converted step =
     bind_io (fold_io (\<lambda>rel _. emit_file_written rel) (map fst COMMAND_FILES) ()) (\<lambda>_.
     bind_io (on_state (cs_append_step (step_entry_of step event converted))) (\<lambda>_.
     bind_io (changing (\<lambda>(wt, w). (if action_type event = ''mouse'' \<and> success event
        then wt\<lparr>wt_last_click := Some (mouse_x event, mouse_y event)\<rparr> else wt, w))) (\<lambda>_.
     bind_io (vision_step E eyes event step converted) (\<lambda>_.
     flush_step E))))"

definition handle_event :: "'r capture_env \<Rightarrow> event_with_position \<Rightarrow> eyes \<Rightarrow> (('c, 'r) watch, unit) io" where
  "handle_event E ep eyes =
     (let event = ep_event ep in
      bind_io (on_state (record_agent_version (agent_version event))) (\<lambda>_.
      if action_type event = ''position'' then ok ()
      else
        bind_io (case (ep_kafka_partition ep, ep_kafka_offset ep) of
                   (Some part, Some offset) \<Rightarrow> on_state (cs_update_kafka_position part offset)
                 | _ \<Rightarrow> ok ()) (\<lambda>_.
        case to_human_readable (ce_upper E) event of
          None \<Rightarrow> fail ''panic''
        | Some converted \<Rightarrow>
            bind_io (attempt (in_writer (write_event (ce_writer E) event converted))) (\<lambda>written.
            case written of
              Inl e \<Rightarrow> ok ()
            | Inr step \<Rightarrow> record_step E eyes event converted step))))"

section \<open>The loop\<close>

datatype ('c, 'r) input =
    Event event_with_position eyes
  | StreamEnd "disconnect_reason option"
  | DoneSignal
  | EyesDown
  | OtherTasks "('c, 'r) world \<Rightarrow> ('c, 'r) world"

datatype ending = Clean | Broken "disconnect_reason option"

text \<open>The value is how the loop ended, or none when it is still waiting for its next input.\<close>

fun run_inputs :: "'r capture_env \<Rightarrow> ('c, 'r) input list \<Rightarrow> (('c, 'r) watch, ending option) io" where
  "run_inputs E [] = ok None"
| "run_inputs E (Event ep eyes # is) = bind_io (handle_event E ep eyes) (\<lambda>_. run_inputs E is)"
| "run_inputs E (StreamEnd r # is) = ok (Some (Broken r))"
| "run_inputs E (DoneSignal # is) = ok (Some Clean)"
| "run_inputs E (EyesDown # is) = ok (Some (Broken None))"
| "run_inputs E (OtherTasks f # is) = bind_io (in_world (changing f)) (\<lambda>_. run_inputs E is)"

section \<open>The end\<close>

text \<open>The ids a JSON Lines text already has; any JSON line with a numeric \<open>step_id\<close> counts.\<close>

definition existing_ids :: "json_codec \<Rightarrow> string \<Rightarrow> u32 set" where
  "existing_ids jc raw =
     set (List.map_filter (\<lambda>l. case json_parse jc l of
        Inl e \<Rightarrow> None
      | Inr v \<Rightarrow> map_option of_nat (Option.bind (json_get ''step_id'' v) as_u64)) (str_lines raw))"

definition degraded_entry :: "string \<Rightarrow> step_entry \<Rightarrow> reasoning_entry" where
  "degraded_entry now step =
     \<lparr>re_step_id = se_step_id step, re_timestamp_action = se_timestamp step, re_timestamp_annotated = now,
      re_action_type = se_action_type step, re_action_subtype = se_action_subtype step,
      re_raw_command = se_raw_command step, re_converted_command = se_converted_command step,
      re_image_path = se_image_path step, re_reasoning = [], re_skipped = False, re_source = ''model_degraded'',
      re_provider = None, re_model_id = None, re_api_version = None, re_input_tokens = None,
      re_output_tokens = None, re_latency_ms = None, re_action_intent = None, re_confidence = None,
      re_keyboard_visual_annotation = None\<rparr>"

text \<open>The entries of the steps that have none; the value is whether any was written.\<close>

definition write_placeholder ::
  "'r capture_env \<Rightarrow> string \<Rightarrow> u32 set \<Rightarrow> step_entry \<Rightarrow> bool \<Rightarrow> (('c, 'r) world, bool) io" where
  "write_placeholder E memory_dir existing step wrote_any =
     (if se_step_id step \<in> existing then ok wrote_any
      else
        bind_io utc_now (\<lambda>now.
        bind_io (attempt (on_disk (upsert_entry (ce_entries E) memory_dir
          (degraded_entry (to_rfc3339 (ce_clock E) now) step)))) (\<lambda>r.
        ok (case r of Inl e \<Rightarrow> wrote_any | Inr _ \<Rightarrow> True))))"

definition write_degraded_placeholders ::
  "'r capture_env \<Rightarrow> string \<Rightarrow> string \<Rightarrow> string \<Rightarrow> step_entry list \<Rightarrow> bool \<Rightarrow> ('c, 'r) world storage_backend
   \<Rightarrow> (('c, 'r) world, unit) io" where
  "write_degraded_placeholders E sid memory_dir memory_name steps is_cloud_primary storage =
     (if steps = [] then ok ()
      else
        bind_io (attempt (on_disk (fs_create_dir_all (reasoning_dir memory_dir)))) (\<lambda>made.
        case made of
          Inl e \<Rightarrow> ok ()
        | Inr _ \<Rightarrow>
            bind_io (\<lambda>w. if fs_exists (w_disk w) (reasoning_path memory_dir)
                then bind_io (attempt (on_disk (fs_read_to_string (reasoning_path memory_dir))))
                       (\<lambda>r. ok (case r of Inr raw \<Rightarrow> existing_ids (ce_json E) raw | Inl e \<Rightarrow> {})) w
                else (Inr {}, w)) (\<lambda>existing.
            bind_io (fold_io (write_placeholder E memory_dir existing) steps False) (\<lambda>wrote_any.
            if wrote_any \<and> is_cloud_primary
            then ignore (bind_io (on_disk (fs_read (reasoning_path memory_dir))) (\<lambda>bytes.
                   sb_put storage sid (memory_name @ ''/reasoning/reasoning.jsonl'') bytes ''application/json''))
            else ok ()))))"

definition leave_maps :: "string \<Rightarrow> (('c, 'r) world, bool) io" where
  "leave_maps sid = (\<lambda>w.
     (Inr (is_degraded sid (w_maps w)),
      w\<lparr>w_kafka_sessions := w_kafka_sessions w - {sid}, w_maps := remove_session sid (w_maps w)\<rparr>))"

definition end_cleanly :: "'r capture_env \<Rightarrow> bool \<Rightarrow> (('c, 'r) watch, unit) io" where
  "end_cleanly E was_degraded =
     bind_io (attempt (in_writer (finalise (ce_json E)))) (\<lambda>r.
     bind_io (case r of
         Inl e \<Rightarrow> ok ()
       | Inr _ \<Rightarrow> bind_io (emit_file_written ''commands/actuation_commands.json'')
                    (\<lambda>_. emit_file_written ''commands/cc_commands.json'')) (\<lambda>_.
     bind_io (in_world utc_now) (\<lambda>now.
     bind_io (on_state (cs_mark_complete now)) (\<lambda>_.
     bind_io (on_state cs_clear_in_progress) (\<lambda>_.
     bind_io (attempt (in_state (flush_now (ce_metadata E)))) (\<lambda>flushed.
     bind_io (case flushed of Inl e \<Rightarrow> ok () | Inr _ \<Rightarrow> emit_file_written ''metadata.json'') (\<lambda>_ (wt, w).
     bind_io (if wt_is_automated wt
        then in_world (write_degraded_placeholders E (wt_session_id wt) (wt_memory_dir wt) (rec_memory_name (wt_record wt))
               (md_steps (cs_metadata (wt_state wt))) (wt_is_cloud_primary wt) (wt_storage wt))
        else ok ()) (\<lambda>_.
     ignore (in_world (on_redis (update_status (ce_redis E) (ce_clock E) (wt_session_id wt)
       (if was_degraded then PendingHumanAnnotation else PendingAnnotation))))) (wt, w))))))))"

definition end_broken :: "'r capture_env \<Rightarrow> disconnect_reason option \<Rightarrow> (('c, 'r) watch, unit) io" where
  "end_broken E why = (\<lambda>(wt, w).
     bind_io (if wt_is_cloud_primary wt
        then bind_io (on_state cs_mark_incomplete) (\<lambda>_.
             bind_io (on_state (cs_set_in_progress ''interrupted'')) (\<lambda>_.
             bind_io (ignore (in_writer (finalise (ce_json E)))) (\<lambda>_.
             ignore (in_state (flush_now (ce_metadata E))))))
        else ok ()) (\<lambda>_.
     in_world (handle_disconnect (ce_redis E) (ce_clock E) (ce_metadata E)
       \<lparr>dh_session_id = wt_session_id wt, dh_memory_dir = wt_memory_dir wt, dh_has_ipc = True,
        dh_is_cloud_primary = wt_is_cloud_primary wt\<rparr>
       (unwrap_or (TransportError ''The-Eyes liveness check failed'') why))) (wt, w))"

text \<open>The value is the step count reported back to the one who sent the done signal.\<close>

definition end_watch :: "'r capture_env \<Rightarrow> ending \<Rightarrow> (('c, 'r) watch, u32) io" where
  "end_watch E how = (\<lambda>(wt, w).
     bind_io (in_world (leave_maps (wt_session_id wt))) (\<lambda>was_degraded.
     bind_io (case how of Clean \<Rightarrow> end_cleanly E was_degraded | Broken why \<Rightarrow> end_broken E why) (\<lambda>_.
     bind_io (in_world (changing (\<lambda>w. w\<lparr>w_done_handles := w_done_handles w - {wt_session_id wt}\<rparr>))) (\<lambda>_.
     reading (\<lambda>(wt, w). cw_step_counter (wt_writer wt))))) (wt, w))"

text \<open>
  The whole task: the answer about the start, and the step count when the loop has ended; no count
  when it is still waiting.
\<close>

definition run_watch_loop ::
  "'r capture_env \<Rightarrow> ('c, 'r) watch_loop_args \<Rightarrow> (cc_endpoint \<Rightarrow> watch_stream result) \<Rightarrow> bool \<Rightarrow> ('c, 'r) input list
   \<Rightarrow> ('c, 'r) world \<Rightarrow> unit result option \<times> u32 option result \<times> ('c, 'r) world" where
  "run_watch_loop E A connected client_ok is w =
     (case start_watch E A connected client_ok w of
        (GaveUp why, w) \<Rightarrow> (map_option Inl why, Inr None, w)
      | (Up wt, w) \<Rightarrow>
          (case bind_io (begin_capture E) (\<lambda>_.
                bind_io (run_inputs E is) (\<lambda>how.
                case how of
                  None \<Rightarrow> ok None
                | Some how \<Rightarrow> bind_io (end_watch E how) (\<lambda>n. ok (Some n)))) (wt, w) of
             (r, (wt, w)) \<Rightarrow> (Some (Inr ()), r, w)))"

end
