(* ===== verification/MA_Capture_Facts.thy ===== *)
theory MA_Capture_Facts
  imports MA_Capture_State
begin

text \<open>
  The capture state as an implementation of a simpler object: a document, the last version of it
  that reached the disk, and the tokens reported and not yet booked. \<open>capture_step\<close> is what can happen
  to a running session in one step, the work of the other tasks included.
\<close>

section \<open>What a flush does\<close>

lemma drain_into_apply:
  "drain_into (cs, w) =
     (edit (\<lambda>m. add_provider_costs (unwrap_or Map.empty (rm_provider_tokens (w_maps w) (cs_session_id cs)))
              (add_totals (pending (cs_session_id cs) (w_maps w)) m)) cs,
      w\<lparr>w_maps := snd (drain_provider_tokens (cs_session_id cs) (snd (drain_tokens (cs_session_id cs) (w_maps w))))\<rparr>)"
  by (simp add: drain_into_def drain_tokens_def drain_provider_tokens_def pending_def Let_def)

lemma edit_simps [simp]:
  "cs_metadata (edit f cs) = f (cs_metadata cs)" "cs_session_id (edit f cs) = cs_session_id cs"
  "cs_memory_dir (edit f cs) = cs_memory_dir cs" "cs_is_cloud_primary (edit f cs) = cs_is_cloud_primary cs"
  "cs_storage (edit f cs) = cs_storage cs" "cs_flush_interval (edit f cs) = cs_flush_interval cs"
  "cs_steps_since_flush (edit f cs) = cs_steps_since_flush cs"
  by (simp_all add: edit_def)

text \<open>In local mode a flush is the drain followed by one atomic write of the document.\<close>

lemma flush_local:
  assumes "flush mc (cs, w) = (r, (cs', w'))" and "\<not> cs_is_cloud_primary cs"
  shows "cs' = fst (drain_into (cs, w))" and "w_maps w' = w_maps (snd (drain_into (cs, w)))"
    and "\<exists>q. metadata_write mc (cs_memory_dir cs) (cs_metadata cs') (w_disk w) = (q, w_disk w') \<and> isl q = isl r"
proof -
  obtain c1 w1 where d: "drain_into (cs, w) = (c1, w1)" by fastforce
  have c1: "c1 = fst (drain_into (cs, w))" "\<not> cs_is_cloud_primary c1" "cs_memory_dir c1 = cs_memory_dir cs"
    "w_disk w1 = w_disk w" "w_maps w1 = w_maps (snd (drain_into (cs, w)))"
    using d assms(2) by (auto simp: drain_into_apply)
  obtain q d' where m: "metadata_write mc (cs_memory_dir cs) (cs_metadata c1) (w_disk w) = (q, d')" by fastforce
  have run: "on_world (on_disk (metadata_write mc (cs_memory_dir c1) (cs_metadata c1))) (c1, w1) = (q, (c1, w1\<lparr>w_disk := d'\<rparr>))"
    using m c1 by (simp add: on_world_def on_disk_def zoom_def)
  have "context_io ''metadata::write failed''
      (on_world (on_disk (metadata_write mc (cs_memory_dir c1) (cs_metadata c1)))) (c1, w1) = (r, (cs', w'))"
    using assms(1) c1(2) by (simp add: flush_def d)
  then have out: "cs' = c1" "w' = w1\<lparr>w_disk := d'\<rparr>" "isl q = isl r"
    using run by (cases q; auto simp: context_io_def)+
  show "cs' = fst (drain_into (cs, w))" "w_maps w' = w_maps (snd (drain_into (cs, w)))"
    by (simp_all add: d out)
  show "\<exists>q. metadata_write mc (cs_memory_dir cs) (cs_metadata cs') (w_disk w) = (q, w_disk w') \<and> isl q = isl r"
    using m out by auto
qed

section \<open>Steps of a session\<close>

datatype act =
    Edit "session_metadata \<Rightarrow> session_metadata"
  | Report u64 u64 string
  | Flush bool
  | Elsewhere

text \<open>The assignments of the capture state leave the token counters alone; only a flush books tokens.\<close>

definition keeps_tokens :: "(session_metadata \<Rightarrow> session_metadata) \<Rightarrow> bool" where
  "keeps_tokens f \<longleftrightarrow> (\<forall>m. md_total_input_tokens (f m) = md_total_input_tokens m
     \<and> md_total_output_tokens (f m) = md_total_output_tokens m
     \<and> md_token_costs_by_provider (f m) = md_token_costs_by_provider m)"

inductive capture_step :: "metadata_codec \<Rightarrow> act \<Rightarrow> ('c, 'r) capturing \<Rightarrow> ('c, 'r) capturing \<Rightarrow> bool"
  for mc :: metadata_codec where
  step_edit: "keeps_tokens f \<Longrightarrow> capture_step mc (Edit f) (cs, w) (edit f cs, w)"
| step_report: "capture_step mc (Report i o' p) (cs, w)
    (cs, w\<lparr>w_maps := add_provider_tokens (cs_session_id cs) p i o' (add_tokens (cs_session_id cs) i o' (w_maps w))\<rparr>)"
| step_flush: "flush mc s = (r, s') \<Longrightarrow> capture_step mc (Flush (\<not> isl r)) s s'"
| step_flush_now: "flush_now mc s = (r, s') \<Longrightarrow> capture_step mc (Flush (\<not> isl r)) s s'"
| step_elsewhere: "node_at (w_disk w') (path_join (cs_memory_dir cs) ''metadata.json'')
      = node_at (w_disk w) (path_join (cs_memory_dir cs) ''metadata.json'') \<Longrightarrow>
    rm_tokens (w_maps w') (cs_session_id cs) = rm_tokens (w_maps w) (cs_session_id cs) \<Longrightarrow>
    rm_provider_tokens (w_maps w') (cs_session_id cs) = rm_provider_tokens (w_maps w) (cs_session_id cs) \<Longrightarrow>
    capture_step mc Elsewhere (cs, w) (cs, w')"

inductive_cases capture_stepE: "capture_step mc a s s'"

inductive capture_run :: "metadata_codec \<Rightarrow> act list \<Rightarrow> ('c, 'r) capturing \<Rightarrow> ('c, 'r) capturing \<Rightarrow> bool"
  for mc :: metadata_codec where
  run_nil: "capture_run mc [] s s"
| run_cons: "capture_step mc a s s1 \<Longrightarrow> capture_run mc as s1 s' \<Longrightarrow> capture_run mc (a # as) s s'"

text \<open>The operations of the code are such steps.\<close>

lemma edits_keep_tokens [simp]:
  "keeps_tokens (\<lambda>m. m\<lparr>md_in_progress := v\<rparr>)" "keeps_tokens (\<lambda>m. m\<lparr>md_closing_image_path := q\<rparr>)"
  "keeps_tokens (\<lambda>m. m\<lparr>md_actuation_transport := t\<rparr>)" "keeps_tokens (\<lambda>m. m\<lparr>md_actuation_server_version := t\<rparr>)"
  "keeps_tokens (\<lambda>m. m\<lparr>md_actuation_agent_version := t\<rparr>)" "keeps_tokens (\<lambda>m. m\<lparr>md_status := t\<rparr>)"
  "keeps_tokens (\<lambda>m. m\<lparr>md_status := t, md_completed_at := c\<rparr>)"
  "keeps_tokens (\<lambda>m. m\<lparr>md_status := t, md_in_progress := v\<rparr>)"
  "keeps_tokens (\<lambda>m. m\<lparr>md_kafka_partition := kp, md_kafka_offset := ko\<rparr>)"
  "keeps_tokens (push_step step)" "keeps_tokens (push_skipped k why)" "keeps_tokens (set_step_image k p b x y)"
  by (simp_all add: keeps_tokens_def push_step_def push_skipped_def set_step_image_def)

section \<open>The abstract document\<close>

record abstract_doc =
  ad_doc :: session_metadata
  ad_published :: "session_metadata option"
  ad_tokens :: token_counts
  ad_providers :: provider_tokens

text \<open>Booking what is pending.\<close>

definition booked :: "abstract_doc \<Rightarrow> session_metadata" where
  "booked t = add_provider_costs (ad_providers t) (add_totals (ad_tokens t) (ad_doc t))"

fun abstract_act :: "act \<Rightarrow> abstract_doc \<Rightarrow> abstract_doc" where
  "abstract_act (Edit f) t = t\<lparr>ad_doc := f (ad_doc t)\<rparr>"
| "abstract_act (Report i o' p) t =
     t\<lparr>ad_tokens := plus_counts (ad_tokens t) (i, o'),
       ad_providers := (if p = [] then ad_providers t
          else (ad_providers t)(p \<mapsto> plus_counts (unwrap_or (0, 0) (ad_providers t p)) (i, o')))\<rparr>"
| "abstract_act (Flush done) t =
     t\<lparr>ad_doc := booked t, ad_tokens := (0, 0), ad_providers := Map.empty,
       ad_published := (if done then Some (booked t) else ad_published t)\<rparr>"
| "abstract_act Elsewhere t = t"

definition abstraction :: "metadata_codec \<Rightarrow> ('c, 'r) capturing \<Rightarrow> abstract_doc" where
  "abstraction mc = (\<lambda>(cs, w).
     \<lparr>ad_doc = cs_metadata cs, ad_published = metadata_at mc (cs_memory_dir cs) (w_disk w),
      ad_tokens = pending (cs_session_id cs) (w_maps w),
      ad_providers = unwrap_or Map.empty (rm_provider_tokens (w_maps w) (cs_session_id cs))\<rparr>)"

lemma metadata_write_at:
  assumes "metadata_codec_ok mc" and "metadata_write mc dir m d = (q, d')"
  shows "metadata_at mc dir d' = (if isl q then metadata_at mc dir d else Some m)"
  using assms(2)
proof (cases rule: metadata_write_cases)
  case (1 e)
  then show ?thesis by simp
next
  case (2 json)
  with assms(1) show ?thesis by (cases q) (auto simp: metadata_at_def metadata_codec_ok_def)
qed

lemma drained_maps [simp]:
  "rm_provider_tokens (snd (drain_provider_tokens s (snd (drain_tokens s m)))) s = None"
  by (simp add: drain_provider_tokens_def)

lemma flush_abstract:
  assumes "metadata_codec_ok mc" and "flush mc s = (r, s')" and "\<not> cs_is_cloud_primary (fst s)"
  shows "abstraction mc s' = abstract_act (Flush (\<not> isl r)) (abstraction mc s)
    \<and> \<not> cs_is_cloud_primary (fst s')"
proof -
  obtain cs w cs' w' where s: "s = (cs, w)" "s' = (cs', w')" by fastforce
  with assms have run: "flush mc (cs, w) = (r, (cs', w'))" "\<not> cs_is_cloud_primary cs" by auto
  note F = flush_local [OF run]
  from F(3) obtain q where q: "metadata_write mc (cs_memory_dir cs) (cs_metadata cs') (w_disk w) = (q, w_disk w')" "isl q = isl r"
    by blast
  show ?thesis
    using metadata_write_at [OF assms(1) q(1)] q(2) F(1,2) run(2) s
    by (simp add: abstraction_def drain_into_apply booked_def)
qed

lemma step_abstract:
  assumes "metadata_codec_ok mc" and "capture_step mc a s s'" and "\<not> cs_is_cloud_primary (fst s)"
  shows "abstraction mc s' = abstract_act a (abstraction mc s) \<and> \<not> cs_is_cloud_primary (fst s')"
  using assms(2)
proof cases
  case (step_flush r)
  with flush_abstract [OF assms(1) step_flush(2) assms(3)] show ?thesis by simp
next
  case (step_flush_now r)
  obtain cs w where s: "s = (cs, w)" by fastforce
  from step_flush_now have "flush mc (cs\<lparr>cs_steps_since_flush := 0\<rparr>, w) = (r, s')" by (simp add: flush_now_def s)
  from flush_abstract [OF assms(1) this] assms(3) step_flush_now show ?thesis by (simp add: s abstraction_def)
next
  case (step_elsewhere w' cs w)
  then show ?thesis using assms(3) by (simp add: abstraction_def metadata_at_def pending_def)
qed (use assms(3) in \<open>auto simp: abstraction_def pending_def add_tokens_def add_provider_tokens_def Let_def\<close>)


text \<open>A session on the disk that holds one document.\<close>

definition one_doc_session :: "session_metadata \<Rightarrow> (unit, unit) capturing" where
  "one_doc_session m =
     (capture_new m ''s'' ''m'' (lift_backend w_disk (\<lambda>d w. w\<lparr>w_disk := d\<rparr>) (local_backend (\<lambda>s. s) [])) 5 False,
      \<lparr>w_disk = one_doc_disk, w_cloud = (), w_redis = (), w_maps = empty_maps, w_pushed = [], w_push_fails = [], w_clock = [],
      w_done_handles = {}, w_kafka_sessions = {}\<rparr>)"

lemma metadata_write_one_doc:
  "\<exists>d'. metadata_write (two_docs m n) ''m'' n one_doc_disk = (Inr (), d')"
  by (simp add: metadata_write_def Let_def bind_io_def context_io_def lift_result_def one_doc_paths fs_write_def
      fs_rename_def guarded_def next_fault_def one_doc_disk_def node_at_def two_docs_def put_file_def do_rename_def
      parent_ok_def)


section \<open>The token ledger\<close>

text \<open>The part of the flush both modes share; a backend does not touch the reasoning maps.\<close>

definition leaves_maps :: "('c, 'r) world storage_backend \<Rightarrow> bool" where
  "leaves_maps b \<longleftrightarrow> (\<forall>sid p bytes ct w. w_maps (snd (sb_put b sid p bytes ct w)) = w_maps w)"

definition quiet :: "('c, 'r) world storage_backend \<Rightarrow> ('c, 'r) capturing \<Rightarrow> ('c, 'r) capturing \<Rightarrow> bool" where
  "quiet b s s' \<longleftrightarrow> (cs_storage (fst s) = b \<longrightarrow> fst s' = fst s \<and> w_maps (snd s') = w_maps (snd s))"

interpretation quiet: kept "quiet b" for b
  by unfold_locales (auto simp: quiet_def)

lemma quiet_world: "(\<And>w. w_maps (snd (m w)) = w_maps w) \<Longrightarrow> stays (quiet b) (on_world m)"
  by (simp add: stays_def quiet_def on_world_def zoom_def split_beta)

lemma maps_disk [simp]: "w_maps (snd (on_disk m w)) = w_maps w"
  unfolding on_disk_def by (rule disk_maps.frame)

lemma maps_put: "leaves_maps b \<Longrightarrow> w_maps (snd (sb_put b sid q bytes ct w)) = w_maps w"
  by (simp add: leaves_maps_def)

lemma maps_bind:
  "(\<And>w. w_maps (snd (m w)) = w_maps w) \<Longrightarrow> (\<And>a w. w_maps (snd (f a w)) = w_maps w) \<Longrightarrow>
    w_maps (snd (bind_io m f w)) = w_maps w"
  by (auto simp: bind_io_def split: prod.splits sum.splits) (metis snd_conv)+

lemma quiet_command_files: "leaves_maps b \<Longrightarrow> stays (quiet b) flush_command_files"
  unfolding flush_command_files_def
proof (rule quiet.keep_fold)
  fix x :: "string \<times> string" and a :: unit
  assume b: "leaves_maps b"
  obtain rel ct where x: "x = (rel, ct)" by fastforce
  have "stays (quiet b) (on_world (ignore (bind_io (on_disk (fs_read p)) (\<lambda>bytes. sb_put b sid q bytes ct))))" for p sid q
    by (rule quiet_world) (simp add: maps_bind maps_put [OF b])
  then have "quiet b (cs, w) (snd (on_world (ignore (bind_io (on_disk (fs_read p)) (\<lambda>bytes. sb_put b sid q bytes ct))) (cs, w)))"
    for cs w p sid q by (simp add: stays_def)
  then show "stays (quiet b) ((\<lambda>(rel, content_type) _ (cs, w).
      let abs_path = path_join (cs_memory_dir cs) rel in
      if \<not> fs_exists (w_disk w) abs_path then (Inr (), (cs, w))
      else on_world (ignore (bind_io (on_disk (fs_read abs_path)) (\<lambda>bytes.
        sb_put (cs_storage cs) (cs_session_id cs) (capture_cloud_path cs rel) bytes content_type))) (cs, w)) x a)"
    by (fastforce simp: stays_def x Let_def quiet_def)
qed

lemma flush_books:
  assumes "flush mc (cs, w) = (r, (cs', w'))" and "leaves_maps (cs_storage cs)"
  shows "cs' = fst (drain_into (cs, w))" and "w_maps w' = w_maps (snd (drain_into (cs, w)))"
proof -
  obtain c1 w1 where d: "drain_into (cs, w) = (c1, w1)" by fastforce
  then have "cs_storage c1 = cs_storage cs" by (auto simp: drain_into_apply)
  with assms(2) have b: "leaves_maps (cs_storage c1)" by simp
  let ?b = "cs_storage c1"
  let ?rest = "if cs_is_cloud_primary c1 then
      bind_io (context_io ''Failed to serialize metadata for flush'' (lift_result (metadata_to_json mc (cs_metadata c1)))) (\<lambda>bytes.
      bind_io (context_io ''StorageBackend::put failed for metadata.json''
        (on_world (sb_put ?b (cs_session_id c1) (capture_cloud_path c1 ''metadata.json'') bytes ''application/json''))) (\<lambda>_.
      flush_command_files))
    else context_io ''metadata::write failed''
        (on_world (on_disk (metadata_write mc (cs_memory_dir c1) (cs_metadata c1))))"
  have run: "?rest (c1, w1) = (r, (cs', w'))" using assms(1) by (cases "cs_is_cloud_primary c1") (simp_all add: flush_def d)
  have "stays (quiet ?b) ?rest"
    by (simp add: quiet.keep_bind quiet.keep_context quiet.keep_pure quiet_world maps_put b quiet_command_files)
  from staysD [OF this run] show "cs' = fst (drain_into (cs, w))" "w_maps w' = w_maps (snd (drain_into (cs, w)))"
    by (simp_all add: quiet_def d)
qed

text \<open>Everything reported for the session: what is booked and what is pending, in total and by provider.\<close>

definition ledger :: "('c, 'r) capturing \<Rightarrow> token_counts" where
  "ledger = (\<lambda>(cs, w). plus_counts
     (md_total_input_tokens (cs_metadata cs), md_total_output_tokens (cs_metadata cs))
     (pending (cs_session_id cs) (w_maps w)))"

definition booked_for :: "string \<Rightarrow> session_metadata \<Rightarrow> token_counts" where
  "booked_for p m =
     (case md_token_costs_by_provider m p of
        None \<Rightarrow> (0, 0) | Some c \<Rightarrow> (ptc_input_tokens c, ptc_output_tokens c))"

definition ledger_for :: "string \<Rightarrow> ('c, 'r) capturing \<Rightarrow> token_counts" where
  "ledger_for p = (\<lambda>(cs, w). plus_counts (booked_for p (cs_metadata cs)) (pending_for (cs_session_id cs) p (w_maps w)))"

fun reported :: "(string \<Rightarrow> bool) \<Rightarrow> act list \<Rightarrow> token_counts" where
  "reported P [] = (0, 0)"
| "reported P (Report i o' p # as) = (if P p then plus_counts (i, o') (reported P as) else reported P as)"
| "reported P (a # as) = reported P as"

lemma reported_Cons: "reported P (a # as) = plus_counts (reported P [a]) (reported P as)"
  by (cases a) (simp_all add: plus_counts_ac)

lemma drain_ledger:
  "ledger (drain_into s) = ledger s" "ledger_for p (drain_into s) = ledger_for p s"
proof -
  obtain cs w where s: "s = (cs, w)" by fastforce
  show "ledger (drain_into s) = ledger s"
    by (cases "pending (cs_session_id cs) (w_maps w)")
      (auto simp: s drain_into_apply ledger_def add_totals_def add_provider_costs_def plus_counts_def word_gt_0)
  show "ledger_for p (drain_into s) = ledger_for p s"
    by (auto simp: s drain_into_apply ledger_for_def add_totals_def add_provider_costs_def plus_counts_def
        booked_for_def pending_for_def no_tokens_def Let_def split: option.splits)
qed

lemma step_ledger:
  assumes "capture_step mc a s s'" and "leaves_maps (cs_storage (fst s))"
  shows "ledger s' = plus_counts (ledger s) (reported (\<lambda>_. True) [a])
    \<and> ledger_for p s' = plus_counts (ledger_for p s) (reported (\<lambda>q. q = p \<and> q \<noteq> []) [a])
    \<and> cs_storage (fst s') = cs_storage (fst s)"
proof -
  have flushes: "ledger s' = ledger t \<and> ledger_for p s' = ledger_for p t \<and> cs_storage (fst s') = cs_storage (fst t)"
    if "flush mc t = (r, s')" "leaves_maps (cs_storage (fst t))" for r t
  proof -
    obtain cs w cs' w' where t: "t = (cs, w)" "s' = (cs', w')" by fastforce
    with flush_books [of mc cs w r cs' w'] that
    have F: "cs' = fst (drain_into t)" "w_maps w' = w_maps (snd (drain_into t))" by auto
    then have "ledger s' = ledger (drain_into t)" "ledger_for p s' = ledger_for p (drain_into t)"
      by (simp_all add: t ledger_def ledger_for_def split: prod.splits)
    moreover have "cs_storage (fst s') = cs_storage (fst t)" by (simp add: t F drain_into_apply)
    ultimately show ?thesis by (simp only: drain_ledger simp_thms)
  qed
  from assms(1) show ?thesis
  proof cases
    case (step_edit f cs w)
    then show ?thesis by (simp add: keeps_tokens_def ledger_def ledger_for_def booked_for_def plus_counts_ac)
  next
    case (step_report i o' q cs w)
    then show ?thesis by (auto simp: ledger_def ledger_for_def plus_counts_def ac_simps)
  next
    case (step_flush r)
    then show ?thesis using flushes [OF step_flush(2) assms(2)] by (simp add: plus_counts_ac)
  next
    case (step_flush_now r)
    obtain cs w where s: "s = (cs, w)" by fastforce
    with step_flush_now have "flush mc (cs\<lparr>cs_steps_since_flush := 0\<rparr>, w) = (r, s')" by (simp add: flush_now_def)
    from flushes [OF this] assms(2) show ?thesis
      by (simp add: step_flush_now(1) s plus_counts_ac ledger_def ledger_for_def)
  next
    case (step_elsewhere w' cs w)
    then show ?thesis by (simp add: ledger_def ledger_for_def pending_def pending_for_def plus_counts_ac)
  qed
qed

text \<open>
  C12. No reported token is lost or counted twice, in either storage mode. Over any run - edits, reports,
  flushes that succeed or fail before, in or after the upload - what is booked in the document
  plus what is pending in the maps is what it was at the start plus what was reported since, in total
  and for every provider.
\<close>

theorem tokens_conserved:
  assumes "capture_run mc as s s'" and "leaves_maps (cs_storage (fst s))"
  shows "ledger s' = plus_counts (ledger s) (reported (\<lambda>_. True) as)
    \<and> ledger_for p s' = plus_counts (ledger_for p s) (reported (\<lambda>q. q = p \<and> q \<noteq> []) as)"
  using assms
proof induction
  case (run_nil s)
  then show ?case by (simp add: plus_counts_ac)
next
  case (run_cons a s s1 as s')
  note S = step_ledger [OF run_cons.hyps(1) run_cons.prems, of p]
  with run_cons.IH run_cons.prems
  have "ledger s' = plus_counts (ledger s1) (reported (\<lambda>_. True) as)
    \<and> ledger_for p s' = plus_counts (ledger_for p s1) (reported (\<lambda>q. q = p \<and> q \<noteq> []) as)" by simp
  with S show ?case by (simp only: reported_Cons [of _ a as] plus_counts_ac(1) simp_thms)
qed

lemma lifted_leaves_maps:
  "leaves_maps (lift_backend w_disk (\<lambda>d w. w\<lparr>w_disk := d\<rparr>) b)"
  "leaves_maps (lift_backend w_cloud (\<lambda>c w. w\<lparr>w_cloud := c\<rparr>) b')"
  by (simp_all add: leaves_maps_def lift_backend_def disk_maps.frame cloud_maps.frame)

theorem tokens_conserved_witness:
  "\<forall>m. \<exists>mc s'. capture_run mc [Report 5 7 ''openai''] (one_doc_session m) s'
     \<and> ledger s' = plus_counts (ledger (one_doc_session m)) (5, 7)"
proof
  fix m :: session_metadata
  obtain cs w where s: "one_doc_session m = (cs, w)" by fastforce
  have steps: "capture_run (two_docs m m) [Report 5 7 ''openai''] (one_doc_session m)
      (cs, w\<lparr>w_maps := add_provider_tokens (cs_session_id cs) ''openai'' 5 7 (add_tokens (cs_session_id cs) 5 7 (w_maps w))\<rparr>)"
    unfolding s by (rule run_cons [OF step_report run_nil])
  moreover have "leaves_maps (cs_storage (fst (one_doc_session m)))"
    by (simp add: one_doc_session_def capture_new_def lifted_leaves_maps)
  ultimately show "\<exists>mc s'. capture_run mc [Report 5 7 ''openai''] (one_doc_session m) s'
     \<and> ledger s' = plus_counts (ledger (one_doc_session m)) (5, 7)"
    using tokens_conserved [OF steps] by (auto simp: plus_counts_ac)
qed

end
