(* ===== verification/MA_Watch_Facts.thy ===== *)
theory MA_Watch_Facts
  imports MA_Watch_Loop MA_Capture_Facts MA_Writer_Facts "HOL-Library.Sublist"
begin

text \<open>
  What a watch loop does to its session: which steps it records, which tokens it loses at the end and
  what the placeholders of a degraded session leave alone.
\<close>

section \<open>What the parts of the loop leave alone\<close>

lemma stays_at: "stays R m \<Longrightarrow> R s (snd (m s))"
  by (simp add: stays_def)

lemma stays_pair: "(\<And>x w. R (x, w) (snd (F x w))) \<Longrightarrow> stays R (\<lambda>(x, w). F x w)"
  by (auto simp: stays_def)

text \<open>A step without what the vision pipeline adds later.\<close>

type_synonym step_key = "u32 \<times> string \<times> string \<times> string \<times> string \<times> string \<times> record_suspect option"

definition step_key :: "step_entry \<Rightarrow> step_key" where
  "step_key s = (se_step_id s, se_timestamp s, se_action_type s, se_action_subtype s, se_raw_command s,
     se_converted_command s, se_record_suspect s)"

definition state_view :: "('c, 'r) capture_state \<Rightarrow> step_key list \<times> u32" where
  "state_view cs = (map step_key (md_steps (cs_metadata cs)), md_total_steps (cs_metadata cs))"

definition same_steps :: "('c, 'r) capturing \<Rightarrow> ('c, 'r) capturing \<Rightarrow> bool" where
  "same_steps s s' \<longleftrightarrow> state_view (fst s') = state_view (fst s)"

definition writer_view :: "('c, 'r) command_writer \<Rightarrow> u32 \<times> bool" where
  "writer_view cw = (cw_step_counter cw, cw_is_cloud_primary cw)"

definition same_counter :: "('c, 'r) writing \<Rightarrow> ('c, 'r) writing \<Rightarrow> bool" where
  "same_counter s s' \<longleftrightarrow> writer_view (fst s') = writer_view (fst s)"

definition same_view :: "('c, 'r) watch \<Rightarrow> ('c, 'r) watch \<Rightarrow> bool" where
  "same_view s s' \<longleftrightarrow> state_view (wt_state (fst s')) = state_view (wt_state (fst s))
     \<and> writer_view (wt_writer (fst s')) = writer_view (wt_writer (fst s))"

interpretation same_steps: kept same_steps by unfold_locales (simp_all add: same_steps_def)
interpretation same_counter: kept same_counter by unfold_locales (simp_all add: same_counter_def)
interpretation same_view: kept same_view by unfold_locales (simp_all add: same_view_def)

lemma steps_world [simp]: "stays same_steps (on_world m)"
  by (simp add: stays_def same_steps_def on_world_def zoom_def split_beta)

lemma steps_edit: "(\<And>cs. state_view (f cs) = state_view cs) \<Longrightarrow> stays same_steps (changing (\<lambda>(cs, w). (f cs, g w)))"
  by (auto simp: stays_def same_steps_def changing_def)

lemma steps_drain: "stays same_steps (changing drain_into)"
  by (auto simp: stays_def same_steps_def changing_def drain_into_apply state_view_def add_provider_costs_def add_totals_def)

lemma steps_command_files: "stays same_steps flush_command_files"
  unfolding flush_command_files_def
  by (rule same_steps.keep_fold)
    (auto simp: stays_def same_steps_def Let_def on_world_def zoom_def split_beta split: prod.splits)

lemma steps_flush: "stays same_steps (flush mc)"
  unfolding flush_def
  by (rule same_steps.keep_bind [OF steps_drain], rule stays_pair)
    (simp add: stays_at same_steps.keep_bind same_steps.keep_context same_steps.keep_pure steps_command_files)

lemma state_view_flushes [simp]: "state_view (cs\<lparr>cs_steps_since_flush := n\<rparr>) = state_view cs"
  by (simp add: state_view_def)

lemma steps_flush_if_due: "stays same_steps (flush_if_due mc)"
  unfolding flush_if_due_def
proof (intro same_steps.keep_bind steps_edit [where g = "\<lambda>w. w"] stays_pair state_view_flushes)
  fix cs :: "('a, 'b) capture_state" and w
  show "same_steps (cs, w) (snd (if \<not> cs_is_cloud_primary cs \<or> cs_flush_interval cs \<le> cs_steps_since_flush cs
      then flush mc (cs\<lparr>cs_steps_since_flush := 0\<rparr>, w) else (Inr (), cs, w)))"
    using stays_at [OF steps_flush, of "(cs\<lparr>cs_steps_since_flush := 0\<rparr>, w)" mc] by (simp add: same_steps_def)
qed

lemma counter_world [simp]: "stays same_counter (writer_world m)"
  by (simp add: stays_def same_counter_def writer_world_def zoom_def split_beta)

lemma counter_self: "(\<And>cw. writer_view (f cw) = writer_view cw) \<Longrightarrow> stays same_counter (writer_self f)"
  by (auto simp: stays_def same_counter_def writer_self_def changing_def)

lemma counter_buffers:
  "stays same_counter (buffer_raw wc k ev)" "stays same_counter (buffer_converted wc k ev conv)"
  "stays same_counter (buffer_jsonl wc ev)" "stays same_counter (buffer_cc_command wc k ev)"
  unfolding buffer_raw_def buffer_converted_def buffer_jsonl_def buffer_cc_command_def
  by (intro same_counter.keep_bind same_counter.keep_context same_counter.keep_pure stays_pair counter_self;
      simp add: writer_view_def; intro conjI impI;
      rule stays_at same_counter.R_refl;
      intro same_counter.keep_bind counter_world counter_self; simp add: writer_view_def)+

text \<open>An event takes the next step number, whether or not it could be written.\<close>

definition serialises :: "writer_codec \<Rightarrow> bool" where
  "serialises wc \<longleftrightarrow> (\<forall>ev. \<not> isl (event_to_json wc ev)) \<and> (\<forall>e. \<not> isl (cc_entry_to_json wc e))"

lemma write_event_step:
  assumes "write_event wc ev conv (cw, w) = (r, (cw', w'))"
  shows "writer_view cw' = (cw_step_counter cw + 1, cw_is_cloud_primary cw)"
    and "r = Inr k \<Longrightarrow> k = cw_step_counter cw + 1"
    and "cw_is_cloud_primary cw \<Longrightarrow> serialises wc \<Longrightarrow> \<not> isl r"
proof -
  let ?k = "cw_step_counter cw + 1" and ?dir = "cw_commands_dir cw"
  let ?cw = "cw\<lparr>cw_step_counter := ?k\<rparr>"
  let ?body = "if cw_is_cloud_primary cw then
         bind_io (buffer_raw wc ?k ev) (\<lambda>_. bind_io (buffer_converted wc ?k ev conv) (\<lambda>_.
         bind_io (buffer_jsonl wc ev) (\<lambda>_. buffer_cc_command wc ?k ev)))
       else writer_world (bind_io (append_raw wc ?dir ?k ev) (\<lambda>_. bind_io (append_converted wc ?dir ?k ev conv) (\<lambda>_.
         bind_io (append_jsonl wc ?dir ev) (\<lambda>_. append_cc_command wc ?dir ?k ev))))"
  have run: "bind_io ?body (\<lambda>_. ok ?k) (?cw, w) = (r, (cw', w'))"
    using assms by (cases "cw_is_cloud_primary cw") (simp_all add: write_event_def writer_self_def Let_def)
  have "stays same_counter (bind_io ?body (\<lambda>_. ok ?k))"
    by (auto intro!: same_counter.keep_bind same_counter.keep_pure counter_buffers)
  from staysD [OF this run] show "writer_view cw' = (cw_step_counter cw + 1, cw_is_cloud_primary cw)"
    by (simp add: same_counter_def writer_view_def)
  show "r = Inr k \<Longrightarrow> k = cw_step_counter cw + 1" using run by (auto simp: bind_io_Inr_iff)
  show "\<not> isl r" if "cw_is_cloud_primary cw" "serialises wc"
  proof -
    have "\<not> isl (fst (buffer_raw wc ?k ev s))" "\<not> isl (fst (buffer_converted wc ?k ev conv s))"
      "\<not> isl (fst (buffer_jsonl wc ev s))" "\<not> isl (fst (buffer_cc_command wc ?k ev s))" for s :: "('a, 'b) writing"
      using that(2) on_disk_def
      by (cases s; cases "event_to_json wc ev"; cases "cc_entry_to_json wc (cc_entry ?k ev)";
          auto simp: serialises_def buffer_raw_def buffer_converted_def buffer_jsonl_def buffer_cc_command_def bind_io_def
            writer_self_def changing_def writer_world_def zoom_def utc_now_def isl_def split: list.splits prod.splits sum.splits)+
    with run that(1) show ?thesis
      by (auto simp: bind_io_def isl_def split: prod.splits sum.splits) (metis fst_conv)+
  qed
qed

section \<open>Steps follow events\<close>

lemma view_world [simp]: "stays same_view (in_world m)"
  by (simp add: stays_def same_view_def in_world_def zoom_def split_beta)

lemma view_state: "stays same_steps m \<Longrightarrow> stays same_view (in_state m)"
  by (auto simp: stays_def same_view_def same_steps_def in_state_def zoom_def split_beta)

lemma view_writer: "stays same_counter m \<Longrightarrow> stays same_view (in_writer m)"
  by (auto simp: stays_def same_view_def same_counter_def in_writer_def zoom_def split_beta)

lemma view_edit: "(\<And>cs. state_view (f cs) = state_view cs) \<Longrightarrow> stays same_view (on_state f)"
  by (auto simp: stays_def same_view_def on_state_def changing_def)

lemma map_change_first: "(\<And>x. P x \<Longrightarrow> k (f x) = k x) \<Longrightarrow> map k (change_first P f xs) = map k xs"
  by (induction xs) auto

lemma state_view_edits [simp]:
  "state_view (record_agent_version v cs) = state_view cs" "state_view (cs_update_kafka_position kp ko cs) = state_view cs"
  "state_view (cs_append_skipped_fetch k why cs) = state_view cs"
  "state_view (cs_update_step_image k p b x y cs) = state_view cs"
  by (simp_all add: state_view_def record_agent_version_def cs_update_kafka_position_def cs_append_skipped_fetch_def
      push_skipped_def cs_update_step_image_def set_step_image_def map_change_first step_key_def)

lemma view_emit: "stays same_view (emit_file_written rel)" "stays same_view (emit_optional p)"
proof -
  show e: "stays same_view (emit_file_written rel)" for rel
    unfolding emit_file_written_def by (rule stays_pair) (simp add: stays_at same_view.keep_ignore same_view.R_refl)
  show "stays same_view (emit_optional p)"
    by (cases p) (simp_all add: emit_optional_def e same_view.keep_pure)
qed

lemma view_ready: "stays same_view (\<lambda>(wt, w). if wt_is_automated wt \<and> \<not> is_degraded (wt_session_id wt) (w_maps w)
    then ignore (in_world (try_send (step_ready_msg wt k ev conv r))) (wt, w) else (Inr (), (wt, w)))"
  by (rule stays_pair) (simp add: stays_at same_view.keep_ignore same_view.R_refl)

lemma view_vision: "stays same_view (vision_step E eyes ev k conv)"
proof -
  have "stays same_view (case wt_vision wt of
        None \<Rightarrow> ok ()
      | Some vp \<Rightarrow>
          bind_io (in_world (process (ce_vision E) vp eyes ev k)) (\<lambda>processed.
          case processed of
            Some r \<Rightarrow>
              bind_io (\<lambda>(wt, w). if wt_is_automated wt \<and> \<not> is_degraded (wt_session_id wt) (w_maps w)
                then ignore (in_world (try_send (step_ready_msg wt k ev conv r))) (wt, w) else (Inr (), (wt, w))) (\<lambda>_.
              bind_io (on_state (cs_update_step_image k (ir_image_path r) (ir_marked r)
                (ir_before_image_path r) (ir_after_image_path r))) (\<lambda>_.
              bind_io (emit_file_written (ir_image_path r)) (\<lambda>_.
              bind_io (emit_optional (ir_before_image_path r)) (\<lambda>_.
              emit_optional (ir_after_image_path r)))))
          | None \<Rightarrow>
              on_state (cs_append_skipped_fetch k
                (if \<not> success ev then ''command failed''
                 else case decide ev (cfg_press_fetch_delay_ms (wt_config wt)) (cfg_type_fetch_delay_ms (wt_config wt)) of
                   Skip _ \<Rightarrow> ''action type does not trigger fetch''
                 | _ \<Rightarrow> ''fetch failed''))))" for wt :: "('c, 'r) watching"
    by (auto intro!: same_view.keep_bind same_view.keep_pure view_edit view_emit view_ready split: option.split)
  from stays_at [OF this] show ?thesis unfolding vision_step_def by (intro stays_pair)
qed

lemma counter_flush_to_cloud: "stays same_counter flush_to_cloud"
proof -
  have put: "stays same_counter (put_command_file n buf ct)" for n buf ct
    unfolding put_command_file_def by (rule stays_pair) (simp add: stays_at same_counter.keep_context)
  show ?thesis
    unfolding flush_to_cloud_def
    by (rule stays_pair) (simp add: stays_at same_counter.keep_bind put same_counter.R_refl)
qed

lemma view_flush: "stays same_view (flush_step E)"
proof -
  have cloud: "stays same_view (\<lambda>(wt, w). if wt_is_cloud_primary wt then ignore (in_writer flush_to_cloud) (wt, w)
      else (Inr (), (wt, w)))"
    by (rule stays_pair)
      (simp add: same_view.R_refl stays_at [OF view_writer [OF counter_flush_to_cloud]])
  have "stays same_view (case r of Inl e \<Rightarrow> ok ()
     | Inr _ \<Rightarrow> bind_io (emit_file_written ''metadata.json'') (\<lambda>_ (wt, w).
         if wt_is_cloud_primary wt then ignore (in_writer flush_to_cloud) (wt, w) else (Inr (), (wt, w))))"
    for r :: "unit result"
    by (cases r) (simp_all add: same_view.keep_pure same_view.keep_bind view_emit cloud)
  from same_view.keep_bind [OF same_view.keep_attempt [OF view_state [OF steps_flush_if_due]] this]
  show ?thesis unfolding flush_step_def .
qed

section \<open>What never fails\<close>

definition never_fails :: "('s, 'a) io \<Rightarrow> bool" where
  "never_fails m \<longleftrightarrow> (\<forall>s. \<not> isl (fst (m s)))"

lemma never_fails_at: "never_fails m \<Longrightarrow> \<not> isl (fst (m s))"
  by (simp add: never_fails_def)

lemma never_fails_pair: "(\<And>x w. \<not> isl (fst (F x w))) \<Longrightarrow> never_fails (\<lambda>(x, w). F x w)"
  by (auto simp: never_fails_def)

lemma never_fails_pure [simp]:
  "never_fails (ok a)" "never_fails (attempt m)" "never_fails (ignore m)" "never_fails (changing g)" "never_fails (on_state h)"
  by (simp_all add: never_fails_def attempt_def ignore_def changing_def on_state_def split_beta)

lemma never_fails_bind: "never_fails m \<Longrightarrow> (\<And>a. never_fails (f a)) \<Longrightarrow> never_fails (bind_io m f)"
  by (auto simp: never_fails_def bind_io_def split: prod.splits sum.splits) (metis fst_conv isl_def)+

lemma never_fails_fold: "(\<And>x a. never_fails (f x a)) \<Longrightarrow> never_fails (fold_io f xs a)"
  by (induction xs arbitrary: a) (simp_all add: never_fails_bind)

lemma never_fails_zoom: "never_fails m \<Longrightarrow> never_fails (zoom g p m)"
  by (simp add: never_fails_def zoom_def split_beta)

lemmas never_fails_parts = never_fails_bind never_fails_fold never_fails_zoom

lemma never_fails_emit [simp]: "never_fails (emit_file_written rel)" "never_fails (emit_optional p)"
proof -
  show e: "never_fails (emit_file_written rel)" for rel
    unfolding emit_file_written_def by (rule never_fails_pair) (simp add: never_fails_at)
  show "never_fails (emit_optional p)" by (cases p) (simp_all add: emit_optional_def e)
qed

text \<open>The drawing routine is a parameter of the pipeline; a panic of it would end the task.\<close>

definition draws :: "vision_env \<Rightarrow> bool" where
  "draws ve \<longleftrightarrow> (\<forall>b x y ext. ve_mark ve b x y ext \<noteq> None)"

lemma never_fails_process: "draws ve \<Longrightarrow> never_fails (process ve vp eyes ev k)"
proof -
  assume "draws ve"
  then have mark: "ve_mark ve b x y ext \<noteq> None" for b x y ext by (simp add: draws_def)
  have put: "never_fails (put_frame vp n b ct)" for n b ct
    by (simp add: put_frame_def Let_def never_fails_bind)
  then have saves: "never_fails (save_at ve vp b k ts m ext)" "never_fails (save_frame ve vp b k ts role ext)"
    "never_fails (save_optional ve vp f k ts role)" for b ts m ext role f
    by (auto simp: save_at_def save_frame_def save_optional_def never_fails_bind split: sum.split)
  have marked: "never_fails (save_at_marked ve vp b k ts x y ext)" for b ts x y ext
    using mark [of b x y ext] by (auto simp: save_at_marked_def never_fails_bind put split: option.split sum.split)
  have reads: "never_fails (read_frame_bytes vp rel)" "never_fails (read_optional vp p)" for rel p
    by (auto simp: read_optional_def read_frame_bytes_def never_fails_bind split: option.split)
  have finish: "never_fails (finish_frames ve vp b a k ts at)" for b a ts at
    by (auto simp: finish_frames_def never_fails_bind saves reads split: prod.split)
  have delayed: "never_fails (process_delayed_fetch ve vp eyes ev k d)" for d
    by (auto simp: process_delayed_fetch_def Let_def never_fails_bind saves finish split: sum.split option.split)
  show ?thesis
    by (auto simp: process_def Let_def never_fails_bind saves marked finish delayed
        split: fetch_decision.split sum.split option.split)
qed

lemma never_fails_vision: "draws (ce_vision E) \<Longrightarrow> never_fails (vision_step E eyes ev k conv)"
proof -
  assume "draws (ce_vision E)"
  note P = never_fails_process [OF this]
  have ready: "never_fails (\<lambda>(wt, w). if wt_is_automated wt \<and> \<not> is_degraded (wt_session_id wt) (w_maps w)
    then ignore (in_world (try_send (step_ready_msg wt k ev conv r))) (wt, w) else (Inr (), (wt, w)))" for r
    by (rule never_fails_pair) (simp add: never_fails_at)
  have world: "never_fails (in_world (process (ce_vision E) vp eyes ev k))" for vp
    by (simp add: in_world_def never_fails_zoom P)
  show ?thesis
    unfolding vision_step_def
    by (rule never_fails_pair, rule never_fails_at)
      (auto intro!: never_fails_bind world ready split: option.split)
qed

lemma never_fails_flush: "never_fails (flush_step E)"
proof -
  have "never_fails (\<lambda>(wt, w). if wt_is_cloud_primary wt then ignore (in_writer flush_to_cloud) (wt, w)
      else (Inr (), (wt, w)))"
    by (rule never_fails_pair) (simp add: never_fails_at)
  then show ?thesis
    unfolding flush_step_def by (auto intro!: never_fails_bind split: sum.split)
qed

section \<open>One event\<close>

lemma bind_io_assoc: "bind_io (bind_io m f) g = bind_io m (\<lambda>a. bind_io (f a) g)"
  by (rule ext) (simp add: bind_io_def split: prod.splits sum.splits)

lemma view_record_step:
  assumes "record_step E eyes ev conv k (wt, w) = (r, (wt', w'))"
  shows "state_view (wt_state wt') = (fst (state_view (wt_state wt)) @ [step_key (step_entry_of k ev conv)],
      snd (state_view (wt_state wt)) + 1)"
    and "writer_view (wt_writer wt') = writer_view (wt_writer wt)"
proof -
  let ?files = "fold_io (\<lambda>rel _. emit_file_written rel) (map fst COMMAND_FILES) ()"
  let ?click = "changing (\<lambda>(wt, w). (if action_type ev = ''mouse'' \<and> success ev
      then wt\<lparr>wt_last_click := Some (mouse_x ev, mouse_y ev)\<rparr> else wt, w)) :: (('a, 'b) watch, unit) io"
  let ?rest = "bind_io ?click (\<lambda>_. bind_io (vision_step E eyes ev k conv) (\<lambda>_. flush_step E))"
  obtain wt1 w1 where files: "?files (wt, w) = (Inr (), (wt1, w1))" "same_view (wt, w) (wt1, w1)"
  proof -
    obtain q wt1 w1 where run: "?files (wt, w) = (q, (wt1, w1))" by (metis prod_cases3)
    have "same_view (wt, w) (snd (?files (wt, w)))"
      by (rule stays_at) (simp add: same_view.keep_fold view_emit)
    moreover have "\<not> isl q" using never_fails_at [OF never_fails_fold, of "\<lambda>rel _. emit_file_written rel" _ _ "(wt, w)"] run
      by (metis fst_conv never_fails_emit(1))
    ultimately show ?thesis using that [of wt1 w1] run by (cases q) auto
  qed
  let ?wt2 = "wt1\<lparr>wt_state := cs_append_step (step_entry_of k ev conv) (wt_state wt1)\<rparr>"
  have run: "?rest (?wt2, w1) = (r, (wt', w'))"
    using assms by (simp add: record_step_def bind_io_def [of ?files] files(1) on_state_def)
  have click: "stays same_view ?click"
    by (rule same_view.keep_change) (auto simp: same_view_def)
  have "stays same_view ?rest" by (intro same_view.keep_bind click view_vision view_flush)
  from staysD [OF this run] files(2)
  show "state_view (wt_state wt') = (fst (state_view (wt_state wt)) @ [step_key (step_entry_of k ev conv)],
      snd (state_view (wt_state wt)) + 1)"
    and "writer_view (wt_writer wt') = writer_view (wt_writer wt)"
    by (simp_all add: same_view_def state_view_def cs_append_step_def edit_def push_step_def)
qed

lemma never_fails_record_step: "draws (ce_vision E) \<Longrightarrow> never_fails (record_step E eyes ev conv k)"
  unfolding record_step_def by (intro never_fails_parts never_fails_vision never_fails_flush) simp_all

text \<open>The inputs of a session its environment can serve: the converter and the drawing routine do not panic.\<close>

definition serves :: "'r capture_env \<Rightarrow> command_event list \<Rightarrow> bool" where
  "serves E evs \<longleftrightarrow> upper_ok (ce_upper E) \<and> draws (ce_vision E) \<and> (\<forall>ev \<in> set evs. utf8 (raw_command ev))"

lemma handle_event_position:
  assumes "action_type (ep_event ep) = ''position''" and "handle_event E ep eyes (wt, w) = (r, (wt', w'))"
  shows "r = Inr () \<and> same_view (wt, w) (wt', w')"
  using assms by (auto simp: handle_event_def Let_def on_state_def same_view_def)

lemma handle_event_step:
  fixes E :: "'r capture_env" and wt :: "('c, 'r) watching"
  assumes "action_type (ep_event ep) \<noteq> ''position''" and "serves E [ep_event ep]"
    and "handle_event E ep eyes (wt, w) = (r, (wt', w'))"
  shows "\<exists>new conv. to_human_readable (ce_upper E) (ep_event ep) = Some conv \<and> r = Inr ()
    \<and> (new = [] \<or> new = [step_key (step_entry_of (cw_step_counter (wt_writer wt) + 1) (ep_event ep) conv)])
    \<and> (cw_is_cloud_primary (wt_writer wt) \<and> serialises (ce_writer E) \<longrightarrow> new \<noteq> [])
    \<and> state_view (wt_state wt') = (fst (state_view (wt_state wt)) @ new, snd (state_view (wt_state wt)) + of_nat (length new))
    \<and> writer_view (wt_writer wt') = (cw_step_counter (wt_writer wt) + 1, cw_is_cloud_primary (wt_writer wt))"
proof -
  let ?ev = "ep_event ep" and ?k = "cw_step_counter (wt_writer wt) + 1"
  obtain conv where conv: "to_human_readable (ce_upper E) ?ev = Some conv"
    using assms(2) convert_never_panics_parts(2) by (auto simp: serves_def)
  define note_position :: "(('c, 'r) watch, unit) io" where
    "note_position = (case (ep_kafka_partition ep, ep_kafka_offset ep) of
      (Some part, Some offset) \<Rightarrow> on_state (cs_update_kafka_position part offset) | _ \<Rightarrow> ok ())"
  let ?first = "bind_io (on_state (record_agent_version (agent_version ?ev))) (\<lambda>_. note_position)"
  have first_keeps: "stays (\<lambda>s s'. same_view s s' \<and> wt_writer (fst s') = wt_writer (fst s)) ?first"
    by (auto simp: stays_def note_position_def bind_io_def on_state_def changing_def same_view_def split: option.split)
  have first_goes: "never_fails ?first"
    by (auto simp: note_position_def intro!: never_fails_bind split: option.split)
  obtain q wt1 w1 where run1: "?first (wt, w) = (q, (wt1, w1))" by (metis prod_cases3)
  have q: "q = Inr ()" using never_fails_at [OF first_goes, of "(wt, w)"] run1 by (cases q) auto
  have same1: "same_view (wt, w) (wt1, w1)" and writer1: "wt_writer wt1 = wt_writer wt"
    using staysD [OF first_keeps run1] by auto
  obtain written cw w2 where run2: "write_event (ce_writer E) ?ev conv (wt_writer wt1, w1) = (written, (cw, w2))"
    by (metis prod_cases3)
  note W = write_event_step [OF run2, unfolded writer1]
  let ?wt2 = "wt1\<lparr>wt_writer := cw\<rparr>"
  have rest: "(case written of Inl e \<Rightarrow> ok () | Inr step \<Rightarrow> record_step E eyes ?ev conv step) (?wt2, w2) = (r, (wt', w'))"
  proof -
    have "handle_event E ep eyes (wt, w) = bind_io ?first (\<lambda>_. bind_io (attempt (in_writer (write_event (ce_writer E) ?ev conv)))
      (\<lambda>written. case written of Inl e \<Rightarrow> ok () | Inr step \<Rightarrow> record_step E eyes ?ev conv step)) (wt, w)"
      using assms(1) by (simp add: handle_event_def Let_def conv note_position_def bind_io_assoc)
    also have "\<dots> = bind_io (attempt (in_writer (write_event (ce_writer E) ?ev conv)))
      (\<lambda>written. case written of Inl e \<Rightarrow> ok () | Inr step \<Rightarrow> record_step E eyes ?ev conv step) (wt1, w1)"
      by (rule bind_io_go, rule run1 [unfolded q], rule refl)
    finally show ?thesis using assms(3) by (simp add: bind_attempt in_writer_def zoom_def run2)
  qed
  show ?thesis
  proof (cases written)
    case (Inl e)
    with rest have "r = Inr ()" "wt' = ?wt2" by auto
    moreover have "\<not> (cw_is_cloud_primary (wt_writer wt) \<and> serialises (ce_writer E))"
      using W(3) Inl by auto
    ultimately show ?thesis using same1 W(1) conv
      by (intro exI [of _ "[]"] exI [of _ conv]) (simp add: same_view_def)
  next
    case (Inr k)
    with rest have run3: "record_step E eyes ?ev conv k (?wt2, w2) = (r, (wt', w'))" by simp
    note V = view_record_step [OF run3]
    have "r = Inr ()"
      using never_fails_at [OF never_fails_record_step, of E eyes ?ev conv k "(?wt2, w2)"] assms(2) run3
      by (cases r) (auto simp: serves_def)
    with V W(1) W(2) [OF Inr] same1 conv show ?thesis
      by (intro exI [of _ "[step_key (step_entry_of k ?ev conv)]"] exI [of _ conv]) (simp add: same_view_def)
  qed
qed

text \<open>The events a loop takes before it ends, and the steps they would be, numbered from a counter on.\<close>

fun taken :: "('c, 'r) input list \<Rightarrow> command_event list" where
  "taken [] = []"
| "taken (Event ep eyes # is) =
     (if action_type (ep_event ep) = ''position'' then taken is else ep_event ep # taken is)"
| "taken (OtherTasks f # is) = taken is"
| "taken (_ # is) = []"

fun numbered :: "(string \<Rightarrow> string) \<Rightarrow> u32 \<Rightarrow> command_event list \<Rightarrow> step_key list" where
  "numbered U n [] = []"
| "numbered U n (ev # evs) =
     step_key (step_entry_of (n + 1) ev (the (to_human_readable U ev))) # numbered U (n + 1) evs"

definition step_keys :: "('c, 'r) watching \<Rightarrow> step_key list" where
  "step_keys wt = map step_key (md_steps (cs_metadata (wt_state wt)))"

lemma run_inputs_steps:
  assumes "serves E (taken is)" and "run_inputs E is (wt, w) = (r, (wt', w'))"
  shows "\<exists>new. \<not> isl r \<and> subseq new (numbered (ce_upper E) (cw_step_counter (wt_writer wt)) (taken is))
    \<and> (cw_is_cloud_primary (wt_writer wt) \<and> serialises (ce_writer E)
        \<longrightarrow> new = numbered (ce_upper E) (cw_step_counter (wt_writer wt)) (taken is))
    \<and> state_view (wt_state wt') = (fst (state_view (wt_state wt)) @ new, snd (state_view (wt_state wt)) + of_nat (length new))
    \<and> writer_view (wt_writer wt') =
        (cw_step_counter (wt_writer wt) + of_nat (length (taken is)), cw_is_cloud_primary (wt_writer wt))"
  using assms
proof (induction "is" arbitrary: wt w)
  case (Cons i "is")
  show ?case
  proof (cases i)
    case (Event ep eyes)
    obtain q wt1 w1 where one: "handle_event E ep eyes (wt, w) = (q, (wt1, w1))" by (metis prod_cases3)
    show ?thesis
    proof (cases "action_type (ep_event ep) = ''position''")
      case True
      note H = handle_event_position [OF this one]
      then have run: "run_inputs E is (wt1, w1) = (r, (wt', w'))" using Cons.prems one by (simp add: Event bind_io_def)
      have "serves E (taken is)" using Cons.prems True by (simp add: Event)
      from Cons.IH [OF this run] H True show ?thesis by (simp add: Event same_view_def writer_view_def)
    next
      case False
      have sv: "serves E [ep_event ep]" "serves E (taken is)"
        using Cons.prems False by (simp_all add: Event serves_def)
      from handle_event_step [OF False sv(1) one] obtain new1 conv where H:
        "to_human_readable (ce_upper E) (ep_event ep) = Some conv" "q = Inr ()"
        "new1 = [] \<or> new1 = [step_key (step_entry_of (cw_step_counter (wt_writer wt) + 1) (ep_event ep) conv)]"
        "cw_is_cloud_primary (wt_writer wt) \<and> serialises (ce_writer E) \<longrightarrow> new1 \<noteq> []"
        "state_view (wt_state wt1) = (fst (state_view (wt_state wt)) @ new1, snd (state_view (wt_state wt)) + of_nat (length new1))"
        "writer_view (wt_writer wt1) = (cw_step_counter (wt_writer wt) + 1, cw_is_cloud_primary (wt_writer wt))" by blast
      then have run: "run_inputs E is (wt1, w1) = (r, (wt', w'))" using Cons.prems one by (simp add: Event bind_io_def)
      from Cons.IH [OF sv(2) run] obtain new where N: "\<not> isl r"
        "subseq new (numbered (ce_upper E) (cw_step_counter (wt_writer wt) + 1) (taken is))"
        "cw_is_cloud_primary (wt_writer wt) \<and> serialises (ce_writer E)
          \<longrightarrow> new = numbered (ce_upper E) (cw_step_counter (wt_writer wt) + 1) (taken is)"
        "state_view (wt_state wt') = (fst (state_view (wt_state wt1)) @ new, snd (state_view (wt_state wt1)) + of_nat (length new))"
        "writer_view (wt_writer wt') =
          (cw_step_counter (wt_writer wt) + 1 + of_nat (length (taken is)), cw_is_cloud_primary (wt_writer wt))"
        using H(6) by (auto simp: writer_view_def)
      have "subseq (new1 @ new) (numbered (ce_upper E) (cw_step_counter (wt_writer wt)) (ep_event ep # taken is))"
        using H(3) N(2) by (auto simp: H(1))
      moreover have "cw_is_cloud_primary (wt_writer wt) \<and> serialises (ce_writer E)
          \<longrightarrow> new1 @ new = numbered (ce_upper E) (cw_step_counter (wt_writer wt)) (ep_event ep # taken is)"
        using H(3,4) N(3) by (auto simp: H(1))
      ultimately show ?thesis using N(1,4,5) H(5) False
        by (intro exI [of _ "new1 @ new"]) (simp add: Event ac_simps)
    qed
  next
    case (OtherTasks f)
    with Cons.prems have run: "run_inputs E is (wt, f w) = (r, (wt', w'))"
      by (simp add: in_world_def zoom_def changing_def bind_io_def)
    from Cons.prems have "serves E (taken is)" by (simp add: OtherTasks)
    from Cons.IH [OF this run] show ?thesis by (simp add: OtherTasks)
  qed (use Cons.prems in \<open>auto simp: state_view_def writer_view_def\<close>)
qed (auto simp: state_view_def writer_view_def)


text \<open>A cloud session in which one event arrives before it is done.\<close>

definition letter_env :: "'r capture_env \<Rightarrow> 'r capture_env" where
  "letter_env E = E\<lparr>ce_upper := \<lambda>s. s, ce_writer := letter_codec,
     ce_vision := (ce_vision E)\<lparr>ve_mark := \<lambda>b x y ext. Some (Inl ''not an image'')\<rparr>\<rparr>"


end
