(* ===== verification/MA_Placeholders.thy ===== *)
theory MA_Placeholders
  imports MA_Watch_Loop
begin

text \<open>
  The placeholders a degraded session gets at its end: they fill the gaps of \<open>reasoning.jsonl\<close> and
  leave what is there alone.
\<close>

section \<open>Upserts on a healthy disk\<close>

text \<open>Nothing fails any more, the reasoning directory is there and the names in it are not directories.\<close>

definition healthy :: "string \<Rightarrow> disk \<Rightarrow> bool" where
  "healthy dir d \<longleftrightarrow> faults d = []
     \<and> (\<forall>cs \<in> set (tl (prefixes (comps (reasoning_dir dir)))).
          map_of (tree d) cs = Some Dir \<or> cs = [''/''] \<and> map_of (tree d) cs = None)
     \<and> node_at d (reasoning_tmp dir) \<noteq> Some Dir \<and> node_at d (reasoning_path dir) \<noteq> Some Dir
     \<and> (\<forall>raw. node_at d (reasoning_path dir) = Some (File raw) \<longrightarrow> utf8 raw)"

lemma make_dirs_there:
  "\<forall>cs \<in> set css. map_of (tree d) cs = Some Dir \<or> cs = [''/''] \<and> map_of (tree d) cs = None \<Longrightarrow>
    make_dirs css d = (Inr (), d)"
  by (induction css) auto

lemma healthy_create: "healthy dir d \<Longrightarrow> fs_create_dir_all (reasoning_dir dir) d = (Inr (), d)"
  by (simp add: healthy_def fs_create_dir_all_def guarded_def next_fault_def make_dirs_there)

lemma reasoning_dir_comps: "comps (reasoning_dir dir) \<noteq> []" "comps (reasoning_dir dir) \<noteq> [''/'']"
  "last (comps (reasoning_dir dir)) = ''reasoning''"
proof -
  have name: "comps ''reasoning'' = [''reasoning'']" by (simp add: comps_def)
  show l: "last (comps (reasoning_dir dir)) = ''reasoning''"
  proof (cases "dir = []")
    case True
    then show ?thesis by (simp add: reasoning_dir_def path_join_def name)
  next
    case False
    then show ?thesis by (simp add: reasoning_dir_def comps_join name)
  qed
  show ne: "comps (reasoning_dir dir) \<noteq> []"
  proof (cases "dir = []")
    case True
    then show ?thesis by (simp add: reasoning_dir_def path_join_def name)
  next
    case False
    then show ?thesis by (simp add: reasoning_dir_def comps_join name)
  qed
  show "comps (reasoning_dir dir) \<noteq> [''/'']" using l by auto
qed

lemma healthy_parent: "healthy dir d \<Longrightarrow> map_of (tree d) (comps (reasoning_dir dir)) = Some Dir"
proof -
  have "xs \<noteq> [] \<Longrightarrow> xs \<in> set (tl (prefixes xs))" for xs :: "string list" by (cases xs) auto
  from this [OF reasoning_dir_comps(1)]
  have "comps (reasoning_dir dir) \<in> set (tl (prefixes (comps (reasoning_dir dir))))" .
  then show "healthy dir d \<Longrightarrow> ?thesis"
    using reasoning_dir_comps(2) [of dir] by (auto simp: healthy_def)
qed

lemma healthy_read:
  assumes "healthy dir d"
  shows "(\<not> fs_exists d (reasoning_path dir) \<and> entries_at ec dir d = [])
    \<or> (\<exists>raw. fs_exists d (reasoning_path dir) \<and> node_at d (reasoning_path dir) = Some (File raw)
        \<and> fs_read_to_string (reasoning_path dir) d = (Inr raw, d) \<and> entries_at ec dir d = parse_entries ec raw)"
proof (cases "node_at d (reasoning_path dir)")
  case None
  then show ?thesis by (simp add: fs_exists_def entries_at_def)
next
  case (Some n)
  with assms obtain raw where raw: "n = File raw" "utf8 raw" "faults d = []"
    by (cases n) (auto simp: healthy_def)
  then have "fs_read_to_string (reasoning_path dir) d = (Inr raw, d)"
    using Some by (simp add: fs_read_to_string_def fs_read_def guarded_def next_fault_def bind_io_def)
  with Some raw show ?thesis by (simp add: fs_exists_def entries_at_def)
qed

lemma healthy_load: "healthy dir d \<Longrightarrow> \<exists>m. load_entries ec (reasoning_path dir) d = (Inr m, d)"
  using healthy_read [of dir d ec] by (auto simp: load_entries_def bind_context_Inr)

lemma healthy_replace:
  assumes "healthy dir d" and "utf8 content"
  shows "\<exists>d'. bind_io (context_io c (fs_write (reasoning_tmp dir) content))
      (\<lambda>_. context_io c' (fs_rename (reasoning_tmp dir) (reasoning_path dir))) d = (Inr (), d') \<and> healthy dir d'"
proof -
  note R = reasoning_comps [of dir]
  let ?d1 = "d\<lparr>tree := tree_put (comps (reasoning_tmp dir)) (File content) (tree d)\<rparr>"
  let ?d2 = "d\<lparr>tree := tree_put (comps (reasoning_path dir)) (File content)
      (filter (\<lambda>(k, _). k \<noteq> comps (reasoning_tmp dir)) (tree ?d1))\<rparr>"
  have clean: "faults d = []" and parent: "map_of (tree d) (comps (reasoning_dir dir)) = Some Dir"
    and dirs: "\<forall>cs \<in> set (tl (prefixes (comps (reasoning_dir dir)))).
      map_of (tree d) cs = Some Dir \<or> cs = [''/''] \<and> map_of (tree d) cs = None"
    and files: "node_at d (reasoning_tmp dir) \<noteq> Some Dir" "node_at d (reasoning_path dir) \<noteq> Some Dir"
    using assms(1) healthy_parent [OF assms(1)] by (auto simp: healthy_def)
  have "fs_write (reasoning_tmp dir) content d = (Inr (), ?d1)"
    using clean parent files by (simp add: fs_write_def guarded_def next_fault_def put_file_def parent_ok_def R)
  moreover have "fs_rename (reasoning_tmp dir) (reasoning_path dir) ?d1 = (Inr (), ?d2)"
    using clean parent files reasoning_dir_comps [of dir]
    by (simp add: fs_rename_def guarded_def next_fault_def do_rename_def node_at_def parent_ok_def R)
  ultimately have "bind_io (context_io c (fs_write (reasoning_tmp dir) content))
      (\<lambda>_. context_io c' (fs_rename (reasoning_tmp dir) (reasoning_path dir))) d = (Inr (), ?d2)"
    by (simp add: bind_context_Inr)
  moreover have "healthy dir ?d2"
  proof -
    have other: "cs \<in> set (tl (prefixes (comps (reasoning_dir dir)))) \<Longrightarrow>
        cs \<noteq> comps (reasoning_dir dir) @ [x]" for cs x
      by (metis append_prefixD in_set_prefixes list.set_sel(2) not_Cons_self2 prefix_order.antisym
          prefix_def prefixes_not_Nil same_append_eq self_append_conv)
    show ?thesis
      using clean dirs assms(2) reasoning_dir_comps(1,2) [of dir] other
      by (auto simp: healthy_def node_at_def R map_of_filter_key [of "\<lambda>k. k \<noteq> _"])
  qed
  ultimately show ?thesis by blast
qed

lemma upsert_entry_healthy:
  assumes "healthy dir d" and "\<forall>e \<in> set (entries_at ec dir d) \<union> {entry}. printable ec e"
  shows "\<exists>d'. upsert_entry ec dir entry d = (Inr (), d') \<and> healthy dir d'"
proof -
  obtain m where m: "load_entries ec (reasoning_path dir) d = (Inr m, d)"
    using healthy_load [OF assms(1)] by blast
  note L = load_entries_result(2) [OF m refl]
  let ?es = "sort_key re_step_id (map snd (AList.update (re_step_id entry) entry m))"
  have "\<forall>e \<in> set ?es. printable ec e"
    using assms(2) L order_trans [OF values_update insert_mono, of m "set (entries_at ec dir d)" "re_step_id entry" entry]
    by auto
  from parse_render(2) [OF this] have "utf8 (render_entries ec ?es)" .
  from healthy_replace [OF assms(1) this] show ?thesis
    using m healthy_create [OF assms(1)]
    by (simp add: upsert_entry_def bind_context_Inr Let_def bind_io_apply_Inr del: map_map)
qed

section \<open>Placeholders\<close>

text \<open>What one placeholder and then all of them do to the entries.\<close>

definition is_placeholder :: "'r capture_env \<Rightarrow> step_entry list \<Rightarrow> reasoning_entry \<Rightarrow> bool" where
  "is_placeholder E steps e \<longleftrightarrow> (\<exists>t. \<exists>s \<in> set steps. e = degraded_entry (to_rfc3339 (ce_clock E) t) s)"

definition can_print :: "'r capture_env \<Rightarrow> string \<Rightarrow> step_entry list \<Rightarrow> ('c, 'r) world \<Rightarrow> bool" where
  "can_print E dir steps w \<longleftrightarrow>
     (\<forall>e. e \<in> set (entries_at (ce_entries E) dir (w_disk w)) \<or> is_placeholder E steps e \<longrightarrow> printable (ce_entries E) e)"

text \<open>From one world to the next: entries of existing steps stay, others may become placeholders, none goes.\<close>

definition fills :: "'r capture_env \<Rightarrow> string \<Rightarrow> u32 set \<Rightarrow> step_entry list \<Rightarrow> ('c, 'r) world \<Rightarrow> ('c, 'r) world \<Rightarrow> bool" where
  "fills E dir existing steps w w' \<longleftrightarrow>
     (let before = entry_of (entries_at (ce_entries E) dir (w_disk w));
          after = entry_of (entries_at (ce_entries E) dir (w_disk w')) in
      (\<forall>k. after k = before k
         \<or> k \<notin> existing \<and> (\<exists>e. after k = Some e \<and> re_step_id e = k \<and> is_placeholder E steps e))
      \<and> (can_print E dir steps w \<longrightarrow> can_print E dir steps w'))"

lemma fills_refl: "fills E dir ex steps w w"
  by (simp add: fills_def)

lemma fills_trans:
  assumes "fills E dir ex steps w w1" and "fills E dir ex steps w1 w2"
  shows "fills E dir ex steps w w2"
proof -
  let ?at = "\<lambda>w. entry_of (entries_at (ce_entries E) dir (w_disk w))"
  have A: "?at w1 k = ?at w k \<or> k \<notin> ex \<and> (\<exists>e. ?at w1 k = Some e \<and> re_step_id e = k \<and> is_placeholder E steps e)"
    and B: "?at w2 k = ?at w1 k \<or> k \<notin> ex \<and> (\<exists>e. ?at w2 k = Some e \<and> re_step_id e = k \<and> is_placeholder E steps e)" for k
    using assms by (auto simp: fills_def Let_def)
  have "?at w2 k = ?at w k \<or> k \<notin> ex \<and> (\<exists>e. ?at w2 k = Some e \<and> re_step_id e = k \<and> is_placeholder E steps e)" for k
    using A [of k] B [of k] by metis
  with assms show ?thesis by (simp add: fills_def Let_def)
qed

interpretation fills: kept "fills E dir ex steps" for E dir ex steps
  by unfold_locales (auto intro: fills_refl fills_trans)

lemma fills_keeps_steps:
  assumes "fills E dir ex steps w w'"
  shows "k \<in> ex \<Longrightarrow> entry_of (entries_at (ce_entries E) dir (w_disk w')) k
      = entry_of (entries_at (ce_entries E) dir (w_disk w)) k"
    and "entry_of (entries_at (ce_entries E) dir (w_disk w)) k \<noteq> None \<Longrightarrow>
      entry_of (entries_at (ce_entries E) dir (w_disk w')) k \<noteq> None"
proof -
  have F: "entry_of (entries_at (ce_entries E) dir (w_disk w')) k = entry_of (entries_at (ce_entries E) dir (w_disk w)) k
      \<or> k \<notin> ex \<and> (\<exists>e. entry_of (entries_at (ce_entries E) dir (w_disk w')) k = Some e)"
    using assms unfolding fills_def Let_def by blast
  then show "k \<in> ex \<Longrightarrow> entry_of (entries_at (ce_entries E) dir (w_disk w')) k
      = entry_of (entries_at (ce_entries E) dir (w_disk w)) k" by blast
  show "entry_of (entries_at (ce_entries E) dir (w_disk w)) k \<noteq> None \<Longrightarrow>
      entry_of (entries_at (ce_entries E) dir (w_disk w')) k \<noteq> None" using F by auto
qed

lemma utc_now_apply: "\<exists>t w'. utc_now w = (Inr t, w') \<and> w_disk w' = w_disk w"
  by (cases "w_clock w" rule: remdups_adj.cases) (auto simp: utc_now_def)

lemma write_placeholder_step:
  assumes "write_placeholder E dir ex s any w = (r, w')" and "s \<in> set steps" and "can_print E dir steps w"
  shows "fills E dir ex steps w w'" and "\<not> isl r"
    and "healthy dir (w_disk w) \<Longrightarrow> healthy dir (w_disk w')
      \<and> (se_step_id s \<in> ex \<or> entry_of (entries_at (ce_entries E) dir (w_disk w')) (se_step_id s) \<noteq> None)"
proof -
  have "fills E dir ex steps w w' \<and> \<not> isl r \<and> (healthy dir (w_disk w) \<longrightarrow> healthy dir (w_disk w')
      \<and> (se_step_id s \<in> ex \<or> entry_of (entries_at (ce_entries E) dir (w_disk w')) (se_step_id s) \<noteq> None))"
  proof (cases "se_step_id s \<in> ex")
    case True
    with assms(1) show ?thesis by (auto simp: write_placeholder_def fills_refl)
  next
    case False
    obtain t w1 where now: "utc_now w = (Inr t, w1)" and disk: "w_disk w1 = w_disk w" using utc_now_apply by blast
    let ?e = "degraded_entry (to_rfc3339 (ce_clock E) t) s"
    obtain q d' where up: "upsert_entry (ce_entries E) dir ?e (w_disk w) = (q, d')" by fastforce
    have r: "\<not> isl r" "w_disk w' = d'"
      using assms(1) False now up
      by (auto simp: write_placeholder_def bind_io_def attempt_def on_disk_def zoom_def disk)
    have e: "is_placeholder E steps ?e" "re_step_id ?e = se_step_id s"
      using assms(2) by (auto simp: is_placeholder_def degraded_entry_def)
    have print: "\<forall>e \<in> set (entries_at (ce_entries E) dir (w_disk w)) \<union> {?e}. printable (ce_entries E) e"
      using assms(3) e(1) by (auto simp: can_print_def)
    note U = upsert_entry_step [OF print up]
    have "fills E dir ex steps w w'"
    proof (cases q)
      case (Inl x)
      then have "entries_at (ce_entries E) dir d' = entries_at (ce_entries E) dir (w_disk w)"
        using U by (simp add: entries_at_def)
      then show ?thesis by (simp add: fills_def can_print_def r)
    next
      case (Inr u)
      with U e False show ?thesis by (auto simp: fills_def can_print_def r Let_def)
    qed
    moreover have "healthy dir (w_disk w') \<and> entry_of (entries_at (ce_entries E) dir (w_disk w')) (se_step_id s) \<noteq> None"
      if "healthy dir (w_disk w)"
      using upsert_entry_healthy [OF that print] up U e(2) by (auto simp: r)
    ultimately show ?thesis using r by blast
  qed
  then show "fills E dir ex steps w w'" "\<not> isl r"
    "healthy dir (w_disk w) \<Longrightarrow> healthy dir (w_disk w')
      \<and> (se_step_id s \<in> ex \<or> entry_of (entries_at (ce_entries E) dir (w_disk w')) (se_step_id s) \<noteq> None)" by blast+
qed

lemma write_placeholders_steps:
  assumes "fold_io (write_placeholder E dir ex) todo any w = (r, w')" and "set todo \<subseteq> set steps"
    and "can_print E dir steps w"
  shows "fills E dir ex steps w w' \<and> \<not> isl r
    \<and> (healthy dir (w_disk w) \<longrightarrow> healthy dir (w_disk w')
        \<and> (\<forall>s \<in> set todo. se_step_id s \<in> ex
              \<or> entry_of (entries_at (ce_entries E) dir (w_disk w')) (se_step_id s) \<noteq> None))"
  using assms
proof (induction todo arbitrary: any w)
  case (Cons s todo)
  obtain q w1 where one: "write_placeholder E dir ex s any w = (q, w1)" by fastforce
  have "s \<in> set steps" using Cons.prems(2) by simp
  note S = write_placeholder_step [OF one this Cons.prems(3)]
  then obtain a where a: "q = Inr a" by (cases q) auto
  have rest: "fold_io (write_placeholder E dir ex) todo a w1 = (r, w')"
    using Cons.prems(1) one a by (simp add: bind_io_def)
  have "can_print E dir steps w1" using S(1) Cons.prems(3) by (simp add: fills_def Let_def)
  note I = Cons.IH [OF rest _ this]
  have I: "fills E dir ex steps w1 w'" "\<not> isl r" "healthy dir (w_disk w1) \<Longrightarrow> healthy dir (w_disk w')
        \<and> (\<forall>s \<in> set todo. se_step_id s \<in> ex
              \<or> entry_of (entries_at (ce_entries E) dir (w_disk w')) (se_step_id s) \<noteq> None)"
    using I Cons.prems(2) by auto
  have "fills E dir ex steps w w'" by (rule fills_trans [OF S(1) I(1)])
  moreover have "healthy dir (w_disk w) \<Longrightarrow> se_step_id s \<in> ex
      \<or> entry_of (entries_at (ce_entries E) dir (w_disk w')) (se_step_id s) \<noteq> None"
    using S(3) fills_keeps_steps(2) [OF I(1), of "se_step_id s"] by blast
  ultimately show ?case using S(3) I(2,3) by simp
qed (auto simp: fills_refl)

text \<open>
  What the text of the file is to be for the scan of its ids to see its entries, and a disk whose next
  two operations - making the directory, reading the file - do not fail by themselves.
\<close>

definition scannable :: "'r capture_env \<Rightarrow> string \<Rightarrow> disk \<Rightarrow> bool" where
  "scannable E dir d \<longleftrightarrow> list_all (\<lambda>f. f = None) (take 2 (faults d))
     \<and> (\<forall>raw. node_at d (reasoning_path dir) = Some (File raw) \<longrightarrow>
          utf8 raw \<and> existing_ids (ce_json E) raw = re_step_id ` set (parse_entries (ce_entries E) raw))"

definition leaves_disk :: "('c, 'r) world storage_backend \<Rightarrow> bool" where
  "leaves_disk b \<longleftrightarrow> (\<forall>sid p bytes ct w. w_disk (snd (sb_put b sid p bytes ct w)) = w_disk w)"

lemma entry_of_None: "entry_of es k = None \<longleftrightarrow> k \<notin> re_step_id ` set es"
  by (force simp: entry_of_def map_of_eq_None_iff)

lemma make_dirs_faults: "make_dirs css d = (r, d') \<Longrightarrow> faults d' = faults d"
  by (induction css d rule: make_dirs.induct) (auto split: option.splits node.splits if_splits)

text \<open>The ids the scan finds, and the disk it leaves: the same entries, still healthy if it was.\<close>

lemma scan_step:
  assumes "scannable E dir (w_disk w)"
    and "fs_create_dir_all (reasoning_dir dir) (w_disk w) = (q, d1)" and "w1 = w\<lparr>w_disk := d1\<rparr>"
    and "(if fs_exists (w_disk w1) (reasoning_path dir)
          then bind_io (attempt (on_disk (fs_read_to_string (reasoning_path dir))))
                 (\<lambda>r. ok (case r of Inr raw \<Rightarrow> existing_ids (ce_json E) raw | Inl e \<Rightarrow> {})) w1
          else (Inr {}, w1)) = (x, w2)"
  shows "x = Inr (re_step_id ` set (entries_at (ce_entries E) dir (w_disk w)))"
    and "entries_at (ce_entries E) dir (w_disk w2) = entries_at (ce_entries E) dir (w_disk w)"
    and "healthy dir (w_disk w) \<Longrightarrow> healthy dir (w_disk w2)"
proof -
  let ?p = "reasoning_path dir"
  have one: "faults d1 = tl (faults (w_disk w))"
  proof -
    have "fst (next_fault (w_disk w)) = None" "faults (snd (next_fault (w_disk w))) = tl (faults (w_disk w))"
      using assms(1) by (auto simp: scannable_def next_fault_def split: list.splits)
    with assms(2) show ?thesis
      by (auto simp: fs_create_dir_all_def guarded_def dest: make_dirs_faults split: prod.splits option.splits)
  qed
  then have clean: "fst (next_fault d1) = None"
    using assms(1) by (cases "faults (w_disk w)"; cases "tl (faults (w_disk w))") (auto simp: scannable_def next_fault_def)
  have same: "node_at d1 ?p = node_at (w_disk w) ?p"
    by (rule create_dir_frame [OF assms(2)]) (simp add: reasoning_comps)
  obtain d2 where nf: "next_fault d1 = (None, d2)" using clean by (metis prod.collapse)
  note t2 = node_at_same [OF next_fault_tree [OF nf]]
  have "x = Inr (re_step_id ` set (entries_at (ce_entries E) dir (w_disk w)))
    \<and> node_at (w_disk w2) ?p = node_at d1 ?p \<and> (w_disk w2 = d1 \<or> w_disk w2 = d2)"
  proof (cases "node_at d1 ?p")
    case None
    then show ?thesis using assms(3,4) same by (auto simp: fs_exists_def entries_at_def)
  next
    case (Some n)
    show ?thesis
    proof (cases n)
      case Dir
      have "fs_read_to_string ?p d1 = (Inl is_a_directory, d2)"
        using Some Dir nf t2 by (simp add: fs_read_to_string_def fs_read_def guarded_def bind_io_def)
      then show ?thesis using assms(3,4) Some Dir same t2
        by (auto simp: fs_exists_def entries_at_def bind_attempt on_disk_def zoom_def)
    next
      case (File raw)
      have ids: "existing_ids (ce_json E) raw = re_step_id ` set (parse_entries (ce_entries E) raw)" "utf8 raw"
        using assms(1) same Some File by (auto simp: scannable_def)
      have "fs_read_to_string ?p d1 = (Inr raw, d2)"
        using Some File nf t2 ids(2) by (simp add: fs_read_to_string_def fs_read_def guarded_def bind_io_def)
      then show ?thesis using assms(3,4) Some File same t2 ids(1)
        by (auto simp: fs_exists_def entries_at_def bind_attempt on_disk_def zoom_def)
    qed
  qed
  note A = this
  then show "x = Inr (re_step_id ` set (entries_at (ce_entries E) dir (w_disk w)))" by blast
  show "entries_at (ce_entries E) dir (w_disk w2) = entries_at (ce_entries E) dir (w_disk w)"
    using A same by (simp add: entries_at_def)
  assume h: "healthy dir (w_disk w)"
  then have "d1 = w_disk w" using healthy_create [OF h] assms(2) by simp
  moreover have "d2 = d1" using nf h \<open>d1 = w_disk w\<close> by (simp add: next_fault_def healthy_def)
  ultimately show "healthy dir (w_disk w2)" using A h by auto
qed

lemma fs_read_frame: "node_at (snd (fs_read p d)) q = node_at d q"
proof -
  obtain r d' where run: "fs_read p d = (r, d')" by fastforce
  have "tree d' = tree d"
    using run [unfolded fs_read_def]
  proof (cases rule: guarded_cases)
    case (1 d1)
    then have "d' = d1" by (auto split: option.splits node.splits)
    with 1 show ?thesis by simp
  qed simp
  from node_at_same [OF this, of q] run show ?thesis by simp
qed

lemma upload_frame:
  "leaves_disk b \<Longrightarrow>
    node_at (w_disk (snd (bind_io (on_disk (fs_read p)) (\<lambda>bytes. sb_put b sid n bytes ct) w))) q = node_at (w_disk w) q"
  using fs_read_frame [of p "w_disk w" q]
  by (auto simp: leaves_disk_def bind_io_def on_disk_def zoom_def split: prod.splits sum.splits)

text \<open>A run with something to do: the scan, the writing, and what is left of it.\<close>

lemma placeholders_run:
  fixes w w' :: "('c, 'r) world"
  assumes "write_degraded_placeholders E sid dir name steps cloud storage w = (r, w')" and "steps \<noteq> []"
    and "fs_create_dir_all (reasoning_dir dir) (w_disk w) = (Inr u, d1)"
    and "scannable E dir (w_disk w)" and "can_print E dir steps w" and "leaves_disk storage"
  obtains y and w2 w3 :: "('c, 'r) world" where
    "fold_io (write_placeholder E dir (re_step_id ` set (entries_at (ce_entries E) dir (w_disk w)))) steps False w2 = (y, w3)"
    "entries_at (ce_entries E) dir (w_disk w2) = entries_at (ce_entries E) dir (w_disk w)"
    "healthy dir (w_disk w) \<longrightarrow> healthy dir (w_disk w2)" "can_print E dir steps w2"
    "r = Inr ()" "node_at (w_disk w') (reasoning_path dir) = node_at (w_disk w3) (reasoning_path dir)"
proof -
  let ?w1 = "w\<lparr>w_disk := d1\<rparr>"
  let ?scan = "if fs_exists (w_disk ?w1) (reasoning_path dir)
        then bind_io (attempt (on_disk (fs_read_to_string (reasoning_path dir))))
               (\<lambda>r. ok (case r of Inr raw \<Rightarrow> existing_ids (ce_json E) raw | Inl e \<Rightarrow> {})) ?w1
        else (Inr {}, ?w1)"
  let ?ids = "re_step_id ` set (entries_at (ce_entries E) dir (w_disk w))"
  obtain x w2 where scan: "?scan = (x, w2)" by fastforce
  note S = scan_step [OF assms(4) assms(3) refl scan]
  obtain y w3 where fold: "fold_io (write_placeholder E dir ?ids) steps False w2 = (y, w3)" by fastforce
  have print: "can_print E dir steps w2" using assms(5) S(2) by (simp add: can_print_def)
  note F = write_placeholders_steps [OF fold subset_refl print]
  then obtain any where any: "y = Inr any" by (cases y) auto
  let ?upload = "\<lambda>any. if any \<and> cloud then ignore (bind_io (on_disk (fs_read (reasoning_path dir))) (\<lambda>bytes.
         sb_put storage sid (name @ ''/reasoning/reasoning.jsonl'') bytes ''application/json'')) else ok ()"
  let ?scanning = "\<lambda>w. if fs_exists (w_disk w) (reasoning_path dir)
        then bind_io (attempt (on_disk (fs_read_to_string (reasoning_path dir))))
               (\<lambda>r. ok (case r of Inr raw \<Rightarrow> existing_ids (ce_json E) raw | Inl e \<Rightarrow> {})) w
        else (Inr {}, w)"
  have made: "attempt (on_disk (fs_create_dir_all (reasoning_dir dir))) w = (Inr (Inr u), ?w1)"
    using assms(3) by (simp add: attempt_def on_disk_def zoom_def)
  have "bind_io ?scanning (\<lambda>ids. bind_io (fold_io (write_placeholder E dir ids) steps False) ?upload) ?w1 = (r, w')"
    using assms(1,2)
    by (simp add: write_degraded_placeholders_def bind_io_def [of "attempt (on_disk (fs_create_dir_all _))"] made)
  then have "bind_io (fold_io (write_placeholder E dir ?ids) steps False) ?upload w2 = (r, w')"
    using scan S(1) by (simp add: bind_io_def [of ?scanning])
  then have "?upload any w3 = (r, w')" using fold any by (simp add: bind_io_def [of "fold_io _ _ _"])
  then have end_: "r = Inr ()" "node_at (w_disk w') (reasoning_path dir) = node_at (w_disk w3) (reasoning_path dir)"
    using upload_frame [OF assms(6), of "reasoning_path dir" sid "name @ ''/reasoning/reasoning.jsonl''" "''application/json''" w3 "reasoning_path dir"]
    by (cases "any \<and> cloud"; force simp: ignore_def split: prod.splits)+
  have "healthy dir (w_disk w) \<longrightarrow> healthy dir (w_disk w2)" using S(3) by blast
  from that [OF fold S(2) this print end_] show thesis .
qed


text \<open>A degraded session of one step, on a disk that works.\<close>

definition one_step_world :: "(unit, unit) world" where
  "one_step_world =
     \<lparr>w_disk = \<lparr>tree = [([''m''], Dir), ([''m'', ''reasoning''], Dir)], faults = []\<rparr>, w_cloud = (), w_redis = (),
      w_maps = empty_maps, w_pushed = [], w_push_fails = [], w_clock = [], w_done_handles = {}, w_kafka_sessions = {}\<rparr>"

definition one_step_env :: "step_entry \<Rightarrow> 'r capture_env \<Rightarrow> 'r capture_env" where
  "one_step_env s E = E\<lparr>ce_clock := (ce_clock E)\<lparr>to_rfc3339 := \<lambda>_. ''now''\<rparr>,
     ce_entries := one_line_codec (degraded_entry ''now'' s)\<rparr>"

definition silent_store :: "(unit, unit) world storage_backend" where
  "silent_store =
     \<lparr>sb_put = \<lambda>sid p bytes ct. ok (), sb_get = \<lambda>sid p. fail ''not found'', sb_list = \<lambda>sid p. ends (ok []),
      sb_delete = \<lambda>sid p. ok (), sb_delete_all = \<lambda>sid. ends (ok 0)\<rparr>"


end
