(* ===== verification/MA_End_Facts.thy ===== *)
theory MA_End_Facts
  imports MA_Watch_Facts MA_Placeholders
begin

text \<open>The token ledger of a session at its clean end.\<close>

section \<open>Parts of the ending that do not report tokens\<close>

text \<open>
  A backend that leaves the maps alone is the one the session's parts hold from its start. What none
  of them does is report tokens: a part keeps the storage and the maps.
\<close>

definition writer_quiet :: "('c, 'r) writing \<Rightarrow> ('c, 'r) writing \<Rightarrow> bool" where
  "writer_quiet s s' \<longleftrightarrow> (leaves_maps (cw_storage (fst s)) \<longrightarrow>
     w_maps (snd s') = w_maps (snd s) \<and> cw_storage (fst s') = cw_storage (fst s))"

interpretation writer_quiet: kept writer_quiet
  by unfold_locales (auto simp: writer_quiet_def)

lemma writer_quiet_world: "(\<And>w. w_maps (snd (m w)) = w_maps w) \<Longrightarrow> stays writer_quiet (writer_world m)"
  by (simp add: stays_def writer_quiet_def writer_world_def zoom_def split_beta)

lemma writer_quiet_put: "stays writer_quiet (\<lambda>(cw, w). context_io c
    (writer_world (sb_put (cw_storage cw) (f cw) (g cw) (h cw) ct)) (cw, w))"
  by (auto simp: stays_def writer_quiet_def writer_world_def zoom_def maps_put split: prod.splits) (metis maps_put snd_conv)

lemma writer_quiet_finalise: "stays writer_quiet (finalise jc)"
proof -
  have put: "stays writer_quiet (put_command_file n buf ct)" for n buf ct
    unfolding put_command_file_def by (rule writer_quiet_put)
  have cloud: "stays writer_quiet flush_to_cloud"
    unfolding flush_to_cloud_def
    by (rule stays_pair) (simp add: stays_at writer_quiet.keep_bind put writer_quiet.R_refl)
  have buf: "stays writer_quiet (finalise_jsonl_buf_cloud jc n b)" for n b
    unfolding finalise_jsonl_buf_cloud_def by (intro writer_quiet.keep_bind writer_quiet.keep_pure writer_quiet_put)
  have disk: "stays writer_quiet (writer_world (on_disk m))" for m :: "(disk, unit) io"
    by (rule writer_quiet_world) simp
  show ?thesis
    unfolding finalise_def
    by (rule stays_pair) (simp add: stays_at writer_quiet.keep_bind buf cloud disk)
qed

text \<open>A session whose ledger is closed: nothing is pending and nobody reports any more.\<close>

definition closed :: "('c, 'r) watch \<Rightarrow> bool" where
  "closed = (\<lambda>(wt, w). cs_session_id (wt_state wt) = wt_session_id wt
     \<and> leaves_maps (wt_storage wt) \<and> leaves_maps (cs_storage (wt_state wt)) \<and> leaves_maps (cw_storage (wt_writer wt))
     \<and> rm_tokens (w_maps w) (wt_session_id wt) = None \<and> rm_provider_tokens (w_maps w) (wt_session_id wt) = None)"

definition same_booking :: "('c, 'r) watch \<Rightarrow> ('c, 'r) watch \<Rightarrow> bool" where
  "same_booking s s' \<longleftrightarrow> (closed s \<longrightarrow> closed s' \<and> wt_session_id (fst s') = wt_session_id (fst s)
     \<and> md_total_input_tokens (cs_metadata (wt_state (fst s'))) = md_total_input_tokens (cs_metadata (wt_state (fst s)))
     \<and> md_total_output_tokens (cs_metadata (wt_state (fst s'))) = md_total_output_tokens (cs_metadata (wt_state (fst s)))
     \<and> md_token_costs_by_provider (cs_metadata (wt_state (fst s'))) = md_token_costs_by_provider (cs_metadata (wt_state (fst s))))"

interpretation same_booking: kept same_booking
  by unfold_locales (auto simp: same_booking_def)

lemma booking_world: "(\<And>w. w_maps (snd (m w)) = w_maps w) \<Longrightarrow> stays same_booking (in_world m)"
  by (auto simp: stays_def same_booking_def closed_def in_world_def zoom_def split: prod.splits) (metis snd_conv)+

lemma booking_writer: "stays writer_quiet m \<Longrightarrow> stays same_booking (in_writer m)"
  by (auto simp: stays_def same_booking_def closed_def writer_quiet_def in_writer_def zoom_def split: prod.splits)
    (metis fst_conv snd_conv)+

lemma booking_edit: "keeps_tokens f \<Longrightarrow> stays same_booking (on_state (edit f))"
  by (auto simp: stays_def same_booking_def closed_def on_state_def changing_def keeps_tokens_def)

lemma booking_flush_now: "stays same_booking (in_state (flush_now mc))"
  unfolding stays_def
proof
  fix s :: "('a, 'b) watch"
  obtain wt w where s: "s = (wt, w)" by fastforce
  let ?cs = "wt_state wt\<lparr>cs_steps_since_flush := 0\<rparr>"
  obtain r cs' w' where run: "flush mc (?cs, w) = (r, (cs', w'))" by (metis prod_cases3)
  then have out: "in_state (flush_now mc) (wt, w) = (r, (wt\<lparr>wt_state := cs'\<rparr>, w'))"
    by (simp add: in_state_def zoom_def flush_now_def)
  show "same_booking s (snd (in_state (flush_now mc) s))"
  proof (cases "closed s")
    case True
    then have "leaves_maps (cs_storage ?cs)" by (simp add: closed_def s)
    from flush_books [OF run this] True show ?thesis
      by (simp add: same_booking_def out closed_def s drain_into_apply pending_def add_totals_def add_provider_costs_def
          drain_tokens_def drain_provider_tokens_def unwrap_or_def Let_def)
  qed (simp add: same_booking_def)
qed

lemma maps_pure [simp]:
  "w_maps (snd (on_redis m w)) = w_maps w" "w_maps (snd (utc_now w)) = w_maps w" "w_maps (snd (try_send msg w)) = w_maps w"
proof -
  show "w_maps (snd (on_redis m w)) = w_maps w" by (simp add: on_redis_def zoom_def split_beta)
  show "w_maps (snd (utc_now w)) = w_maps w"
    by (cases "w_clock w" rule: remdups_adj.cases) (simp_all add: utc_now_def)
  show "w_maps (snd (try_send msg w)) = w_maps w" by (simp add: try_send_def split: list.split bool.split)
qed

lemma booking_emit: "stays same_booking (emit_file_written rel)"
  unfolding emit_file_written_def
  by (rule stays_pair) (simp add: stays_at booking_world same_booking.keep_ignore same_booking.R_refl)

definition same_maps :: "('c, 'r) world \<Rightarrow> ('c, 'r) world \<Rightarrow> bool" where
  "same_maps w w' \<longleftrightarrow> w_maps w' = w_maps w"

interpretation same_maps: kept same_maps
  by unfold_locales (simp_all add: same_maps_def)

lemma maps_placeholders:
  assumes "leaves_maps b"
  shows "w_maps (snd (write_degraded_placeholders E sid dir name steps cloud b w)) = w_maps w"
proof -
  have disk: "stays same_maps (on_disk m)" for m :: "(disk, 'x) io" by (simp add: stays_def same_maps_def)
  have now: "stays same_maps utc_now" by (simp add: stays_def same_maps_def)
  have put: "stays same_maps (sb_put b sid n bytes ct)" for n bytes ct by (simp add: stays_def same_maps_def maps_put [OF assms])
  have one: "stays same_maps (write_placeholder E dir ex s any)" for ex s any
    by (simp add: write_placeholder_def same_maps.keep_bind same_maps.keep_pure same_maps.keep_attempt now disk)
  have scan: "stays same_maps (\<lambda>w. if fs_exists (w_disk w) (reasoning_path dir)
      then bind_io (attempt (on_disk (fs_read_to_string (reasoning_path dir))))
             (\<lambda>r. ok (case r of Inr raw \<Rightarrow> existing_ids (ce_json E) raw | Inl e \<Rightarrow> {})) w
      else (Inr {}, w))"
    unfolding stays_def
    by (auto intro: same_maps.R_refl stays_at [OF same_maps.keep_bind [OF same_maps.keep_attempt [OF disk] same_maps.keep_pure(1)]])
  have "stays same_maps (write_degraded_placeholders E sid dir name steps cloud b)"
    unfolding write_degraded_placeholders_def
    by (auto intro!: same_maps.keep_bind same_maps.keep_pure same_maps.keep_attempt same_maps.keep_ignore same_maps.keep_fold
        one scan disk put split: sum.split)
  then show ?thesis by (simp add: stays_def same_maps_def)
qed

section \<open>The clean end\<close>

lemma booking_end:
  fixes E :: "'r capture_env"
  shows "stays (same_booking :: ('c, 'r) watch \<Rightarrow> _) (end_cleanly E deg)"
proof -
  have last: "stays (same_booking :: ('c, 'r) watch \<Rightarrow> _) (\<lambda>(wt, w).
     bind_io (if wt_is_automated wt
        then in_world (write_degraded_placeholders E (wt_session_id wt) (wt_memory_dir wt) (rec_memory_name (wt_record wt))
               (md_steps (cs_metadata (wt_state wt))) (wt_is_cloud_primary wt) (wt_storage wt))
        else ok ()) (\<lambda>_.
     ignore (in_world (on_redis (update_status (ce_redis E) (ce_clock E) (wt_session_id wt)
       (if deg then PendingHumanAnnotation else PendingAnnotation))))) (wt, w))"
    unfolding stays_def
  proof
    fix s :: "('c, 'r) watch"
    obtain wt w where s: "s = (wt, w)" by fastforce
    let ?status = "ignore (in_world (on_redis (update_status (ce_redis E) (ce_clock E) (wt_session_id wt)
       (if deg then PendingHumanAnnotation else PendingAnnotation)))) :: (('c, 'r) watch, unit) io"
    have status: "stays same_booking ?status" by (simp add: same_booking.keep_ignore booking_world)
    let ?fill = "in_world (write_degraded_placeholders E (wt_session_id wt) (wt_memory_dir wt) (rec_memory_name (wt_record wt))
               (md_steps (cs_metadata (wt_state wt))) (wt_is_cloud_primary wt) (wt_storage wt))"
    have go: "same_booking (wt, w) (snd (bind_io (if wt_is_automated wt then ?fill else ok ()) (\<lambda>_. ?status) (wt, w)))"
    proof (cases "wt_is_automated wt \<and> leaves_maps (wt_storage wt)")
      case True
      then have "stays same_booking ?fill" by (simp add: booking_world maps_placeholders)
      from stays_at [OF same_booking.keep_bind [OF this status]] True show ?thesis by simp
    next
      case False
      then show ?thesis
        using stays_at [OF status, of "(wt, w)"] by (auto simp: same_booking_def closed_def)
    qed
    then show "same_booking s (snd (case s of (wt, w) \<Rightarrow> bind_io (if wt_is_automated wt
        then in_world (write_degraded_placeholders E (wt_session_id wt) (wt_memory_dir wt) (rec_memory_name (wt_record wt))
               (md_steps (cs_metadata (wt_state wt))) (wt_is_cloud_primary wt) (wt_storage wt))
        else ok ()) (\<lambda>_.
       ignore (in_world (on_redis (update_status (ce_redis E) (ce_clock E) (wt_session_id wt)
         (if deg then PendingHumanAnnotation else PendingAnnotation))))) (wt, w)))" by (simp add: s)
  qed
  have edits: "stays same_booking (on_state (cs_mark_complete now))" "stays same_booking (on_state cs_clear_in_progress)" for now
    unfolding cs_mark_complete_def cs_clear_in_progress_def by (rule booking_edit, simp add: keeps_tokens_def)+
  have announce: "stays same_booking (case q of Inl e \<Rightarrow> ok () | Inr _ \<Rightarrow> bind_io (emit_file_written p) (\<lambda>_. emit_file_written p'))"
    "stays same_booking (case q of Inl e \<Rightarrow> ok () | Inr _ \<Rightarrow> emit_file_written p)" for q :: "unit result" and p p'
    by (cases q; simp add: same_booking.keep_bind same_booking.keep_pure booking_emit)+
  show ?thesis
    unfolding end_cleanly_def
    by (intro same_booking.keep_bind same_booking.keep_attempt booking_writer writer_quiet_finalise announce
        booking_world edits booking_flush_now last maps_pure)
qed

text \<open>
  What the client reported and no flush has booked when the done signal arrives is lost. A clean
  end first forgets the session in the reasoning maps and then writes the document for the last time,
  so the final counters, in total and by provider, are those of the last flush before the end,
  whatever was pending, and nothing is pending any more.
\<close>

lemma final_tokens_dropped:
  assumes "end_watch E Clean (wt, w) = (r, (wt', w'))" and "cs_session_id (wt_state wt) = wt_session_id wt"
    and "leaves_maps (wt_storage wt)" and "leaves_maps (cs_storage (wt_state wt))" and "leaves_maps (cw_storage (wt_writer wt))"
  shows "md_total_input_tokens (cs_metadata (wt_state wt')) = md_total_input_tokens (cs_metadata (wt_state wt))
    \<and> md_total_output_tokens (cs_metadata (wt_state wt')) = md_total_output_tokens (cs_metadata (wt_state wt))
    \<and> md_token_costs_by_provider (cs_metadata (wt_state wt')) = md_token_costs_by_provider (cs_metadata (wt_state wt))
    \<and> pending (wt_session_id wt) (w_maps w') = (0, 0)"
proof -
  let ?w1 = "w\<lparr>w_kafka_sessions := w_kafka_sessions w - {wt_session_id wt}, w_maps := remove_session (wt_session_id wt) (w_maps w)\<rparr>"
  let ?rest = "bind_io (end_cleanly E (is_degraded (wt_session_id wt) (w_maps w))) (\<lambda>_.
     bind_io (in_world (changing (\<lambda>w. w\<lparr>w_done_handles := w_done_handles w - {wt_session_id wt}\<rparr>))) (\<lambda>_.
     reading (\<lambda>(wt, w). cw_step_counter (wt_writer wt))))"
  have "closed (wt, ?w1)" using assms(2-5) by (simp add: closed_def remove_session_def)
  moreover have run: "?rest (wt, ?w1) = (r, (wt', w'))"
    using assms(1) by (simp add: end_watch_def leave_maps_def in_world_def zoom_def bind_io_def)
  moreover have "stays same_booking ?rest"
    by (intro same_booking.keep_bind booking_end booking_world same_booking.keep_pure) (simp add: changing_def)
  ultimately have "same_booking (wt, ?w1) (wt', w')" by (blast intro: staysD)
  with \<open>closed (wt, ?w1)\<close> show ?thesis by (auto simp: same_booking_def closed_def pending_def unwrap_or_def)
qed

lemma final_tokens_dropped_witness:
  "\<forall>(E :: unit capture_env) (wt :: (unit, unit) watching) m.
     let wt0 = wt\<lparr>wt_session_id := ''s'', wt_storage := silent_store, wt_state := capture_new m ''s'' ''m'' silent_store 5 False,
           wt_writer := writer_new ''m'' False ''s'' silent_store\<rparr>;
         w0 = one_step_world\<lparr>w_maps := add_tokens ''s'' 5 7 empty_maps\<rparr>;
         out = snd (end_watch E Clean (wt0, w0)) in
     pending ''s'' (w_maps w0) = (5, 7) \<and> pending ''s'' (w_maps (snd out)) = (0, 0)
     \<and> md_total_input_tokens (cs_metadata (wt_state (fst out))) = md_total_input_tokens m"
proof (intro allI, unfold Let_def)
  fix E :: "unit capture_env" and wt :: "(unit, unit) watching" and m
  let ?wt = "wt\<lparr>wt_session_id := ''s'', wt_storage := silent_store, wt_state := capture_new m ''s'' ''m'' silent_store 5 False,
           wt_writer := writer_new ''m'' False ''s'' silent_store\<rparr>"
  let ?w = "one_step_world\<lparr>w_maps := add_tokens ''s'' 5 7 empty_maps\<rparr>"
  obtain r wt' w' where run: "end_watch E Clean (?wt, ?w) = (r, (wt', w'))" by (metis prod_cases3)
  have "leaves_maps silent_store" by (simp add: leaves_maps_def silent_store_def)
  then have "md_total_input_tokens (cs_metadata (wt_state wt')) = md_total_input_tokens m \<and> pending ''s'' (w_maps w') = (0, 0)"
    using final_tokens_dropped [OF run] by (simp add: capture_new_def writer_new_def)
  moreover have "pending ''s'' (w_maps ?w) = (5, 7)"
    by (simp add: pending_def add_tokens_def empty_maps_def plus_counts_def unwrap_or_def)
  ultimately show "pending ''s'' (w_maps ?w) = (5, 7) \<and> pending ''s'' (w_maps (snd (snd (end_watch E Clean (?wt, ?w))))) = (0, 0)
     \<and> md_total_input_tokens (cs_metadata (wt_state (fst (snd (end_watch E Clean (?wt, ?w)))))) = md_total_input_tokens m"
    unfolding run fst_conv snd_conv by blast
qed

end
