(* ===== verification/MA_Ipc_Files.thy ===== *)
theory MA_Ipc_Files
  imports MA_World "HOL-Library.AList"
begin

unbundle bit_operations_syntax

text \<open>
  The file side of the request server (\<open>ipc/mod.rs\<close>): which paths a request may name, the listing of a
  session directory, what an uploaded file is turned into, and the comparison of secrets.
\<close>

section \<open>Paths of a request\<close>

text \<open>\<open>Path::components\<close> keeps a dot only in front.\<close>

definition rust_comps :: "string \<Rightarrow> string list" where
  "rust_comps p = (if p = ''.'' \<or> prefix ''./'' p then [''.''] else []) @ comps p"

definition outside_msg :: string where
  "outside_msg = ''relative_path traverses outside session directory''"

fun normalise :: "string list \<Rightarrow> string list \<Rightarrow> string list result" where
  "normalise acc [] = Inr acc"
| "normalise acc (c # cs) =
     (if c = ''..''
      then (if acc = [] \<or> acc = [''/''] then Inl outside_msg else normalise (butlast acc) cs)
      else if c = ''.'' then normalise acc cs
      else normalise (acc @ [c]) cs)"

definition validate_relative_path :: "string \<Rightarrow> string \<Rightarrow> string result" where
  "validate_relative_path memory_path relative_path =
     (if relative_path = [] then Inl ''relative_path must not be empty''
      else and_then (normalise [] (rust_comps (path_join memory_path relative_path))) (\<lambda>cs.
        if prefix (rust_comps memory_path) cs then Inr (path_of cs) else Inl outside_msg))"

section \<open>Listing\<close>

text \<open>
  The levels that are left: the code counts its depth up and stops past 10. What cannot be read is
  left out.
\<close>

definition entry_size :: "disk \<Rightarrow> string \<Rightarrow> u64" where
  "entry_size d path = (case node_at d path of Some (File bytes) \<Rightarrow> of_nat (length bytes) | _ \<Rightarrow> 0)"

fun list_dir_inner :: "nat \<Rightarrow> string \<Rightarrow> string \<Rightarrow> (disk, file_entry list) io" where
  "list_dir_inner 0 dir base = ok []"
| "list_dir_inner (Suc levels) dir base =
     bind_io (attempt (fs_read_dir dir)) (\<lambda>entries.
     case entries of
       Inl e \<Rightarrow> ok []
     | Inr names \<Rightarrow>
         fold_io (\<lambda>name results d.
           let path = path_join dir name in
           if node_at d path = Some Dir
           then bind_io (list_dir_inner levels path base) (\<lambda>sub. ok (results @ sub)) d
           else
             (case path_strip_prefix base path of
                Some rel \<Rightarrow> (Inr (results @ [\<lparr>fe_path = rel, fe_size = entry_size d path\<rparr>]), d)
              | None \<Rightarrow> (Inr results, d))) names [])"

definition list_dir_recursive :: "string \<Rightarrow> string \<Rightarrow> (disk, file_entry list) io" where
  "list_dir_recursive dir base = list_dir_inner 11 dir base"

section \<open>Uploads\<close>

text \<open>
  \<open>serde_json\<close> on a map: reading one, its compact form and its pretty form.
\<close>

record upload_codec =
  uc_map :: "string \<Rightarrow> (string \<times> json) list result"
  uc_line :: "(string \<times> json) list \<Rightarrow> string result"
  uc_pretty :: "(string \<times> json) list \<Rightarrow> string result"

definition MAX_UPLOAD_BYTES :: nat where
  "MAX_UPLOAD_BYTES = 50 * 1024 * 1024"

fun human_lines :: "upload_codec \<Rightarrow> nat \<Rightarrow> string list \<Rightarrow> string list result" where
  "human_lines uc line_no [] = Inr []"
| "human_lines uc line_no (line # rest) =
     (if trim line = [] then human_lines uc (line_no + 1) rest
      else
        (case uc_map uc (trim line) of
           Inl e \<Rightarrow> Inl (''Line '' @ show_nat (line_no + 1) @ '': not valid JSON: '' @ e)
         | Inr obj \<Rightarrow>
             and_then (uc_line uc (AList.update ''source'' (Str ''human'') obj)) (\<lambda>out.
             and_then (human_lines uc (line_no + 1) rest) (\<lambda>outs. Inr (out # outs)))))"

definition enforce_reasoning_source_human :: "upload_codec \<Rightarrow> string \<Rightarrow> string result" where
  "enforce_reasoning_source_human uc bytes =
     (if \<not> utf8 bytes then Inl ''reasoning.jsonl is not valid UTF-8''
      else and_then (human_lines uc 0 (str_lines bytes)) (\<lambda>out_lines.
        if out_lines = [] then Inl ''reasoning.jsonl upload contains no valid entries''
        else Inr (join [newline] out_lines @ [newline])))"

fun is_integer :: "json \<Rightarrow> bool" where
  "is_integer (Number (PosInt n)) = True"
| "is_integer (Number (NegInt i)) = True"
| "is_integer _ = False"

definition COUNTERS :: "string list" where
  "COUNTERS = [''annotated_steps'', ''skipped_steps'']"

fun allowed_fields :: "(string \<times> json) list \<Rightarrow> string list \<Rightarrow> (string \<times> json) list \<Rightarrow> (string \<times> json) list result" where
  "allowed_fields incoming [] allowed = Inr allowed"
| "allowed_fields incoming (key # keys) allowed =
     (case map_of incoming key of
        None \<Rightarrow> allowed_fields incoming keys allowed
      | Some val \<Rightarrow>
          if \<not> is_integer val
          then Inl (''Field '' @ [squote] @ key @ [squote] @ '' must be an integer'')
          else allowed_fields incoming keys (AList.update key val allowed))"

definition enforce_metadata_annotator_fields :: "upload_codec \<Rightarrow> string \<Rightarrow> string result" where
  "enforce_metadata_annotator_fields uc bytes =
     (if \<not> utf8 bytes then Inl ''metadata.json is not valid UTF-8''
      else
        (case uc_map uc bytes of
           Inl e \<Rightarrow> Inl (''metadata.json is not valid JSON: '' @ e)
         | Inr incoming \<Rightarrow>
             if map_of incoming ''status'' \<noteq> None
             then Inl (''Annotators may not update the '' @ [squote] @ ''status'' @ [squote]
               @ '' field in metadata.json. Status transitions are controlled by ma-core.'')
             else and_then (allowed_fields incoming COUNTERS []) (\<lambda>allowed.
               if allowed = []
               then Inl ''metadata.json upload from annotator must contain at least one of: annotated_steps, skipped_steps''
               else uc_pretty uc allowed)))"

section \<open>Secrets\<close>

definition bytes_of :: "string \<Rightarrow> 8 word list" where
  "bytes_of s = map of_char s"

definition constant_time_eq :: "string \<Rightarrow> string \<Rightarrow> bool" where
  "constant_time_eq a b =
     (if length a \<noteq> length b then False
      else fold (\<lambda>(x, y) acc. acc OR (x XOR y)) (zip (bytes_of a) (bytes_of b)) 0 = 0)"

section \<open>Facts\<close>

lemma of_char_byte: "(of_char c :: 8 word) = of_char d \<longleftrightarrow> c = d"
proof
  assume "(of_char c :: 8 word) = of_char d"
  then have "(word_of_nat (of_char c) :: 8 word) = word_of_nat (of_char d)" by (simp only: of_nat_of_char)
  then have "(of_char c :: nat) mod 256 = of_char d mod 256" by (simp add: word_of_nat_eq_iff take_bit_eq_mod)
  then show "c = d" by simp
qed simp

lemma or_zero: "(a OR b = (0 :: 8 word)) \<longleftrightarrow> a = 0 \<and> b = 0"
  by (auto simp: bit_eq_iff bit_simps)

lemma xor_zero: "(a XOR b = (0 :: 8 word)) \<longleftrightarrow> a = b"
  by (auto simp: bit_eq_iff bit_simps)

lemma fold_diff: "fold (\<lambda>(x, y) acc. acc OR (x XOR y)) ps acc = (0 :: 8 word) \<longleftrightarrow> acc = 0 \<and> (\<forall>(x, y) \<in> set ps. x = y)"
  by (induction ps arbitrary: acc) (auto simp: or_zero xor_zero)

lemma constant_time_eq_iff: "constant_time_eq a b \<longleftrightarrow> a = b"
proof (cases "length a = length b")
  case True
  have "(\<forall>(x, y) \<in> set (zip (bytes_of a) (bytes_of b)). x = y) \<longleftrightarrow> a = b"
    using True by (induction a b rule: list_induct2) (auto simp: bytes_of_def of_char_byte)
  with True show ?thesis by (simp add: constant_time_eq_def fold_diff)
qed (auto simp: constant_time_eq_def)

section \<open>Paths: what is accepted stays inside\<close>

definition name_ok :: "string \<Rightarrow> bool" where
  "name_ok c \<longleftrightarrow> c \<noteq> [] \<and> c \<noteq> ''.'' \<and> list_all (\<lambda>x. x \<noteq> CHR ''/'') c"

definition well_comps :: "string list \<Rightarrow> bool" where
  "well_comps cs \<longleftrightarrow> (case cs of [] \<Rightarrow> True | c # r \<Rightarrow> (c = ''/'' \<or> name_ok c) \<and> list_all name_ok r)"

lemma split_at_parts: "c \<in> set (split_at p s) \<Longrightarrow> list_all (\<lambda>x. \<not> p x) c"
proof (induction s arbitrary: c)
  case (Cons x s)
  then show ?case by (cases "split_at p s") (auto split: if_splits)
qed simp

lemma split_parts_ok: "list_all name_ok (filter (\<lambda>c. c \<noteq> [] \<and> c \<noteq> ''.'') (split_at (\<lambda>c. c = CHR ''/'') p))"
  using split_at_parts [of _ "\<lambda>c. c = CHR ''/''" p] by (auto simp: list_all_iff name_ok_def)

lemma well_comps_names: "list_all name_ok r \<Longrightarrow> well_comps r"
  by (auto simp: well_comps_def split: list.splits)

lemma well_comps_comps: "well_comps (comps p)"
  using split_parts_ok [of p] by (auto simp: comps_def well_comps_def split: list.splits)

lemma split_at_join:
  assumes "list_all name_ok r" and "r \<noteq> []" shows "split_at (\<lambda>c. c = CHR ''/'') (join ''/'' r) = r"
  using assms
proof (induction "''/''" r rule: join.induct)
  case (3 s t ss)
  then have "list_all (\<lambda>c. c \<noteq> CHR ''/'') s" by (simp add: name_ok_def)
  with 3 show ?case using split_at_append [of "\<lambda>c. c = CHR ''/''" s "CHR ''/''"] by simp
qed (simp_all add: name_ok_def split_at_none)

lemma join_starts_with_name: "list_all name_ok (c # r) \<Longrightarrow> \<not> prefix ''/'' (join ''/'' (c # r))"
  by (cases r; cases c) (auto simp: name_ok_def)

lemma comps_path_of:
  assumes "well_comps cs" shows "comps (path_of cs) = cs"
proof (cases cs)
  case Nil
  then show ?thesis by (simp add: path_of_def comps_def)
next
  case (Cons c r)
  have keep: "filter (\<lambda>c. c \<noteq> [] \<and> c \<noteq> ''.'') xs = xs" if "list_all name_ok xs" for xs
    using that by (auto simp: filter_id_conv list_all_iff name_ok_def)
  from assms Cons have r: "list_all name_ok r" by (simp add: well_comps_def)
  show ?thesis
  proof (cases "c = ''/''")
    case True
    then show ?thesis using Cons r keep [OF r] split_at_join [OF r]
      by (cases "r = []") (simp_all add: path_of_def comps_def)
  next
    case False
    with assms Cons have cs: "list_all name_ok cs" by (simp add: well_comps_def)
    with Cons False show ?thesis
      using keep [OF cs] split_at_join [OF cs] join_starts_with_name [of c r] by (simp add: path_of_def comps_def)
  qed
qed

lemma well_comps_butlast: "well_comps cs \<Longrightarrow> well_comps (butlast cs)"
  by (cases cs) (auto simp: well_comps_def list_all_iff dest: in_set_butlastD)

lemma well_comps_snoc: "well_comps cs \<Longrightarrow> name_ok c \<Longrightarrow> well_comps (cs @ [c])"
  by (cases cs) (auto simp: well_comps_def)

lemma normalise_sound:
  assumes "normalise acc cs = Inr r" and "well_comps acc" and "''..'' \<notin> set acc"
    and "\<forall>c \<in> set cs. c = ''.'' \<or> name_ok c"
  shows "well_comps r \<and> ''..'' \<notin> set r"
  using assms
proof (induction acc cs rule: normalise.induct)
  case (2 acc c cs)
  show ?case
  proof (cases "c = ''..''")
    case True
    with 2 show ?thesis by (auto simp: well_comps_butlast dest: in_set_butlastD split: if_splits)
  next
    case False
    with 2 show ?thesis by (auto simp: well_comps_snoc split: if_splits)
  qed
qed simp

lemma normalise_plain: "list_all (\<lambda>c. c \<noteq> ''..'' \<and> c \<noteq> ''.'') cs \<Longrightarrow> normalise acc cs = Inr (acc @ cs)"
  by (induction cs arbitrary: acc) auto

lemma comps_no_dot: "''.'' \<notin> set (comps p)"
  by (auto simp: comps_def)

lemma comps_parts: "\<exists>root r. comps p = root @ r \<and> (root = [] \<or> root = [''/'']) \<and> list_all name_ok r"
  by (rule exI [of _ "if prefix ''/'' p then [''/''] else []"], rule exI, rule conjI, rule comps_def)
     (simp add: split_parts_ok)

lemma validate_sound:
  assumes "validate_relative_path m r = Inr p"
  shows "prefix (comps m) (comps p) \<and> ''..'' \<notin> set (comps p)"
proof -
  obtain cs where cs: "normalise [] (rust_comps (path_join m r)) = Inr cs" "prefix (rust_comps m) cs" "p = path_of cs"
    using assms by (auto simp: validate_relative_path_def and_then_def split: if_splits sum.splits)
  obtain root names where parts: "comps (path_join m r) = root @ names" "root = [] \<or> root = [''/'']" "list_all name_ok names"
    using comps_parts by blast
  let ?dot = "if path_join m r = ''.'' \<or> prefix ''./'' (path_join m r) then [''.''] else []"
  have "normalise root names = Inr cs"
    using cs(1) parts by (auto simp: rust_comps_def split: if_splits)
  then have good: "well_comps cs \<and> ''..'' \<notin> set cs"
    by (rule normalise_sound) (use parts in \<open>auto simp: well_comps_def list_all_iff\<close>)
  then have "''.'' \<notin> set cs"
    by (auto simp: well_comps_def name_ok_def list_all_iff split: list.splits)
  then have "rust_comps m = comps m" using cs(2) by (auto simp: rust_comps_def prefix_def split: if_splits)
  with cs good show ?thesis by (simp add: comps_path_of)
qed

lemma validate_complete:
  assumes m: "m \<noteq> []" "m \<noteq> ''.''" "\<not> prefix ''./'' m" "''..'' \<notin> set (comps m)"
    and r: "r \<noteq> []" "\<not> prefix ''/'' r" "''..'' \<notin> set (comps r)"
  shows "\<exists>p. validate_relative_path m r = Inr p \<and> comps p = comps m @ comps r"
proof -
  let ?cs = "comps m @ comps r"
  have "\<not> (path_join m r = ''.'' \<or> prefix ''./'' (path_join m r))"
    using m r by (cases m; cases "tl m") (auto simp: path_join_def)
  then have joined: "rust_comps (path_join m r) = ?cs" using m r by (simp add: rust_comps_def comps_join)
  have "list_all (\<lambda>c. c \<noteq> ''..'' \<and> c \<noteq> ''.'') ?cs"
    using m r comps_no_dot by (auto simp: list_all_iff)
  then have "normalise [] ?cs = Inr ?cs" using normalise_plain [of ?cs "[]"] by simp
  moreover have "rust_comps m = comps m" using m by (simp add: rust_comps_def)
  ultimately have "validate_relative_path m r = Inr (path_of ?cs)"
    using r joined by (simp add: validate_relative_path_def)
  moreover have "comps (path_of ?cs) = ?cs"
    using comps_path_of [OF well_comps_comps, of "path_join m r"] m r by (simp add: comps_join)
  ultimately show ?thesis by blast
qed

text \<open>
  C31. The path check of every file request confines it: an accepted path has the components of the
  session directory in front and no \<open>..\<close> after normalisation, whatever the client wrote; and a plain
  relative path under a plain session directory is accepted and names what it says.
\<close>
theorem path_confined:
  "(\<forall>p. validate_relative_path m r = Inr p \<longrightarrow> prefix (comps m) (comps p) \<and> ''..'' \<notin> set (comps p))
   \<and> (m \<noteq> [] \<and> m \<noteq> ''.'' \<and> \<not> prefix ''./'' m \<and> ''..'' \<notin> set (comps m)
        \<and> r \<noteq> [] \<and> \<not> prefix ''/'' r \<and> ''..'' \<notin> set (comps r)
      \<longrightarrow> (\<exists>p. validate_relative_path m r = Inr p \<and> comps p = comps m @ comps r))"
  using validate_sound validate_complete by blast

theorem path_confined_witness:
  "validate_relative_path ''/data/m1'' ''../m2/metadata.json'' = Inl outside_msg
   \<and> validate_relative_path ''/data/m1'' ''frames/../metadata.json'' = Inr ''/data/m1/metadata.json''
   \<and> prefix [''/'', ''data'', ''m1''] (comps ''/data/m1/metadata.json'')
   \<and> (\<exists>p. validate_relative_path ''/data/m1'' ''frames/a.png'' = Inr p
        \<and> comps p = [''/'', ''data'', ''m1'', ''frames'', ''a.png''])"
proof -
  have out: "validate_relative_path ''/data/m1'' ''../m2/metadata.json'' = Inl outside_msg"
    and inside: "validate_relative_path ''/data/m1'' ''frames/../metadata.json'' = Inr ''/data/m1/metadata.json''"
    by code_simp+
  have c: "comps ''/data/m1'' = [''/'', ''data'', ''m1'']" "comps ''frames/a.png'' = [''frames'', ''a.png'']"
    by code_simp+
  show ?thesis
    using out inside path_confined [of "''/data/m1''" "''frames/../metadata.json''"]
      path_confined [of "''/data/m1''" "''frames/a.png''"] by (simp add: c)
qed

section \<open>Uploads: what is stored\<close>

text \<open>
  What \<open>serde_json\<close> does with maps: both forms read back to the same map, and the compact form is one
  line.
\<close>

definition map_codec :: "upload_codec \<Rightarrow> bool" where
  "map_codec uc \<longleftrightarrow>
     (\<forall>obj s. uc_line uc obj = Inr s \<longrightarrow>
        plain_line s \<and> (\<exists>obj'. uc_map uc s = Inr obj' \<and> map_of obj' = map_of obj))
     \<and> (\<forall>obj s. uc_pretty uc obj = Inr s \<longrightarrow> (\<exists>obj'. uc_map uc s = Inr obj' \<and> map_of obj' = map_of obj))"

lemma map_codec_line:
  "map_codec uc \<Longrightarrow> uc_line uc obj = Inr s \<Longrightarrow>
     plain_line s \<and> (\<exists>obj'. uc_map uc s = Inr obj' \<and> map_of obj' = map_of obj)"
  by (simp add: map_codec_def)

lemma map_codec_pretty:
  "map_codec uc \<Longrightarrow> uc_pretty uc obj = Inr s \<Longrightarrow> \<exists>obj'. uc_map uc s = Inr obj' \<and> map_of obj' = map_of obj"
  by (simp add: map_codec_def)

definition made_human :: "upload_codec \<Rightarrow> string \<Rightarrow> string \<Rightarrow> bool" where
  "made_human uc line out \<longleftrightarrow>
     (\<exists>obj obj'. uc_map uc (trim line) = Inr obj \<and> uc_map uc out = Inr obj'
        \<and> map_of obj' = (map_of obj)(''source'' \<mapsto> Str ''human''))"

lemma human_lines_sound:
  assumes "map_codec uc"
  shows "human_lines uc n ls = Inr outs \<Longrightarrow>
    list_all2 (\<lambda>l out. made_human uc l out \<and> plain_line out) (filter (\<lambda>l. trim l \<noteq> []) ls) outs"
proof (induction ls arbitrary: n outs)
  case (Cons line rest)
  show ?case
  proof (cases "trim line = []")
    case False
    let ?new = "\<lambda>obj. AList.update ''source'' (Str ''human'') obj"
    obtain obj where obj: "uc_map uc (trim line) = Inr obj"
      using Cons.prems False by (cases "uc_map uc (trim line)") simp_all
    obtain out outs' where parts: "uc_line uc (?new obj) = Inr out" "human_lines uc (n + 1) rest = Inr outs'"
        "outs = out # outs'"
      using Cons.prems False obj by (auto simp: and_then_Inr_iff)
    obtain obj' where "uc_map uc out = Inr obj'" "map_of obj' = map_of (?new obj)" "plain_line out"
      using map_codec_line [OF assms parts(1)] by (elim conjE exE)
    then have "made_human uc line out \<and> plain_line out" using obj by (auto simp: made_human_def update_conv)
    with Cons.IH [OF parts(2)] parts False obj show ?thesis by simp
  qed (use Cons in simp)
qed simp

lemma join_unlines: "ls \<noteq> [] \<Longrightarrow> join [newline] ls @ [newline] = unlines ls"
  by (induction "[newline]" ls rule: join.induct) (auto simp: unlines_def)

lemma reasoning_upload_human:
  assumes "map_codec uc" and "enforce_reasoning_source_human uc bytes = Inr out"
  shows "str_lines out \<noteq> [] \<and> list_all2 (made_human uc) (filter (\<lambda>l. trim l \<noteq> []) (str_lines bytes)) (str_lines out)"
proof -
  obtain outs where outs: "human_lines uc 0 (str_lines bytes) = Inr outs" "outs \<noteq> []"
      "out = join [newline] outs @ [newline]"
    using assms(2) by (auto simp: enforce_reasoning_source_human_def and_then_Inr_iff split: if_splits)
  note sound = human_lines_sound [OF assms(1) outs(1)]
  have "\<forall>l \<in> set outs. newline \<notin> set l \<and> carriage \<notin> set l"
    using sound by (auto simp: list_all2_conv_all_nth in_set_conv_nth plain_line_def)
  then have "str_lines out = outs" using outs by (simp add: join_unlines lines_unlines)
  with outs sound show ?thesis by (auto elim: list_all2_mono)
qed

lemma reasoning_upload_lines:
  "enforce_reasoning_source_human uc bytes = Inr out \<Longrightarrow>
     \<exists>outs. human_lines uc 0 (str_lines bytes) = Inr outs \<and> outs \<noteq> [] \<and> out = unlines outs"
  by (auto simp: enforce_reasoning_source_human_def and_then_Inr_iff join_unlines split: if_splits)

definition one_map :: upload_codec where
  "one_map = \<lparr>uc_map = \<lambda>s. if s = ''a'' then Inr [(''source'', Str ''vlm''), (''n'', Null)]
        else if s = ''b'' then Inr [(''source'', Str ''human''), (''n'', Null)] else Inl ''bad'',
     uc_line = \<lambda>m. if m = [(''source'', Str ''human''), (''n'', Null)] then Inr ''b'' else Inl ''bad'',
     uc_pretty = \<lambda>m. Inl ''bad''\<rparr>"

lemma one_map_codec: "map_codec one_map"
  by (auto simp: map_codec_def one_map_def plain_line_def is_visible_def is_ascii_def is_ascii_ws_def)

text \<open>
  C32. An annotator's \<open>reasoning.jsonl\<close> is stored with every entry marked as written by a human: the
  stored lines read back to the uploaded entries in order, blank lines aside, with \<open>source\<close> replaced and
  every other field as it was; one malformed line and the whole upload is refused.
\<close>
theorem uploads_are_human:
  assumes "map_codec uc" and "enforce_reasoning_source_human uc bytes = Inr out"
  shows "str_lines out \<noteq> [] \<and> list_all2 (made_human uc) (filter (\<lambda>l. trim l \<noteq> []) (str_lines bytes)) (str_lines out)"
  by (rule reasoning_upload_human [OF assms])

theorem uploads_are_human_witness:
  "enforce_reasoning_source_human one_map ([CHR '' '', CHR ''a'', newline, newline] @ ''b'') = Inr [CHR ''b'', newline, CHR ''b'', newline]
   \<and> list_all2 (made_human one_map) ['' a'', ''b''] [''b'', ''b'']"
proof -
  have run: "enforce_reasoning_source_human one_map ([CHR '' '', CHR ''a'', newline, newline] @ ''b'') = Inr [CHR ''b'', newline, CHR ''b'', newline]"
    by code_simp
  moreover have "filter (\<lambda>l. trim l \<noteq> []) (str_lines ([CHR '' '', CHR ''a'', newline, newline] @ ''b'')) = ['' a'', ''b'']"
      "str_lines [CHR ''b'', newline, CHR ''b'', newline] = [''b'', ''b'']"
    by code_simp+
  ultimately show ?thesis using uploads_are_human [OF one_map_codec run] by simp
qed

lemma allowed_fields_counters:
  assumes "allowed_fields incoming COUNTERS [] = Inr allowed"
  shows "map_of allowed = map_of incoming |` set COUNTERS \<and> (\<forall>(k, v) \<in> set allowed. is_integer v)"
  using assms
  by (cases "map_of incoming ''annotated_steps''"; cases "map_of incoming ''skipped_steps''")
     (auto simp: COUNTERS_def restrict_map_def fun_eq_iff split: if_splits)

text \<open>
  C33. What an annotator's \<open>metadata.json\<close> becomes: an accepted upload never carries a status, and what
  is stored is an object with exactly the submitted counters, both integers, and nothing else. The
  fields of the record on disk are not kept: the session id that proves who owns the directory is
  gone from the stored file.
\<close>
theorem metadata_upload_counters_only:
  assumes "map_codec uc" and "enforce_metadata_annotator_fields uc bytes = Inr out"
  shows "\<exists>incoming stored. uc_map uc bytes = Inr incoming \<and> uc_map uc out = Inr stored
    \<and> map_of incoming ''status'' = None \<and> map_of stored = map_of incoming |` set COUNTERS
    \<and> (\<forall>v \<in> ran (map_of stored). is_integer v) \<and> map_of stored ''session_id'' = None"
proof -
  obtain incoming allowed where
    parts: "uc_map uc bytes = Inr incoming" "map_of incoming ''status'' = None"
      "allowed_fields incoming COUNTERS [] = Inr allowed" "uc_pretty uc allowed = Inr out"
    using assms(2) by (auto simp: enforce_metadata_annotator_fields_def and_then_Inr_iff split: if_splits sum.splits)
  obtain stored where stored: "uc_map uc out = Inr stored" "map_of stored = map_of allowed"
    using map_codec_pretty [OF assms(1) parts(4)] by blast
  note counters = allowed_fields_counters [OF parts(3)]
  have "\<forall>v \<in> ran (map_of stored). is_integer v"
  proof
    fix v assume "v \<in> ran (map_of stored)"
    then obtain k where "map_of allowed k = Some v" using stored(2) by (auto simp: ran_def)
    from map_of_SomeD [OF this] show "is_integer v" using counters by blast
  qed
  moreover have "map_of stored ''session_id'' = None"
    using counters stored(2) by (simp add: restrict_map_def COUNTERS_def)
  ultimately show ?thesis using parts stored counters by auto
qed

definition counter_map :: upload_codec where
  "counter_map = \<lparr>uc_map = \<lambda>s. if s = ''a'' then Inr [(''session_id'', Str ''s''), (''annotated_steps'', Number (PosInt 3))]
        else if s = ''b'' then Inr [(''annotated_steps'', Number (PosInt 3))] else Inl ''bad'',
     uc_line = \<lambda>m. Inl ''bad'',
     uc_pretty = \<lambda>m. if m = [(''annotated_steps'', Number (PosInt 3))] then Inr ''b'' else Inl ''bad''\<rparr>"

theorem metadata_upload_counters_only_witness:
  "enforce_metadata_annotator_fields counter_map ''a'' = Inr ''b''
   \<and> (\<exists>incoming stored. uc_map counter_map ''a'' = Inr incoming \<and> uc_map counter_map ''b'' = Inr stored
        \<and> map_of incoming ''session_id'' \<noteq> None \<and> map_of stored ''session_id'' = None)"
proof -
  have codec: "map_codec counter_map" by (auto simp: map_codec_def counter_map_def)
  have run: "enforce_metadata_annotator_fields counter_map ''a'' = Inr ''b''" by code_simp
  have "uc_map counter_map ''a'' = Inr [(''session_id'', Str ''s''), (''annotated_steps'', Number (PosInt 3))]"
    by (simp add: counter_map_def)
  with run metadata_upload_counters_only [OF codec run] show ?thesis by auto
qed

end
