(* ===== verification/MA_Server.thy ===== *)
theory MA_Server
  imports MA_Watch_Loop MA_Ipc_Files
begin

text \<open>
  The request server (\<open>ipc/mod.rs\<close>): its services, the shape of a handler, and the operations on one
  session that admin and annotator connections share. The sockets, the framing of lines and the JSON
  form of the messages are not modelled; a handler is a transformer of the shared state that answers
  with a message. \<^const>\<open>None\<close> is a request that is never answered: a listing that does not end, or a
  panic of the connection's task.
\<close>

section \<open>Services\<close>

text \<open>
  \<open>sv_display\<close> is what \<open>Display\<close> prints of an error, its outermost context: the model keeps errors in
  their full rendering. \<open>sv_uuid_ok\<close> is the parser of the uuid crate.
\<close>

record ('c, 'r) services =
  sv_capture :: "'r capture_env"
  sv_config :: config
  sv_router :: "('c, 'r) world storage_backend storage_router"
  sv_uploads :: upload_codec
  sv_annotators :: annotator_codec
  sv_uuid_ok :: "string \<Rightarrow> bool"
  sv_display :: "string \<Rightarrow> string"
  sv_debug :: "string \<Rightarrow> string"
  sv_version :: string

abbreviation sv_redis :: "('c, 'r) services \<Rightarrow> 'r redis" where
  "sv_redis S \<equiv> ce_redis (sv_capture S)"

abbreviation sv_clock :: "('c, 'r) services \<Rightarrow> clock_format" where
  "sv_clock S \<equiv> ce_clock (sv_capture S)"

definition cloud_primary :: "('c, 'r) services \<Rightarrow> bool" where
  "cloud_primary S \<longleftrightarrow> cfg_storage_mode (sv_config S) = ''cloud_primary''"

section \<open>Handlers\<close>

type_synonym 's handler = "'s \<Rightarrow> (outbound \<times> 's) option"

definition reply :: "outbound \<Rightarrow> 's handler" where
  "reply msg = (\<lambda>s. Some (msg, s))"

definition never :: "'s handler" where
  "never = (\<lambda>s. None)"

text \<open>An operation whose outcome, value or error, the rest decides on.\<close>

definition on_result :: "('s, 'a) io \<Rightarrow> ('a result \<Rightarrow> 's handler) \<Rightarrow> 's handler" where
  "on_result m k = (\<lambda>s. case m s of (r, s) \<Rightarrow> k r s)"

definition on_loop :: "('s, 'a) loop \<Rightarrow> ('a result \<Rightarrow> 's handler) \<Rightarrow> 's handler" where
  "on_loop m k = (\<lambda>s. case m s of None \<Rightarrow> None | Some (r, s) \<Rightarrow> k r s)"

definition error_reply :: "string \<Rightarrow> string \<Rightarrow> 's handler" where
  "error_reply code msg = reply (Error code msg)"

text \<open>\<open>match registry.get(..)\<close> with its error answer, and the backend of the session.\<close>

definition with_record ::
  "('c, 'r) services \<Rightarrow> string \<Rightarrow> (session_record \<Rightarrow> ('c, 'r) world handler) \<Rightarrow> ('c, 'r) world handler" where
  "with_record S sid k =
     on_result (on_redis (registry_get (sv_redis S) (sv_clock S) sid)) (\<lambda>r.
     case r of Inl e \<Rightarrow> error_reply ''SESSION_NOT_FOUND'' (sv_display S e) | Inr record \<Rightarrow> k record)"

definition with_backend ::
  "('c, 'r) services \<Rightarrow> session_record \<Rightarrow> (('c, 'r) world storage_backend \<Rightarrow> 's handler) \<Rightarrow> 's handler" where
  "with_backend S record k =
     (case resolve_for_session (sv_router S) record of None \<Rightarrow> never | Some storage \<Rightarrow> k storage)"

section \<open>Status\<close>

definition get_session_status :: "('c, 'r) services \<Rightarrow> string \<Rightarrow> ('c, 'r) world handler" where
  "get_session_status S sid =
     with_record S sid (\<lambda>record.
       reply (SessionStatus (filter (\<lambda>(k, _). k \<noteq> ''model_api_key_ref'')
         (map (\<lambda>(k, v). (k, Str v)) (to_redis_pairs (sv_clock S) record)))))"

definition update_annotation_progress ::
  "('c, 'r) services \<Rightarrow> string \<Rightarrow> u32 \<Rightarrow> u32 \<Rightarrow> ('c, 'r) world handler" where
  "update_annotation_progress S sid annotated skipped =
     on_result (on_redis (update_annotation_counters (sv_redis S) (sv_clock S) sid annotated skipped)) (\<lambda>_.
     reply (AnnotationProgressUpdated sid annotated skipped))"

text \<open>\<open>CloseAnnotation\<close>, \<open>CompleteAnnotation\<close> and \<open>FinalizeMemory\<close>: one status change and its answer.\<close>

definition change_status ::
  "('c, 'r) services \<Rightarrow> string \<Rightarrow> session_status \<Rightarrow> outbound \<Rightarrow> ('c, 'r) world handler" where
  "change_status S sid new done =
     on_result (on_redis (update_status (sv_redis S) (sv_clock S) sid new)) (\<lambda>r.
     case r of Inl e \<Rightarrow> error_reply ''REDIS_ERROR'' (sv_display S e) | Inr _ \<Rightarrow> reply done)"

definition load_session ::
  "('c, 'r) services \<Rightarrow> session_status \<Rightarrow> (session_status \<Rightarrow> string) \<Rightarrow> string \<Rightarrow> ('c, 'r) world handler" where
  "load_session S loadable refusal sid =
     with_record S sid (\<lambda>record.
       if rec_status record \<noteq> loadable \<and> rec_status record \<noteq> Annotating
       then error_reply ''INVALID_STATUS'' (refusal (rec_status record))
       else change_status S sid Annotating
         (SessionLoaded sid (rec_memory_path record) (rec_status record = Annotating)))"

section \<open>Files of a session\<close>

text \<open>\<open>refused\<close>: the check an annotator's fetch has in cloud mode and an admin's has not.\<close>

definition serve_file :: "('c, 'r) services \<Rightarrow> string \<Rightarrow> string \<Rightarrow> string result \<Rightarrow> 's handler" where
  "serve_file S sid relative_path r =
     (case r of
        Inr data \<Rightarrow> reply (FileData sid relative_path data (length data))
      | Inl e \<Rightarrow> error_reply ''FILE_NOT_FOUND''
          (''Could not read '' @ [squote] @ relative_path @ [squote] @ '': '' @ sv_display S e))"

definition fetch_file ::
  "('c, 'r) services \<Rightarrow> (string \<Rightarrow> bool) \<Rightarrow> string \<Rightarrow> string \<Rightarrow> ('c, 'r) world handler" where
  "fetch_file S refused sid relative_path =
     with_record S sid (\<lambda>record. with_backend S record (\<lambda>storage.
       if cloud_primary S then
         (if refused relative_path
          then error_reply ''INVALID_PATH'' (''relative_path must not contain '' @ [squote] @ ''..'' @ [squote]
            @ '' or start with '' @ [squote] @ ''/'' @ [squote])
          else on_result (sb_get storage sid (rec_memory_name record @ ''/'' @ relative_path)) (serve_file S sid relative_path))
       else
         (case validate_relative_path (rec_memory_path record) relative_path of
            Inl e \<Rightarrow> error_reply ''INVALID_PATH'' (sv_display S e)
          | Inr path \<Rightarrow> on_result (on_disk (fs_read path)) (serve_file S sid relative_path))))"

definition annotator_path_refused :: "string \<Rightarrow> bool" where
  "annotator_path_refused relative_path \<longleftrightarrow> str_contains ''..'' relative_path \<or> prefix ''/'' relative_path"

definition list_session_files :: "('c, 'r) services \<Rightarrow> string \<Rightarrow> string \<Rightarrow> ('c, 'r) world handler" where
  "list_session_files S sid pre =
     with_record S sid (\<lambda>record. with_backend S record (\<lambda>storage.
       if cloud_primary S then
         on_loop (sb_list storage sid (rec_memory_name record @ ''/'' @ pre)) (\<lambda>r.
         case r of
           Inr paths \<Rightarrow> reply (SessionFileList sid (map (\<lambda>p. \<lparr>fe_path = p, fe_size = 0\<rparr>) paths))
         | Inl e \<Rightarrow> error_reply ''LIST_FAILED'' (sv_display S e))
       else
         (let base = rec_memory_path record;
              list = (\<lambda>scan_dir. on_result (on_disk (list_dir_recursive scan_dir base)) (\<lambda>r.
                case r of Inr files \<Rightarrow> reply (SessionFileList sid files) | Inl e \<Rightarrow> never)) in
          if pre = [] then list base
          else
            (case validate_relative_path (rec_memory_path record) pre of
               Inr p \<Rightarrow> list p
             | Inl e \<Rightarrow> error_reply ''INVALID_PATH'' (sv_display S e)))))"

definition ALLOWED_REASONING :: string where
  "ALLOWED_REASONING = ''reasoning/reasoning.jsonl''"

definition ALLOWED_METADATA :: string where
  "ALLOWED_METADATA = ''metadata.json''"

text \<open>What is written instead of the uploaded bytes, or the refusal.\<close>

definition upload_bytes :: "('c, 'r) services \<Rightarrow> string \<Rightarrow> string \<Rightarrow> outbound + string" where
  "upload_bytes S relative_path bytes =
     (if relative_path \<noteq> ALLOWED_REASONING \<and> relative_path \<noteq> ALLOWED_METADATA
      then Inl (Error ''WRITE_FORBIDDEN''
        (''Annotators may only write to '' @ quoted ALLOWED_REASONING @ '' or '' @ quoted ALLOWED_METADATA
         @ ''. Path '' @ quoted relative_path @ '' is not permitted.''))
      else if length bytes > MAX_UPLOAD_BYTES
      then Inl (Error ''PAYLOAD_TOO_LARGE''
        (''Upload exceeds maximum allowed size of '' @ show_nat MAX_UPLOAD_BYTES @ '' bytes''))
      else if relative_path = ALLOWED_REASONING
      then (case enforce_reasoning_source_human (sv_uploads S) bytes of
              Inr b \<Rightarrow> Inr b
            | Inl e \<Rightarrow> Inl (Error ''INVALID_PAYLOAD'' (''reasoning.jsonl parse error: '' @ sv_display S e)))
      else (case enforce_metadata_annotator_fields (sv_uploads S) bytes of
              Inr b \<Rightarrow> Inr b
            | Inl e \<Rightarrow> Inl (Error ''INVALID_PAYLOAD'' (''metadata.json parse error: '' @ sv_display S e))))"

definition write_upload :: "string \<Rightarrow> string \<Rightarrow> (disk, unit) io" where
  "write_upload path bytes =
     bind_io (case parent path of Some up \<Rightarrow> fs_create_dir_all up | None \<Rightarrow> ok ()) (\<lambda>_.
     fs_write path bytes)"

definition uploaded :: "('c, 'r) services \<Rightarrow> string \<Rightarrow> string \<Rightarrow> unit result \<Rightarrow> 's handler" where
  "uploaded S sid relative_path r =
     (case r of
        Inr _ \<Rightarrow> reply (FileUploaded sid relative_path)
      | Inl e \<Rightarrow> error_reply ''UPLOAD_FAILED''
          (''Could not write '' @ quoted relative_path @ '': '' @ sv_display S e))"

definition upload_file ::
  "('c, 'r) services \<Rightarrow> string \<Rightarrow> string \<Rightarrow> string \<Rightarrow> string \<Rightarrow> ('c, 'r) world handler" where
  "upload_file S sid relative_path bytes content_type =
     (case upload_bytes S relative_path bytes of
        Inl refusal \<Rightarrow> reply refusal
      | Inr data \<Rightarrow>
          with_record S sid (\<lambda>record. with_backend S record (\<lambda>storage.
            if cloud_primary S
            then on_result (sb_put storage sid (rec_memory_name record @ ''/'' @ relative_path) data content_type)
                   (uploaded S sid relative_path)
            else
              (case validate_relative_path (rec_memory_path record) relative_path of
                 Inl e \<Rightarrow> error_reply ''INVALID_PATH'' (sv_display S e)
               | Inr path \<Rightarrow> on_result (on_disk (write_upload path data)) (uploaded S sid relative_path)))))"

end
