(* ===== verification/MA_Annotator.thy ===== *)
theory MA_Annotator
  imports MA_Server
begin

text \<open>
  Annotator connections (\<open>ipc/mod.rs\<close>): the first line of a TCP connection, the login of an annotator,
  and the only operations an annotator has, the queue, claims, and the operations on a session whose
  claim it holds. The TLS handshake belongs to an external library; the JSON parser of a line is a
  parameter.
\<close>

section \<open>Opening a connection\<close>

text \<open>What the first line of a TCP connection makes of it.\<close>

datatype first_contact = Rejected outbound | AdminConnection | AnnotatorLogin string string

definition tcp_opening :: "(string \<Rightarrow> inbound result) \<Rightarrow> string \<Rightarrow> string \<Rightarrow> first_contact" where
  "tcp_opening parse secret line =
     (let first_line = trim line in
      if prefix ''{'' first_line
      then
        (case parse first_line of
           Inr (AnnotatorAuth annotator_id key) \<Rightarrow> AnnotatorLogin annotator_id key
         | _ \<Rightarrow> Rejected (Error ''PARSE_ERROR''
             ''First message must be a plaintext admin token or a JSON annotator_auth.''))
      else if secret \<noteq> [] \<and> \<not> constant_time_eq first_line secret
      then Rejected (Error ''AUTH_FAILED'' ''Invalid token.'')
      else AdminConnection)"

definition auth_failed :: outbound where
  "auth_failed = Error ''AUTH_FAILED'' ''Authentication failed.''"

text \<open>A refused login counts as a failure; whether the count could be kept is not looked at.\<close>

definition login_refused :: "('c, 'r) services \<Rightarrow> string \<Rightarrow> ('c, 'r) world handler" where
  "login_refused S annotator_id =
     on_result (on_redis (increment_annotator_auth_failures (sv_redis S) annotator_id)) (\<lambda>_. reply auth_failed)"

definition annotator_login :: "('c, 'r) services \<Rightarrow> string \<Rightarrow> string \<Rightarrow> ('c, 'r) world handler" where
  "annotator_login S annotator_id key =
     on_result (on_redis (get_annotator_fields (sv_redis S) annotator_id)) (\<lambda>r.
     case r of
       Inl e \<Rightarrow> error_reply ''INTERNAL_ERROR'' ''Internal error during authentication.''
     | Inr None \<Rightarrow> login_refused S annotator_id
     | Inr (Some stored) \<Rightarrow>
         if unwrap_or [] (map_of stored ''status'') \<noteq> ''active'' then login_refused S annotator_id
         else if \<not> constant_time_eq (sha256_hex (sv_annotators S) key) (unwrap_or [] (map_of stored ''key_hash''))
         then login_refused S annotator_id
         else
           on_result (on_redis (update_annotator_last_auth (sv_redis S) (sv_clock S) annotator_id)) (\<lambda>_.
           on_result (on_redis (reset_annotator_auth_failures (sv_redis S) annotator_id)) (\<lambda>_.
           reply (AnnotatorAuthenticated annotator_id))))"

section \<open>The queue\<close>

definition CLAIM_TTL_SECS :: u64 where
  "CLAIM_TTL_SECS = 30 * 60"

definition annotator_field :: "(string \<times> string) list option result \<Rightarrow> string \<Rightarrow> string option" where
  "annotator_field r name = (case r of Inr (Some stored) \<Rightarrow> map_of stored name | _ \<Rightarrow> None)"

definition allowed_tenants_of :: "annotator_codec \<Rightarrow> (string \<times> string) list option result \<Rightarrow> string list" where
  "allowed_tenants_of ac r =
     unwrap_or [] (Option.bind (annotator_field r ''allowed_tenant_ids'')
       (\<lambda>s. case tenants_from_json ac s of Inr ts \<Rightarrow> Some ts | Inl _ \<Rightarrow> None))"

definition queue_step ::
  "'r redis \<Rightarrow> clock_format \<Rightarrow> string list \<Rightarrow> string \<Rightarrow> string list \<Rightarrow> ('r, string list) io" where
  "queue_step api cf allowed_tenants sid unclaimed =
     bind_io (attempt (get_claim_owner api sid)) (\<lambda>owner.
     if owner \<noteq> Inr None then ok unclaimed
     else if allowed_tenants = [] then ok (unclaimed @ [sid])
     else
       bind_io (attempt (registry_get api cf sid)) (\<lambda>r.
       case r of
         Inr record \<Rightarrow> ok (if list_ex (\<lambda>p. prefix p (rec_tenant_id record)) allowed_tenants
           then unclaimed @ [sid] else unclaimed)
       | Inl e \<Rightarrow> ok unclaimed))"

definition queue_item_of :: "string \<times> string \<times> u32 \<times> string \<Rightarrow> queue_item" where
  "queue_item_of = (\<lambda>(sid, name, steps, created).
     \<lparr>qi_session_id = sid, qi_memory_name = name, qi_total_steps = steps, qi_created_at = created\<rparr>)"

definition list_annotation_queue :: "('c, 'r) services \<Rightarrow> string \<Rightarrow> ('c, 'r) world handler" where
  "list_annotation_queue S annotator_id =
     on_result (on_redis (get_annotator_fields (sv_redis S) annotator_id)) (\<lambda>stored.
     on_result (on_redis (bind_io (list_pending_human_annotation (sv_redis S)) (\<lambda>ids.
         bind_io (fold_io (queue_step (sv_redis S) (sv_clock S) (allowed_tenants_of (sv_annotators S) stored)) ids [])
           (get_queue_items (sv_redis S))))) (\<lambda>r.
     case r of
       Inl e \<Rightarrow> error_reply ''REDIS_ERROR'' (sv_display S e)
     | Inr items \<Rightarrow>
         reply (AnnotationQueue (stable_sort (\<lambda>a b. str_le (qi_created_at a) (qi_created_at b))
           (map queue_item_of items)))))"

section \<open>Claiming\<close>

text \<open>The script the server runs as one step; a failing call inside it fails the script.\<close>

definition count_claim :: "'r redis \<Rightarrow> string \<Rightarrow> string \<Rightarrow> nat \<Rightarrow> ('r, nat) io" where
  "count_claim api owner_prefix key held =
     bind_io (rd_get api key) (\<lambda>v.
     ok (case v of Some x \<Rightarrow> if prefix owner_prefix x then held + 1 else held | None \<Rightarrow> held))"

definition claim_script ::
  "'r redis \<Rightarrow> string \<Rightarrow> string \<Rightarrow> u64 \<Rightarrow> string \<Rightarrow> u32 \<Rightarrow> ('r, string list) loop" where
  "claim_script api key val ttl owner_prefix max_c =
     bind_loop (if max_c > 0
        then scan_loop api ''claim:*'' 200 ''Error running script'' (count_claim api owner_prefix) 0 0
        else ends (ok 0)) (\<lambda>held.
     if max_c > 0 \<and> held \<ge> unat max_c then ends (ok [''limit'', show_nat held])
     else ends (bind_io (rd_set_nx_ex api key val ttl) (\<lambda>set.
       ok (if set then [''ok''] else [''taken'']))))"

definition older_session ::
  "'r redis \<Rightarrow> clock_format \<Rightarrow> string \<Rightarrow> (string \<times> string) option \<Rightarrow> ('r, (string \<times> string) option) io" where
  "older_session api cf sid oldest =
     bind_io (attempt (get_claim_owner api sid)) (\<lambda>owner.
     case owner of
       Inr (Some _) \<Rightarrow> ok oldest
     | _ \<Rightarrow>
         bind_io (attempt (registry_get api cf sid)) (\<lambda>r.
         case r of
           Inl e \<Rightarrow> ok oldest
         | Inr record \<Rightarrow>
             let ts = to_rfc3339 cf (rec_created_at record) in
             ok (case oldest of
                   None \<Rightarrow> Some (sid, ts)
                 | Some (i, t) \<Rightarrow> if str_le ts t \<and> ts \<noteq> t then Some (sid, ts) else oldest)))"

definition claim_answer :: "('c, 'r) services \<Rightarrow> string \<Rightarrow> string \<Rightarrow> u32 \<Rightarrow> string \<Rightarrow> string list result \<Rightarrow> 's handler" where
  "claim_answer S annotator_id target_id max_c claim_id r =
     (case r of
        Inl e \<Rightarrow> error_reply ''REDIS_ERROR'' (sv_display S e)
      | Inr result \<Rightarrow>
          (case result of
             [] \<Rightarrow> error_reply ''REDIS_ERROR'' ''Unexpected Lua script result.''
           | tag # rest \<Rightarrow>
               if tag = ''ok'' then reply (SessionClaimed target_id claim_id)
               else if tag = ''taken'' then reply (ClaimConflict target_id)
               else if tag = ''limit''
               then reply (ClaimLimitReached annotator_id
                 (case rest of s # _ \<Rightarrow> unwrap_or 0 (parse_u32 s) | [] \<Rightarrow> 0) max_c)
               else error_reply ''REDIS_ERROR'' ''Unexpected Lua script result.''))"

definition claim_target ::
  "('c, 'r) services \<Rightarrow> string \<Rightarrow> string \<Rightarrow> u32 \<Rightarrow> string \<Rightarrow> ('c, 'r) world handler" where
  "claim_target S annotator_id fresh max_c target_id =
     on_loop (zoom_loop w_redis (\<lambda>r w. w\<lparr>w_redis := r\<rparr>)
         (claim_script (sv_redis S) (claim_key target_id) (annotator_id @ '':'' @ fresh) CLAIM_TTL_SECS
           (annotator_id @ '':'') max_c))
       (claim_answer S annotator_id target_id max_c fresh)"

definition claim_found ::
  "('c, 'r) services \<Rightarrow> string \<Rightarrow> string \<Rightarrow> u32 \<Rightarrow> (string \<times> string) option result \<Rightarrow> ('c, 'r) world handler" where
  "claim_found S annotator_id fresh max_c r =
     (case r of
        Inl e \<Rightarrow> error_reply ''REDIS_ERROR'' (sv_display S e)
      | Inr oldest \<Rightarrow>
          (case oldest of
             None \<Rightarrow> error_reply ''QUEUE_EMPTY'' ''No sessions available for annotation.''
           | Some found \<Rightarrow> claim_target S annotator_id fresh max_c (fst found)))"

definition oldest_unclaimed :: "'r redis \<Rightarrow> clock_format \<Rightarrow> ('r, (string \<times> string) option) io" where
  "oldest_unclaimed api cf =
     bind_io (list_pending_human_annotation api) (\<lambda>sids. fold_io (older_session api cf) sids None)"

definition claim_session_request ::
  "('c, 'r) services \<Rightarrow> string \<Rightarrow> string \<Rightarrow> string \<Rightarrow> ('c, 'r) world handler" where
  "claim_session_request S annotator_id fresh sid =
     on_result (on_redis (get_annotator_fields (sv_redis S) annotator_id)) (\<lambda>stored.
     let max_c = unwrap_or 0 (Option.bind (annotator_field stored ''max_concurrent_claims'') parse_u32) in
     if sid \<noteq> [] then claim_target S annotator_id fresh max_c sid
     else on_result (on_redis (oldest_unclaimed (sv_redis S) (sv_clock S))) (claim_found S annotator_id fresh max_c))"

section \<open>Holding a claim\<close>

text \<open>\<open>get_claim_owner(..).await.ok().flatten()\<close>, and the operations behind it.\<close>

definition if_owner ::
  "('c, 'r) services \<Rightarrow> string \<Rightarrow> string \<Rightarrow> string \<Rightarrow> ('c, 'r) world handler \<Rightarrow> ('c, 'r) world handler" where
  "if_owner S annotator_id sid refusal op =
     on_result (on_redis (get_claim_owner (sv_redis S) sid)) (\<lambda>owner.
     if owner = Inr (Some annotator_id) then op else error_reply ''NOT_OWNER'' refusal)"

definition not_holder :: string where
  "not_holder = ''You do not hold the claim for this session.''"

definition heartbeat_claim :: "('c, 'r) services \<Rightarrow> string \<Rightarrow> string \<Rightarrow> string \<Rightarrow> ('c, 'r) world handler" where
  "heartbeat_claim S annotator_id sid claim_id =
     if_owner S annotator_id sid not_holder
       (on_result (on_redis (refresh_claim (sv_redis S) sid claim_id CLAIM_TTL_SECS)) (\<lambda>r.
        case r of
          Inl e \<Rightarrow> error_reply ''REDIS_ERROR'' (sv_display S e)
        | Inr valid \<Rightarrow>
            if valid then reply (ClaimRefreshed sid)
            else error_reply ''CLAIM_LOST'' (''Claim on session '' @ quoted sid
              @ '' has expired or was released. Return to queue: memory-archive annotator queue'')))"

definition return_to_queue :: "('c, 'r) services \<Rightarrow> string \<Rightarrow> ('r, unit) io" where
  "return_to_queue S sid =
     bind_io (attempt (registry_get (sv_redis S) (sv_clock S) sid)) (\<lambda>r.
     case r of
       Inr record \<Rightarrow>
         if rec_status record = Annotating
         then ignore (update_status (sv_redis S) (sv_clock S) sid PendingHumanAnnotation) else ok ()
     | Inl e \<Rightarrow> ok ())"

definition release_session :: "('c, 'r) services \<Rightarrow> string \<Rightarrow> string \<Rightarrow> string \<Rightarrow> ('c, 'r) world handler" where
  "release_session S annotator_id sid claim_id =
     if_owner S annotator_id sid not_holder
       (on_result (on_redis (verify_claim_id (sv_redis S) sid claim_id)) (\<lambda>valid.
        if valid \<noteq> Inr True then error_reply ''CLAIM_MISMATCH'' ''Claim ID does not match.''
        else
          on_result (on_redis (release_claim (sv_redis S) sid)) (\<lambda>r.
          case r of
            Inl e \<Rightarrow> error_reply ''REDIS_ERROR'' (sv_display S e)
          | Inr _ \<Rightarrow> on_result (on_redis (return_to_queue S sid)) (\<lambda>_. reply (SessionReleased sid)))))"

section \<open>One request\<close>

definition annotator_forbidden :: outbound where
  "annotator_forbidden = Error ''FORBIDDEN'' ''This operation is not permitted for annotator connections.''"

text \<open>The operations that need a claim, and the session each names.\<close>

fun claimed_op_session :: "inbound \<Rightarrow> string option" where
  "claimed_op_session (LoadSession sid) = Some sid"
| "claimed_op_session (GetSessionStatus sid) = Some sid"
| "claimed_op_session (UpdateAnnotationProgress sid annotated skipped) = Some sid"
| "claimed_op_session (CloseAnnotation sid) = Some sid"
| "claimed_op_session (CompleteAnnotation sid) = Some sid"
| "claimed_op_session (FetchFile sid path) = Some sid"
| "claimed_op_session (ListSessionFiles sid pre) = Some sid"
| "claimed_op_session (UploadFile sid path bytes content_type) = Some sid"
| "claimed_op_session _ = None"

fun handle_annotator_session_op :: "('c, 'r) services \<Rightarrow> inbound \<Rightarrow> ('c, 'r) world handler" where
  "handle_annotator_session_op S (GetSessionStatus sid) = get_session_status S sid"
| "handle_annotator_session_op S (LoadSession sid) =
     load_session S PendingHumanAnnotation (\<lambda>other. ''Session '' @ quoted sid @ '' has status ''
       @ quoted (status_str other) @ '' '' @ em_dash @ '' cannot load for annotation.'') sid"
| "handle_annotator_session_op S (UpdateAnnotationProgress sid annotated skipped) =
     update_annotation_progress S sid annotated skipped"
| "handle_annotator_session_op S (CloseAnnotation sid) =
     change_status S sid PendingHumanAnnotation (AnnotationClosed sid)"
| "handle_annotator_session_op S (CompleteAnnotation sid) =
     change_status S sid PendingCompilation (AnnotationCompleted sid)"
| "handle_annotator_session_op S (FetchFile sid path) = fetch_file S annotator_path_refused sid path"
| "handle_annotator_session_op S (ListSessionFiles sid pre) = list_session_files S sid pre"
| "handle_annotator_session_op S (UploadFile sid path bytes content_type) = upload_file S sid path bytes content_type"
| "handle_annotator_session_op S (RegisterAnnotator annotator_id tenants max_c) =
     error_reply ''FORBIDDEN'' ''This operation requires an admin connection.''"
| "handle_annotator_session_op S (DeactivateAnnotator annotator_id) =
     error_reply ''FORBIDDEN'' ''This operation requires an admin connection.''"
| "handle_annotator_session_op S (RotateAnnotatorKey annotator_id) =
     error_reply ''FORBIDDEN'' ''This operation requires an admin connection.''"
| "handle_annotator_session_op S ListAnnotators =
     error_reply ''FORBIDDEN'' ''This operation requires an admin connection.''"
| "handle_annotator_session_op S (PricingRegistryStatus status age) =
     error_reply ''FORBIDDEN'' ''This operation requires an admin connection.''"
| "handle_annotator_session_op S _ = reply annotator_forbidden"

definition claim_it_first :: "string \<Rightarrow> string" where
  "claim_it_first sid = ''You do not hold the claim for session '' @ quoted sid
     @ ''. Claim it first: memory-archive annotator claim --session '' @ sid"

fun handle_annotator_message ::
  "('c, 'r) services \<Rightarrow> string \<Rightarrow> string \<Rightarrow> inbound \<Rightarrow> ('c, 'r) world handler" where
  "handle_annotator_message S annotator_id fresh Ping = reply (Pong (sv_version S))"
| "handle_annotator_message S annotator_id fresh ListAnnotationQueue = list_annotation_queue S annotator_id"
| "handle_annotator_message S annotator_id fresh (ClaimSession sid) = claim_session_request S annotator_id fresh sid"
| "handle_annotator_message S annotator_id fresh (HeartbeatClaim sid claim_id) =
     heartbeat_claim S annotator_id sid claim_id"
| "handle_annotator_message S annotator_id fresh (ReleaseSession sid claim_id) =
     release_session S annotator_id sid claim_id"
| "handle_annotator_message S annotator_id fresh msg =
     (case claimed_op_session msg of
        Some sid \<Rightarrow> if_owner S annotator_id sid (claim_it_first sid) (handle_annotator_session_op S msg)
      | None \<Rightarrow> reply annotator_forbidden)"

section \<open>A connection\<close>

text \<open>
  The lines after the login, each with the UUID a claim would draw; the answers in order. The end of
  the input and an oversized line close the connection.
\<close>

fun serve_annotator ::
  "('c, 'r) services \<Rightarrow> (string \<Rightarrow> inbound result) \<Rightarrow> string \<Rightarrow> (string \<times> string) list \<Rightarrow> outbound list
   \<Rightarrow> ('c, 'r) world \<Rightarrow> (outbound list \<times> ('c, 'r) world) option" where
  "serve_annotator S parse annotator_id [] answers w = Some (answers, w)"
| "serve_annotator S parse annotator_id ((raw, fresh) # rest) answers w =
     (let line = trim raw in
      if line = [] then serve_annotator S parse annotator_id rest answers w
      else if length line > 4 * 1024 * 1024 then Some (answers, w)
      else
        (case (case parse line of
                 Inl e \<Rightarrow> error_reply ''PARSE_ERROR'' (''Could not parse message: '' @ e)
               | Inr msg \<Rightarrow> handle_annotator_message S annotator_id fresh msg) w of
           None \<Rightarrow> None
         | Some (answer, w) \<Rightarrow> serve_annotator S parse annotator_id rest (answers @ [answer]) w))"

definition annotator_connection ::
  "('c, 'r) services \<Rightarrow> (string \<Rightarrow> inbound result) \<Rightarrow> string \<Rightarrow> string \<Rightarrow> (string \<times> string) list
   \<Rightarrow> ('c, 'r) world \<Rightarrow> (outbound list \<times> ('c, 'r) world) option" where
  "annotator_connection S parse annotator_id key lines w =
     (case annotator_login S annotator_id key w of
        None \<Rightarrow> None
      | Some (AnnotatorAuthenticated a, w) \<Rightarrow>
          serve_annotator S parse annotator_id lines [AnnotatorAuthenticated a] w
      | Some (refusal, w) \<Rightarrow> Some ([refusal], w))"

end
