(* ===== verification/MA_Annotator_Facts.thy ===== *)
theory MA_Annotator_Facts
  imports MA_Annotator MA_Claims
begin

text \<open>
  What an annotator connection can change. A frame names the sessions, claims, stored objects and
  paths that may change; every operation is shown to stay in its frame, and the claim check in front
  of the operations makes the frame that of the claimed session.
\<close>

section \<open>Frames\<close>

definition holds_claim :: "rview \<Rightarrow> string \<Rightarrow> string \<Rightarrow> bool" where
  "holds_claim v annotator_id sid \<longleftrightarrow>
     (\<exists>x. strings v (claim_key sid) = Some x \<and> hd (split_at (\<lambda>c. c = CHR '':'') x) = annotator_id)"

text \<open>The records of other sessions and the other claims are as they were.\<close>

definition untouched :: "string set \<Rightarrow> string set \<Rightarrow> rview \<Rightarrow> rview \<Rightarrow> bool" where
  "untouched ss cs v0 v \<longleftrightarrow>
     (\<forall>a. a \<notin> ss \<longrightarrow> hashes v (session_key a) = hashes v0 (session_key a))
     \<and> (\<forall>a. a \<notin> cs \<longrightarrow> strings v (claim_key a) = strings v0 (claim_key a))"

text \<open>Outside the paths of the frame at most a missing directory appears.\<close>

definition undisturbed :: "string list set \<Rightarrow> disk \<Rightarrow> disk \<Rightarrow> bool" where
  "undisturbed ps d0 d \<longleftrightarrow>
     (\<forall>q. comps q \<notin> ps \<longrightarrow> node_at d q = node_at d0 q \<or> node_at d0 q = None \<and> node_at d q = Some Dir)"

record ('c, 'r) frame =
  fr_sessions :: "string set"
  fr_claims :: "string set"
  fr_objects :: "(string \<times> string) set"
  fr_paths :: "string list set"
  fr_redis :: "'r \<Rightarrow> rview"
  fr_cloud :: "'c \<Rightarrow> string \<times> string \<Rightarrow> string option"
  fr_start :: "('c, 'r) world"

definition framed :: "('c, 'r) frame \<Rightarrow> ('c, 'r) world \<Rightarrow> bool" where
  "framed F w \<longleftrightarrow>
     untouched (fr_sessions F) (fr_claims F) (fr_redis F (w_redis (fr_start F))) (fr_redis F (w_redis w))
     \<and> (\<forall>k. k \<notin> fr_objects F \<longrightarrow> fr_cloud F (w_cloud w) k = fr_cloud F (w_cloud (fr_start F)) k)
     \<and> undisturbed (fr_paths F) (w_disk (fr_start F)) (w_disk w)"

lemma framed_refl: "framed (F\<lparr>fr_start := w\<rparr>) w"
  by (simp add: framed_def untouched_def undisturbed_def)

text \<open>Handlers and the operations they run keep an invariant.\<close>

definition handles :: "('s \<Rightarrow> bool) \<Rightarrow> 's handler \<Rightarrow> bool" where
  "handles I h \<longleftrightarrow> (\<forall>s msg s'. I s \<longrightarrow> h s = Some (msg, s') \<longrightarrow> I s')"

definition maintains :: "('s \<Rightarrow> bool) \<Rightarrow> ('s, 'a) io \<Rightarrow> bool" where
  "maintains I m \<longleftrightarrow> (\<forall>s. I s \<longrightarrow> I (snd (m s)))"

definition maintains_loop :: "('s \<Rightarrow> bool) \<Rightarrow> ('s, 'a) loop \<Rightarrow> bool" where
  "maintains_loop I m \<longleftrightarrow> (\<forall>s r s'. I s \<longrightarrow> m s = Some (r, s') \<longrightarrow> I s')"

lemma handlesD: "handles I h \<Longrightarrow> I s \<Longrightarrow> h s = Some (msg, s') \<Longrightarrow> I s'"
  by (simp add: handles_def)

lemma handles_reply: "handles I (reply msg)" "handles I (error_reply code text)" "handles I never"
  by (simp_all add: handles_def reply_def error_reply_def never_def)

lemma handles_on_result:
  assumes "maintains I m" and "\<And>r. handles I (k r)" shows "handles I (on_result m k)"
  unfolding handles_def
proof (intro allI impI)
  fix s msg s'
  assume s: "I s" and run: "on_result m k s = Some (msg, s')"
  obtain r s1 where m: "m s = (r, s1)" by fastforce
  with assms(1) s have "I s1" by (metis maintains_def snd_conv)
  moreover from run m have "k r s1 = Some (msg, s')" by (simp add: on_result_def)
  ultimately show "I s'" by (rule handlesD [OF assms(2)])
qed

lemma handles_on_loop:
  assumes "maintains_loop I m" and "\<And>r. handles I (k r)" shows "handles I (on_loop m k)"
  unfolding handles_def
proof (intro allI impI)
  fix s msg s'
  assume s: "I s" and run: "on_loop m k s = Some (msg, s')"
  then obtain r s1 where m: "m s = Some (r, s1)" and k: "k r s1 = Some (msg, s')"
    by (cases "m s") (auto simp: on_loop_def)
  from assms(1) s m have "I s1" unfolding maintains_loop_def by blast
  then show "I s'" using k by (rule handlesD [OF assms(2)])
qed

lemma handles_if: "(b \<Longrightarrow> handles I h) \<Longrightarrow> (\<not> b \<Longrightarrow> handles I h') \<Longrightarrow> handles I (if b then h else h')"
  by simp

lemma handles_sum: "(\<And>e. r = Inl e \<Longrightarrow> handles I (f e)) \<Longrightarrow> (\<And>a. r = Inr a \<Longrightarrow> handles I (g a)) \<Longrightarrow>
    handles I (case r of Inl e \<Rightarrow> f e | Inr a \<Rightarrow> g a)"
  by (cases r) simp_all

lemma handles_option: "(r = None \<Longrightarrow> handles I h) \<Longrightarrow> (\<And>a. r = Some a \<Longrightarrow> handles I (g a)) \<Longrightarrow>
    handles I (case r of None \<Rightarrow> h | Some a \<Rightarrow> g a)"
  by (cases r) simp_all

lemmas handles_rules = handles_reply handles_on_result handles_on_loop handles_if handles_sum handles_option

lemma maintains_bind:
  assumes "maintains I m" and "\<And>a. maintains I (f a)" shows "maintains I (bind_io m f)"
  unfolding maintains_def
proof (intro allI impI)
  fix s assume s: "I s"
  obtain r s1 where m: "m s = (r, s1)" by fastforce
  with assms(1) s have "I s1" by (metis maintains_def snd_conv)
  with m assms(2) show "I (snd (bind_io m f s))" by (cases r) (simp_all add: bind_io_def maintains_def)
qed

lemma maintains_pure: "maintains I (ok a)" "maintains I (fail e)"
  unfolding maintains_def by simp_all

lemma maintains_attempt: "maintains I m \<Longrightarrow> maintains I (attempt m)" "maintains I m \<Longrightarrow> maintains I (ignore m)"
  by (simp_all add: maintains_def)

lemma keeps_attempt: "keeps V I m \<Longrightarrow> keeps V I (attempt m)"
  by (auto simp: keeps_def runs_def attempt_def split: prod.splits)

lemma keeps_ignore: "keeps V I m \<Longrightarrow> keeps V I (ignore m)"
  by (auto simp: keeps_def runs_def ignore_def split: prod.splits)

section \<open>Redis\<close>

lemma untouched_refl: "untouched ss cs v v"
  by (simp add: untouched_def)

lemma maintains_redis:
  assumes "keeps (fr_redis F) (untouched (fr_sessions F) (fr_claims F) (fr_redis F (w_redis (fr_start F)))) m"
  shows "maintains (framed F) (on_redis m)"
  using assms
  by (auto simp: maintains_def framed_def keeps_def runs_def on_redis_def zoom_def split: prod.splits)

lemma untouched_views:
  "untouched ss cs v0 v \<Longrightarrow> untouched ss cs v0 (v_sadd k m v)"
  "untouched ss cs v0 v \<Longrightarrow> untouched ss cs v0 (v_srem k m v)"
  "untouched ss cs v0 v \<Longrightarrow> untouched ss cs v0 (v_ttl k t v)"
  "untouched ss cs v0 v \<Longrightarrow> a \<in> ss \<Longrightarrow> untouched ss cs v0 (v_hset (session_key a) ps v)"
  "untouched ss cs v0 v \<Longrightarrow> a \<in> cs \<Longrightarrow> untouched ss cs v0 (v_del (claim_key a) v)"
  by (auto simp: untouched_def v_hset_def v_del_def v_sadd_def v_srem_def v_ttl_def)

lemma keeps_update_status_by:
  assumes api: "redis_ok api V"
    and srem: "\<And>k v. I v \<Longrightarrow> I (v_srem k a v)" and sadd: "\<And>k v. I v \<Longrightarrow> I (v_sadd k a v)"
    and ttl: "\<And>v. I v \<Longrightarrow> I (v_ttl (session_key a) None v)"
    and hset: "\<And>x y v. I v \<Longrightarrow> I (v_hset (session_key a) [(''status'', x), (''updated_at'', y)] v)"
  shows "keeps V I (update_status api cf a st)"
proof -
  have old: "keeps V I (case cur of None \<Rightarrow> ok ()
       | Some s \<Rightarrow> (case status_from_str (serde_variant_error cf) s of Inl _ \<Rightarrow> ok ()
          | Inr old \<Rightarrow> (case index_set old of None \<Rightarrow> ok ()
             | Some k \<Rightarrow> context_io ''SREM old status index failed'' (rd_srem api k a))))" for cur
    by (auto split: option.splits sum.splits intro!: keeps_pure keeps_context keeps_commands(10) [OF api] srem)
  have set: "keeps V I (\<lambda>s. context_io ''HSET status update failed''
       (rd_hset api (session_key a) [(''status'', status_str st), (''updated_at'', now_str api cf s)]) s)"
    by (rule keeps_state, rule keeps_context, rule keeps_commands(7) [OF api], erule hset)
  have new: "keeps V I (case index_set st of None \<Rightarrow> ok ()
       | Some k \<Rightarrow> context_io ''SADD new status index failed'' (rd_sadd api k a))"
    by (auto split: option.splits intro!: keeps_pure keeps_context keeps_commands(9) [OF api] sadd)
  have expiry: "keeps V I (case ttl_seconds st of Some t \<Rightarrow> set_ttl api a t | None \<Rightarrow> clear_ttl api a)"
    by (simp add: keeps_clear_ttl [OF api] ttl)
  show ?thesis unfolding update_status_def
    by (rule keeps_bind [OF keeps_context [OF keeps_commands(3) [OF api]]], rule keeps_bind [OF old],
        rule keeps_bind [OF set], rule keeps_bind [OF new], rule expiry)
qed

lemma keeps_update_status:
  assumes "redis_ok api V" and "a \<in> ss"
  shows "keeps V (untouched ss cs v0) (update_status api cf a st)"
  using assms(2) by (intro keeps_update_status_by [OF assms(1)] untouched_views)

lemma keeps_counters:
  assumes "redis_ok api V" and "a \<in> ss"
  shows "keeps V (untouched ss cs v0) (update_annotation_counters api cf a m n)"
  unfolding update_annotation_counters_def
  by (rule keeps_state, rule keeps_context, rule keeps_commands(7) [OF assms(1)], erule untouched_views(4), rule assms(2))

lemma keeps_get: "redis_ok api V \<Longrightarrow> keeps V I (registry_get api cf a)"
  unfolding registry_get_def by (intro keeps_bind keeps_context keeps_commands) (auto intro: keeps_rules)

lemma keeps_owner: "redis_ok api V \<Longrightarrow> keeps V I (get_claim_owner api a)"
  unfolding get_claim_owner_def by (intro keeps_rules)

lemma keeps_annotator_fields: "redis_ok api V \<Longrightarrow> keeps V I (get_annotator_fields api a)"
  unfolding get_annotator_fields_def by (intro keeps_rules)

lemma keeps_pending: "redis_ok api V \<Longrightarrow> keeps V I (list_pending_human_annotation api)"
  unfolding list_pending_human_annotation_def by (intro keeps_rules)

lemma keeps_queue_items: "redis_ok api V \<Longrightarrow> keeps V I (get_queue_items api ids)"
  unfolding get_queue_items_def by (intro keeps_rules)

lemma keeps_verify: "redis_ok api V \<Longrightarrow> keeps V I (verify_claim_id api a c)"
  unfolding verify_claim_id_def by (intro keeps_rules)

lemma keeps_refresh: "redis_ok api V \<Longrightarrow> keeps V (untouched ss cs v0) (refresh_claim api a c ttl)"
  unfolding refresh_claim_def Let_def
  by (intro keeps_bind keeps_context keeps_commands(6)) (auto intro!: keeps_rules untouched_views)

lemma keeps_release: "redis_ok api V \<Longrightarrow> a \<in> cs \<Longrightarrow> keeps V (untouched ss cs v0) (release_claim api a)"
  unfolding release_claim_def by (intro keeps_rules) (auto intro: untouched_views)

lemma keeps_queue_step: "redis_ok api V \<Longrightarrow> keeps V I (queue_step api cf ts a us)"
  unfolding queue_step_def
  by (intro keeps_bind keeps_attempt keeps_owner) (auto intro!: keeps_bind keeps_pure keeps_attempt keeps_get split: sum.splits)

lemma keeps_older: "redis_ok api V \<Longrightarrow> keeps V I (older_session api cf a o')"
  unfolding older_session_def
  by (intro keeps_bind keeps_attempt keeps_owner)
    (auto intro!: keeps_bind keeps_pure keeps_attempt keeps_get simp: Let_def split: sum.splits option.splits)

section \<open>The disk\<close>

definition grows :: "disk \<Rightarrow> disk \<Rightarrow> bool" where
  "grows d d' \<longleftrightarrow> (\<forall>q. node_at d' q = node_at d q \<or> node_at d q = None \<and> node_at d' q = Some Dir)"

lemma grows_refl: "tree d' = tree d \<Longrightarrow> grows d d'"
  by (simp add: grows_def node_at_def)

lemma grows_trans: "grows d d1 \<Longrightarrow> grows d1 d2 \<Longrightarrow> grows d d2"
  unfolding grows_def by metis

lemma undisturbed_grows: "undisturbed ps d0 d \<Longrightarrow> grows d d' \<Longrightarrow> undisturbed ps d0 d'"
  unfolding undisturbed_def grows_def by metis

lemma undisturbed_write: "undisturbed ps d0 d \<Longrightarrow> (\<And>q. comps q \<notin> ps \<Longrightarrow> node_at d' q = node_at d q) \<Longrightarrow> undisturbed ps d0 d'"
  unfolding undisturbed_def by metis

lemma make_dirs_grows: "make_dirs css d = (r, d') \<Longrightarrow> grows d d'"
proof (induction css d rule: make_dirs.induct)
  case (2 cs rest d)
  have put: "grows d (d\<lparr>tree := tree_put cs Dir (tree d)\<rparr>)" if "map_of (tree d) cs = None"
    using that by (auto simp: grows_def node_at_def tree_put_def map_of_filter_key)
  from 2 show ?case
    by (auto simp: grows_refl split: option.splits node.splits if_splits intro: grows_trans put)
qed (simp add: grows_refl)

lemma create_dirs_grows: "fs_create_dir_all p d = (r, d') \<Longrightarrow> grows d d'"
  by (auto simp: fs_create_dir_all_def guarded_def split: prod.splits option.splits
      dest!: make_dirs_grows next_fault_tree intro: grows_trans grows_refl)

lemma read_tree: "tree (snd (fs_read p d)) = tree d"
  by (auto simp: fs_read_def guarded_def dest: next_fault_tree split: prod.splits option.splits node.splits)

lemma read_dir_same: "tree (snd (fs_read_dir p d)) = tree d"
  by (auto simp: fs_read_dir_def guarded_def dest: next_fault_tree split: prod.splits option.splits node.splits)

interpretation same_tree: kept "\<lambda>d d'. tree d' = tree d"
  by unfold_locales simp_all

lemma stays_state: "(\<And>s0. stays R (m s0)) \<Longrightarrow> stays R (\<lambda>s. m s s)"
  by (simp add: stays_def)

lemma list_dir_inner_tree: "stays (\<lambda>d d'. tree d' = tree d) (list_dir_inner n dir base)"
proof (induction n arbitrary: dir)
  case 0
  show ?case by (simp add: stays_def)
next
  case (Suc n)
  have step: "stays (\<lambda>d d'. tree d' = tree d) (\<lambda>d. let path = path_join dir name in
      if node_at d path = Some Dir then bind_io (list_dir_inner n path base) (\<lambda>sub. ok (results @ sub)) d
      else (case path_strip_prefix base path of
         Some rel \<Rightarrow> (Inr (results @ [\<lparr>fe_path = rel, fe_size = entry_size d path\<rparr>]), d)
       | None \<Rightarrow> (Inr results, d)))" for name results
    unfolding stays_def
  proof
    fix d
    have "stays (\<lambda>d d'. tree d' = tree d) (bind_io (list_dir_inner n (path_join dir name) base) (\<lambda>sub. ok (results @ sub)))"
      by (intro same_tree.keep_bind same_tree.keep_pure Suc)
    then show "tree (snd ((let path = path_join dir name in
      if node_at d path = Some Dir then bind_io (list_dir_inner n path base) (\<lambda>sub. ok (results @ sub)) d
      else (case path_strip_prefix base path of
         Some rel \<Rightarrow> (Inr (results @ [\<lparr>fe_path = rel, fe_size = entry_size d path\<rparr>]), d)
       | None \<Rightarrow> (Inr results, d))))) = tree d"
      by (auto simp: Let_def stays_def split: option.splits)
  qed
  have read: "stays (\<lambda>d d'. tree d' = tree d) (attempt (fs_read_dir dir))"
    by (rule same_tree.keep_attempt) (simp add: stays_def read_dir_same)
  show ?case
    unfolding list_dir_inner.simps
    by (rule same_tree.keep_bind [OF read]) (auto split: sum.splits intro!: same_tree.keep_pure same_tree.keep_fold step)
qed

lemma write_upload_disturbs:
  assumes "comps path \<in> ps" and "undisturbed ps d0 d" shows "undisturbed ps d0 (snd (write_upload path bytes d))"
proof -
  obtain r d1 where up: "(case parent path of Some up \<Rightarrow> fs_create_dir_all up | None \<Rightarrow> ok ()) d = (r, d1)" by fastforce
  then have "grows d d1" by (cases "parent path") (auto simp: grows_refl dest: create_dirs_grows)
  then have d1: "undisturbed ps d0 d1" by (rule undisturbed_grows [OF assms(2)])
  show ?thesis
  proof (cases r)
    case (Inl e)
    with up d1 show ?thesis by (simp add: write_upload_def bind_io_def)
  next
    case (Inr u)
    obtain r2 d2 where w: "fs_write path bytes d1 = (r2, d2)" by fastforce
    have "undisturbed ps d0 d2"
      by (rule undisturbed_write [OF d1]) (metis fs_write_result(1) [OF w] assms(1))
    with up Inr w show ?thesis by (simp add: write_upload_def bind_io_def)
  qed
qed

section \<open>The cloud\<close>

text \<open>
  The backends work on the object store and nothing else; reading and listing leave the objects as
  they are, and an upload concerns the object it names.
\<close>

definition object_store :: "('c \<Rightarrow> string \<times> string \<Rightarrow> string option) \<Rightarrow> 'c storage_backend \<Rightarrow> bool" where
  "object_store C s \<longleftrightarrow>
     (\<forall>sid p c. C (snd (sb_get s sid p c)) = C c)
     \<and> (\<forall>sid p c r c'. sb_list s sid p c = Some (r, c') \<longrightarrow> C c' = C c)
     \<and> (\<forall>sid p bytes ct c k. k \<noteq> (sid, p) \<longrightarrow> C (snd (sb_put s sid p bytes ct c)) k = C c k)"

definition cloud_backend :: "('c \<Rightarrow> string \<times> string \<Rightarrow> string option) \<Rightarrow> ('c, 'r) world storage_backend \<Rightarrow> bool" where
  "cloud_backend C b \<longleftrightarrow> (\<exists>s. b = lift_backend w_cloud (\<lambda>c w. w\<lparr>w_cloud := c\<rparr>) s \<and> object_store C s)"

definition clouds :: "('c \<Rightarrow> string \<times> string \<Rightarrow> string option) \<Rightarrow> ('c, 'r) services \<Rightarrow> bool" where
  "clouds C S \<longleftrightarrow> (\<forall>(n, b) \<in> set (router_pool (sv_router S)). cloud_backend C b)"

lemma resolve_rules_in: "resolve_rules pool rs t = Some (n, b) \<Longrightarrow> (n, b) \<in> set pool"
  by (induction pool rs t rule: resolve_rules.induct) (auto split: list.splits if_splits option.splits dest: map_of_SomeD)

lemma resolved_in_pool: "resolve_for_session router record = Some b \<Longrightarrow> \<exists>n. (n, b) \<in> set (router_pool router)"
  unfolding resolve_for_session_def resolve_def
  by (auto split: option.splits if_splits dest: map_of_SomeD resolve_rules_in)

lemma resolved_backend:
  assumes "clouds C S" and "resolve_for_session (sv_router S) record = Some b" shows "cloud_backend C b"
  using resolved_in_pool [OF assms(2)] assms(1) unfolding clouds_def by blast

lemma framed_cloud:
  "framed F w \<Longrightarrow> (\<And>k. k \<notin> fr_objects F \<Longrightarrow> fr_cloud F c k = fr_cloud F (w_cloud w) k) \<Longrightarrow> framed F (w\<lparr>w_cloud := c\<rparr>)"
  by (simp add: framed_def)

lemma maintains_cloud_get:
  assumes "cloud_backend (fr_cloud F) b" shows "maintains (framed F) (sb_get b sid p)"
  unfolding maintains_def
proof (intro allI impI)
  fix w assume w: "framed F w"
  obtain s where s: "b = lift_backend w_cloud (\<lambda>c w. w\<lparr>w_cloud := c\<rparr>) s" "object_store (fr_cloud F) s"
    using assms by (auto simp: cloud_backend_def)
  obtain r c where run: "sb_get s sid p (w_cloud w) = (r, c)" by fastforce
  from s(2) have "fr_cloud F (snd (sb_get s sid p (w_cloud w))) = fr_cloud F (w_cloud w)" by (simp add: object_store_def)
  with run have "framed F (w\<lparr>w_cloud := c\<rparr>)" by (intro framed_cloud [OF w]) simp
  with run show "framed F (snd (sb_get b sid p w))" by (simp add: s(1) lift_backend_def zoom_def)
qed

lemma maintains_cloud_list:
  assumes "cloud_backend (fr_cloud F) b" shows "maintains_loop (framed F) (sb_list b sid p)"
  unfolding maintains_loop_def
proof (intro allI impI)
  fix w r w' assume w: "framed F w" and run: "sb_list b sid p w = Some (r, w')"
  obtain s where s: "b = lift_backend w_cloud (\<lambda>c w. w\<lparr>w_cloud := c\<rparr>) s" "object_store (fr_cloud F) s"
    using assms by (auto simp: cloud_backend_def)
  with run obtain c where c: "sb_list s sid p (w_cloud w) = Some (r, c)" "w' = w\<lparr>w_cloud := c\<rparr>"
    by (auto simp: lift_backend_def zoom_loop_def)
  from s(2) c(1) have "fr_cloud F c = fr_cloud F (w_cloud w)" unfolding object_store_def by blast
  with c(2) show "framed F w'" by (simp add: framed_cloud [OF w])
qed

lemma maintains_cloud_put:
  assumes "cloud_backend (fr_cloud F) b" and "(sid, p) \<in> fr_objects F"
  shows "maintains (framed F) (sb_put b sid p bytes ct)"
  unfolding maintains_def
proof (intro allI impI)
  fix w assume w: "framed F w"
  obtain s where s: "b = lift_backend w_cloud (\<lambda>c w. w\<lparr>w_cloud := c\<rparr>) s" "object_store (fr_cloud F) s"
    using assms(1) by (auto simp: cloud_backend_def)
  obtain r c where run: "sb_put s sid p bytes ct (w_cloud w) = (r, c)" by fastforce
  have "fr_cloud F c k = fr_cloud F (w_cloud w) k" if "k \<notin> fr_objects F" for k
  proof -
    have "k \<noteq> (sid, p)" using that assms(2) by auto
    with s(2) have "fr_cloud F (snd (sb_put s sid p bytes ct (w_cloud w))) k = fr_cloud F (w_cloud w) k"
      unfolding object_store_def by blast
    with run show ?thesis by simp
  qed
  with run show "framed F (snd (sb_put b sid p bytes ct w))"
    by (simp add: s(1) lift_backend_def zoom_def framed_cloud [OF w])
qed

lemma maintains_disk:
  "(\<And>d. undisturbed (fr_paths F) (w_disk (fr_start F)) d \<Longrightarrow> undisturbed (fr_paths F) (w_disk (fr_start F)) (snd (m d))) \<Longrightarrow>
     maintains (framed F) (on_disk m)"
  by (auto simp: maintains_def framed_def on_disk_def zoom_def split: prod.splits) (metis snd_conv)

lemma maintains_reading:
  "stays (\<lambda>d d'. tree d' = tree d) m \<Longrightarrow> maintains (framed F) (on_disk m)"
  by (rule maintains_disk) (auto simp: stays_def intro: undisturbed_grows grows_refl)

section \<open>The operations\<close>

lemma handles_with_record:
  assumes "redis_ok (sv_redis S) (fr_redis F)" and "\<And>record. handles (framed F) (k record)"
  shows "handles (framed F) (with_record S sid k)"
  unfolding with_record_def
  by (intro handles_on_result maintains_redis keeps_get assms handles_sum handles_reply)

lemma handles_with_backend:
  assumes "clouds (fr_cloud F) S" and "\<And>b. cloud_backend (fr_cloud F) b \<Longrightarrow> handles I (k b)"
  shows "handles I (with_backend S record k)"
  using assms resolved_backend [OF assms(1)] by (auto simp: with_backend_def handles_reply split: option.splits)

lemma handles_change_status:
  assumes "redis_ok (sv_redis S) (fr_redis F)" and "sid \<in> fr_sessions F"
  shows "handles (framed F) (change_status S sid st done)"
  unfolding change_status_def
  by (intro handles_on_result maintains_redis keeps_update_status assms handles_sum handles_reply)

lemma handles_progress:
  assumes "redis_ok (sv_redis S) (fr_redis F)" and "sid \<in> fr_sessions F"
  shows "handles (framed F) (update_annotation_progress S sid m n)"
  unfolding update_annotation_progress_def
  by (intro handles_on_result maintains_redis keeps_counters assms handles_reply)

lemma handles_load:
  assumes "redis_ok (sv_redis S) (fr_redis F)" and "sid \<in> fr_sessions F"
  shows "handles (framed F) (load_session S st refusal sid)"
  unfolding load_session_def
  by (intro handles_with_record handles_if handles_reply handles_change_status assms)

lemma handles_status:
  assumes "redis_ok (sv_redis S) (fr_redis F)" shows "handles (framed F) (get_session_status S sid)"
  unfolding get_session_status_def by (intro handles_with_record handles_reply assms)

lemma handles_fetch:
  assumes "redis_ok (sv_redis S) (fr_redis F)" and "clouds (fr_cloud F) S"
  shows "handles (framed F) (fetch_file S refused sid path)"
  unfolding fetch_file_def serve_file_def
  by (intro handles_with_record handles_with_backend [OF assms(2)] handles_rules maintains_cloud_get maintains_reading assms)
    (simp_all add: stays_def read_tree)

lemma handles_list:
  assumes "redis_ok (sv_redis S) (fr_redis F)" and "clouds (fr_cloud F) S"
  shows "handles (framed F) (list_session_files S sid pre)"
  unfolding list_session_files_def Let_def list_dir_recursive_def
  by (intro handles_with_record handles_with_backend [OF assms(2)] handles_rules maintains_cloud_list maintains_reading
      list_dir_inner_tree assms)

lemma redis_get_Inr: "redis_get m k = Inr x \<longleftrightarrow> m k = Some x"
  by (simp add: redis_get_def split: option.splits)

lemma and_then_peel: "and_then x f = Inr r \<Longrightarrow> (\<And>a. x = Inr a \<Longrightarrow> f a = Inr r \<Longrightarrow> P) \<Longrightarrow> P"
  by (cases x) (simp_all add: and_then_def)

lemma record_path: "from_redis_map cf m = Inr r \<Longrightarrow> m ''memory_path'' = Some (rec_memory_path r)"
  unfolding from_redis_map_def
  by (erule and_then_peel)+ (drule sum.inject(2) [THEN iffD1], erule subst, simp add: redis_get_Inr)

lemma registry_get_path:
  assumes "redis_ok api V" and "registry_get api cf sid s = (Inr record, s')"
  shows "hashes (V s) (session_key sid) ''memory_path'' = Some (rec_memory_path record)"
proof -
  obtain r s1 where get: "rd_hgetall api (session_key sid) s = (r, s1)" by fastforce
  then obtain m where m: "r = Inr m" "from_redis_map cf (map_of m) = Inr record"
    using assms(2)
    by (cases r) (auto simp: registry_get_def bind_io_def context_io_def lift_result_def split: if_splits sum.splits prod.splits)
  with reads_apply [OF redis_laws(2) [OF assms(1)] get] have "map_of m = hashes (V s) (session_key sid)" by simp
  with record_path [OF m(2)] show ?thesis by simp
qed

lemma handles_with_path:
  assumes api: "redis_ok (sv_redis S) (fr_redis F)" and sid: "sid \<notin> fr_sessions F"
    and k: "\<And>record. hashes (fr_redis F (w_redis (fr_start F))) (session_key sid) ''memory_path''
      = Some (rec_memory_path record) \<Longrightarrow> handles (framed F) (k record)"
  shows "handles (framed F) (with_record S sid k)"
  unfolding handles_def
proof (intro allI impI)
  fix w msg w' assume w: "framed F w" and run: "with_record S sid k w = Some (msg, w')"
  let ?get = "registry_get (sv_redis S) (sv_clock S) sid"
  obtain r w1 where get: "on_redis ?get w = (r, w1)" by fastforce
  have "maintains (framed F) (on_redis ?get)" by (intro maintains_redis keeps_get api)
  with w get have w1: "framed F w1" by (metis maintains_def snd_conv)
  show "framed F w'"
  proof (cases r)
    case (Inl e)
    with run get w1 show ?thesis by (simp add: with_record_def on_result_def error_reply_def reply_def)
  next
    case (Inr found)
    obtain r1 where "?get (w_redis w) = (Inr found, r1)"
      using get Inr by (auto simp: on_redis_def zoom_def split: prod.splits)
    from registry_get_path [OF api this]
    have "hashes (fr_redis F (w_redis (fr_start F))) (session_key sid) ''memory_path'' = Some (rec_memory_path found)"
      using w sid by (simp add: framed_def untouched_def)
    moreover from run get Inr have "k found w1 = Some (msg, w')" by (simp add: with_record_def on_result_def)
    ultimately show ?thesis using k w1 by (metis handlesD)
  qed
qed

definition session_paths :: "rview \<Rightarrow> string \<Rightarrow> string list set" where
  "session_paths v sid = {cs. \<exists>m. hashes v (session_key sid) ''memory_path'' = Some m \<and> prefix (comps m) cs}"

lemma handles_upload:
  assumes "redis_ok (sv_redis S) (fr_redis F)" and "clouds (fr_cloud F) S" and "sid \<notin> fr_sessions F"
    and "\<And>p. (sid, p) \<in> fr_objects F"
    and "session_paths (fr_redis F (w_redis (fr_start F))) sid \<subseteq> fr_paths F"
  shows "handles (framed F) (upload_file S sid path bytes ct)"
proof -
  have local: "handles (framed F) (on_result (on_disk (write_upload target data)) (uploaded S sid path))"
    if "hashes (fr_redis F (w_redis (fr_start F))) (session_key sid) ''memory_path'' = Some m"
      "validate_relative_path m path = Inr target" for m target data
  proof -
    have "comps target \<in> fr_paths F"
      using validate_sound [OF that(2)] that(1) assms(5) by (auto simp: session_paths_def)
    then show ?thesis
      by (auto simp: uploaded_def intro!: handles_on_result maintains_disk write_upload_disturbs handles_sum handles_reply)
  qed
  have "handles (framed F) (with_record S sid (\<lambda>record. with_backend S record (\<lambda>storage.
            if cloud_primary S
            then on_result (sb_put storage sid (rec_memory_name record @ ''/'' @ path) data ct) (uploaded S sid path)
            else
              (case validate_relative_path (rec_memory_path record) path of
                 Inl e \<Rightarrow> error_reply ''INVALID_PATH'' (sv_display S e)
               | Inr target \<Rightarrow> on_result (on_disk (write_upload target data)) (uploaded S sid path)))))" for data
    by (intro handles_with_path handles_with_backend [OF assms(2)] handles_if handles_sum handles_reply local assms(1,3))
      (auto simp: uploaded_def intro!: handles_on_result maintains_cloud_put assms(4) handles_sum handles_reply)
  then show ?thesis unfolding upload_file_def by (auto intro!: handles_sum handles_reply)
qed

section \<open>The claim check\<close>

lemma owner_result:
  assumes "redis_ok api V" and "get_claim_owner api sid s = (Inr (Some a), s')" shows "holds_claim (V s) a sid"
proof -
  obtain x s1 where get: "rd_get api (claim_key sid) s = (x, s1)" by fastforce
  from reads_apply [OF redis_laws(6) [OF assms(1)] get] assms(2) get show ?thesis
    by (auto simp: get_claim_owner_def bind_io_def context_io_def ok_def holds_claim_def split: sum.splits)
qed

lemma if_owner_handles:
  assumes api: "redis_ok (sv_redis S) (fr_redis F)"
    and F0: "F0 = F\<lparr>fr_sessions := {}, fr_claims := {}, fr_objects := {}, fr_paths := {}\<rparr>"
    and start: "fr_start F = w" and run: "if_owner S a sid refusal op w = Some (msg, w')"
    and op: "holds_claim (fr_redis F (w_redis w)) a sid \<Longrightarrow> handles (framed F) op"
  shows "framed F0 w' \<or> holds_claim (fr_redis F (w_redis w)) a sid \<and> framed F w'"
proof -
  let ?get = "get_claim_owner (sv_redis S) sid"
  have redis: "fr_redis F0 = fr_redis F" by (simp add: F0)
  obtain r w1 where get: "on_redis ?get w = (r, w1)" by fastforce
  have keep: "maintains (framed G) (on_redis ?get)" if "fr_redis G = fr_redis F" for G
    using api that by (intro maintains_redis keeps_owner) simp
  have "framed F0 w" "framed F w"
    using start by (auto simp: framed_def untouched_def undisturbed_def F0)
  with keep [OF redis] keep [OF refl] get have w1: "framed F0 w1" "framed F w1"
    by (metis maintains_def snd_conv)+
  show ?thesis
  proof (cases "r = Inr (Some a)")
    case True
    obtain r1 where "?get (w_redis w) = (Inr (Some a), r1)"
      using get True by (auto simp: on_redis_def zoom_def split: prod.splits)
    from owner_result [OF api this] have h: "holds_claim (fr_redis F (w_redis w)) a sid" .
    moreover have "framed F w'"
      using run get True handlesD [OF op [OF h] w1(2)] by (simp add: if_owner_def on_result_def)
    ultimately show ?thesis by blast
  next
    case False
    with run get w1 show ?thesis by (simp add: if_owner_def on_result_def error_reply_def reply_def)
  qed
qed

section \<open>The claim script\<close>

lemma count_claim_scans:
  assumes "redis_ok api V" shows "scan_step V (\<lambda>_ v. v = v0) p (count_claim api owner)"
  unfolding scan_step_def
proof (intro allI impI)
  fix x a s r s'
  assume "V s = v0" and run: "count_claim api owner x a s = (r, s')"
  obtain g s1 where get: "rd_get api x s = (g, s1)" by fastforce
  from reads_apply [OF redis_laws(6) [OF assms] get] get run
  show "V s' = V s \<and> (\<forall>b. r = Inr b \<longrightarrow> V s' = v0)"
    using \<open>V s = v0\<close> by (cases g) (auto simp: count_claim_def bind_io_def ok_def)
qed

lemma claim_script_cases:
  assumes api: "redis_ok api V" and run: "claim_script api key val ttl owner max_c s = Some (r, s')"
  obtains (same) "V s' = V s" "\<And>rest. r \<noteq> Inr (''ok'' # rest)"
  | (claimed) held s1 where "\<not> key_present (V s) key" "V s' = v_set key val (uint ttl) (V s)" "r \<noteq> Inr [''taken'']"
      "max_c > 0 \<longrightarrow> held < unat max_c
        \<and> scan_loop api (''claim:'' @ ''*'') 200 ''Error running script'' (count_claim api owner) 0 0 s = Some (Inr held, s1)"
proof -
  let ?scan = "scan_loop api (''claim:'' @ ''*'') 200 ''Error running script'' (count_claim api owner) 0 0 s"
  let ?rest = "\<lambda>held. if max_c > 0 \<and> held \<ge> unat max_c then ends (ok [''limit'', show_nat held])
     else ends (bind_io (rd_set_nx_ex api key val ttl) (\<lambda>set. ok (if set then [''ok''] else [''taken''])))"
  have "\<exists>q s1. V s1 = V s \<and> (max_c > 0 \<longrightarrow> ?scan = Some (q, s1))
      \<and> (case q of Inl e \<Rightarrow> r = Inl e \<and> s' = s1 | Inr held \<Rightarrow> ?rest held s1 = Some (r, s'))"
  proof (cases "max_c > 0")
    case True
    with run obtain q s1 where scan: "?scan = Some (q, s1)"
        and rest: "case q of Inl e \<Rightarrow> r = Inl e \<and> s' = s1 | Inr held \<Rightarrow> ?rest held s1 = Some (r, s')"
      by (cases ?scan) (auto simp: claim_script_def bind_loop_def split: sum.splits)
    with scan_loop_inv [OF api count_claim_scans [OF api, of "V s"] scan] show ?thesis by blast
  next
    case False
    with run show ?thesis
      by (intro exI [of _ "Inr 0"] exI [of _ s]) (simp add: claim_script_def bind_loop_def ends_def)
  qed
  then obtain q s1 where s1: "V s1 = V s" "max_c > 0 \<longrightarrow> ?scan = Some (q, s1)"
    and rest: "case q of Inl e \<Rightarrow> r = Inl e \<and> s' = s1 | Inr held \<Rightarrow> ?rest held s1 = Some (r, s')" by blast
  show thesis
  proof (cases q)
    case (Inl e)
    with rest s1 same show thesis by auto
  next
    case (Inr held)
    with rest have tail: "?rest held s1 = Some (r, s')" by simp
    show thesis
    proof (cases "max_c > 0 \<and> held \<ge> unat max_c")
      case True
      with tail have "r = Inr [''limit'', show_nat held]" "s' = s1" by (auto simp: ends_def)
      then show thesis using s1(1) by (intro same) simp_all
    next
      case False
      obtain b s2 where set: "rd_set_nx_ex api key val ttl s1 = (b, s2)" by fastforce
      with tail False have out: "s' = s2" "r = (case b of Inl e \<Rightarrow> Inl e | Inr x \<Rightarrow> Inr (if x then [''ok''] else [''taken'']))"
        by (auto simp: ends_def bind_io_def split: sum.splits)
      from set_nx_apply [OF redis_laws(13) [OF api] set] show thesis
      proof
        assume "V s2 = V s1 \<and> b \<noteq> Inr True"
        then show thesis using out s1(1) by (intro same) (auto split: sum.splits)
      next
        assume "\<not> key_present (V s1) key \<and> V s2 = v_set key val (uint ttl) (V s1) \<and> b \<noteq> Inr False"
        then show thesis using out s1 False Inr
          by (intro claimed [of held s1]) (auto split: sum.splits)
      qed
    qed
  qed
qed

section \<open>A claim request\<close>

text \<open>Before and after a handler.\<close>

definition leads :: "('s \<Rightarrow> bool) \<Rightarrow> (outbound \<Rightarrow> 's \<Rightarrow> bool) \<Rightarrow> 's handler \<Rightarrow> bool" where
  "leads P Q h \<longleftrightarrow> (\<forall>s msg s'. P s \<longrightarrow> h s = Some (msg, s') \<longrightarrow> Q msg s')"

lemma leadsD: "leads P Q h \<Longrightarrow> P s \<Longrightarrow> h s = Some (msg, s') \<Longrightarrow> Q msg s'"
  by (simp add: leads_def)

lemma leads_reply: "(\<And>s. P s \<Longrightarrow> Q msg s) \<Longrightarrow> leads P Q (reply msg)"
  by (auto simp: leads_def reply_def)

lemma leads_error: "(\<And>s. P s \<Longrightarrow> Q (Error code text) s) \<Longrightarrow> leads P Q (error_reply code text)"
  unfolding error_reply_def by (rule leads_reply)

lemma leads_on_result:
  assumes "maintains P m" and "\<And>r. leads P Q (k r)" shows "leads P Q (on_result m k)"
  unfolding leads_def
proof (intro allI impI)
  fix s msg s'
  assume s: "P s" and run: "on_result m k s = Some (msg, s')"
  obtain r s1 where m: "m s = (r, s1)" by fastforce
  with assms(1) s have "P s1" by (metis maintains_def snd_conv)
  moreover from run m have "k r s1 = Some (msg, s')" by (simp add: on_result_def)
  ultimately show "Q msg s'" by (rule leadsD [OF assms(2)])
qed

definition at_view :: "('r \<Rightarrow> rview) \<Rightarrow> ('c, 'r) world \<Rightarrow> ('c, 'r) world \<Rightarrow> bool" where
  "at_view V w0 w \<longleftrightarrow> w_disk w = w_disk w0 \<and> w_cloud w = w_cloud w0 \<and> V (w_redis w) = V (w_redis w0)"

lemma maintains_view:
  assumes "keeps V (\<lambda>v. v = V (w_redis w0)) m" shows "maintains (at_view V w0) (on_redis m)"
  unfolding maintains_def
proof (intro allI impI)
  fix w assume w: "at_view V w0 w"
  obtain r s1 where m: "m (w_redis w) = (r, s1)" by fastforce
  have "V s1 = V (w_redis w0)"
    using w runsD [OF assms [unfolded keeps_def] _ m] by (simp add: at_view_def)
  with m w show "at_view V w0 (snd (on_redis m w))" by (simp add: at_view_def on_redis_def zoom_def)
qed

text \<open>What a claim request has done: nothing, or the claim of a session that nobody had claimed.\<close>

definition claim_effect ::
  "('r \<Rightarrow> rview) \<Rightarrow> ('c, 'r) world \<Rightarrow> string \<Rightarrow> string \<Rightarrow> outbound \<Rightarrow> ('c, 'r) world \<Rightarrow> bool" where
  "claim_effect V w0 a fresh msg w \<longleftrightarrow> w_disk w = w_disk w0 \<and> w_cloud w = w_cloud w0
     \<and> (V (w_redis w) = V (w_redis w0) \<and> (\<forall>t c. msg \<noteq> SessionClaimed t c)
        \<or> (\<exists>t. \<not> key_present (V (w_redis w0)) (claim_key t)
              \<and> V (w_redis w) = v_set (claim_key t) (a @ '':'' @ fresh) (uint CLAIM_TTL_SECS) (V (w_redis w0))
              \<and> (\<forall>t' c. msg = SessionClaimed t' c \<longrightarrow> t' = t \<and> c = fresh)))"

lemma claim_answer_claimed:
  assumes run: "claim_answer S a t n fresh r w = Some (msg, w')"
  shows "w' = w \<and> (\<forall>t' c. msg = SessionClaimed t' c \<longrightarrow> t' = t \<and> c = fresh \<and> (\<exists>rest. r = Inr (''ok'' # rest)))"
proof (cases r)
  case (Inl e)
  with run show ?thesis by (auto simp: claim_answer_def error_reply_def reply_def)
next
  case (Inr result)
  show ?thesis
  proof (cases result)
    case Nil
    with run Inr show ?thesis by (auto simp: claim_answer_def error_reply_def reply_def)
  next
    case (Cons tag rest)
    show ?thesis
    proof (cases "tag = ''ok''")
      case True
      with run Inr Cons show ?thesis by (auto simp: claim_answer_def reply_def)
    next
      case False
      then have "\<not> (\<exists>t c. msg = SessionClaimed t c) \<and> w' = w"
        using run Inr Cons unfolding claim_answer_def error_reply_def reply_def
        by (simp split: if_splits) blast+
      then show ?thesis by blast
    qed
  qed
qed

lemma leads_claim_target:
  assumes api: "redis_ok (sv_redis S) V"
  shows "leads (at_view V w0) (claim_effect V w0 a fresh) (claim_target S a fresh n t)"
  unfolding leads_def
proof (intro allI impI)
  fix w msg w'
  assume w: "at_view V w0 w" and run: "claim_target S a fresh n t w = Some (msg, w')"
  let ?script = "claim_script (sv_redis S) (claim_key t) (a @ '':'' @ fresh) CLAIM_TTL_SECS (a @ '':'') n"
  obtain r s1 where script: "?script (w_redis w) = Some (r, s1)"
    and answer: "claim_answer S a t n fresh r (w\<lparr>w_redis := s1\<rparr>) = Some (msg, w')"
    using run by (auto simp: claim_target_def on_loop_def zoom_loop_def split: option.splits)
  note answered = claim_answer_claimed [OF answer]
  have other: "w_disk w' = w_disk w0" "w_cloud w' = w_cloud w0" "w_redis w' = s1" "V (w_redis w) = V (w_redis w0)"
    using answered w by (simp_all add: at_view_def)
  from api script show "claim_effect V w0 a fresh msg w'"
  proof (cases rule: claim_script_cases)
    case same
    have "\<forall>t c. msg \<noteq> SessionClaimed t c" using answered same(2) by blast
    with same(1) other show ?thesis by (simp add: claim_effect_def)
  next
    case (claimed held s2)
    with answered other show ?thesis unfolding claim_effect_def by (intro conjI disjI2 exI [of _ t]) simp_all
  qed
qed

lemma keeps_claim_search: "redis_ok api V \<Longrightarrow> keeps V I (oldest_unclaimed api cf)"
  unfolding oldest_unclaimed_def by (intro keeps_bind keeps_pending keeps_fold keeps_older)

lemma leads_claim_found:
  assumes "\<And>code text s. P s \<Longrightarrow> Q (Error code text) s" and "\<And>t. leads P Q (claim_target S a fresh n t)"
  shows "leads P Q (claim_found S a fresh n r)"
  unfolding claim_found_def
  by (cases r) (auto split: option.splits intro!: leads_error assms)

lemma leads_claim_request:
  assumes api: "redis_ok (sv_redis S) V"
  shows "leads (at_view V w0) (claim_effect V w0 a fresh) (claim_session_request S a fresh sid)"
proof -
  have target: "leads (at_view V w0) (claim_effect V w0 a fresh) (claim_target S a fresh n t)" for n t
    by (rule leads_claim_target [OF api])
  then have found: "leads (at_view V w0) (claim_effect V w0 a fresh) (claim_found S a fresh n r)" for n r
    by (intro leads_claim_found) (simp_all add: claim_effect_def at_view_def)
  have "leads (at_view V w0) (claim_effect V w0 a fresh)
      (if sid \<noteq> [] then claim_target S a fresh n sid
       else on_result (on_redis (oldest_unclaimed (sv_redis S) (sv_clock S))) (claim_found S a fresh n))" for n
    using target found by (auto intro!: leads_on_result maintains_view keeps_claim_search api)
  then show ?thesis
    unfolding claim_session_request_def Let_def
    by (intro leads_on_result maintains_view keeps_annotator_fields [OF api])
qed

section \<open>All requests\<close>

lemma untouched_mono: "untouched ss cs v0 v \<Longrightarrow> ss \<subseteq> ss' \<Longrightarrow> cs \<subseteq> cs' \<Longrightarrow> untouched ss' cs' v0 v"
  unfolding untouched_def by blast

lemma undisturbed_mono: "undisturbed ps d0 d \<Longrightarrow> ps \<subseteq> ps' \<Longrightarrow> undisturbed ps' d0 d"
  unfolding undisturbed_def by blast

lemma framed_mono:
  assumes "framed F w" and "fr_sessions F \<subseteq> fr_sessions G" and "fr_claims F \<subseteq> fr_claims G"
    and "fr_objects F \<subseteq> fr_objects G" and "fr_paths F \<subseteq> fr_paths G"
    and "fr_redis F = fr_redis G" "fr_cloud F = fr_cloud G" "fr_start F = fr_start G"
  shows "framed G w"
proof -
  have "\<forall>k. k \<notin> fr_objects G \<longrightarrow> fr_cloud G (w_cloud w) k = fr_cloud G (w_cloud (fr_start G)) k"
    using assms(1,4,7,8) unfolding framed_def by (metis subsetD)
  with assms show ?thesis by (auto simp: framed_def intro: untouched_mono undisturbed_mono)
qed

lemma handles_queue:
  assumes "redis_ok (sv_redis S) (fr_redis F)" shows "handles (framed F) (list_annotation_queue S a)"
  unfolding list_annotation_queue_def
  by (intro handles_on_result maintains_redis keeps_annotator_fields keeps_bind keeps_pending keeps_fold keeps_queue_step
      keeps_queue_items handles_sum handles_reply assms)

lemma handles_heartbeat_op:
  assumes "redis_ok (sv_redis S) (fr_redis F)"
  shows "handles (framed F) (on_result (on_redis (refresh_claim (sv_redis S) sid c CLAIM_TTL_SECS)) (\<lambda>r.
        case r of
          Inl e \<Rightarrow> error_reply ''REDIS_ERROR'' (sv_display S e)
        | Inr valid \<Rightarrow>
            if valid then reply (ClaimRefreshed sid)
            else error_reply ''CLAIM_LOST'' (''Claim on session '' @ quoted sid
              @ '' has expired or was released. Return to queue: memory-archive annotator queue'')))"
  by (intro handles_on_result maintains_redis keeps_refresh assms handles_sum handles_if handles_reply)

lemma keeps_return:
  assumes "redis_ok (sv_redis S) V" and "sid \<in> ss" shows "keeps V (untouched ss cs v0) (return_to_queue S sid)"
  unfolding return_to_queue_def
  by (intro keeps_bind keeps_attempt keeps_get assms)
    (auto split: sum.splits intro!: keeps_ignore keeps_update_status keeps_pure assms)

lemma handles_release_op:
  assumes "redis_ok (sv_redis S) (fr_redis F)" and "sid \<in> fr_sessions F" and "sid \<in> fr_claims F"
  shows "handles (framed F) (on_result (on_redis (verify_claim_id (sv_redis S) sid c)) (\<lambda>valid.
        if valid \<noteq> Inr True then error_reply ''CLAIM_MISMATCH'' ''Claim ID does not match.''
        else
          on_result (on_redis (release_claim (sv_redis S) sid)) (\<lambda>r.
          case r of
            Inl e \<Rightarrow> error_reply ''REDIS_ERROR'' (sv_display S e)
          | Inr _ \<Rightarrow> on_result (on_redis (return_to_queue S sid)) (\<lambda>_. reply (SessionReleased sid)))))"
  by (intro handles_on_result maintains_redis keeps_verify keeps_release keeps_return assms handles_sum handles_if handles_reply)

definition annotator_frame ::
  "('r \<Rightarrow> rview) \<Rightarrow> ('c \<Rightarrow> string \<times> string \<Rightarrow> string option) \<Rightarrow> string \<Rightarrow> inbound \<Rightarrow> ('c, 'r) world \<Rightarrow> ('c, 'r) frame" where
  "annotator_frame V C a msg w =
     (let mine = {sid. holds_claim (V (w_redis w)) a sid};
          uploaded_to = {sid. sid \<in> mine \<and> (\<exists>path bytes ct. msg = UploadFile sid path bytes ct)} in
      \<lparr>fr_sessions = mine, fr_claims = mine, fr_objects = {(sid, p). sid \<in> uploaded_to},
       fr_paths = (\<Union>sid \<in> uploaded_to. session_paths (V (w_redis w)) sid),
       fr_redis = V, fr_cloud = C, fr_start = w\<rparr>)"

definition nothing :: "('c, 'r) frame \<Rightarrow> ('c, 'r) frame" where
  "nothing F = F\<lparr>fr_sessions := {}, fr_claims := {}, fr_objects := {}, fr_paths := {}\<rparr>"

lemma nothing_mono: "framed (nothing F) w \<Longrightarrow> framed F w"
  by (erule framed_mono) (simp_all add: nothing_def)

lemma session_op_frames:
  assumes "redis_ok (sv_redis S) (fr_redis F)" and "clouds (fr_cloud F) S"
    and "claimed_op_session msg = Some sid" and "\<forall>path bytes ct. msg \<noteq> UploadFile sid path bytes ct"
    and "sid \<in> fr_sessions F"
  shows "handles (framed F) (handle_annotator_session_op S msg)"
  using assms(3-)
  by (cases msg) (simp_all add: assms(1,2) handles_status handles_load handles_progress handles_change_status handles_fetch handles_list)

lemma plain_request:
  "msg \<noteq> Ping \<Longrightarrow> msg \<noteq> ListAnnotationQueue \<Longrightarrow> \<forall>x. msg \<noteq> ClaimSession x \<Longrightarrow> \<forall>x c. msg \<noteq> HeartbeatClaim x c \<Longrightarrow>
     \<forall>x c. msg \<noteq> ReleaseSession x c \<Longrightarrow>
   handle_annotator_message S a fresh msg = (case claimed_op_session msg of
        Some sid \<Rightarrow> if_owner S a sid (claim_it_first sid) (handle_annotator_session_op S msg)
      | None \<Rightarrow> reply annotator_forbidden)"
  by (cases msg) simp_all

lemma if_owner_framed:
  assumes "redis_ok (sv_redis S) (fr_redis F)" and "fr_start F = w" and "if_owner S a sid refusal op w = Some (msg, w')"
    and "holds_claim (fr_redis F (w_redis w)) a sid \<Longrightarrow> handles (framed F) op"
  shows "framed (nothing F) w' \<or> holds_claim (fr_redis F (w_redis w)) a sid \<and> framed F w'"
  using if_owner_handles [OF assms(1) nothing_def assms(2-4)] .

lemma upload_framed:
  assumes api: "redis_ok (sv_redis S) V" and clouds: "clouds C S"
    and op: "if_owner S a sid refusal (handle_annotator_session_op S (UploadFile sid path bytes ct)) w = Some (answer, w')"
  shows "framed (annotator_frame V C a (UploadFile sid path bytes ct) w) w'"
proof -
  let ?v = "V (w_redis w)"
  let ?F = "\<lparr>fr_sessions = {}, fr_claims = {}, fr_objects = {sid} \<times> UNIV, fr_paths = session_paths ?v sid,
      fr_redis = V, fr_cloud = C, fr_start = w\<rparr>"
  have "handles (framed ?F) (handle_annotator_session_op S (UploadFile sid path bytes ct))"
    using api clouds by simp (rule handles_upload, simp_all)
  then have "framed (nothing ?F) w' \<or> holds_claim ?v a sid \<and> framed ?F w'"
    using if_owner_framed [of S ?F, OF _ _ op] api by simp
  then show ?thesis
  proof
    assume "framed (nothing ?F) w'"
    then show ?thesis by (rule framed_mono) (simp_all add: nothing_def annotator_frame_def Let_def)
  next
    assume mine: "holds_claim ?v a sid \<and> framed ?F w'"
    then have "framed ?F w'" ..
    then show ?thesis by (rule framed_mono) (use mine in \<open>auto simp: annotator_frame_def Let_def\<close>)
  qed
qed

lemma request_framed:
  assumes api: "redis_ok (sv_redis S) V" and clouds: "clouds C S" and other: "\<And>x. msg \<noteq> ClaimSession x"
    and run: "handle_annotator_message S a fresh msg w = Some (answer, w')"
  shows "framed (annotator_frame V C a msg w) w'"
proof -
  let ?G = "annotator_frame V C a msg w"
  let ?v = "V (w_redis w)"
  have G: "fr_redis ?G = V" "fr_cloud ?G = C" "fr_start ?G = w" "fr_sessions ?G = {sid. holds_claim ?v a sid}"
      "fr_claims ?G = {sid. holds_claim ?v a sid}"
    by (simp_all add: annotator_frame_def Let_def)
  have start: "framed (nothing ?G) w" "framed ?G w"
    by (simp_all add: framed_def untouched_def undisturbed_def nothing_def G)
  have api': "redis_ok (sv_redis S) (fr_redis ?G)" using api by (simp add: G)
  have whole: "framed ?G w'"
    if "if_owner S a sid refusal op w = Some (answer, w')" "sid \<in> fr_sessions ?G \<Longrightarrow> handles (framed ?G) op" for sid refusal op
    using if_owner_framed [OF api' G(3) that(1)] that(2) G nothing_mono by (auto simp: G)
  consider "msg = Ping" | "msg = ListAnnotationQueue" | x c where "msg = HeartbeatClaim x c" | x c where "msg = ReleaseSession x c"
    | "handle_annotator_message S a fresh msg = (case claimed_op_session msg of
        Some sid \<Rightarrow> if_owner S a sid (claim_it_first sid) (handle_annotator_session_op S msg)
      | None \<Rightarrow> reply annotator_forbidden)"
    using plain_request [of msg S a fresh] other by blast
  then show ?thesis
  proof cases
    case 1
    with run start show ?thesis by (simp add: reply_def)
  next
    case 2
    with run show ?thesis using handlesD [OF handles_queue [OF api'] start(2)] by simp
  next
    case (3 x c)
    with run have "if_owner S a x not_holder
       (on_result (on_redis (refresh_claim (sv_redis S) x c CLAIM_TTL_SECS)) (\<lambda>r.
        case r of
          Inl e \<Rightarrow> error_reply ''REDIS_ERROR'' (sv_display S e)
        | Inr valid \<Rightarrow>
            if valid then reply (ClaimRefreshed x)
            else error_reply ''CLAIM_LOST'' (''Claim on session '' @ quoted x
              @ '' has expired or was released. Return to queue: memory-archive annotator queue''))) w = Some (answer, w')"
      by (simp add: heartbeat_claim_def)
    then show ?thesis by (rule whole) (rule handles_heartbeat_op [OF api'])
  next
    case (4 x c)
    with run have "if_owner S a x not_holder
       (on_result (on_redis (verify_claim_id (sv_redis S) x c)) (\<lambda>valid.
        if valid \<noteq> Inr True then error_reply ''CLAIM_MISMATCH'' ''Claim ID does not match.''
        else
          on_result (on_redis (release_claim (sv_redis S) x)) (\<lambda>r.
          case r of
            Inl e \<Rightarrow> error_reply ''REDIS_ERROR'' (sv_display S e)
          | Inr _ \<Rightarrow> on_result (on_redis (return_to_queue S x)) (\<lambda>_. reply (SessionReleased x))))) w = Some (answer, w')"
      by (simp add: release_session_def)
    then show ?thesis by (rule whole) (rule handles_release_op [OF api'], simp_all add: G)
  next
    case 5
    show ?thesis
    proof (cases "claimed_op_session msg")
      case None
      with 5 run start show ?thesis by (simp add: reply_def)
    next
      case (Some sid)
      with 5 run have op: "if_owner S a sid (claim_it_first sid) (handle_annotator_session_op S msg) w = Some (answer, w')"
        by simp
      show ?thesis
      proof (cases "\<exists>path bytes ct. msg = UploadFile sid path bytes ct")
        case False
        with op show ?thesis
          by (intro whole) (auto intro!: session_op_frames api' clouds Some simp: G)
      next
        case True
        with op show ?thesis using upload_framed [OF api clouds] by blast
      qed
    qed
  qed
qed

lemma request_confined:
  assumes api: "redis_ok (sv_redis S) V" and clouds: "clouds C S"
    and run: "handle_annotator_message S a fresh msg w = Some (answer, w')"
  shows "framed (annotator_frame V C a msg w) w'
    \<or> (\<exists>x. msg = ClaimSession x) \<and> claim_effect V w a fresh answer w'"
proof (cases "\<exists>x. msg = ClaimSession x")
  case True
  then obtain x where "msg = ClaimSession x" by blast
  with run have "claim_session_request S a fresh x w = Some (answer, w')" by simp
  moreover have "at_view V w w" by (simp add: at_view_def)
  ultimately show ?thesis using leadsD [OF leads_claim_request [OF api]] True by blast
next
  case False
  with request_framed [OF api clouds _ run] show ?thesis by blast
qed


definition mem_services :: "('c, mem) services \<Rightarrow> ('c, mem) services" where
  "mem_services S = S\<lparr>sv_capture := (sv_capture S)\<lparr>ce_redis := mem_redis\<rparr>,
     sv_router := \<lparr>router_pool = [], router_rules = []\<rparr>\<rparr>"

lemma mem_services_sel [simp]:
  "sv_redis (mem_services S) = mem_redis" "sv_clock (mem_services S) = sv_clock S" "clouds C (mem_services S)"
  by (simp_all add: mem_services_def clouds_def)

definition held_world :: "(string \<times> string \<Rightarrow> string option, mem) world" where
  "held_world = \<lparr>w_disk = \<lparr>tree = [], faults = []\<rparr>, w_cloud = Map.empty,
     w_redis = empty_mem\<lparr>mem_strings := [claim_key ''s1'' \<mapsto> ''ann:c1'']\<rparr>, w_maps = empty_maps, w_pushed = [],
     w_push_fails = [], w_clock = [], w_done_handles = {}, w_kafka_sessions = {}\<rparr>"


end
