(* ===== verification/MA_Annotator_Guards.thy ===== *)
theory MA_Annotator_Guards
  imports MA_Annotator_Facts
begin

text \<open>
  The guards of an annotator connection: who is let in, and how many sessions an annotator may hold
  at once.
\<close>

section \<open>Logging in\<close>

text \<open>What the stored fields of an annotator decide.\<close>

definition may_enter :: "('c, 'r) services \<Rightarrow> rview \<Rightarrow> string \<Rightarrow> string \<Rightarrow> bool" where
  "may_enter S v a key \<longleftrightarrow> hashes v (annotator_key a) ''status'' = Some ''active''
     \<and> sha256_hex (sv_annotators S) key = unwrap_or [] (hashes v (annotator_key a) ''key_hash'')"

lemma annotator_fields_view:
  assumes "redis_ok api V" and "get_annotator_fields api a r = (Inr q, r1)"
  shows "V r1 = V r \<and> (case q of None \<Rightarrow> hashes (V r) (annotator_key a) = Map.empty
     | Some m \<Rightarrow> map_of m = hashes (V r) (annotator_key a))"
proof -
  obtain m where get: "rd_hgetall api (annotator_key a) r = (Inr m, r1)" and q: "q = (if m = [] then None else Some m)"
    using assms(2) by (auto simp: get_annotator_fields_def bind_io_def context_io_def split: sum.splits prod.splits)
  from reads_apply [OF redis_laws(2) [OF assms(1)] get] q show ?thesis by auto
qed

lemma opening_admin: "tcp_opening parse secret line = AdminConnection \<Longrightarrow> secret = [] \<or> trim line = secret"
  by (auto simp: tcp_opening_def Let_def constant_time_eq_iff split: if_splits sum.splits inbound.splits)

text \<open>
  C3. Who is let in. When Redis answers, a login succeeds exactly when the annotator is known and
  active and its key has the stored hash; everyone else gets one and the same answer, whatever was
  wrong, so the answer does not tell an unknown annotator from a wrong key. On the first line of a TCP
  connection, an admin connection is opened only for the configured token, when there is one.
\<close>

theorem login_decides:
  assumes "redis_ok (sv_redis S) V" and "annotator_login S a key w = Some (answer, w')"
    and "get_annotator_fields (sv_redis S) a (w_redis w) = (Inr q, r1)"
  shows "answer = (if may_enter S (V (w_redis w)) a key then AnnotatorAuthenticated a else auth_failed)
    \<and> (\<forall>parse secret line. tcp_opening parse secret line = AdminConnection \<longrightarrow> secret = [] \<or> trim line = secret)"
proof -
  let ?h = "hashes (V (w_redis w)) (annotator_key a)"
  have view: "case q of None \<Rightarrow> ?h = Map.empty | Some m \<Rightarrow> map_of m = ?h"
    using annotator_fields_view [OF assms(1,3)] by simp
  have refused: "answer = auth_failed" if "login_refused S a w1 = Some (answer, w2)" for w1 w2
    using that by (auto simp: login_refused_def on_result_def reply_def split: prod.splits)
  have on: "on_redis (get_annotator_fields (sv_redis S) a) w = (Inr q, w\<lparr>w_redis := r1\<rparr>)"
    using assms(3) by (simp add: on_redis_def zoom_def)
  have "answer = (if may_enter S (V (w_redis w)) a key then AnnotatorAuthenticated a else auth_failed)"
  proof (cases q)
    case None
    with view have "\<not> may_enter S (V (w_redis w)) a key" by (simp add: may_enter_def)
    with None on assms(2) refused show ?thesis by (auto simp: annotator_login_def on_result_def)
  next
    case (Some m)
    then have m: "map_of m = ?h" using view by simp
    show ?thesis
    proof (cases "may_enter S (V (w_redis w)) a key")
      case True
      with Some on assms(2) m show ?thesis
        by (auto simp: annotator_login_def on_result_def constant_time_eq_iff may_enter_def unwrap_or_def reply_def
            split: prod.splits)
    next
      case False
      then have "unwrap_or [] (map_of m ''status'') \<noteq> ''active''
          \<or> \<not> constant_time_eq (sha256_hex (sv_annotators S) key) (unwrap_or [] (map_of m ''key_hash''))"
        using m by (auto simp: may_enter_def constant_time_eq_iff unwrap_or_def split: option.splits)
      then have "login_refused S a (w\<lparr>w_redis := r1\<rparr>) = Some (answer, w')"
        using Some on assms(2) by (auto simp: annotator_login_def on_result_def split: if_splits)
      with refused False show ?thesis by simp
    qed
  qed
  with opening_admin show ?thesis by blast
qed

definition known_mem :: mem where
  "known_mem = empty_mem\<lparr>mem_hashes := (\<lambda>_. [])(annotator_key ''ann'' := [(''status'', ''active''), (''key_hash'', ''k'')])\<rparr>"

definition plain_hash :: "('c, mem) services \<Rightarrow> ('c, mem) services" where
  "plain_hash S = (mem_services S)\<lparr>sv_annotators := (sv_annotators S)\<lparr>sha256_hex := \<lambda>s. s\<rparr>\<rparr>"

theorem login_decides_witness:
  "\<forall>S :: (unit, mem) services. \<forall>w. \<exists>w1 w2.
     annotator_login (plain_hash S) ''ann'' ''k'' (w\<lparr>w_redis := known_mem\<rparr>) = Some (AnnotatorAuthenticated ''ann'', w1)
     \<and> annotator_login (plain_hash S) ''ann'' ''x'' (w\<lparr>w_redis := known_mem\<rparr>) = Some (auth_failed, w2)"
proof (intro allI)
  fix S :: "(unit, mem) services" and w :: "(unit, mem) world"
  let ?w = "w\<lparr>w_redis := known_mem\<rparr>"
  have api: "redis_ok (sv_redis (plain_hash S)) mem_view" by (simp add: plain_hash_def mem_services_def mem_redis_ok)
  have get: "get_annotator_fields (sv_redis (plain_hash S)) ''ann'' (w_redis ?w)
      = (Inr (Some [(''status'', ''active''), (''key_hash'', ''k'')]), known_mem)"
    by (simp add: plain_hash_def mem_services_def get_annotator_fields_def bind_io_def context_io_def mem_redis_def known_mem_def)
  have known: "hashes (mem_view known_mem) (annotator_key ''ann'') = [''status'' \<mapsto> ''active'', ''key_hash'' \<mapsto> ''k'']"
    by (simp add: mem_view_def known_mem_def fun_eq_iff)
  have answers: "\<exists>msg w'. annotator_login (plain_hash S) ''ann'' key ?w = Some (msg, w')" for key
    by (auto simp: annotator_login_def login_refused_def on_result_def reply_def error_reply_def split: prod.splits sum.splits option.splits)
  obtain m1 w1 where one: "annotator_login (plain_hash S) ''ann'' ''k'' ?w = Some (m1, w1)" using answers by blast
  obtain m2 w2 where two: "annotator_login (plain_hash S) ''ann'' ''x'' ?w = Some (m2, w2)" using answers by blast
  have enter: "may_enter (plain_hash S) (mem_view known_mem) ''ann'' ''k''" "\<not> may_enter (plain_hash S) (mem_view known_mem) ''ann'' ''x''"
    by (simp_all add: may_enter_def known plain_hash_def unwrap_or_def)
  have "m1 = AnnotatorAuthenticated ''ann''" "m2 = auth_failed"
    using login_decides [OF api one get] login_decides [OF api two get] enter by simp_all
  with one two show "\<exists>w1 w2.
     annotator_login (plain_hash S) ''ann'' ''k'' ?w = Some (AnnotatorAuthenticated ''ann'', w1)
     \<and> annotator_login (plain_hash S) ''ann'' ''x'' ?w = Some (auth_failed, w2)" by blast
qed

section \<open>The claim limit\<close>

text \<open>
  The guarantee of a full \<open>SCAN\<close>: every key that is there from the start to the end is returned.
  \<open>cover\<close> is what a cursor still has to return, and \<open>G\<close> what is always true of the server, so of its
  finitely many keys; reading keeps it.
\<close>

definition scan_covers ::
  "'r redis \<Rightarrow> ('r \<Rightarrow> rview) \<Rightarrow> ('r \<Rightarrow> bool) \<Rightarrow> (rview \<Rightarrow> string \<Rightarrow> nat \<Rightarrow> string set) \<Rightarrow> bool" where
  "scan_covers api V G cover \<longleftrightarrow>
     (\<forall>s k. G s \<longrightarrow> G (snd (rd_hgetall api k s)) \<and> G (snd (rd_smembers api k s)) \<and> G (snd (rd_get api k s)))
     \<and> (\<forall>s c p n. G s \<longrightarrow> G (snd (rd_scan api c p n s)))
     \<and> (\<forall>s p c. G s \<longrightarrow> finite (cover (V s) p c))
     \<and> (\<forall>s p k. G s \<and> prefix p k \<and> key_present (V s) k \<longrightarrow> k \<in> cover (V s) p 0)
     \<and> (\<forall>p n c s c' ks s'. G s \<longrightarrow> rd_scan api c (p @ ''*'') n s = (Inr (c', ks), s') \<longrightarrow>
          cover (V s) p c \<subseteq> set ks \<union> (if c' = 0 then {} else cover (V s) p c'))"

definition steady :: "('r \<Rightarrow> bool) \<Rightarrow> ('r, 'a) io \<Rightarrow> bool" where
  "steady G m \<longleftrightarrow> stays (\<lambda>s s'. G s \<longrightarrow> G s') m"

interpretation steady_kept: kept "\<lambda>s s'. G s \<longrightarrow> G s'" for G :: "'r \<Rightarrow> bool"
  by unfold_locales simp_all

lemmas steady_rules = steady_kept.keep_bind steady_kept.keep_context steady_kept.keep_pure steady_kept.keep_attempt
  steady_kept.keep_fold

lemma steady_commands:
  assumes "scan_covers api V G cover"
  shows "stays (\<lambda>s s'. G s \<longrightarrow> G s') (rd_hgetall api k)" "stays (\<lambda>s s'. G s \<longrightarrow> G s') (rd_smembers api k)"
    "stays (\<lambda>s s'. G s \<longrightarrow> G s') (rd_get api k)" "stays (\<lambda>s s'. G s \<longrightarrow> G s') (rd_scan api c p n)"
  using assms by (simp_all add: scan_covers_def stays_def)

lemma steady_owner: "scan_covers api V G cover \<Longrightarrow> steady G (get_claim_owner api a)"
  unfolding get_claim_owner_def steady_def by (intro steady_rules steady_commands)

lemma steady_get: "scan_covers api V G cover \<Longrightarrow> steady G (registry_get api cf a)"
  unfolding registry_get_def steady_def
  by (intro steady_kept.keep_bind steady_kept.keep_context steady_commands) (auto intro!: steady_rules)

lemma steady_fields: "scan_covers api V G cover \<Longrightarrow> steady G (get_annotator_fields api a)"
  unfolding get_annotator_fields_def steady_def by (intro steady_rules steady_commands)

lemma steady_older: "scan_covers api V G cover \<Longrightarrow> steady G (older_session api cf a o')"
  unfolding older_session_def steady_def
  by (intro steady_kept.keep_bind steady_kept.keep_attempt steady_owner [unfolded steady_def])
    (auto simp: Let_def split: sum.splits option.splits
      intro!: steady_rules steady_get [unfolded steady_def])

lemma steady_search: "scan_covers api V G cover \<Longrightarrow> steady G (oldest_unclaimed api cf)"
  unfolding oldest_unclaimed_def list_pending_human_annotation_def steady_def
  by (intro steady_rules steady_commands steady_older [unfolded steady_def])

lemma steadyD: "steady G m \<Longrightarrow> G s \<Longrightarrow> m s = (r, s') \<Longrightarrow> G s'"
  unfolding steady_def stays_def by (metis snd_conv)

definition owned :: "string \<Rightarrow> rview \<Rightarrow> string set" where
  "owned owner v = {k. \<exists>x. strings v k = Some x \<and> prefix owner x}"

lemma steady_count: "scan_covers api V G cover \<Longrightarrow> steady G (count_claim api owner k held)"
  unfolding count_claim_def steady_def by (intro steady_rules steady_commands)

lemma count_claim_run:
  assumes api: "redis_ok api V" and run: "count_claim api owner k held s = (Inr n, s')"
  shows "V s' = V s \<and> n = (if k \<in> owned owner (V s) then held + 1 else held)"
proof -
  obtain g s1 where get: "rd_get api k s = (g, s1)" by fastforce
  with run obtain x where x: "g = Inr x" by (cases g) (auto simp: count_claim_def bind_io_def)
  with reads_apply [OF redis_laws(6) [OF api] get] have "V s1 = V s" "x = strings (V s) k" by auto
  with run get x show ?thesis
    by (auto simp: count_claim_def bind_io_def ok_def owned_def split: option.splits if_splits)
qed

lemma card_insert_le: "card (A \<inter> set (k # ks)) \<le> (if k \<in> A then 1 else 0) + card (A \<inter> set ks)"
proof -
  have "A \<inter> set (k # ks) = (if k \<in> A then insert k (A \<inter> set ks) else A \<inter> set ks)" by auto
  then show ?thesis by (simp add: card_insert_if)
qed

lemma count_page:
  assumes api: "redis_ok api V"
  shows "fold_io (count_claim api owner) ks held s = (Inr n, s') \<Longrightarrow> V s' = V s \<and> held + card (owned owner (V s) \<inter> set ks) \<le> n"
proof (induction ks arbitrary: held s)
  case (Cons k ks)
  then obtain m s1 where k: "count_claim api owner k held s = (Inr m, s1)" and rest: "fold_io (count_claim api owner) ks m s1 = (Inr n, s')"
    by (auto simp: bind_io_Inr_iff)
  note k = count_claim_run [OF api k] and rest = Cons.IH [OF rest]
  have "card (owned owner (V s) \<inter> set (k # ks)) \<le> (if k \<in> owned owner (V s) then 1 else 0) + card (owned owner (V s) \<inter> set ks)"
    by (rule card_insert_le)
  with k rest show ?case by (auto split: if_splits)
qed (simp add: ok_def)

lemma count_all:
  fixes api :: "'r redis"
  assumes api: "redis_ok api V" and cover: "scan_covers api V G cover" and good: "G s"
    and run: "scan_loop api (''claim:'' @ ''*'') page err (count_claim api owner) cursor held s = Some (Inr n, s')"
  shows "held + card (owned owner (V s) \<inter> cover (V s) ''claim:'' cursor) \<le> n"
proof -
  let ?P = "\<lambda>api' pattern (page :: nat) (err :: string) f cursor held s (res :: nat result \<times> 'r).
      api' = api \<longrightarrow> pattern = ''claim:'' @ ''*'' \<longrightarrow> f = count_claim api owner \<longrightarrow> G s \<longrightarrow>
      (\<forall>n. fst res = Inr n \<longrightarrow> held + card (owned owner (V s) \<inter> cover (V s) ''claim:'' cursor) \<le> n)"
  have "?P api (''claim:'' @ ''*'') page err (count_claim api owner) cursor held s (Inr n, s')"
  proof (rule scan_loop.raw_induct [where P = ?P, OF _ run])
    fix rec api' pattern page err f cursor held s res
    assume IH: "\<And>api' pattern page err f cursor held s res.
        rec api' pattern page err f cursor held s = Some res \<Longrightarrow> ?P api' pattern page err f cursor held s res"
      and body: "(case context_io err (rd_scan api' cursor pattern page) s of
        (Inl e, s) \<Rightarrow> Some (Inl e, s)
      | (Inr (next_cursor, keys), s) \<Rightarrow>
          (case fold_io f keys held s of
             (Inl e, s) \<Rightarrow> Some (Inl e, s)
           | (Inr held, s) \<Rightarrow>
               if next_cursor = 0 then Some (Inr held, s)
               else rec api' pattern page err f next_cursor held s)) = Some res"
    show "?P api' pattern page err f cursor held s res"
    proof (intro impI allI)
      fix n assume same: "api' = api" "pattern = ''claim:'' @ ''*''" "f = count_claim api owner" and G: "G s"
        and res: "fst res = Inr n"
      let ?own = "owned owner (V s)"
      obtain q s1 where scan: "rd_scan api cursor (''claim:'' @ ''*'') page s = (q, s1)" by fastforce
      have V1: "V s1 = V s" using reads_apply [OF redis_laws(14) [OF api] scan] by simp
      obtain c ks where q: "q = Inr (c, ks)"
        using body scan same res by (cases q) (auto simp: context_io_def)
      obtain r2 s2 where fold: "fold_io (count_claim api owner) ks held s1 = (r2, s2)" by fastforce
      obtain m where m: "r2 = Inr m" using body scan same res q fold by (cases r2) (auto simp: context_io_def)
      have page: "V s2 = V s" "held + card (?own \<inter> set ks) \<le> m"
        using count_page [OF api fold [unfolded m]] V1 by auto
      have cov: "cover (V s) ''claim:'' cursor \<subseteq> set ks \<union> (if c = 0 then {} else cover (V s) ''claim:'' c)"
        and fin: "finite (cover (V s) ''claim:'' c)"
        using cover scan q G unfolding scan_covers_def by blast+
      have "steady G (rd_scan api cursor (''claim:'' @ ''*'') page)" unfolding steady_def by (rule steady_commands(4) [OF cover])
      from steadyD [where G = G, OF this G scan] have G1: "G s1" .
      have kept: "steady G (fold_io (count_claim api owner) ks held)"
        unfolding steady_def by (rule steady_kept.keep_fold) (rule steady_count [OF cover, unfolded steady_def])
      from steadyD [where G = G, OF kept G1 fold] have G2: "G s2" .
      show "held + card (?own \<inter> cover (V s) ''claim:'' cursor) \<le> n"
      proof (cases "c = 0")
        case True
        with body scan same res q fold m have "m = n" by (auto simp: context_io_def)
        moreover have "card (?own \<inter> cover (V s) ''claim:'' cursor) \<le> card (?own \<inter> set ks)"
          using cov True by (intro card_mono) auto
        ultimately show ?thesis using page by linarith
      next
        case False
        with body scan same q fold m have "rec api pattern page err f c m s2 = Some res" by (auto simp: context_io_def)
        from IH [OF this] same res page(1) G2 have "m + card (?own \<inter> cover (V s) ''claim:'' c) \<le> n" by simp
        moreover have "card (?own \<inter> cover (V s) ''claim:'' cursor) \<le> card ((?own \<inter> set ks) \<union> (?own \<inter> cover (V s) ''claim:'' c))"
          using cov False fin by (intro card_mono) auto
        moreover have "\<dots> \<le> card (?own \<inter> set ks) + card (?own \<inter> cover (V s) ''claim:'' c)" by (rule card_Un_le)
        ultimately show ?thesis using page by linarith
      qed
    qed
  qed
  with good show ?thesis by simp
qed

definition held_by :: "string \<Rightarrow> rview \<Rightarrow> string set" where
  "held_by a v = {sid. \<exists>x. strings v (claim_key sid) = Some x \<and> prefix (a @ '':'') x}"

lemma held_count:
  assumes cover: "scan_covers api V G cover" and good: "G s"
  shows "finite (held_by a (V s)) \<and> card (held_by a (V s)) \<le> card (owned (a @ '':'') (V s) \<inter> cover (V s) ''claim:'' 0)"
proof -
  let ?A = "owned (a @ '':'') (V s) \<inter> cover (V s) ''claim:'' 0"
  have sub: "claim_key ` held_by a (V s) \<subseteq> ?A"
    using cover good by (auto simp: held_by_def owned_def scan_covers_def claim_key_def key_present_def)
  have fin: "finite ?A" using cover good by (simp add: scan_covers_def)
  have inj: "inj_on claim_key (held_by a (V s))" by (rule inj_onI) simp
  from finite_subset [OF sub fin] have "finite (held_by a (V s))" using finite_image_iff [OF inj] by blast
  moreover have "card (held_by a (V s)) \<le> card ?A" using card_mono [OF fin sub] by (simp add: card_image [OF inj])
  ultimately show ?thesis ..
qed

definition within_limit :: "('r \<Rightarrow> rview) \<Rightarrow> string \<Rightarrow> u32 \<Rightarrow> outbound \<Rightarrow> ('c, 'r) world \<Rightarrow> bool" where
  "within_limit V a n msg w \<longleftrightarrow>
     (\<forall>t c. msg = SessionClaimed t c \<longrightarrow> t \<in> held_by a (V (w_redis w)) \<and> card (held_by a (V (w_redis w))) \<le> unat n)"

lemma target_within_limit:
  assumes api: "redis_ok (sv_redis S) V" and cover: "scan_covers (sv_redis S) V G cover" and n: "n > 0"
  shows "leads (\<lambda>w. at_view V w0 w \<and> G (w_redis w)) (within_limit V a n) (claim_target S a fresh n t)"
  unfolding leads_def
proof (intro allI impI)
  fix w msg w'
  assume w: "at_view V w0 w \<and> G (w_redis w)" and run: "claim_target S a fresh n t w = Some (msg, w')"
  then have good: "G (w_redis w)" by simp
  obtain r s1 where script: "claim_script (sv_redis S) (claim_key t) (a @ '':'' @ fresh) CLAIM_TTL_SECS (a @ '':'') n (w_redis w)
        = Some (r, s1)"
    and answer: "claim_answer S a t n fresh r (w\<lparr>w_redis := s1\<rparr>) = Some (msg, w')"
    using run by (auto simp: claim_target_def on_loop_def zoom_loop_def split: option.splits)
  note answered = claim_answer_claimed [OF answer]
  from api script show "within_limit V a n msg w'"
  proof (cases rule: claim_script_cases)
    case same
    then have "\<forall>t c. msg \<noteq> SessionClaimed t c" using answered by blast
    then show ?thesis by (simp add: within_limit_def)
  next
    case (claimed held s2)
    let ?v = "V (w_redis w)"
    from claimed n have held: "held < unat n"
      and scan: "scan_loop (sv_redis S) (''claim:'' @ ''*'') 200 ''Error running script'' (count_claim (sv_redis S) (a @ '':'')) 0 0 (w_redis w)
        = Some (Inr held, s2)" by auto
    have "card (held_by a ?v) \<le> held"
      using count_all [OF api cover good scan] held_count [OF cover good, of a] by simp
    moreover have now: "held_by a (V s1) = insert t (held_by a ?v)"
      using claimed(2) by (auto simp: held_by_def v_set_def)
    then have "card (held_by a (V s1)) \<le> Suc (card (held_by a ?v))"
      by (simp add: card_insert_if held_count [OF cover good])
    ultimately have "t \<in> held_by a (V s1) \<and> card (held_by a (V s1)) \<le> unat n" using held now by auto
    moreover have "w_redis w' = s1" using answered by simp
    ultimately show ?thesis using answered by (auto simp: within_limit_def)
  qed
qed

lemma maintains_view_good:
  assumes "keeps V (\<lambda>v. v = V (w_redis w0)) m" and "steady G m"
  shows "maintains (\<lambda>w. at_view V w0 w \<and> G (w_redis w)) (on_redis m)"
  using maintains_view [OF assms(1)] steadyD [OF assms(2)]
  by (auto simp: maintains_def on_redis_def zoom_def split: prod.splits)

text \<open>
  C4. The claim limit holds. If the limit of the annotator could be read and is not zero, then after
  every claim that was granted the annotator holds the session and no more sessions than its limit,
  the count and the claim being one step of the server.
\<close>

theorem claim_limit_respected:
  fixes S :: "('c, 'r) services"
  assumes "redis_ok (sv_redis S) V" and "scan_covers (sv_redis S) V G cover" and "G (w_redis w)"
    and "handle_annotator_message S a fresh (ClaimSession sid) w = Some (SessionClaimed t c, w')"
    and "get_annotator_fields (sv_redis S) a (w_redis w) = (Inr q, r1)"
    and "hashes (V (w_redis w)) (annotator_key a) ''max_concurrent_claims'' = Some x" and "parse_u32 x = Some n" and "n > 0"
  shows "t \<in> held_by a (V (w_redis w')) \<and> card (held_by a (V (w_redis w'))) \<le> unat n"
proof -
  note view = annotator_fields_view [OF assms(1,5)]
  then obtain m where q: "q = Some m" "map_of m = hashes (V (w_redis w)) (annotator_key a)"
    using assms(6) by (cases q) auto
  have max: "unwrap_or 0 (Option.bind (annotator_field (Inr q) ''max_concurrent_claims'') parse_u32) = n"
    using q assms(6,7) by (simp add: annotator_field_def unwrap_or_def)
  let ?w = "w\<lparr>w_redis := r1\<rparr>"
  let ?P = "\<lambda>w1. at_view V w w1 \<and> G (w_redis w1)"
  have at: "?P ?w" using view steadyD [OF steady_fields [OF assms(2)] assms(3,5)] by (simp add: at_view_def)
  note target = target_within_limit [OF assms(1,2,8)]
  let ?search = "on_result (on_redis (oldest_unclaimed (sv_redis S) (sv_clock S))) (claim_found S a fresh n)"
  have "on_redis (get_annotator_fields (sv_redis S) a) w = (Inr q, ?w)" using assms(5) by (simp add: on_redis_def zoom_def)
  then have run: "(if sid \<noteq> [] then claim_target S a fresh n sid else ?search) ?w = Some (SessionClaimed t c, w')"
    using assms(4) unfolding handle_annotator_message.simps claim_session_request_def on_result_def [of "on_redis (get_annotator_fields _ _)"] max [symmetric]
    by (simp add: Let_def)
  have none: "within_limit V a n (Error code desc) w1" for code desc and w1 :: "('c, 'r) world"
    by (simp add: within_limit_def)
  have "maintains ?P (on_redis (oldest_unclaimed (sv_redis S) (sv_clock S)))"
    by (intro maintains_view_good keeps_claim_search assms(1) steady_search [OF assms(2)])
  then have "leads ?P (within_limit V a n) ?search"
    by (intro leads_on_result leads_claim_found none target)
  with target have "leads ?P (within_limit V a n) (if sid \<noteq> [] then claim_target S a fresh n sid else ?search)"
    by simp
  from leadsD [OF this at run] have "within_limit V a n (SessionClaimed t c) w'" .
  then show ?thesis by (simp add: within_limit_def)
qed

definition listed :: "mem \<Rightarrow> bool" where
  "listed m \<longleftrightarrow> (\<forall>k. mem_present m k \<longrightarrow> k \<in> set (mem_keys m))"

lemma mem_scan_covers: "scan_covers mem_redis mem_view listed (\<lambda>v p c. {k. prefix p k \<and> key_present v k})"
proof -
  have "finite {k. prefix p k \<and> mem_present m k}" if "listed m" for m p
    by (rule finite_subset [of _ "set (mem_keys m)"]) (use that in \<open>auto simp: listed_def\<close>)
  then show ?thesis by (auto simp: scan_covers_def mem_redis_def) (auto simp: listed_def)
qed

definition limited_mem :: mem where
  "limited_mem = empty_mem\<lparr>mem_hashes := (\<lambda>_. [])(annotator_key ''ann'' := [(''max_concurrent_claims'', ''1'')]),
     mem_keys := [annotator_key ''ann'']\<rparr>"

theorem claim_limit_respected_witness:
  "\<forall>(S :: (unit, mem) services) w. \<exists>w'.
     handle_annotator_message (mem_services S) ''ann'' ''u'' (ClaimSession ''s1'') (w\<lparr>w_redis := limited_mem\<rparr>)
       = Some (SessionClaimed ''s1'' ''u'', w')
     \<and> ''s1'' \<in> held_by ''ann'' (mem_view (w_redis w')) \<and> card (held_by ''ann'' (mem_view (w_redis w'))) \<le> 1"
proof (intro allI)
  fix S :: "(unit, mem) services" and w :: "(unit, mem) world"
  let ?S = "mem_services S" and ?w = "w\<lparr>w_redis := limited_mem\<rparr>"
  have api: "redis_ok (sv_redis ?S) mem_view" and cover: "scan_covers (sv_redis ?S) mem_view listed (\<lambda>v p c. {k. prefix p k \<and> key_present v k})"
    by (simp_all add: mem_redis_ok mem_scan_covers)
  have good: "listed (w_redis ?w)" by (auto simp: listed_def limited_mem_def empty_mem_def mem_present_def)
  have get: "get_annotator_fields (sv_redis ?S) ''ann'' (w_redis ?w) = (Inr (Some [(''max_concurrent_claims'', ''1'')]), limited_mem)"
    by (simp add: get_annotator_fields_def bind_io_def context_io_def mem_redis_def limited_mem_def)
  have max: "hashes (mem_view (w_redis ?w)) (annotator_key ''ann'') ''max_concurrent_claims'' = Some ''1''"
    by (simp add: mem_view_def limited_mem_def)
  have one: "parse_u32 ''1'' = Some 1" by code_simp
  have scan: "scan_loop mem_redis ''claim:*'' 200 err (count_claim mem_redis owner) 0 0 limited_mem = Some (Inr 0, limited_mem)" for err owner
    by (simp add: scan_loop.simps context_io_def mem_redis_def limited_mem_def annotator_key_def ok_def)
  let ?val = "''ann'' @ '':'' @ ''u''"
  let ?now = "\<lambda>x. touch (claim_key ''s1'') (limited_mem\<lparr>mem_strings := (mem_strings limited_mem)(claim_key ''s1'' \<mapsto> x),
      mem_ttls := (mem_ttls limited_mem)(claim_key ''s1'' \<mapsto> uint CLAIM_TTL_SECS)\<rparr>)"
  let ?r = "?now ?val"
  have nx: "rd_set_nx_ex mem_redis (claim_key ''s1'') x CLAIM_TTL_SECS limited_mem = (Inr True, ?now x)" for x
    by (simp add: mem_redis_def limited_mem_def mem_present_def empty_mem_def annotator_key_def claim_key_def)
  have "claim_script mem_redis (claim_key ''s1'') x CLAIM_TTL_SECS owner 1 limited_mem = Some (Inr [''ok''], ?now x)" for x owner
    by (simp add: claim_script_def bind_loop_def scan ends_def bind_io_def nx)
  then have script: "zoom_loop w_redis (\<lambda>r w. w\<lparr>w_redis := r\<rparr>) (claim_script (sv_redis ?S) (claim_key ''s1'') ?val CLAIM_TTL_SECS (''ann'' @ '':'') 1) ?w
      = Some (Inr [''ok''], ?w\<lparr>w_redis := ?r\<rparr>)"
    by (simp add: zoom_loop_def)
  have target: "claim_target ?S ''ann'' ''u'' 1 ''s1'' ?w = Some (SessionClaimed ''s1'' ''u'', ?w\<lparr>w_redis := ?r\<rparr>)"
    unfolding claim_target_def on_loop_def script by (simp add: claim_answer_def reply_def)
  have on: "on_redis (get_annotator_fields (sv_redis ?S) ''ann'') ?w = (Inr (Some [(''max_concurrent_claims'', ''1'')]), ?w)"
    using get by (simp add: on_redis_def zoom_def)
  have run: "handle_annotator_message ?S ''ann'' ''u'' (ClaimSession ''s1'') ?w = Some (SessionClaimed ''s1'' ''u'', ?w\<lparr>w_redis := ?r\<rparr>)"
    unfolding handle_annotator_message.simps claim_session_request_def on_result_def [of "on_redis (get_annotator_fields _ _)"] on
    by (simp only: prod.case Let_def annotator_field_def sum.case option.case) (simp add: one unwrap_or_def target del: append.simps)
  have pos: "(0 :: u32) < 1" by simp
  from claim_limit_respected [OF api cover good run get max one pos] run
  show "\<exists>w'. handle_annotator_message ?S ''ann'' ''u'' (ClaimSession ''s1'') ?w = Some (SessionClaimed ''s1'' ''u'', w')
     \<and> ''s1'' \<in> held_by ''ann'' (mem_view (w_redis w')) \<and> card (held_by ''ann'' (mem_view (w_redis w'))) \<le> 1"
    by (intro exI [of _ "?w\<lparr>w_redis := ?r\<rparr>"]) simp
qed

end
