(* ===== verification/MA_Register.thy ===== *)
theory MA_Register
  imports MA_Server
begin

text \<open>
  Registration of a session over the request server (\<open>RegisterSession\<close> of \<open>ipc/mod.rs\<close>): the
  validation of what the client sends, the record that comes of it, and the directory that goes with
  the record. \<open>fresh\<close> is the UUID drawn for the session.
\<close>

section \<open>Validation\<close>

definition en_dash :: string where
  "en_dash = map char_of [226, 128, 147 :: nat]"

definition invalid_memory_name :: "string \<Rightarrow> bool" where
  "invalid_memory_name name \<longleftrightarrow>
     name = [] \<or> str_contains ''/'' name \<or> str_contains [backslash] name \<or> str_contains ''..'' name \<or> prefix ''.'' name"

definition tenant_char :: "char \<Rightarrow> bool" where
  "tenant_char c \<longleftrightarrow> is_alnum c \<or> c = CHR ''-'' \<or> c = CHR ''_''"

definition clean_tenant_id :: "string option \<Rightarrow> outbound + string" where
  "clean_tenant_id tenant_id =
     (case tenant_id of
        None \<Rightarrow> Inr []
      | Some raw \<Rightarrow>
          let t = trim raw in
          if t = [] then Inl (Error ''INVALID_TENANT_ID'' ''tenant_id must not be empty if provided.'')
          else if length t > 128
          then Inl (Error ''INVALID_TENANT_ID'' ''tenant_id must not exceed 128 characters.'')
          else if \<not> list_all tenant_char t
          then Inl (Error ''INVALID_TENANT_ID'' ''tenant_id must contain only alphanumeric characters, hyphens, and underscores.'')
          else Inr t)"

definition is_valid_http_url :: "string \<Rightarrow> bool" where
  "is_valid_http_url s \<longleftrightarrow> prefix ''http://'' s \<or> prefix ''https://'' s"

definition checked_addr :: "(string \<Rightarrow> string) \<Rightarrow> string \<Rightarrow> string \<Rightarrow> outbound + string" where
  "checked_addr debug field raw =
     (if raw = [] then Inr []
      else if \<not> is_valid_http_url raw
      then Inl (Error ''INVALID_SERVER_ADDR'' (field @ '' must be a valid HTTP/HTTPS URL, got: '' @ debug raw))
      else Inr raw)"

definition bad_config :: "string \<Rightarrow> outbound + 'a" where
  "bad_config msg = Inl (Error ''INVALID_SESSION_CONFIG'' msg)"

definition no_config :: session_config where
  "no_config = \<lparr>sc_model_provider = [], sc_model_endpoint = [], sc_model_api_key_ref = [],
     sc_context_window_steps = 5, sc_fallback_model_provider = [], sc_fallback_model_endpoint = [],
     sc_fallback_api_key_ref = []\<rparr>"

definition clamp_steps :: "u32 \<Rightarrow> u32" where
  "clamp_steps n = (if n < 1 then 1 else if n > 50 then 50 else n)"

definition fallback_refused :: "session_config \<Rightarrow> string option" where
  "fallback_refused cfg =
     (if sc_fallback_model_provider cfg = [] then None
      else if length (sc_fallback_model_provider cfg) > 64
      then Some ''fallback_model_provider must not exceed 64 characters.''
      else if length (sc_fallback_model_endpoint cfg) > 2048
      then Some ''fallback_model_endpoint must not exceed 2048 characters.''
      else if \<not> prefix ''https://'' (sc_fallback_model_endpoint cfg)
      then Some ''fallback_model_endpoint must use HTTPS.''
      else if length (sc_fallback_api_key_ref cfg) > 512
      then Some ''fallback_api_key_ref must not exceed 512 characters.''
      else None)"

definition checked_config :: "session_config option \<Rightarrow> outbound + session_config" where
  "checked_config session_config =
     (case session_config of
        None \<Rightarrow> Inr no_config
      | Some cfg \<Rightarrow>
          if sc_model_provider cfg = [] \<or> length (sc_model_provider cfg) > 64
          then bad_config (''model_provider must be 1'' @ en_dash @ ''64 characters.'')
          else if sc_model_api_key_ref cfg = [] \<or> length (sc_model_api_key_ref cfg) > 512
          then bad_config (''model_api_key_ref must be 1'' @ en_dash @ ''512 characters.'')
          else if sc_model_endpoint cfg = [] \<or> length (sc_model_endpoint cfg) > 2048
          then bad_config (''model_endpoint must be 1'' @ en_dash @ ''2048 characters.'')
          else if \<not> prefix ''https://'' (sc_model_endpoint cfg)
          then bad_config ''model_endpoint must use HTTPS. Plaintext HTTP is not permitted for VLM API calls.''
          else
            (let fallback_count = length (filter (\<lambda>s. s \<noteq> [])
                   [sc_fallback_model_provider cfg, sc_fallback_model_endpoint cfg, sc_fallback_api_key_ref cfg]) in
             if fallback_count > 0 \<and> fallback_count < 3
             then bad_config ''fallback_model_provider, fallback_model_endpoint, and fallback_api_key_ref must all be set together or all absent.''
             else
               (case fallback_refused cfg of
                  Some msg \<Rightarrow> bad_config msg
                | None \<Rightarrow> Inr (cfg\<lparr>sc_context_window_steps := clamp_steps (sc_context_window_steps cfg)\<rparr>))))"

section \<open>The record\<close>

definition ma_core_addr_of :: "config \<Rightarrow> string" where
  "ma_core_addr_of cfg =
     (case cfg_ipc_port cfg of None \<Rightarrow> [] | Some p \<Rightarrow> cfg_ipc_bind_addr cfg @ '':'' @ show_nat (unat p))"

definition new_record ::
  "('c, 'r) services \<Rightarrow> register_fields \<Rightarrow> string \<Rightarrow> int \<Rightarrow> session_mode \<Rightarrow> string \<Rightarrow> session_config \<Rightarrow> string
   \<Rightarrow> string \<Rightarrow> string \<Rightarrow> session_record" where
  "new_record S rg sid now mode tenant_id cfg backend_name capture_server_addr the_eyes_addr =
     \<lparr>rec_session_id = sid, rec_mode = mode, rec_status = Active,
      rec_os_type = rg_os_type rg, rec_os_version = rg_os_version rg,
      rec_os_architecture = rg_os_architecture rg, rec_os_environment_id = rg_os_environment_id rg,
      rec_capture_server_id = rg_capture_server_id rg, rec_actuation_server_id = rg_actuation_server_id rg,
      rec_reasoning_model_id = rg_reasoning_model_id rg, rec_memory_name = rg_memory_name rg,
      rec_memory_path = cfg_storage_path (sv_config S) @ ''/'' @ rg_memory_name rg,
      rec_ma_core_addr = ma_core_addr_of (sv_config S), rec_created_at = now, rec_updated_at = now,
      rec_total_steps = 0, rec_annotated_steps = 0, rec_skipped_steps = 0, rec_tenant_id = tenant_id,
      rec_model_provider = sc_model_provider cfg, rec_model_endpoint = sc_model_endpoint cfg,
      rec_model_api_key_ref = sc_model_api_key_ref cfg, rec_context_window_steps = sc_context_window_steps cfg,
      rec_fallback_model_provider = sc_fallback_model_provider cfg,
      rec_fallback_model_endpoint = sc_fallback_model_endpoint cfg,
      rec_fallback_api_key_ref = sc_fallback_api_key_ref cfg, rec_storage_backend = backend_name,
      rec_capture_server_addr = capture_server_addr, rec_the_eyes_addr = the_eyes_addr\<rparr>"

text \<open>The checks in the order of the code; the clock was read before them.\<close>

definition checked_request ::
  "('c, 'r) services \<Rightarrow> register_fields \<Rightarrow> string \<Rightarrow> int \<Rightarrow> outbound + (string \<Rightarrow> session_record)" where
  "checked_request S rg sid now =
     (if invalid_memory_name (rg_memory_name rg)
      then Inl (Error ''INVALID_MEMORY_NAME''
        (''memory_name must not be empty, contain path separators, or start with '' @ quoted ''.''))
      else
        (case clean_tenant_id (rg_tenant_id rg) of Inl e \<Rightarrow> Inl e | Inr tenant_id \<Rightarrow>
        (case checked_addr (sv_debug S) ''capture_server_addr'' (rg_capture_server_addr rg) of Inl e \<Rightarrow> Inl e | Inr cc \<Rightarrow>
        (case checked_addr (sv_debug S) ''the_eyes_addr'' (rg_the_eyes_addr rg) of Inl e \<Rightarrow> Inl e | Inr eyes_addr \<Rightarrow>
        (case checked_config (rg_session_config rg) of Inl e \<Rightarrow> Inl e | Inr cfg \<Rightarrow>
        (case mode_from_str (rg_mode rg) of
           Inl e \<Rightarrow> Inl (Error ''INVALID_MODE'' (sv_display S e))
         | Inr mode \<Rightarrow> Inr (\<lambda>backend_name. new_record S rg sid now mode tenant_id cfg backend_name cc eyes_addr)))))))"

section \<open>The handler\<close>

definition upload_initial ::
  "('c, 'r) services \<Rightarrow> ('c, 'r) world storage_backend \<Rightarrow> session_record \<Rightarrow> string \<Rightarrow> (('c, 'r) world, unit) io" where
  "upload_initial S storage record memory_dir =
     (if cloud_primary S
      then
        bind_io (attempt (on_disk (fs_read (path_join memory_dir ''metadata.json'')))) (\<lambda>r.
        bind_io (case r of
            Inr bytes \<Rightarrow> ignore (sb_put storage (rec_session_id record)
              (rec_memory_name record @ ''/metadata.json'') bytes ''application/json'')
          | Inl e \<Rightarrow> ok ()) (\<lambda>_.
        ignore (on_disk (fs_remove_dir_all memory_dir))))
      else ok ())"

definition registering ::
  "('c, 'r) services \<Rightarrow> ('c, 'r) world storage_backend \<Rightarrow> session_record \<Rightarrow> ('c, 'r) world handler" where
  "registering S storage record =
     on_result (on_redis (register (sv_redis S) (sv_clock S) (ce_upper (sv_capture S)) record)) (\<lambda>registered.
     case registered of
       Inl e \<Rightarrow> error_reply ''REGISTER_FAILED'' (sv_display S e)
     | Inr _ \<Rightarrow>
         on_result (bind_io utc_now (\<lambda>now. on_disk (initialise (ce_metadata (sv_capture S)) now record
           (cfg_storage_path (sv_config S)) (cloud_primary S)))) (\<lambda>made.
         case made of
           Inr memory_dir \<Rightarrow>
             on_result (upload_initial S storage record memory_dir) (\<lambda>_.
             reply (SessionRegistered (rec_session_id record)))
         | Inl e \<Rightarrow>
             on_result (on_redis (update_status (sv_redis S) (sv_clock S) (rec_session_id record) Incomplete)) (\<lambda>_.
             error_reply ''DIR_INIT_FAILED'' (sv_display S e))))"

definition register_session ::
  "('c, 'r) services \<Rightarrow> string \<Rightarrow> register_fields \<Rightarrow> ('c, 'r) world handler" where
  "register_session S fresh rg =
     on_result utc_now (\<lambda>clock.
     case clock of
       Inl e \<Rightarrow> never
     | Inr now \<Rightarrow>
         (case checked_request S rg fresh now of
            Inl refusal \<Rightarrow> reply refusal
          | Inr record_for \<Rightarrow>
              (case resolve (sv_router S) (rec_tenant_id (record_for [])) of
                 None \<Rightarrow> never
               | Some (backend_name, storage) \<Rightarrow> registering S storage (record_for backend_name))))"

end
