(* ===== verification/MA_Register_Facts.thy ===== *)
theory MA_Register_Facts
  imports MA_Register MA_Annotator_Facts
begin

text \<open>
  What a registered session looks like: every record that a registration request leaves in Redis is
  valid, whatever the client sent.
\<close>

section \<open>Valid records\<close>

definition model_ok :: "string \<Rightarrow> string \<Rightarrow> string \<Rightarrow> bool" where
  "model_ok provider endpoint key_ref \<longleftrightarrow>
     provider = [] \<and> endpoint = [] \<and> key_ref = []
     \<or> provider \<noteq> [] \<and> length provider \<le> 64 \<and> prefix ''https://'' endpoint \<and> length endpoint \<le> 2048
       \<and> key_ref \<noteq> [] \<and> length key_ref \<le> 512"

definition valid_config :: "session_config \<Rightarrow> bool" where
  "valid_config cfg \<longleftrightarrow>
     model_ok (sc_model_provider cfg) (sc_model_endpoint cfg) (sc_model_api_key_ref cfg)
     \<and> model_ok (sc_fallback_model_provider cfg) (sc_fallback_model_endpoint cfg) (sc_fallback_api_key_ref cfg)
     \<and> 1 \<le> sc_context_window_steps cfg \<and> sc_context_window_steps cfg \<le> 50"

definition valid_addr :: "string \<Rightarrow> bool" where
  "valid_addr a \<longleftrightarrow> a = [] \<or> is_valid_http_url a"

definition valid_record :: "('c, 'r) services \<Rightarrow> session_record \<Rightarrow> bool" where
  "valid_record S r \<longleftrightarrow>
     name_ok (rec_memory_name r) \<and> rec_memory_name r \<noteq> ''..''
     \<and> comps (rec_memory_path r) = comps (cfg_storage_path (sv_config S)) @ [rec_memory_name r]
     \<and> list_all tenant_char (rec_tenant_id r) \<and> length (rec_tenant_id r) \<le> 128
     \<and> valid_addr (rec_capture_server_addr r) \<and> valid_addr (rec_the_eyes_addr r)
     \<and> model_ok (rec_model_provider r) (rec_model_endpoint r) (rec_model_api_key_ref r)
     \<and> model_ok (rec_fallback_model_provider r) (rec_fallback_model_endpoint r) (rec_fallback_api_key_ref r)
     \<and> 1 \<le> rec_context_window_steps r \<and> rec_context_window_steps r \<le> 50
     \<and> rec_status r = Active \<and> map_of (router_pool (sv_router S)) (rec_storage_backend r) \<noteq> None"

section \<open>The checks\<close>

lemma clamp_range: "1 \<le> clamp_steps n \<and> clamp_steps n \<le> 50"
  by (auto simp: clamp_steps_def word_le_nat_alt word_less_nat_alt Suc_le_eq unat_gt_0)

lemma https_nonempty: "prefix ''https://'' s \<Longrightarrow> s \<noteq> []"
  by auto

lemma fallback_ok:
  assumes "fallback_refused cfg = None"
    and "\<not> (0 < length (filter (\<lambda>s. s \<noteq> []) [sc_fallback_model_provider cfg, sc_fallback_model_endpoint cfg, sc_fallback_api_key_ref cfg])
      \<and> length (filter (\<lambda>s. s \<noteq> []) [sc_fallback_model_provider cfg, sc_fallback_model_endpoint cfg, sc_fallback_api_key_ref cfg]) < 3)"
  shows "model_ok (sc_fallback_model_provider cfg) (sc_fallback_model_endpoint cfg) (sc_fallback_api_key_ref cfg)"
  using assms
  by (cases "sc_fallback_model_provider cfg = []"; cases "sc_fallback_model_endpoint cfg = []";
      cases "sc_fallback_api_key_ref cfg = []")
    (auto simp: fallback_refused_def model_ok_def split: if_splits)

lemma checked_config_valid:
  assumes "checked_config c = Inr cfg" shows "valid_config cfg"
proof (cases c)
  case None
  with assms have "cfg = no_config" by (simp add: checked_config_def)
  then show ?thesis by (simp add: valid_config_def no_config_def model_ok_def)
next
  case (Some raw)
  let ?n = "length (filter (\<lambda>s. s \<noteq> []) [sc_fallback_model_provider raw, sc_fallback_model_endpoint raw, sc_fallback_api_key_ref raw])"
  have ok: "sc_model_provider raw \<noteq> []" "length (sc_model_provider raw) \<le> 64" "sc_model_api_key_ref raw \<noteq> []"
      "length (sc_model_api_key_ref raw) \<le> 512" "length (sc_model_endpoint raw) \<le> 2048" "prefix ''https://'' (sc_model_endpoint raw)"
      "\<not> (0 < ?n \<and> ?n < 3)" "fallback_refused raw = None" "cfg = raw\<lparr>sc_context_window_steps := clamp_steps (sc_context_window_steps raw)\<rparr>"
    using assms unfolding Some checked_config_def bad_config_def
    by (simp_all only: option.case Let_def split: if_splits option.splits) auto
  from fallback_ok [OF ok(8,7)] ok clamp_range show ?thesis
    by (simp add: valid_config_def model_ok_def)
qed

lemma clean_tenant_valid:
  assumes "clean_tenant_id t = Inr c" shows "list_all tenant_char c \<and> length c \<le> 128"
  using assms by (cases t) (auto simp: clean_tenant_id_def Let_def split: if_splits)

lemma checked_addr_valid: "checked_addr dbg field raw = Inr a \<Longrightarrow> valid_addr a"
  by (auto simp: checked_addr_def valid_addr_def split: if_splits)

lemma memory_name_ok:
  assumes "\<not> invalid_memory_name name" shows "name_ok name \<and> name \<noteq> ''..''"
proof -
  have "CHR ''/'' \<notin> set name" using assms by (simp add: invalid_memory_name_def contains_char)
  with assms show ?thesis by (auto simp: invalid_memory_name_def name_ok_def list_all_iff prefix_def)
qed

lemma memory_path_comps:
  assumes "storage \<noteq> []" and "name_ok name" shows "comps (storage @ ''/'' @ name) = comps storage @ [name]"
proof -
  let ?keep = "filter (\<lambda>c. c \<noteq> [] \<and> c \<noteq> ''.'')"
  have "split_at (\<lambda>c. c = CHR ''/'') (storage @ CHR ''/'' # name)
      = split_at (\<lambda>c. c = CHR ''/'') storage @ split_at (\<lambda>c. c = CHR ''/'') name"
    by (rule split_at_sep) simp
  moreover have "split_at (\<lambda>c. c = CHR ''/'') name = [name]"
    using assms(2) by (intro split_at_none) (simp add: name_ok_def)
  moreover have "prefix ''/'' (storage @ CHR ''/'' # name) = prefix ''/'' storage" using assms(1) by (cases storage) auto
  ultimately show ?thesis using assms(2) by (simp add: comps_def name_ok_def)
qed

lemma resolve_rules_pinned: "resolve_rules pool rs t = Some (n, b) \<Longrightarrow> map_of pool n = Some b"
  by (induction pool rs t rule: resolve_rules.induct) (auto split: list.splits if_splits option.splits)

lemma resolve_pinned: "resolve router t = Some (n, b) \<Longrightarrow> map_of (router_pool router) n = Some b"
  unfolding resolve_def by (rule resolve_rules_pinned)

text \<open>A request that passes the checks makes a valid record of the session it is for.\<close>

lemma checked_request_valid:
  assumes "checked_request S rg sid now = Inr record_for" and "cfg_storage_path (sv_config S) \<noteq> []"
    and "map_of (router_pool (sv_router S)) backend \<noteq> None"
  shows "valid_record S (record_for backend) \<and> rec_session_id (record_for backend) = sid
    \<and> rec_memory_name (record_for backend) = rg_memory_name rg"
proof -
  obtain tenant cc eyes cfg mode where parts: "\<not> invalid_memory_name (rg_memory_name rg)"
      "clean_tenant_id (rg_tenant_id rg) = Inr tenant"
      "checked_addr (sv_debug S) ''capture_server_addr'' (rg_capture_server_addr rg) = Inr cc"
      "checked_addr (sv_debug S) ''the_eyes_addr'' (rg_the_eyes_addr rg) = Inr eyes"
      "checked_config (rg_session_config rg) = Inr cfg"
      "record_for = (\<lambda>b. new_record S rg sid now mode tenant cfg b cc eyes)"
    using assms(1) unfolding checked_request_def by (auto split: if_splits sum.splits)
  from checked_config_valid [OF parts(5)] clean_tenant_valid [OF parts(2)] checked_addr_valid [OF parts(3)]
    checked_addr_valid [OF parts(4)] memory_name_ok [OF parts(1)] memory_path_comps [OF assms(2)] assms(3)
  show ?thesis by (simp add: parts(6) new_record_def valid_record_def valid_config_def)
qed

lemma checked_request_refuses: "checked_request S rg sid now \<noteq> Inl (SessionRegistered a)"
  by (auto simp: checked_request_def clean_tenant_id_def checked_addr_def checked_config_def bad_config_def Let_def
      split: option.splits sum.splits if_splits)

section \<open>The handler\<close>

text \<open>After the record is written, nothing of the registration touches the Redis server.\<close>

lemma keep_redis_disk: "maintains (\<lambda>w. w_redis w = r0) (on_disk m)"
  by (auto simp: maintains_def on_disk_def zoom_def split: prod.splits)

lemma keep_redis_now: "maintains (\<lambda>w. w_redis w = r0) utc_now"
  by (auto simp: maintains_def utc_now_def split: list.splits)

lemma keep_redis_put:
  assumes "cloud_backend C b" shows "maintains (\<lambda>w. w_redis w = r0) (sb_put b a p bytes ct)"
  using assms by (auto simp: cloud_backend_def maintains_def lift_backend_def zoom_def split: prod.splits)

lemma keep_redis_upload:
  assumes "cloud_backend C b" shows "maintains (\<lambda>w. w_redis w = r0) (upload_initial S b record dir)"
  unfolding upload_initial_def
  by (auto intro!: maintains_bind maintains_pure maintains_attempt keep_redis_disk keep_redis_put [OF assms] split: sum.splits)

text \<open>What a successful answer of the handler went through.\<close>

lemma registering_view:
  assumes api: "redis_ok (sv_redis S) V" and b: "cloud_backend C b"
    and run: "registering S b record w = Some (SessionRegistered sid, w')"
  shows "sid = rec_session_id record \<and> \<not> key_present (V (w_redis w)) (session_key sid)
    \<and> hashes (V (w_redis w')) (session_key sid) = map_of (to_redis_pairs (sv_clock S) record)
    \<and> sid \<in> sets (V (w_redis w')) (mode_index_key (rec_mode record))
    \<and> (\<forall>k. index_set (rec_status record) = Some k \<longrightarrow> sid \<in> sets (V (w_redis w')) k)"
proof -
  let ?reg = "register (sv_redis S) (sv_clock S) (ce_upper (sv_capture S)) record"
  obtain r r1 where reg: "?reg (w_redis w) = (r, r1)" by fastforce
  let ?w1 = "w\<lparr>w_redis := r1\<rparr>"
  have first: "on_redis ?reg w = (r, ?w1)" using reg by (simp add: on_redis_def zoom_def)
  obtain u where r: "r = Inr u" using run first
    by (cases r) (auto simp: registering_def on_result_def error_reply_def reply_def)
  let ?init = "bind_io utc_now (\<lambda>now. on_disk (initialise (ce_metadata (sv_capture S)) now record
           (cfg_storage_path (sv_config S)) (cloud_primary S)))"
  obtain made w2 where init: "?init ?w1 = (made, w2)" by fastforce
  have w2: "w_redis w2 = r1"
  proof -
    have "w_redis (snd (made, w2)) = r1"
      unfolding init [symmetric]
      by (rule maintains_bind [OF keep_redis_now keep_redis_disk, unfolded maintains_def, rule_format]) simp
    then show ?thesis by simp
  qed
  note run1 = run [unfolded registering_def on_result_def first prod.case r sum.case]
  obtain dir where made: "made = Inr dir"
  proof (cases made)
    case (Inl e)
    show ?thesis using run1 unfolding init prod.case Inl
      by (simp add: on_result_def error_reply_def reply_def split: prod.splits)
  qed
  obtain u2 w3 where up: "upload_initial S b record dir w2 = (u2, w3)" by fastforce
  have w3: "w_redis w3 = r1"   proof -
    have "w_redis (snd (u2, w3)) = r1"
      unfolding up [symmetric] by (rule keep_redis_upload [OF b, unfolded maintains_def, rule_format]) (rule w2)
    then show ?thesis by simp
  qed
  have ans: "sid = rec_session_id record" "w' = w3"
    using run1 unfolding init prod.case made sum.case up by (simp_all add: reply_def)
  note v = givesD [OF register_view [OF api] refl reg [unfolded r]]
  show ?thesis
    unfolding ans w3 using v by (auto simp: key_present_def map_of_fresh split: option.splits)
qed


definition demo_codec :: metadata_codec where
  "demo_codec = \<lparr>metadata_to_json = \<lambda>_. Inr ''{}'', metadata_from_json = \<lambda>_. Inl ''no''\<rparr>"

type_synonym demo_services = "(string \<times> string \<Rightarrow> string option, mem) services"

definition demo_register :: "demo_services \<Rightarrow> demo_services" where
  "demo_register S = S\<lparr>sv_capture := (sv_capture S)\<lparr>ce_redis := mem_redis, ce_metadata := demo_codec\<rparr>,
     sv_config := (sv_config S)\<lparr>cfg_storage_path := ''/s'', cfg_storage_mode := ''local''\<rparr>,
     sv_router := \<lparr>router_pool = [(''local'', lift_backend w_cloud (\<lambda>c w. w\<lparr>w_cloud := c\<rparr>) memory_store)], router_rules = []\<rparr>\<rparr>"

definition demo_fields :: register_fields where
  "demo_fields = \<lparr>rg_mode = ''manual'', rg_os_type = ''linux'', rg_os_version = [], rg_os_architecture = [],
     rg_os_environment_id = [], rg_capture_server_id = [], rg_actuation_server_id = [], rg_memory_name = ''m1'',
     rg_reasoning_model_id = None, rg_tenant_id = Some ''acme'', rg_session_config = None,
     rg_capture_server_addr = [], rg_the_eyes_addr = []\<rparr>"

definition demo_world :: "(string \<times> string \<Rightarrow> string option, mem) world" where
  "demo_world = \<lparr>w_disk = \<lparr>tree = [], faults = []\<rparr>, w_cloud = Map.empty, w_redis = empty_mem, w_maps = empty_maps,
     w_pushed = [], w_push_fails = [], w_clock = [], w_done_handles = {}, w_kafka_sessions = {}\<rparr>"

lemma demo_initialise:
  assumes "rec_memory_name r = ''m1''"
  shows "fst (initialise demo_codec now r ''/s'' False \<lparr>tree = [], faults = []\<rparr>) = Inr ''/s/m1''"
proof -
  let ?r = "sample_record\<lparr>rec_memory_name := ''m1''\<rparr>"
  have "initialise demo_codec now r ''/s'' False = initialise demo_codec now ?r ''/s'' False"
    using assms by (simp add: initialise_def metadata_write_def demo_codec_def Let_def)
  moreover have "fst (initialise demo_codec 0 ?r ''/s'' False \<lparr>tree = [], faults = []\<rparr>) = Inr ''/s/m1''"
    by code_simp
  moreover have "initialise demo_codec now ?r ''/s'' False = initialise demo_codec 0 ?r ''/s'' False"
    by (simp add: initialise_def metadata_write_def demo_codec_def Let_def)
  ultimately show ?thesis by simp
qed


end
