(* ===== verification/MA_Admin.thy ===== *)
theory MA_Admin
  imports MA_Register MA_Annotator
begin

text \<open>
  The admin operations that answer at once (\<open>handle_message\<close> of \<open>ipc/mod.rs\<close>): reasoning results,
  the circuit breaker, compilation, and the annotator accounts. What concerns the watch loops,
  \<open>StartWatch\<close>, \<open>Done\<close> and \<open>DeleteSession\<close>, is in \<open>MA_Serving\<close>. Alerts and metrics are not modelled.
\<close>

section \<open>Reasoning results\<close>

definition on_maps :: "(reasoning_maps \<Rightarrow> reasoning_maps) \<Rightarrow> (('c, 'r) world, unit) io" where
  "on_maps f = changing (\<lambda>w. w\<lparr>w_maps := f (w_maps w)\<rparr>)"

text \<open>The document of a session, whatever stands in the way of reading it.\<close>

definition session_document ::
  "('c, 'r) services \<Rightarrow> ('c, 'r) world storage_backend \<Rightarrow> session_record \<Rightarrow> string
   \<Rightarrow> (('c, 'r) world, session_metadata option) io" where
  "session_document S storage record sid =
     (if cloud_primary S then
        bind_io (attempt (sb_get storage sid (rec_memory_name record @ ''/metadata.json''))) (\<lambda>r.
        ok (case and_then r (metadata_from_bytes (ce_metadata (sv_capture S))) of Inr m \<Rightarrow> Some m | Inl e \<Rightarrow> None))
      else
        bind_io (attempt (on_disk (metadata_read (ce_metadata (sv_capture S)) (rec_memory_path record)))) (\<lambda>r.
        ok (case r of Inr m \<Rightarrow> Some m | Inl e \<Rightarrow> None)))"

definition unrecorded_step :: "u32 \<Rightarrow> step_entry" where
  "unrecorded_step step =
     \<lparr>se_step_id = step, se_timestamp = [], se_action_type = [], se_action_subtype = [], se_image_path = None,
      se_image_fetched = False, se_marked = False, se_before_image_path = None, se_after_image_path = None,
      se_raw_command = [], se_converted_command = [], se_record_suspect = None\<rparr>"

definition step_in :: "session_metadata option \<Rightarrow> u32 \<Rightarrow> step_entry" where
  "step_in doc step =
     unwrap_or (unrecorded_step step) (Option.bind doc (\<lambda>m. find (\<lambda>s. se_step_id s = step) (md_steps m)))"

definition automated_of :: "reasoning_fields \<Rightarrow> automated_reasoning" where
  "automated_of f =
     \<lparr>ar_reasoning = rf_reasoning f, ar_source = rf_source f,
      ar_provider = (if rf_provider f = [] then None else Some (rf_provider f)),
      ar_model_id = Some (rf_model_id f), ar_api_version = Some (rf_api_version f),
      ar_input_tokens = Some (rf_input_tokens f), ar_output_tokens = Some (rf_output_tokens f),
      ar_latency_ms = Some (rf_latency_ms f), ar_action_intent = rf_action_intent f,
      ar_confidence = rf_confidence f, ar_keyboard_visual_annotation = rf_keyboard_visual_annotation f\<rparr>"

text \<open>The entry, and the scratch directory and the lock it is written under.\<close>

definition make_entry ::
  "('c, 'r) services \<Rightarrow> ('c, 'r) world storage_backend \<Rightarrow> session_record \<Rightarrow> reasoning_fields
   \<Rightarrow> (('c, 'r) world, reasoning_entry) io" where
  "make_entry S storage record f =
     bind_io (session_document S storage record (rf_session_id f)) (\<lambda>doc.
     bind_io utc_now (\<lambda>now.
     bind_io (if cloud_primary S
        then ignore (on_disk (fs_create_dir_all (path_join (rec_memory_path record) ''reasoning''))) else ok ()) (\<lambda>_.
     bind_io (on_maps (\<lambda>m. snd (session_write_lock (rf_session_id f) m))) (\<lambda>_.
     ok (build_automated_entry (to_rfc3339 (sv_clock S) now) (step_in doc (rf_step_id f)) (automated_of f))))))"

definition upload_reasoning ::
  "('c, 'r) services \<Rightarrow> ('c, 'r) world storage_backend \<Rightarrow> session_record \<Rightarrow> string \<Rightarrow> (('c, 'r) world, unit) io" where
  "upload_reasoning S storage record sid =
     (if cloud_primary S
      then ignore (bind_io (on_disk (fs_read (path_join (path_join (rec_memory_path record) ''reasoning'') ''reasoning.jsonl''))) (\<lambda>bytes.
             sb_put storage sid (rec_memory_name record @ ''/reasoning/reasoning.jsonl'') bytes ''application/json''))
      else ok ())"

definition book_tokens :: "reasoning_fields \<Rightarrow> reasoning_maps \<Rightarrow> reasoning_maps" where
  "book_tokens f m =
     (let m = add_tokens (rf_session_id f) (ucast (rf_input_tokens f)) (ucast (rf_output_tokens f)) m in
      if rf_provider f = [] then m
      else add_provider_tokens (rf_session_id f) (rf_provider f) (ucast (rf_input_tokens f)) (ucast (rf_output_tokens f)) m)"

definition reasoning_result :: "('c, 'r) services \<Rightarrow> reasoning_fields \<Rightarrow> ('c, 'r) world handler" where
  "reasoning_result S f =
     (let sid = rf_session_id f in
      with_record S sid (\<lambda>record. with_backend S record (\<lambda>storage.
        on_result (make_entry S storage record f) (\<lambda>made.
        case made of
          Inl e \<Rightarrow> never
        | Inr entry \<Rightarrow>
            on_result (on_disk (upsert_entry (ce_entries (sv_capture S)) (rec_memory_path record) entry)) (\<lambda>written.
            case written of
              Inl e \<Rightarrow> error_reply ''WRITE_FAILED'' (''Failed to write reasoning.jsonl: '' @ sv_display S e)
            | Inr _ \<Rightarrow>
                on_result (bind_io (upload_reasoning S storage record sid) (\<lambda>_. on_maps (book_tokens f))) (\<lambda>_.
                reply (ReasoningResultAccepted sid (rf_step_id f))))))))"

section \<open>The circuit breaker\<close>

definition reasoning_degraded :: "('c, 'r) services \<Rightarrow> string \<Rightarrow> u32 \<Rightarrow> ('c, 'r) world handler" where
  "reasoning_degraded S sid step_range_start =
     on_result (on_maps (mark_degraded sid)) (\<lambda>_.
     on_result (on_redis (registry_get (sv_redis S) (sv_clock S) sid)) (\<lambda>_.
     on_result (on_redis (update_status (sv_redis S) (sv_clock S) sid session_status.ReasoningDegraded)) (\<lambda>_.
     reply (ReasoningDegradedEvent sid step_range_start))))"

definition circuit_reset :: "('c, 'r) services \<Rightarrow> string \<Rightarrow> ('c, 'r) world handler" where
  "circuit_reset S sid =
     on_result (on_maps (reset_degraded sid)) (\<lambda>_.
     on_result (on_redis (update_status (sv_redis S) (sv_clock S) sid Active)) (\<lambda>_.
     reply (CircuitResetAck sid)))"

definition compile_memory :: "('c, 'r) services \<Rightarrow> string \<Rightarrow> ('c, 'r) world handler" where
  "compile_memory S sid =
     with_record S sid (\<lambda>record.
       if rec_status record \<noteq> PendingCompilation
       then error_reply ''INVALID_STATUS'' (''Session '' @ quoted sid @ '' has status ''
              @ quoted (status_str (rec_status record)) @ '' '' @ em_dash @ '' CompileMemory requires pending_compilation.'')
       else reply (MemoryCompileReady sid (rec_memory_path record)))"

section \<open>Annotator accounts\<close>

definition account_reply ::
  "('c, 'r) services \<Rightarrow> string \<Rightarrow> string \<Rightarrow> string \<Rightarrow> ('a \<Rightarrow> outbound) \<Rightarrow> 'a result \<Rightarrow> 's handler" where
  "account_reply S known_code known_msg other_code done r =
     (case r of
        Inl e \<Rightarrow> if sv_display S e = known_code then error_reply known_code known_msg
                 else error_reply other_code (sv_display S e)
      | Inr a \<Rightarrow> reply (done a))"

definition register_annotator_request ::
  "('c, 'r) services \<Rightarrow> string \<Rightarrow> string list \<Rightarrow> u32 \<Rightarrow> string \<Rightarrow> ('c, 'r) world handler" where
  "register_annotator_request S annotator_id tenants max_c raw =
     on_result (on_redis (register_annotator (sv_redis S) (sv_clock S) (sv_annotators S) annotator_id tenants max_c raw))
       (account_reply S ''ANNOTATOR_EXISTS'' (''Annotator '' @ quoted annotator_id @ '' already exists.'')
          ''REGISTER_FAILED'' (AnnotatorRegistered annotator_id))"

definition deactivate_annotator_request :: "('c, 'r) services \<Rightarrow> string \<Rightarrow> ('c, 'r) world handler" where
  "deactivate_annotator_request S annotator_id =
     on_result (on_redis (deactivate_annotator (sv_redis S) (sv_clock S) annotator_id))
       (account_reply S ''ANNOTATOR_NOT_FOUND'' (''Annotator '' @ quoted annotator_id @ '' not found.'')
          ''DEACTIVATE_FAILED'' (\<lambda>_. AnnotatorDeactivated annotator_id))"

definition rotate_annotator_request :: "('c, 'r) services \<Rightarrow> string \<Rightarrow> string \<Rightarrow> ('c, 'r) world handler" where
  "rotate_annotator_request S annotator_id raw =
     on_result (on_redis (rotate_annotator_key (sv_redis S) (sv_annotators S) annotator_id raw))
       (account_reply S ''ANNOTATOR_NOT_FOUND'' (''Annotator '' @ quoted annotator_id @ '' not found.'')
          ''ROTATE_FAILED'' (AnnotatorKeyRotated annotator_id))"

definition list_annotators_request :: "('c, 'r) services \<Rightarrow> ('c, 'r) world handler" where
  "list_annotators_request S =
     on_loop (zoom_loop w_redis (\<lambda>r w. w\<lparr>w_redis := r\<rparr>) (list_annotators (sv_redis S) (sv_annotators S))) (\<lambda>r.
     case r of Inl e \<Rightarrow> error_reply ''REDIS_ERROR'' (sv_display S e) | Inr annotators \<Rightarrow> reply (AnnotatorList annotators))"

section \<open>Dispatch\<close>

definition annotator_only :: outbound where
  "annotator_only = Error ''FORBIDDEN'' ''This is an annotator-only operation. Connect with an annotator_key to use it.''"

text \<open>The requests that touch no watch loop; \<open>uuid\<close> and \<open>key\<close> are what the random generator draws.\<close>

fun handle_plain :: "('c, 'r) services \<Rightarrow> string \<Rightarrow> string \<Rightarrow> inbound \<Rightarrow> ('c, 'r) world handler" where
  "handle_plain S uuid key Ping = reply (Pong (sv_version S))"
| "handle_plain S uuid key (RegisterSession rg) = register_session S uuid rg"
| "handle_plain S uuid key (GetSessionStatus sid) = get_session_status S sid"
| "handle_plain S uuid key (LoadSession sid) =
     load_session S PendingAnnotation (\<lambda>other. ''Session '' @ quoted sid @ '' has status ''
       @ quoted (status_str other) @ '' '' @ em_dash @ '' only '' @ quoted ''pending_annotation'' @ '' or ''
       @ quoted ''annotating'' @ '' sessions can be loaded for annotation.'') sid"
| "handle_plain S uuid key (UpdateAnnotationProgress sid annotated skipped) =
     update_annotation_progress S sid annotated skipped"
| "handle_plain S uuid key (CloseAnnotation sid) = change_status S sid PendingAnnotation (AnnotationClosed sid)"
| "handle_plain S uuid key (CompleteAnnotation sid) =
     change_status S sid PendingCompilation (AnnotationCompleted sid)"
| "handle_plain S uuid key (FinalizeMemory sid) = change_status S sid Complete (MemoryFinalized sid)"
| "handle_plain S uuid key (FetchFile sid path) = fetch_file S (\<lambda>_. False) sid path"
| "handle_plain S uuid key (ListSessionFiles sid pre) = list_session_files S sid pre"
| "handle_plain S uuid key (UploadFile sid path bytes content_type) = upload_file S sid path bytes content_type"
| "handle_plain S uuid key (ReasoningResult f) = reasoning_result S f"
| "handle_plain S uuid key (inbound.ReasoningDegraded sid start) = reasoning_degraded S sid start"
| "handle_plain S uuid key (CircuitReset sid) = circuit_reset S sid"
| "handle_plain S uuid key (CompileMemory sid) = compile_memory S sid"
| "handle_plain S uuid key (PricingRegistryStatus status age) = reply PricingStatusAck"
| "handle_plain S uuid key (RegisterAnnotator annotator_id tenants max_c) =
     register_annotator_request S annotator_id tenants max_c key"
| "handle_plain S uuid key (DeactivateAnnotator annotator_id) = deactivate_annotator_request S annotator_id"
| "handle_plain S uuid key (RotateAnnotatorKey annotator_id) = rotate_annotator_request S annotator_id key"
| "handle_plain S uuid key ListAnnotators = list_annotators_request S"
| "handle_plain S uuid key _ = reply annotator_only"

end
