(* ===== verification/MA_Serving.thy ===== *)
theory MA_Serving
  imports MA_Admin
begin

text \<open>
  The server with its watch loops: the admin requests that start, end and delete a session
  (\<open>StartWatch\<close>, \<open>Done\<close> and \<open>DeleteSession\<close> of \<open>ipc/mod.rs\<close>), the loops they start, and the tasks
  they spawn. Everything runs by interleaved steps: a request, the begin or a turn of a loop, a spawned
  task, the answer to a request that waited for a loop.

  A loop is numbered by its start, and \<open>sg_handles\<close> is the map of done handles, which of a session's
  loops the sender in it belongs to. The sender lives in the map and nowhere else, so a loop is
  signalled exactly when its own handle is no longer there: \<open>Done\<close> takes it and sends, whoever else
  removes or replaces it drops it, and the receiver in the loop's \<open>select!\<close> is ready in either case.
\<close>

section \<open>State\<close>

record ('c, 'r) serving =
  sg_world :: "('c, 'r) world"
  sg_push :: "string set"
  sg_loops :: "nat \<rightharpoonup> bool \<times> ('c, 'r) watching"
  sg_handles :: "string \<rightharpoonup> nat"
  sg_results :: "nat \<rightharpoonup> u32"
  sg_next :: nat
  sg_tasks :: "(('c, 'r) world \<Rightarrow> ('c, 'r) world) list"

text \<open>The network as one start or one end of a session sees it.\<close>

record network =
  nw_connect :: "cc_endpoint \<Rightarrow> watch_stream result"
  nw_client_ok :: bool
  nw_eyes :: eyes

definition shared :: "(('c, 'r) world, 'a) io \<Rightarrow> (('c, 'r) serving, 'a) io" where
  "shared = zoom sg_world (\<lambda>w g. g\<lparr>sg_world := w\<rparr>)"

interpretation shared_lens: lens sg_world "\<lambda>w g. g\<lparr>sg_world := w\<rparr>"
  by unfold_locales simp_all

definition in_shared :: "('c, 'r) world handler \<Rightarrow> ('c, 'r) serving handler" where
  "in_shared h = (\<lambda>g. map_option (\<lambda>(msg, w). (msg, g\<lparr>sg_world := w\<rparr>)) (h (sg_world g)))"

definition drop_handle :: "string \<Rightarrow> ('c, 'r) serving \<Rightarrow> ('c, 'r) serving" where
  "drop_handle sid g =
     g\<lparr>sg_handles := (sg_handles g)(sid := None),
       sg_world := (sg_world g)\<lparr>w_done_handles := w_done_handles (sg_world g) - {sid}\<rparr>\<rparr>"

definition drop_push :: "string \<Rightarrow> ('c, 'r) serving \<Rightarrow> ('c, 'r) serving" where
  "drop_push sid g = g\<lparr>sg_push := sg_push g - {sid}\<rparr>"

definition spawn :: "(('c, 'r) world, unit) io \<Rightarrow> ('c, 'r) serving \<Rightarrow> ('c, 'r) serving" where
  "spawn task g = g\<lparr>sg_tasks := sg_tasks g @ [\<lambda>w. snd (task w)]\<rparr>"

section \<open>Starting\<close>

definition start_failed :: "('c, 'r) services \<Rightarrow> string \<Rightarrow> string option \<Rightarrow> ('c, 'r) serving handler" where
  "start_failed S sid why =
     on_result (changing (drop_push sid)) (\<lambda>_.
     on_result (shared (on_redis (update_status (sv_redis S) (sv_clock S) sid Incomplete))) (\<lambda>_.
     error_reply ''WATCH_START_FAILED'' (''Capture did not start, so no steps would be recorded: ''
       @ unwrap_or ''watch loop exited before the event source came up'' why)))"

definition watch_started :: "string \<Rightarrow> session_record \<Rightarrow> outbound" where
  "watch_started sid record =
     WatchStarted \<lparr>ws_session_id = sid, ws_memory_path = rec_memory_path record,
       ws_model_provider = rec_model_provider record, ws_model_endpoint = rec_model_endpoint record,
       ws_model_api_key_ref = rec_model_api_key_ref record,
       ws_fallback_model_provider = rec_fallback_model_provider record,
       ws_fallback_model_endpoint = rec_fallback_model_endpoint record,
       ws_fallback_api_key_ref = rec_fallback_api_key_ref record\<rparr>"

text \<open>The task is spawned and its answer about the event source awaited.\<close>

definition spawn_watch ::
  "('c, 'r) services \<Rightarrow> network \<Rightarrow> string \<Rightarrow> session_record \<Rightarrow> ('c, 'r) world storage_backend
   \<Rightarrow> ('c, 'r) serving handler" where
  "spawn_watch S nw sid record storage = (\<lambda>g.
     case start_watch (sv_capture S) \<lparr>wa_session_id = sid, wa_config = sv_config S, wa_storage = storage\<rparr>
            (nw_connect nw) (nw_client_ok nw) (sg_world g) of
       (GaveUp why, w) \<Rightarrow> start_failed S sid why (g\<lparr>sg_world := w\<rparr>)
     | (Up wt, w) \<Rightarrow>
         Some (watch_started sid record,
           g\<lparr>sg_world := w, sg_loops := (sg_loops g)(sg_next g \<mapsto> (False, wt)), sg_next := sg_next g + 1\<rparr>))"

definition start_watch_request :: "('c, 'r) services \<Rightarrow> network \<Rightarrow> string \<Rightarrow> ('c, 'r) serving handler" where
  "start_watch_request S nw sid =
     on_result (shared (on_redis (registry_get (sv_redis S) (sv_clock S) sid))) (\<lambda>r.
     case r of
       Inl e \<Rightarrow> error_reply ''SESSION_NOT_FOUND'' (sv_display S e)
     | Inr record \<Rightarrow>
         (\<lambda>g. if \<not> cloud_primary S \<and> \<not> fs_exists (w_disk (sg_world g)) (rec_memory_path record)
          then error_reply ''MEMORY_DIR_MISSING'' (''Memory directory no longer exists: '' @ rec_memory_path record
            @ ''. The session may have been deleted. Register a new session to start again.'') g
          else
            (case resolve_for_session (sv_router S) record of
               None \<Rightarrow> None
             | Some storage \<Rightarrow>
                 spawn_watch S nw sid record storage (g\<lparr>sg_push := insert sid (sg_push g)\<rparr>))))"

section \<open>The closing image\<close>

definition push_written :: "string \<Rightarrow> string \<Rightarrow> string \<Rightarrow> (('c, 'r) world, unit) io" where
  "push_written sid memory_dir rel = ignore (try_send (FileWritten sid rel (path_join memory_dir rel)))"

definition closing_image ::
  "('c, 'r) services \<Rightarrow> network \<Rightarrow> ('c, 'r) world storage_backend \<Rightarrow> bool \<Rightarrow> string \<Rightarrow> string
   \<Rightarrow> (('c, 'r) world, unit) io" where
  "closing_image S nw storage has_push sid memory_dir =
     (if cfg_the_eyes_addr (sv_config S) = [] \<or> \<not> nw_client_ok nw then ok ()
      else
        bind_io utc_now (\<lambda>now.
        case fetch_at (ce_vision (sv_capture S)) (nw_eyes nw) At (to_rfc3339 (sv_clock S) now) of
          Inl e \<Rightarrow> ok ()
        | Inr (bytes, ext) \<Rightarrow>
            let name = ''closing_state.'' @ ext; rel = ''vision/frames/'' @ name in
            if cloud_primary S
            then ignore (sb_put storage sid (unwrap_or [] (file_name memory_dir) @ ''/'' @ rel) bytes ''image/png'')
            else
              bind_io (attempt (on_disk (fs_write
                (path_join (path_join (path_join memory_dir ''vision'') ''frames'') name) bytes))) (\<lambda>written.
              case written of
                Inl e \<Rightarrow> ok ()
              | Inr _ \<Rightarrow>
                  bind_io (attempt (on_disk (set_closing_image (ce_metadata (sv_capture S)) memory_dir rel))) (\<lambda>noted.
                  case noted of
                    Inl e \<Rightarrow> ok ()
                  | Inr _ \<Rightarrow>
                      if has_push
                      then bind_io (push_written sid memory_dir rel) (\<lambda>_. push_written sid memory_dir ''metadata.json'')
                      else ok ()))))"

definition spawn_closing ::
  "('c, 'r) services \<Rightarrow> network \<Rightarrow> ('c, 'r) world storage_backend \<Rightarrow> string \<Rightarrow> string \<Rightarrow> ('c, 'r) serving \<Rightarrow> ('c, 'r) serving" where
  "spawn_closing S nw storage sid memory_dir g =
     spawn (closing_image S nw storage (sid \<in> sg_push g) sid memory_dir) g"

section \<open>Ending a session without a live loop\<close>

text \<open>Tokens nobody has booked are added to the document on disk, if it can be read.\<close>

definition book_drained :: "('c, 'r) services \<Rightarrow> string \<Rightarrow> string \<Rightarrow> (('c, 'r) world, unit) io" where
  "book_drained S sid memory_dir = (\<lambda>w.
     let (tokens, maps) = drain_tokens sid (w_maps w);
         (providers, maps) = drain_provider_tokens sid maps;
         w = w\<lparr>w_maps := maps\<rparr> in
     if fst tokens > 0 \<or> snd tokens > 0 \<or> providers \<noteq> Map.empty
     then ignore (on_disk (bind_io (metadata_read (ce_metadata (sv_capture S)) memory_dir) (\<lambda>meta.
            metadata_write (ce_metadata (sv_capture S)) memory_dir (add_provider_costs providers (add_totals tokens meta))))) w
     else (Inr (), w))"

definition finalise_afresh ::
  "('c, 'r) services \<Rightarrow> ('c, 'r) world storage_backend \<Rightarrow> string \<Rightarrow> string \<Rightarrow> (('c, 'r) world, unit) io" where
  "finalise_afresh S storage sid memory_dir = (\<lambda>w.
     case finalise (ce_json (sv_capture S)) (writer_new memory_dir (cloud_primary S) sid storage, w) of
       (_, (_, w)) \<Rightarrow> (Inr (), w))"

definition complete_document ::
  "('c, 'r) services \<Rightarrow> ('c, 'r) world storage_backend \<Rightarrow> session_record \<Rightarrow> string \<Rightarrow> (('c, 'r) world, unit) io" where
  "complete_document S storage record sid =
     (let mc = ce_metadata (sv_capture S); path = rec_memory_name record @ ''/metadata.json'' in
      if cloud_primary S then
        ignore (bind_io (sb_get storage sid path) (\<lambda>bytes.
          bind_io (lift_result (metadata_from_bytes mc bytes)) (\<lambda>meta.
          bind_io utc_now (\<lambda>now.
          bind_io (lift_result (metadata_to_json mc
            (meta\<lparr>md_status := ''complete'', md_completed_at := Some now, md_in_progress := None\<rparr>))) (\<lambda>bytes.
          sb_put storage sid path bytes ''application/json'')))))
      else
        bind_io utc_now (\<lambda>now.
        bind_io (ignore (on_disk (mark_complete mc now (rec_memory_path record)))) (\<lambda>_.
        ignore (on_disk (clear_in_progress mc (rec_memory_path record))))))"

definition finalise_session ::
  "('c, 'r) services \<Rightarrow> ('c, 'r) world storage_backend \<Rightarrow> session_record \<Rightarrow> string \<Rightarrow> (('c, 'r) world, u32) io" where
  "finalise_session S storage record sid =
     bind_io (book_drained S sid (rec_memory_path record)) (\<lambda>_.
     bind_io (session_document S storage record sid) (\<lambda>doc.
     bind_io (finalise_afresh S storage sid (rec_memory_path record)) (\<lambda>_.
     bind_io (complete_document S storage record sid) (\<lambda>_.
     bind_io (reading (\<lambda>w. is_degraded sid (w_maps w))) (\<lambda>was_degraded.
     bind_io (on_maps (remove_session sid)) (\<lambda>_.
     bind_io (ignore (on_redis (update_status (sv_redis S) (sv_clock S) sid
       (if was_degraded then PendingHumanAnnotation else PendingAnnotation)))) (\<lambda>_.
     ok (case doc of Some m \<Rightarrow> md_total_steps m | None \<Rightarrow> rec_total_steps record))))))))"

text \<open>The one who started the watch hears of the end first; its channel may be closed.\<close>

definition announce_end :: "string \<Rightarrow> u32 \<Rightarrow> ('c, 'r) serving handler" where
  "announce_end sid n = (\<lambda>g.
     let g' = (if sid \<in> sg_push g then snd (shared (ignore (try_send (SessionComplete sid n))) (drop_push sid g)) else g) in
     Some (SessionComplete sid n, g'))"

definition finalise_directly ::
  "('c, 'r) services \<Rightarrow> network \<Rightarrow> string \<Rightarrow> ('c, 'r) world storage_backend \<Rightarrow> ('c, 'r) serving handler" where
  "finalise_directly S nw sid closing_storage =
     on_result (shared (on_redis (registry_get (sv_redis S) (sv_clock S) sid))) (\<lambda>r.
     case r of
       Inl e \<Rightarrow> error_reply ''NOT_FOUND'' (''Session '' @ quoted sid @ '' not found in registry. Cannot finalize.'')
     | Inr record \<Rightarrow>
         with_backend S record (\<lambda>storage.
           on_result (shared (finalise_session S storage record sid)) (\<lambda>counted.
           case counted of
             Inl e \<Rightarrow> never
           | Inr n \<Rightarrow>
               on_result (changing (spawn_closing S nw closing_storage sid (rec_memory_path record))) (\<lambda>_.
               announce_end sid n))))"

section \<open>Ending a session\<close>

text \<open>The answer of a request, or the loop whose step count it waits for.\<close>

datatype outcome = Answer outbound | Awaits string "nat option"

definition answers :: "('c, 'r) serving handler \<Rightarrow> ('c, 'r) serving \<Rightarrow> (outcome \<times> ('c, 'r) serving) option" where
  "answers h g = map_option (\<lambda>(msg, g). (Answer msg, g)) (h g)"

definition backend_of :: "('c, 'r) services \<Rightarrow> session_record result \<Rightarrow> ('c, 'r) world storage_backend option" where
  "backend_of S r =
     (case r of Inr record \<Rightarrow> resolve_for_session (sv_router S) record
      | Inl e \<Rightarrow> map_option snd (resolve (sv_router S) []))"

definition done_request ::
  "('c, 'r) services \<Rightarrow> network \<Rightarrow> string \<Rightarrow> ('c, 'r) serving \<Rightarrow> (outcome \<times> ('c, 'r) serving) option" where
  "done_request S nw sid g =
     (let owner = sg_handles g sid;
          get = shared (on_redis (registry_get (sv_redis S) (sv_clock S) sid)) in
      case get (drop_handle sid g) of (r, g) \<Rightarrow>
      (case backend_of S r of
         None \<Rightarrow> None
       | Some closing_storage \<Rightarrow>
           if owner \<noteq> None then
             (case get g of (r, g) \<Rightarrow>
                Some (Awaits sid owner,
                  case r of
                    Inr record \<Rightarrow>
                      if rec_memory_path record = [] then g
                      else spawn_closing S nw closing_storage sid (rec_memory_path record) g
                  | Inl e \<Rightarrow> g))
           else answers (finalise_directly S nw sid closing_storage) g))"

text \<open>The answer when the loop is gone; one that died without reporting counts as no steps.\<close>

definition done_answer :: "string \<Rightarrow> nat option \<Rightarrow> ('c, 'r) serving handler" where
  "done_answer sid i = (\<lambda>g.
     if Option.bind i (sg_loops g) \<noteq> None then None
     else announce_end sid (unwrap_or 0 (Option.bind i (sg_results g))) g)"

section \<open>Deleting a session\<close>

definition purge_session :: "('c, 'r) services \<Rightarrow> string \<Rightarrow> session_record \<Rightarrow> ('c, 'r) world handler" where
  "purge_session S sid record =
     on_result (on_redis (delete_session (sv_redis S) (ce_upper (sv_capture S)) sid (Some record))) (\<lambda>r.
     case r of
       Inl e \<Rightarrow> error_reply ''DELETE_FAILED'' (''Redis purge failed: '' @ sv_display S e)
     | Inr redis_removed \<Rightarrow>
         with_backend S record (\<lambda>storage.
           on_loop (sb_delete_all storage sid) (\<lambda>objects.
           on_result (on_disk (purge_memory_dir (ce_json (sv_capture S)) (rec_memory_path record) sid)) (\<lambda>purged.
           reply (SessionDeleted sid (rec_memory_name record) redis_removed
             (case objects of Inr n \<Rightarrow> n | Inl e \<Rightarrow> 0) (case purged of Inr b \<Rightarrow> b | Inl e \<Rightarrow> False))))))"

definition sweep_orphan :: "('c, 'r) services \<Rightarrow> string \<Rightarrow> ('c, 'r) world handler" where
  "sweep_orphan S sid =
     on_result (on_redis (delete_session (sv_redis S) (ce_upper (sv_capture S)) sid None)) (\<lambda>r.
     case r of
       Inl e \<Rightarrow> error_reply ''DELETE_FAILED'' (''Redis orphan sweep failed: '' @ sv_display S e)
     | Inr redis_removed \<Rightarrow>
         (case resolve (sv_router S) [] of
            None \<Rightarrow> never
          | Some (_, storage) \<Rightarrow>
              on_loop (sb_delete_all storage sid) (\<lambda>objects.
              reply (SessionDeleted sid [] redis_removed (case objects of Inr n \<Rightarrow> n | Inl e \<Rightarrow> 0) False))))"

definition delete_request :: "('c, 'r) services \<Rightarrow> string \<Rightarrow> bool \<Rightarrow> ('c, 'r) serving handler" where
  "delete_request S sid force =
     (if \<not> sv_uuid_ok S sid then error_reply ''INVALID_SESSION_ID'' (quoted sid @ '' is not a valid session id.'')
      else
        on_result (shared (on_redis (registry_get (sv_redis S) (sv_clock S) sid))) (\<lambda>r.
        case r of
          Inl e \<Rightarrow> in_shared (sweep_orphan S sid)
        | Inr record \<Rightarrow>
            if (rec_status record = Active \<or> rec_status record = Annotating) \<and> \<not> force
            then error_reply ''SESSION_IN_FLIGHT'' (''Session '' @ quoted sid @ '' is ''
              @ quoted (status_str (rec_status record)) @ '' '' @ em_dash
              @ '' finish it (done/release) or pass force to delete anyway.'')
            else
              on_result (changing (\<lambda>g. if rec_status record = Active then drop_push sid (drop_handle sid g) else g)) (\<lambda>_.
              in_shared (purge_session S sid record))))"

section \<open>Steps\<close>

fun handle_message ::
  "('c, 'r) services \<Rightarrow> network \<Rightarrow> string \<Rightarrow> string \<Rightarrow> inbound \<Rightarrow> ('c, 'r) serving \<Rightarrow> (outcome \<times> ('c, 'r) serving) option" where
  "handle_message S nw uuid key (StartWatch sid) = answers (start_watch_request S nw sid)"
| "handle_message S nw uuid key (Done sid) = done_request S nw sid"
| "handle_message S nw uuid key (DeleteSession sid force) = answers (delete_request S sid force)"
| "handle_message S nw uuid key msg = answers (in_shared (handle_plain S uuid key msg))"

definition loop_begins :: "('c, 'r) services \<Rightarrow> nat \<Rightarrow> ('c, 'r) serving \<Rightarrow> ('c, 'r) serving" where
  "loop_begins S i g =
     (case sg_loops g i of
        Some (False, wt) \<Rightarrow>
          (case begin_capture (sv_capture S) (wt, sg_world g) of
             (_, (wt', w)) \<Rightarrow> g\<lparr>sg_world := w, sg_loops := (sg_loops g)(i \<mapsto> (True, wt')),
               sg_handles := (sg_handles g)(wt_session_id wt \<mapsto> i)\<rparr>)
      | _ \<Rightarrow> g)"

text \<open>
  What a loop can take at its next turn; what the other tasks do between its turns are steps of their
  own here. A panic ends the task without a report.
\<close>

definition loop_accepts :: "('c, 'r) serving \<Rightarrow> nat \<Rightarrow> ('c, 'r) watching \<Rightarrow> ('c, 'r) input \<Rightarrow> bool" where
  "loop_accepts g i wt inp =
     (case inp of DoneSignal \<Rightarrow> sg_handles g (wt_session_id wt) \<noteq> Some i | OtherTasks f \<Rightarrow> False | _ \<Rightarrow> True)"

definition loop_turn :: "('c, 'r) services \<Rightarrow> nat \<Rightarrow> ('c, 'r) input \<Rightarrow> ('c, 'r) serving \<Rightarrow> ('c, 'r) serving" where
  "loop_turn S i inp g =
     (case sg_loops g i of
        Some (True, wt) \<Rightarrow>
          if \<not> loop_accepts g i wt inp then g
          else
            (case run_inputs (sv_capture S) [inp] (wt, sg_world g) of
               (Inl e, (wt, w)) \<Rightarrow> g\<lparr>sg_world := w, sg_loops := (sg_loops g)(i := None)\<rparr>
             | (Inr None, (wt, w)) \<Rightarrow> g\<lparr>sg_world := w, sg_loops := (sg_loops g)(i \<mapsto> (True, wt))\<rparr>
             | (Inr (Some how), (wt, w)) \<Rightarrow>
                 (case end_watch (sv_capture S) how (wt, w) of
                    (Inl e, (wt, w)) \<Rightarrow> g\<lparr>sg_world := w, sg_loops := (sg_loops g)(i := None)\<rparr>
                  | (Inr n, (wt, w)) \<Rightarrow>
                      drop_handle (wt_session_id wt)
                        (g\<lparr>sg_world := w, sg_loops := (sg_loops g)(i := None), sg_results := (sg_results g)(i \<mapsto> n)\<rparr>)))
      | _ \<Rightarrow> g)"

definition run_task :: "nat \<Rightarrow> ('c, 'r) serving \<Rightarrow> ('c, 'r) serving" where
  "run_task k g =
     (if k < length (sg_tasks g)
      then g\<lparr>sg_world := (sg_tasks g ! k) (sg_world g), sg_tasks := take k (sg_tasks g) @ drop (Suc k) (sg_tasks g)\<rparr>
      else g)"

inductive server_step :: "('c, 'r) services \<Rightarrow> ('c, 'r) serving \<Rightarrow> ('c, 'r) serving \<Rightarrow> bool" for S where
  admin: "handle_message S nw uuid key msg g = Some (out, g') \<Longrightarrow> server_step S g g'"
| annotator: "in_shared (handle_annotator_message S annotator_id uuid msg) g = Some (out, g') \<Longrightarrow> server_step S g g'"
| begins: "server_step S g (loop_begins S i g)"
| turn: "server_step S g (loop_turn S i inp g)"
| task: "server_step S g (run_task k g)"
| answer: "done_answer sid i g = Some (out, g') \<Longrightarrow> server_step S g g'"

inductive_cases server_step_elim: "server_step S g g'"

text \<open>The state after any steps of any number of clients, loops and tasks.\<close>

inductive server_run :: "('c, 'r) services \<Rightarrow> ('c, 'r) serving \<Rightarrow> ('c, 'r) serving \<Rightarrow> bool" for S where
  here: "server_run S g g"
| more: "server_run S g g' \<Longrightarrow> server_step S g' g'' \<Longrightarrow> server_run S g g''"

end
