(* ===== verification/MA_Clean_End.thy ===== *)
theory MA_Clean_End
  imports MA_Serving MA_Annotator_Facts MA_End_Facts
begin

text \<open>
  The clean end of a watch loop once more: it always reports its step count, and until its last command
  it leaves alone whatever the disk, the uploads, the push channel and the reasoning maps do not touch.
  A \<open>world_frame\<close> is such a part of the shared state; the Redis server is one.
\<close>

section \<open>No failure\<close>

lemma never_fails_now: "never_fails utc_now"
  by (simp add: never_fails_def utc_now_def split: list.split)

lemma never_fails_placeholders:
  fixes b :: "('c, 'r) world storage_backend"
  shows "never_fails (write_degraded_placeholders E sid dir name steps cloud b)"
proof -
  have one: "never_fails (write_placeholder E dir ex s any)" for ex s any
    by (simp add: write_placeholder_def never_fails_bind never_fails_now)
  have "never_fails (bind_io (attempt (on_disk (fs_read_to_string (reasoning_path dir))))
      (\<lambda>r. ok (case r of Inr raw \<Rightarrow> existing_ids (ce_json E) raw | Inl e \<Rightarrow> {})) :: (('c, 'r) world, u32 set) io)"
    by (intro never_fails_bind) simp_all
  then have scan: "never_fails (\<lambda>w :: ('c, 'r) world. if fs_exists (w_disk w) (reasoning_path dir)
      then bind_io (attempt (on_disk (fs_read_to_string (reasoning_path dir))))
             (\<lambda>r. ok (case r of Inr raw \<Rightarrow> existing_ids (ce_json E) raw | Inl e \<Rightarrow> {})) w
      else (Inr {}, w))"
    by (simp add: never_fails_def)
  show ?thesis
    unfolding write_degraded_placeholders_def
    by (auto intro!: never_fails_bind never_fails_fold one scan split: sum.split)
qed

section \<open>Frames\<close>

locale world_frame =
  fixes I :: "('c, 'r) world \<Rightarrow> bool"
  assumes disk: "I w \<Longrightarrow> I (w\<lparr>w_disk := d\<rparr>)"
    and pushed: "I w \<Longrightarrow> I (w\<lparr>w_pushed := ms\<rparr>)"
    and push_fails: "I w \<Longrightarrow> I (w\<lparr>w_push_fails := fs\<rparr>)"
    and clock: "I w \<Longrightarrow> I (w\<lparr>w_clock := ts\<rparr>)"
    and maps: "I w \<Longrightarrow> I (w\<lparr>w_maps := m\<rparr>)"
    and handles: "I w \<Longrightarrow> I (w\<lparr>w_done_handles := hs\<rparr>)"
    and kafka: "I w \<Longrightarrow> I (w\<lparr>w_kafka_sessions := ks\<rparr>)"
begin

definition puts_keep :: "('c, 'r) world storage_backend \<Rightarrow> bool" where
  "puts_keep b \<longleftrightarrow> (\<forall>sid p bytes ct. maintains I (sb_put b sid p bytes ct))"

text \<open>A loop of a session, with its counter, in a state that has the part.\<close>

definition steady :: "string \<Rightarrow> u32 \<Rightarrow> ('c, 'r) watch \<Rightarrow> bool" where
  "steady sid n = (\<lambda>(wt, w). I w \<and> wt_session_id wt = sid \<and> cw_step_counter (wt_writer wt) = n
     \<and> puts_keep (wt_storage wt) \<and> puts_keep (cs_storage (wt_state wt)) \<and> puts_keep (cw_storage (wt_writer wt)))"

definition steady_writer :: "u32 \<Rightarrow> ('c, 'r) writing \<Rightarrow> bool" where
  "steady_writer n = (\<lambda>(cw, w). I w \<and> cw_step_counter cw = n \<and> puts_keep (cw_storage cw))"

definition steady_state :: "('c, 'r) capturing \<Rightarrow> bool" where
  "steady_state = (\<lambda>(cs, w). I w \<and> puts_keep (cs_storage cs))"

lemma keep_disk: "maintains I (on_disk m)"
  by (auto simp: maintains_def on_disk_def zoom_def disk split: prod.splits)

lemma keep_now: "maintains I utc_now"
  by (auto simp: maintains_def utc_now_def clock split: list.splits)

lemma keep_send: "maintains I (try_send msg)"
  unfolding maintains_def
proof (intro allI impI)
  fix w assume w: "I w"
  show "I (snd (try_send msg w))"
  proof (cases "\<exists>fs. w_push_fails w = True # fs")
    case True
    with w push_fails show ?thesis by (auto simp: try_send_def)
  next
    case False
    then have "snd (try_send msg w) = w\<lparr>w_pushed := w_pushed w @ [msg], w_push_fails := tl (w_push_fails w)\<rparr>"
      by (cases "w_push_fails w"; cases "hd (w_push_fails w)") (auto simp: try_send_def)
    with push_fails [OF pushed [OF w]] show ?thesis by simp
  qed
qed

lemma keep_put: "puts_keep b \<Longrightarrow> maintains I (sb_put b sid p bytes ct)"
  by (simp add: puts_keep_def)

lemma keep_attempt: "maintains J m \<Longrightarrow> maintains J (attempt m)" "maintains J m \<Longrightarrow> maintains J (ignore m)"
  "maintains J m \<Longrightarrow> maintains J (context_io c m)"
  by (simp_all add: maintains_def)

lemma keep_fold: "(\<And>x a. maintains J (f x a)) \<Longrightarrow> maintains J (fold_io f xs a)"
  by (induction xs arbitrary: a) (simp_all add: maintains_pure maintains_bind)

lemma keep_at: "maintains J m \<Longrightarrow> J s \<Longrightarrow> J (snd (m s))"
  by (simp add: maintains_def)

lemma keep_pair: "(\<And>x w. J (x, w) \<Longrightarrow> J (snd (F x w))) \<Longrightarrow> maintains J (\<lambda>(x, w). F x w)"
  by (auto simp: maintains_def)

text \<open>The writer.\<close>

lemma writer_world: "maintains I m \<Longrightarrow> maintains (steady_writer n) (writer_world m)"
  by (auto simp: maintains_def steady_writer_def writer_world_def zoom_def split: prod.splits)

lemma writer_put: "maintains (steady_writer n) (\<lambda>(cw, w). context_io c
    (MA_Writer.writer_world (sb_put (cw_storage cw) (f cw) (g cw) (h cw) ct)) (cw, w))"
  by (rule keep_pair)
    (auto simp: steady_writer_def writer_world_def zoom_def puts_keep_def maintains_def split: prod.splits, metis snd_conv)

lemma writer_finalise: "maintains (steady_writer n) (finalise jc)"
proof -
  have put: "maintains (steady_writer n) (put_command_file name buf ct)" for name buf ct
    unfolding put_command_file_def by (rule writer_put)
  have cloud: "maintains (steady_writer n) flush_to_cloud"
    unfolding flush_to_cloud_def
    by (rule keep_pair) (simp add: keep_at maintains_bind put)
  have buf: "maintains (steady_writer n) (finalise_jsonl_buf_cloud jc name b)" for name b
    unfolding finalise_jsonl_buf_cloud_def by (intro maintains_bind writer_put) (simp add: maintains_def lift_result_def)
  show ?thesis
    unfolding finalise_def
    by (rule keep_pair) (simp add: keep_at maintains_bind buf cloud writer_world keep_disk)
qed

text \<open>The document.\<close>

lemma state_world: "maintains I m \<Longrightarrow> maintains steady_state (on_world m)"
  by (auto simp: maintains_def steady_state_def on_world_def zoom_def split: prod.splits)

lemma state_drain: "maintains steady_state (changing drain_into)"
  by (auto simp: maintains_def steady_state_def changing_def drain_into_apply maps split: prod.splits)

lemma state_command_files: "maintains steady_state flush_command_files"
  unfolding flush_command_files_def
proof (rule keep_fold)
  fix x :: "string \<times> string" and a :: unit
  obtain rel ct where x: "x = (rel, ct)" by fastforce
  show "maintains steady_state ((\<lambda>(rel, content_type) _ (cs, w).
      let abs_path = path_join (cs_memory_dir cs) rel in
      if \<not> fs_exists (w_disk w) abs_path then (Inr (), (cs, w))
      else on_world (ignore (bind_io (on_disk (fs_read abs_path)) (\<lambda>bytes.
        sb_put (cs_storage cs) (cs_session_id cs) (capture_cloud_path cs rel) bytes content_type))) (cs, w)) x a)"
    unfolding x prod.case
  proof (rule keep_pair)
    fix cs w assume s: "steady_state (cs, w)"
    then have "puts_keep (cs_storage cs)" by (simp add: steady_state_def)
    then have "maintains steady_state (on_world (ignore (bind_io (on_disk (fs_read p)) (\<lambda>bytes.
        sb_put (cs_storage cs) i q bytes ct))))" for p i q
      by (intro state_world keep_attempt maintains_bind keep_disk keep_put)
    with s show "steady_state (snd (let abs_path = path_join (cs_memory_dir cs) rel in
      if \<not> fs_exists (w_disk w) abs_path then (Inr (), (cs, w))
      else on_world (ignore (bind_io (on_disk (fs_read abs_path)) (\<lambda>bytes.
        sb_put (cs_storage cs) (cs_session_id cs) (capture_cloud_path cs rel) bytes ct))) (cs, w)))"
      by (simp add: Let_def keep_at)
  qed
qed

lemma state_flush_now: "maintains steady_state (flush_now mc)"
  unfolding flush_now_def flush_def
proof (intro maintains_bind state_drain keep_pair)
  show "maintains steady_state (changing (\<lambda>(cs, w). (cs\<lparr>cs_steps_since_flush := 0\<rparr>, w)))"
    by (auto simp: maintains_def steady_state_def changing_def)
next
  fix cs w assume s: "steady_state (cs, w)"
  then have "puts_keep (cs_storage cs)" by (simp add: steady_state_def)
  note put = keep_put [OF this]
  have print: "maintains steady_state (context_io c (lift_result r))" for c and r :: "string result"
    by (simp add: maintains_def lift_result_def)
  from s show "steady_state (snd (if cs_is_cloud_primary cs then
         bind_io (context_io ''Failed to serialize metadata for flush'' (lift_result (metadata_to_json mc (cs_metadata cs)))) (\<lambda>bytes.
         bind_io (context_io ''StorageBackend::put failed for metadata.json''
           (on_world (sb_put (cs_storage cs) (cs_session_id cs) (capture_cloud_path cs ''metadata.json'')
              bytes ''application/json''))) (\<lambda>_.
         flush_command_files)) (cs, w)
       else
         context_io ''metadata::write failed''
           (on_world (on_disk (metadata_write mc (cs_memory_dir cs) (cs_metadata cs)))) (cs, w)))"
    by (simp add: keep_at maintains_bind print keep_attempt state_world keep_disk put state_command_files)
qed

text \<open>The placeholders.\<close>

lemma placeholders:
  assumes "puts_keep b" shows "maintains I (write_degraded_placeholders E sid dir name steps cloud b)"
proof -
  have one: "maintains I (write_placeholder E dir ex s any)" for ex s any
    by (simp add: write_placeholder_def maintains_bind maintains_pure keep_attempt keep_now keep_disk)
  have scan: "maintains I (\<lambda>w. if fs_exists (w_disk w) (reasoning_path dir)
      then bind_io (attempt (on_disk (fs_read_to_string (reasoning_path dir))))
             (\<lambda>r. ok (case r of Inr raw \<Rightarrow> existing_ids (ce_json E) raw | Inl e \<Rightarrow> {})) w
      else (Inr {}, w))"
  proof -
    have "maintains I (bind_io (attempt (on_disk (fs_read_to_string (reasoning_path dir))))
        (\<lambda>r. ok (case r of Inr raw \<Rightarrow> existing_ids (ce_json E) raw | Inl e \<Rightarrow> {})))"
      by (intro maintains_bind keep_attempt keep_disk maintains_pure)
    then show ?thesis by (simp add: maintains_def)
  qed
  show ?thesis
    unfolding write_degraded_placeholders_def
    by (auto intro!: maintains_bind maintains_pure keep_attempt keep_fold one scan keep_disk keep_put [OF assms] split: sum.split)
qed

text \<open>The loop.\<close>

lemma watch_world: "maintains I m \<Longrightarrow> maintains (steady sid n) (in_world m)"
  by (auto simp: maintains_def steady_def in_world_def zoom_def split: prod.splits)

lemma watch_state: "maintains steady_state m \<Longrightarrow> maintains (steady sid n) (in_state m)"
  unfolding maintains_def
proof (intro allI impI)
  fix s :: "('c, 'r) watch"
  assume m: "\<forall>s. steady_state s \<longrightarrow> steady_state (snd (m s))" and s: "steady sid n s"
  obtain wt w where wt: "s = (wt, w)" by fastforce
  obtain r cs w' where run: "m (wt_state wt, w) = (r, (cs, w'))" by (metis prod_cases3)
  have "steady_state (wt_state wt, w)" using s by (simp add: wt steady_def steady_state_def)
  then have "steady_state (snd (m (wt_state wt, w)))" using m by blast
  with s show "steady sid n (snd (in_state m s))"
    by (simp add: wt in_state_def zoom_def run steady_def steady_state_def)
qed

lemma watch_writer: "maintains (steady_writer n) m \<Longrightarrow> maintains (steady sid n) (in_writer m)"
  unfolding maintains_def
proof (intro allI impI)
  fix s :: "('c, 'r) watch"
  assume m: "\<forall>s. steady_writer n s \<longrightarrow> steady_writer n (snd (m s))" and s: "steady sid n s"
  obtain wt w where wt: "s = (wt, w)" by fastforce
  obtain r cw w' where run: "m (wt_writer wt, w) = (r, (cw, w'))" by (metis prod_cases3)
  have "steady_writer n (wt_writer wt, w)" using s by (simp add: wt steady_def steady_writer_def)
  then have "steady_writer n (snd (m (wt_writer wt, w)))" using m by blast
  with s show "steady sid n (snd (in_writer m s))"
    by (simp add: wt in_writer_def zoom_def run steady_def steady_writer_def)
qed

lemma watch_edit: "maintains (steady sid n) (on_state (edit f))"
  by (auto simp: maintains_def steady_def on_state_def changing_def edit_def split: prod.splits)

lemma watch_emit: "maintains (steady sid n) (emit_file_written rel)"
  unfolding emit_file_written_def
  by (rule keep_pair) (simp add: keep_at keep_attempt watch_world keep_send)

text \<open>
  Up to the status update a clean end stays in the frame; it does not fail, and the session and its
  counter are the same.
\<close>

definition runs_to :: "('s \<Rightarrow> bool) \<Rightarrow> ('s, 'a) io \<Rightarrow> ('s \<Rightarrow> bool) \<Rightarrow> bool" where
  "runs_to P m Q \<longleftrightarrow> (\<forall>s. P s \<longrightarrow> \<not> isl (fst (m s)) \<and> Q (snd (m s)))"

lemma runs_to_bind:
  assumes "runs_to P m R" and "\<And>a. runs_to R (f a) Q" shows "runs_to P (bind_io m f) Q"
  unfolding runs_to_def
proof (intro allI impI)
  fix s assume s: "P s"
  obtain r s1 where m: "m s = (r, s1)" by fastforce
  with assms(1) s have R: "\<not> isl r" "R s1" unfolding runs_to_def by (metis fst_conv snd_conv)+
  then obtain a where "r = Inr a" by (cases r) auto
  with m R assms(2) show "\<not> isl (fst (bind_io m f s)) \<and> Q (snd (bind_io m f s))"
    by (simp add: bind_io_def runs_to_def)
qed

lemma runs_to_maintains: "maintains P m \<Longrightarrow> never_fails m \<Longrightarrow> runs_to P m P"
  by (simp add: runs_to_def maintains_def never_fails_def)

lemma runs_to_pair: "(\<And>x w. P (x, w) \<Longrightarrow> \<not> isl (fst (F x w)) \<and> Q (snd (F x w))) \<Longrightarrow> runs_to P (\<lambda>(x, w). F x w) Q"
  by (auto simp: runs_to_def)

lemma runs_to_at: "runs_to P m Q \<Longrightarrow> P s \<Longrightarrow> \<not> isl (fst (m s)) \<and> Q (snd (m s))"
  by (simp add: runs_to_def)

definition ended :: "'r capture_env \<Rightarrow> string \<Rightarrow> u32 \<Rightarrow> session_status \<Rightarrow> ('c, 'r) watch \<Rightarrow> bool" where
  "ended E sid n st = (\<lambda>(wt, w). wt_session_id wt = sid \<and> cw_step_counter (wt_writer wt) = n
     \<and> (\<exists>w0. I w0 \<and> w = snd (MA_World.on_redis (update_status (ce_redis E) (ce_clock E) sid st) w0)))"

lemma status_last: "runs_to (steady sid n)
    (ignore (in_world (on_redis (update_status (ce_redis E) (ce_clock E) sid st)))) (ended E sid n st)"
  unfolding runs_to_def
  by (auto simp: ignore_def in_world_def zoom_def ended_def steady_def split: prod.splits)

lemma end_cleanly_runs:
  "runs_to (steady sid n) (end_cleanly E deg) (ended E sid n (if deg then PendingHumanAnnotation else PendingAnnotation))"
proof -
  let ?st = "if deg then PendingHumanAnnotation else PendingAnnotation"
  have last: "runs_to (steady sid n) (\<lambda>(wt, w).
     bind_io (if wt_is_automated wt
        then in_world (write_degraded_placeholders E (wt_session_id wt) (wt_memory_dir wt) (rec_memory_name (wt_record wt))
               (md_steps (cs_metadata (wt_state wt))) (wt_is_cloud_primary wt) (wt_storage wt))
        else ok ()) (\<lambda>_.
     ignore (in_world (on_redis (update_status (ce_redis E) (ce_clock E) (wt_session_id wt) ?st)))) (wt, w))
     (ended E sid n ?st)"
  proof (rule runs_to_pair, rule runs_to_at)
    fix wt w assume s: "steady sid n (wt, w)"
    then have sid: "wt_session_id wt = sid" and put: "puts_keep (wt_storage wt)" by (simp_all add: steady_def)
    have fill: "never_fails (write_degraded_placeholders E a d m ss c b)" for a d m ss c b
      by (rule never_fails_placeholders)
    show "runs_to (steady sid n) (bind_io (if wt_is_automated wt
        then in_world (write_degraded_placeholders E (wt_session_id wt) (wt_memory_dir wt) (rec_memory_name (wt_record wt))
               (md_steps (cs_metadata (wt_state wt))) (wt_is_cloud_primary wt) (wt_storage wt))
        else ok ()) (\<lambda>_.
     ignore (in_world (on_redis (update_status (ce_redis E) (ce_clock E) (wt_session_id wt) ?st))))) (ended E sid n ?st)"
      unfolding sid
    proof (rule runs_to_bind [OF runs_to_maintains status_last])
      have "never_fails (in_world (write_degraded_placeholders E a d m ss c b))" for a d m ss c and b :: "('c, 'r) world storage_backend"
        unfolding in_world_def by (rule never_fails_zoom, rule fill)
      then show "never_fails (if wt_is_automated wt
        then in_world (write_degraded_placeholders E sid (wt_memory_dir wt) (rec_memory_name (wt_record wt))
               (md_steps (cs_metadata (wt_state wt))) (wt_is_cloud_primary wt) (wt_storage wt))
        else ok ())" by simp
      show "maintains (steady sid n) (if wt_is_automated wt
        then in_world (write_degraded_placeholders E sid (wt_memory_dir wt) (rec_memory_name (wt_record wt))
               (md_steps (cs_metadata (wt_state wt))) (wt_is_cloud_primary wt) (wt_storage wt))
        else ok ())" by (simp add: maintains_pure watch_world placeholders [OF put])
    qed
  qed
  have announce: "maintains (steady sid n) (case q of Inl e \<Rightarrow> ok () | Inr _ \<Rightarrow> bind_io (emit_file_written p) (\<lambda>_. emit_file_written p'))"
    "maintains (steady sid n) (case q of Inl e \<Rightarrow> ok () | Inr _ \<Rightarrow> emit_file_written p)"
    "never_fails (case q of Inl e \<Rightarrow> ok () | Inr _ \<Rightarrow> bind_io (emit_file_written p) (\<lambda>_. emit_file_written p'))"
    "never_fails (case q of Inl e \<Rightarrow> ok () | Inr _ \<Rightarrow> emit_file_written p)" for q :: "unit result" and p p'
    by (cases q; simp add: maintains_bind maintains_pure watch_emit never_fails_bind)+
  have now: "never_fails (in_world utc_now :: (('c, 'r) watch, int) io)"
    by (simp add: in_world_def never_fails_zoom never_fails_now)
  show ?thesis
    unfolding end_cleanly_def cs_mark_complete_def cs_clear_in_progress_def
    by (rule runs_to_bind [OF runs_to_maintains [OF keep_attempt(1) [OF watch_writer [OF writer_finalise]]]], simp,
        rule runs_to_bind [OF runs_to_maintains [OF announce(1) announce(3)]],
        rule runs_to_bind [OF runs_to_maintains [OF watch_world [OF keep_now] now]],
        rule runs_to_bind [OF runs_to_maintains [OF watch_edit]], simp,
        rule runs_to_bind [OF runs_to_maintains [OF watch_edit]], simp,
        rule runs_to_bind [OF runs_to_maintains [OF keep_attempt(1) [OF watch_state [OF state_flush_now]]]], simp,
        rule runs_to_bind [OF runs_to_maintains [OF announce(2) announce(4)] last])
qed

text \<open>The whole end: the count is reported, and the handle of the session is gone.\<close>

lemma clean_end:
  assumes "steady sid n (wt, w)" and "end_watch E Clean (wt, w) = (r, (wt', w'))"
  shows "r = Inr n \<and> wt_session_id wt' = sid \<and> sid \<notin> w_done_handles w'
    \<and> (\<exists>w0 st. I w0 \<and> st \<in> {PendingAnnotation, PendingHumanAnnotation}
        \<and> w_redis w' = snd (update_status (ce_redis E) (ce_clock E) sid st (w_redis w0)))"
proof -
  let ?deg = "is_degraded (wt_session_id wt) (w_maps w)"
  let ?w1 = "w\<lparr>w_kafka_sessions := w_kafka_sessions w - {wt_session_id wt}, w_maps := remove_session (wt_session_id wt) (w_maps w)\<rparr>"
  have s: "steady sid n (wt, ?w1)" using assms(1) maps [OF kafka] by (simp add: steady_def)
  obtain q wt2 w2 where e: "end_cleanly E ?deg (wt, ?w1) = (q, (wt2, w2))" by (metis prod_cases3)
  have q: "\<not> isl q" "ended E sid n (if ?deg then PendingHumanAnnotation else PendingAnnotation) (wt2, w2)"
    using runs_to_at [OF end_cleanly_runs s, of E ?deg] unfolding e by simp_all
  have sid: "wt_session_id wt = sid" using assms(1) by (simp add: steady_def)
  from q(1) obtain u where u: "q = Inr u" by (cases q) auto
  have out: "(r, (wt', w')) = (Inr (cw_step_counter (wt_writer wt2)), (wt2, w2\<lparr>w_done_handles := w_done_handles w2 - {wt_session_id wt}\<rparr>))"
    unfolding assms(2) [symmetric] using e
    by (simp add: end_watch_def bind_io_def in_world_def zoom_def leave_maps_def u changing_def reading_def)
  from q(2) obtain w0 where w0: "wt_session_id wt2 = sid" "cw_step_counter (wt_writer wt2) = n" "I w0"
      "w2 = snd (MA_World.on_redis (update_status (ce_redis E) (ce_clock E) sid (if ?deg then PendingHumanAnnotation else PendingAnnotation)) w0)"
    by (auto simp: ended_def)
  have "w_redis w2 = snd (update_status (ce_redis E) (ce_clock E) sid (if ?deg then PendingHumanAnnotation else PendingAnnotation) (w_redis w0))"
    unfolding w0(4) by (simp add: on_redis_def zoom_def split: prod.splits)
  with out w0(1-3) sid show ?thesis by auto
qed

end

text \<open>No part at all, and the Redis server.\<close>

interpretation any_part: world_frame "\<lambda>w :: ('c, 'r) world. True"
  by unfold_locales simp_all

interpretation redis_part: world_frame "\<lambda>w :: ('c, 'r) world. w_redis w = r0" for r0
  by unfold_locales simp_all

end
