(* ===== verification/MA_Serving_Facts.thy ===== *)
theory MA_Serving_Facts
  imports MA_Clean_End MA_Register_Facts
begin

text \<open>
  The server and its watch loops: the done handles belong to running loops, a loop that has been told
  to end always can, and what a forced deletion of a running session leaves behind.
\<close>

section \<open>The control part of the state\<close>

text \<open>
  A number is given to one loop; a handle in the map belongs to the loop of that number, which has
  begun and watches that session unless it is gone.
\<close>

definition orderly :: "('c, 'r) serving \<Rightarrow> bool" where
  "orderly g \<longleftrightarrow>
     (\<forall>i. sg_loops g i \<noteq> None \<longrightarrow> i < sg_next g)
     \<and> (\<forall>sid i. sg_handles g sid = Some i \<longrightarrow> i < sg_next g
          \<and> (\<forall>b wt. sg_loops g i = Some (b, wt) \<longrightarrow> b \<and> wt_session_id wt = sid))"

lemma orderly_loop: "orderly g \<Longrightarrow> sg_loops g i = Some x \<Longrightarrow> i < sg_next g"
  by (auto simp: orderly_def)

lemma orderly_handle:
  assumes "orderly g" and "sg_handles g sid = Some i"
  shows "i < sg_next g" and "sg_loops g i = Some (b, wt) \<Longrightarrow> b" and "sg_loops g i = Some (b, wt) \<Longrightarrow> wt_session_id wt = sid"
  using assms unfolding orderly_def by blast+

lemma orderlyI:
  assumes "\<And>i x. sg_loops g i = Some x \<Longrightarrow> i < sg_next g"
    and "\<And>sid i. sg_handles g sid = Some i \<Longrightarrow> i < sg_next g"
    and "\<And>sid i b wt. sg_handles g sid = Some i \<Longrightarrow> sg_loops g i = Some (b, wt) \<Longrightarrow> b \<and> wt_session_id wt = sid"
  shows "orderly g"
  using assms unfolding orderly_def by blast

text \<open>What a step does to the control part: hardly anything, start a loop, begin one, or a turn of one.\<close>

definition quiet_step :: "('c, 'r) serving \<Rightarrow> ('c, 'r) serving \<Rightarrow> bool" where
  "quiet_step g g' \<longleftrightarrow> sg_loops g' = sg_loops g \<and> sg_next g' = sg_next g \<and> sg_results g' = sg_results g
     \<and> (\<forall>sid. sg_handles g' sid = sg_handles g sid \<or> sg_handles g' sid = None)"

definition start_step :: "('c, 'r) serving \<Rightarrow> ('c, 'r) serving \<Rightarrow> bool" where
  "start_step g g' \<longleftrightarrow> (\<exists>wt. sg_loops g' = (sg_loops g)(sg_next g \<mapsto> (False, wt))) \<and> sg_next g' = sg_next g + 1
     \<and> sg_results g' = sg_results g \<and> sg_handles g' = sg_handles g"

lemma quiet_refl: "quiet_step g g"
  by (simp add: quiet_step_def)

lemma quiet_trans: "quiet_step g g1 \<Longrightarrow> quiet_step g1 g2 \<Longrightarrow> quiet_step g g2"
  unfolding quiet_step_def by metis

lemma quiet_simps [simp]:
  "quiet_step g (g\<lparr>sg_world := w\<rparr>)" "quiet_step g (drop_push sid g)" "quiet_step g (drop_handle sid g)"
  "quiet_step g (spawn task g)" "quiet_step g (spawn_closing S nw b sid dir g)" "quiet_step g (g\<lparr>sg_push := p\<rparr>)"
  "quiet_step g (g\<lparr>sg_world := w, sg_tasks := ts\<rparr>)"
  by (simp_all add: quiet_step_def drop_push_def drop_handle_def spawn_def spawn_closing_def)

lemma quiet_shared: "quiet_step g (snd (shared m g))"
  by (simp add: shared_def zoom_def split: prod.splits)

lemma quiet_in_shared: "in_shared h g = Some (out, g') \<Longrightarrow> quiet_step g g'"
  by (auto simp: in_shared_def)

text \<open>Handlers that leave the loops alone.\<close>

definition quiet_handler :: "('c, 'r) serving handler \<Rightarrow> bool" where
  "quiet_handler h \<longleftrightarrow> (\<forall>g out g'. h g = Some (out, g') \<longrightarrow> quiet_step g g')"

lemma quietD: "quiet_handler h \<Longrightarrow> h g = Some (out, g') \<Longrightarrow> quiet_step g g'"
  by (simp add: quiet_handler_def)

lemma quiet_replies [simp]: "quiet_handler (reply msg)" "quiet_handler (error_reply code what)" "quiet_handler never"
    "quiet_handler (in_shared h)"
  by (auto simp: quiet_handler_def reply_def error_reply_def never_def quiet_refl intro: quiet_in_shared)

lemma quiet_on_result:
  assumes "\<And>g. quiet_step g (snd (m g))" and "\<And>r. quiet_handler (k r)" shows "quiet_handler (on_result m k)"
  unfolding quiet_handler_def
proof (intro allI impI)
  fix g out g' assume run: "on_result m k g = Some (out, g')"
  obtain r g1 where m: "m g = (r, g1)" by fastforce
  have "quiet_step g g1" using assms(1) [of g] m by simp
  moreover have "quiet_step g1 g'" using quietD [OF assms(2), of r g1 out g'] run m by (simp add: on_result_def)
  ultimately show "quiet_step g g'" by (rule quiet_trans)
qed

lemma quiet_changing: "(\<And>g. quiet_step g (f g)) \<Longrightarrow> quiet_step g (snd (changing f g))"
  by (simp add: changing_def)

lemma quiet_announce [simp]: "quiet_handler (announce_end sid n)"
  unfolding quiet_handler_def announce_end_def Let_def
  using quiet_trans [OF quiet_simps(2) quiet_shared] quiet_refl by (auto split: if_splits)

lemma quiet_start_failed [simp]: "quiet_handler (start_failed S sid why)"
  unfolding start_failed_def by (intro quiet_on_result quiet_changing) (simp_all add: quiet_shared)

lemma quiet_finalise [simp]: "quiet_handler (finalise_directly S nw sid b)"
  unfolding finalise_directly_def with_backend_def
  by (intro quiet_on_result) (auto split: sum.split option.split intro!: quiet_on_result quiet_changing quiet_shared)

lemma quiet_delete [simp]: "quiet_handler (delete_request S sid force)"
proof -
  have drops: "quiet_step g (if b then drop_push sid (drop_handle sid g) else g)" for g :: "('a, 'b) serving" and b
    by (simp add: quiet_refl quiet_trans [OF quiet_simps(3) quiet_simps(2)])
  have "quiet_handler (on_result (changing (\<lambda>g. if b then drop_push sid (drop_handle sid g) else g)) (\<lambda>_. in_shared h))"
    for b and h :: "('a, 'b) world handler"
    by (rule quiet_on_result [OF quiet_changing [OF drops]]) simp
  then show ?thesis
    unfolding delete_request_def by (auto intro!: quiet_on_result quiet_shared split: sum.split simp del: split_paired_All)
qed

lemma quiet_done_answer: "done_answer sid i g = Some (out, g') \<Longrightarrow> quiet_step g g'"
  using quietD [OF quiet_announce] by (auto simp: done_answer_def split: if_splits)

lemma done_request_after_drop: "done_request S nw sid g = Some (out, g') \<Longrightarrow> quiet_step (drop_handle sid g) g'"
proof -
  let ?get = "shared (on_redis (registry_get (sv_redis S) (sv_clock S) sid)) :: (('a, 'b) serving, session_record) io"
  assume run: "done_request S nw sid g = Some (out, g')"
  obtain r g1 where one: "?get (drop_handle sid g) = (r, g1)" by fastforce
  have "quiet_step (drop_handle sid g) (snd (r, g1))" unfolding one [symmetric] by (rule quiet_shared)
  then have q1: "quiet_step (drop_handle sid g) g1" by simp
  obtain b where b: "backend_of S r = Some b" using run one by (auto simp: done_request_def Let_def split: option.splits)
  show ?thesis
  proof (cases "sg_handles g sid")
    case None
    with run one b obtain msg where "finalise_directly S nw sid b g1 = Some (msg, g')"
      by (auto simp: done_request_def Let_def answers_def)
    with quietD [OF quiet_finalise this] q1 quiet_trans show ?thesis by blast
  next
    case (Some i)
    obtain r2 g2 where two: "?get g1 = (r2, g2)" by fastforce
    have "quiet_step g1 (snd (r2, g2))" unfolding two [symmetric] by (rule quiet_shared)
    then have q2: "quiet_step g1 g2" by simp
    have "quiet_step g2 g'"
      using run one two b Some by (cases r2) (auto simp: done_request_def Let_def quiet_refl split: if_splits)
    with q1 q2 quiet_trans show ?thesis by blast
  qed
qed

lemma quiet_done_request: "done_request S nw sid g = Some (out, g') \<Longrightarrow> quiet_step g g'"
  by (rule quiet_trans [OF quiet_simps(3) done_request_after_drop])

lemma spawn_watch_starts:
  assumes "spawn_watch S nw sid record storage g = Some (out, g')"
  shows "quiet_step g g' \<or> start_step g g'"
proof -
  let ?start = "start_watch (sv_capture S) \<lparr>wa_session_id = sid, wa_config = sv_config S, wa_storage = storage\<rparr>
            (nw_connect nw) (nw_client_ok nw) (sg_world g)"
  obtain st w where st: "?start = (st, w)" by fastforce
  show ?thesis
  proof (cases st)
    case (GaveUp why)
    then have "start_failed S sid why (g\<lparr>sg_world := w\<rparr>) = Some (out, g')"
      using assms st by (simp add: spawn_watch_def)
    from quiet_trans [OF quiet_simps(1) quietD [OF quiet_start_failed this]] show ?thesis by simp
  next
    case (Up wt)
    then show ?thesis using assms st by (auto simp: spawn_watch_def start_step_def)
  qed
qed

lemma start_request_step:
  assumes "start_watch_request S nw sid g = Some (out, g')" shows "quiet_step g g' \<or> start_step g g'"
proof -
  let ?get = "shared (on_redis (registry_get (sv_redis S) (sv_clock S) sid)) :: (('a, 'b) serving, session_record) io"
  obtain r g1 where one: "?get g = (r, g1)" by fastforce
  have g1: "\<exists>w. g1 = g\<lparr>sg_world := w\<rparr>" using one by (auto simp: shared_def zoom_def split: prod.splits)
  show ?thesis
  proof (cases r)
    case (Inl e)
    with assms one have "g' = g1" by (simp add: start_watch_request_def on_result_def error_reply_def reply_def)
    with g1 show ?thesis by auto
  next
    case (Inr known)
    show ?thesis
    proof (cases "\<not> cloud_primary S \<and> \<not> fs_exists (w_disk (sg_world g1)) (rec_memory_path known)")
      case True
      with assms one Inr have "g' = g1" by (simp add: start_watch_request_def on_result_def error_reply_def reply_def)
      with g1 show ?thesis by auto
    next
      case False
      then obtain b where run: "spawn_watch S nw sid known b (g1\<lparr>sg_push := insert sid (sg_push g1)\<rparr>) = Some (out, g')"
        using assms one Inr by (auto simp: start_watch_request_def on_result_def split: option.splits if_splits)
      from g1 obtain w where "g1 = g\<lparr>sg_world := w\<rparr>" ..
      with spawn_watch_starts [OF run] show ?thesis by (simp add: quiet_step_def start_step_def)
    qed
  qed
qed

lemma step_kinds:
  assumes "server_step S g g'"
  shows "quiet_step g g' \<or> start_step g g' \<or> (\<exists>i. g' = loop_begins S i g) \<or> (\<exists>i inp. g' = loop_turn S i inp g)"
  using assms
proof cases
  case (admin nw uuid key msg out)
  then show ?thesis
    by (cases msg)
      (auto simp: answers_def dest: start_request_step quiet_done_request quiet_in_shared quietD [OF quiet_delete])
next
  case (annotator annotator_id uuid msg out)
  then show ?thesis using quiet_in_shared by blast
next
  case (task k)
  then show ?thesis by (simp add: run_task_def quiet_refl)
next
  case (answer sid i out)
  then show ?thesis using quiet_done_answer by blast
qed blast+

section \<open>Order\<close>

lemma orderly_quiet: "orderly g \<Longrightarrow> quiet_step g g' \<Longrightarrow> orderly g'"
  unfolding orderly_def quiet_step_def by (metis option.distinct(1))

lemma orderly_start: "orderly g \<Longrightarrow> start_step g g' \<Longrightarrow> orderly g'"
  unfolding orderly_def start_step_def by (fastforce split: if_splits)

text \<open>A turn keeps the session of its loop.\<close>

definition same_session :: "('c, 'r) watch \<Rightarrow> ('c, 'r) watch \<Rightarrow> bool" where
  "same_session s s' \<longleftrightarrow> wt_session_id (fst s') = wt_session_id (fst s)"

interpretation same_session: kept same_session by unfold_locales (simp_all add: same_session_def)

lemma session_parts [simp]:
  "stays same_session (in_world m)" "stays same_session (in_state m')" "stays same_session (in_writer m'')"
  "stays same_session (on_state f)"
  by (simp_all add: stays_def same_session_def in_world_def in_state_def in_writer_def on_state_def changing_def zoom_def split_beta)

lemma session_pure [simp]: "stays same_session (Pair r)"
  by (simp add: stays_def same_session_def)

lemma session_emit [simp]: "stays same_session (emit_file_written rel)" "stays same_session (emit_optional p)"
proof -
  show e: "stays same_session (emit_file_written rel)" for rel
    unfolding emit_file_written_def by (rule stays_pair) (simp add: stays_at same_session.keep_ignore same_session.R_refl)
  show "stays same_session (emit_optional p)"
    unfolding emit_optional_def by (cases p) (simp_all add: e same_session.keep_pure)
qed

lemma session_vision [simp]: "stays same_session (vision_step E eyes ev k conv)"
proof -
  have ready: "stays same_session (\<lambda>(wt, w). if wt_is_automated wt \<and> \<not> is_degraded (wt_session_id wt) (w_maps w)
    then ignore (in_world (try_send (step_ready_msg wt k ev conv r))) (wt, w) else (Inr (), (wt, w)))" for r
    by (rule stays_pair) (simp add: stays_at same_session.keep_ignore same_session.R_refl)
  have "stays same_session (case wt_vision wt of
        None \<Rightarrow> ok ()
      | Some vp \<Rightarrow>
          bind_io (in_world (process (ce_vision E) vp eyes ev k)) (\<lambda>processed.
          case processed of
            Some r \<Rightarrow>
              bind_io (\<lambda>(wt, w).
                if wt_is_automated wt \<and> \<not> is_degraded (wt_session_id wt) (w_maps w)
                then ignore (in_world (try_send (step_ready_msg wt k ev conv r))) (wt, w)
                else (Inr (), (wt, w))) (\<lambda>_.
              bind_io (on_state (cs_update_step_image k (ir_image_path r) (ir_marked r)
                (ir_before_image_path r) (ir_after_image_path r))) (\<lambda>_.
              bind_io (emit_file_written (ir_image_path r)) (\<lambda>_.
              bind_io (emit_optional (ir_before_image_path r)) (\<lambda>_.
              emit_optional (ir_after_image_path r)))))
          | None \<Rightarrow>
              on_state (cs_append_skipped_fetch k
                (if \<not> success ev then ''command failed''
                 else case decide ev (cfg_press_fetch_delay_ms (wt_config wt)) (cfg_type_fetch_delay_ms (wt_config wt)) of
                   Skip _ \<Rightarrow> ''action type does not trigger fetch''
                 | _ \<Rightarrow> ''fetch failed''))))" for wt :: "('a, 'b) watching"
    by (auto intro!: same_session.keep_bind same_session.keep_pure ready split: option.split)
  from stays_at [OF this] show ?thesis unfolding vision_step_def by (intro stays_pair)
qed

lemma session_flush [simp]: "stays same_session (flush_step E)"
proof -
  have "stays same_session (\<lambda>(wt, w). if wt_is_cloud_primary wt then ignore (in_writer flush_to_cloud) (wt, w)
      else (Inr (), (wt, w)))"
    by (rule stays_pair) (simp add: stays_at same_session.keep_ignore same_session.R_refl)
  then show ?thesis
    unfolding flush_step_def
    by (auto intro!: same_session.keep_bind same_session.keep_pure same_session.keep_attempt split: sum.split)
qed

lemma session_event [simp]: "stays same_session (handle_event E ep eyes)"
proof -
  have "stays same_session (changing (\<lambda>(wt, w). (if b then wt\<lparr>wt_last_click := x\<rparr> else wt, w)))" for b x
    by (rule same_session.keep_change) (auto simp: same_session_def)
  moreover have "stays same_session (changing (\<lambda>(wt :: ('a, 'b) watching, w). (if b then wt\<lparr>wt_last_click := x\<rparr> else wt, w)))" for b x
    by (rule same_session.keep_change) (auto simp: same_session_def)
  ultimately have record_it: "stays same_session (record_step E eyes ev conv k)" for ev conv k
    unfolding record_step_def by (auto intro!: same_session.keep_bind same_session.keep_fold)
  show ?thesis
    unfolding handle_event_def Let_def
    by (auto intro!: same_session.keep_bind same_session.keep_pure same_session.keep_attempt record_it split: option.split sum.split)
qed

lemma session_begin [simp]: "stays same_session (begin_capture E)"
  unfolding begin_capture_def
  by (rule stays_pair, rule stays_at) (auto intro!: same_session.keep_bind same_session.keep_ignore same_session.keep_pure)

lemma session_inputs: "stays same_session (run_inputs E is)"
  by (induction E "is" rule: run_inputs.induct) (simp_all add: same_session.keep_bind same_session.keep_pure)

lemma orderly_begin:
  assumes "orderly g" shows "orderly (loop_begins S i g)"
proof (cases "\<exists>wt. sg_loops g i = Some (False, wt)")
  case True
  then obtain wt where wt: "sg_loops g i = Some (False, wt)" ..
  obtain r wt' w where run: "begin_capture (sv_capture S) (wt, sg_world g) = (r, (wt', w))" by (metis prod_cases3)
  have "wt_session_id wt' = wt_session_id wt"
    using staysD [OF session_begin run] by (simp add: same_session_def)
  moreover have "sg_handles g sid \<noteq> Some i" for sid using assms wt unfolding orderly_def by blast
  moreover have "i < sg_next g" using assms wt unfolding orderly_def by (metis option.distinct(1))
  ultimately show ?thesis
    by (intro orderlyI) (auto simp: loop_begins_def wt run split: if_splits
      dest: orderly_loop [OF assms] orderly_handle [OF assms])
next
  case False
  then have "loop_begins S i g = g"
    by (cases "sg_loops g i") (auto simp: loop_begins_def split: prod.split bool.split)
  with assms show ?thesis by simp
qed

text \<open>The cases of a turn.\<close>

lemma loop_turn_cases:
  obtains (none) "loop_turn S i inp g = g"
  | (more) wt wt' w where "sg_loops g i = Some (True, wt)" "wt_session_id wt' = wt_session_id wt"
      "loop_turn S i inp g = g\<lparr>sg_world := w, sg_loops := (sg_loops g)(i \<mapsto> (True, wt'))\<rparr>"
  | (gone) w where "sg_loops g i \<noteq> None" "loop_turn S i inp g = g\<lparr>sg_world := w, sg_loops := (sg_loops g)(i := None)\<rparr>"
  | (finished) sid w n where "sg_loops g i \<noteq> None" "loop_turn S i inp g = drop_handle sid
      (g\<lparr>sg_world := w, sg_loops := (sg_loops g)(i := None), sg_results := (sg_results g)(i \<mapsto> n)\<rparr>)"
proof (cases "\<exists>wt. sg_loops g i = Some (True, wt) \<and> loop_accepts g i wt inp")
  case True
  then obtain wt where wt: "sg_loops g i = Some (True, wt)" "loop_accepts g i wt inp" by blast
  obtain r wt' w where run: "run_inputs (sv_capture S) [inp] (wt, sg_world g) = (r, (wt', w))" by (metis prod_cases3)
  have same: "wt_session_id wt' = wt_session_id wt"
    using staysD [OF session_inputs run] by (simp add: same_session_def)
  show ?thesis
  proof (cases r)
    case (Inl e)
    with wt run show ?thesis by (intro gone [of w]) (simp_all add: loop_turn_def)
  next
    case (Inr how)
    show ?thesis
    proof (cases how)
      case None
      with wt run Inr same show ?thesis by (intro more [of wt wt' w]) (simp_all add: loop_turn_def)
    next
      case (Some how_it_ends)
      obtain q wt2 wd2 where e: "end_watch (sv_capture S) how_it_ends (wt', w) = (q, (wt2, wd2))" by (metis prod_cases3)
      show ?thesis
      proof (cases q)
        case (Inl e')
        with wt run Inr Some e show ?thesis by (intro gone [of wd2]) (simp_all add: loop_turn_def)
      next
        case (Inr n)
        with wt run \<open>r = Inr how\<close> Some e show ?thesis
          by (intro finished [where sid = "wt_session_id wt2" and w = wd2 and n = n]) (simp_all add: loop_turn_def)
      qed
    qed
  qed
next
  case False
  then have "loop_turn S i inp g = g"
    by (cases "sg_loops g i") (auto simp: loop_turn_def split: prod.split bool.split)
  then show ?thesis by (rule none)
qed

lemma orderly_turn:
  assumes "orderly g" shows "orderly (loop_turn S i inp g)"
proof (cases rule: loop_turn_cases [of S i inp g])
  case (more wt wt' w)
  with assms show ?thesis
    by (intro orderlyI) (auto split: if_splits dest: orderly_loop [OF assms] orderly_handle [OF assms])
qed (use assms in \<open>auto intro!: orderlyI simp: drop_handle_def split: if_splits
      dest: orderly_loop [OF assms] orderly_handle [OF assms]\<close>)

lemma orderly_step: "orderly g \<Longrightarrow> server_step S g g' \<Longrightarrow> orderly g'"
  using step_kinds orderly_quiet orderly_start orderly_begin orderly_turn by metis

lemma orderly_run: "server_run S g g' \<Longrightarrow> orderly g \<Longrightarrow> orderly g'"
  by (induction rule: server_run.induct) (auto intro: orderly_step)

section \<open>A signalled loop\<close>

text \<open>Loop \<open>i\<close> of session \<open>sid\<close> is gone or has been told to end.\<close>

definition signalled :: "string \<Rightarrow> nat \<Rightarrow> ('c, 'r) serving \<Rightarrow> bool" where
  "signalled sid i g \<longleftrightarrow> i < sg_next g
     \<and> (\<forall>b wt. sg_loops g i = Some (b, wt) \<longrightarrow> b \<and> wt_session_id wt = sid \<and> sg_handles g sid \<noteq> Some i)"

lemma signalled_step:
  assumes "signalled sid i g" and "server_step S g g'" shows "signalled sid i g'"
  using step_kinds [OF assms(2)]
proof (elim disjE exE)
  assume "quiet_step g g'"
  with assms(1) show ?thesis unfolding signalled_def quiet_step_def by (metis option.distinct(1))
next
  assume "start_step g g'"
  with assms(1) show ?thesis by (auto simp: signalled_def start_step_def)
next
  fix j assume g': "g' = loop_begins S j g"
  show ?thesis
  proof (cases "\<exists>wt. sg_loops g j = Some (False, wt)")
    case True
    then obtain wt where wt: "sg_loops g j = Some (False, wt)" ..
    then have "j \<noteq> i" using assms(1) by (auto simp: signalled_def)
    obtain r wt' w where "begin_capture (sv_capture S) (wt, sg_world g) = (r, (wt', w))" by (metis prod_cases3)
    with wt \<open>j \<noteq> i\<close> assms(1) show ?thesis by (auto simp: g' loop_begins_def signalled_def)
  next
    case False
    then have "g' = g" by (cases "sg_loops g j") (auto simp: g' loop_begins_def split: prod.split bool.split)
    with assms(1) show ?thesis by simp
  qed
next
  fix j inp assume "g' = loop_turn S j inp g"
  with assms(1) show ?thesis
    by (cases rule: loop_turn_cases [of S j inp g]) (auto simp: signalled_def drop_handle_def split: if_splits)
qed

lemma signalled_run: "server_run S g g' \<Longrightarrow> signalled sid i g \<Longrightarrow> signalled sid i g'"
  by (induction rule: server_run.induct) (auto intro: signalled_step)

section \<open>Done\<close>

lemma done_request_awaits:
  assumes "done_request S nw sid g = Some (Awaits s o', g')"
  shows "s = sid \<and> o' = sg_handles g sid \<and> o' \<noteq> None"
proof -
  let ?get = "shared (on_redis (registry_get (sv_redis S) (sv_clock S) sid)) :: (('a, 'b) serving, session_record) io"
  obtain r g1 where one: "?get (drop_handle sid g) = (r, g1)" by fastforce
  obtain b where b: "backend_of S r = Some b" using assms one by (auto simp: done_request_def Let_def split: option.splits)
  show ?thesis
  proof (cases "sg_handles g sid")
    case None
    with assms one b show ?thesis by (auto simp: done_request_def Let_def answers_def)
  next
    case (Some i)
    then have "s = sid \<and> o' = Some i"
      using assms one b by (auto simp: done_request_def Let_def split: prod.splits)
    with Some show ?thesis by simp
  qed
qed

lemma done_request_signals:
  assumes "orderly g" and "done_request S nw sid g = Some (Awaits s (Some i), g')"
  shows "signalled sid i g'"
proof -
  have "sg_handles g sid = Some i" using done_request_awaits [OF assms(2)] by simp
  note own = orderly_handle [OF assms(1) this]
  from done_request_after_drop [OF assms(2)] have q: "sg_loops g' = sg_loops g" "sg_next g' = sg_next g"
      "sg_handles g' sid = None"
    by (auto simp: quiet_step_def drop_handle_def dest: spec [of _ sid])
  with own show ?thesis by (auto simp: signalled_def)
qed

lemma any_steady: "any_part.steady (wt_session_id wt) (cw_step_counter (wt_writer wt)) (wt, w)"
  by (simp add: any_part.steady_def any_part.puts_keep_def maintains_def)

lemma done_turn:
  assumes "sg_loops g i = Some (True, wt)" and "sg_handles g (wt_session_id wt) \<noteq> Some i"
  shows "sg_loops (loop_turn S i DoneSignal g) i = None
    \<and> sg_results (loop_turn S i DoneSignal g) i = Some (cw_step_counter (wt_writer wt))
    \<and> sg_handles (loop_turn S i DoneSignal g) (wt_session_id wt) = None"
proof -
  obtain r wt' w where e: "end_watch (sv_capture S) Clean (wt, sg_world g) = (r, (wt', w))" by (metis prod_cases3)
  have r: "r = Inr (cw_step_counter (wt_writer wt))" "wt_session_id wt' = wt_session_id wt"
    using any_part.clean_end [OF any_steady e] by blast+
  have "loop_turn S i DoneSignal g = drop_handle (wt_session_id wt)
      (g\<lparr>sg_world := w, sg_loops := (sg_loops g)(i := None), sg_results := (sg_results g)(i \<mapsto> cw_step_counter (wt_writer wt))\<rparr>)"
    using assms e r by (simp add: loop_turn_def loop_accepts_def)
  then show ?thesis by (simp add: drop_handle_def)
qed


definition one_loop :: "(string \<times> string \<Rightarrow> string option, mem) watching \<Rightarrow> (string \<times> string \<Rightarrow> string option, mem) serving" where
  "one_loop wt =
     \<lparr>sg_world = demo_world, sg_push = {''s''}, sg_loops = [0 \<mapsto> (True, wt\<lparr>wt_session_id := ''s''\<rparr>)],
      sg_handles = [''s'' \<mapsto> 0], sg_results = Map.empty, sg_next = 1, sg_tasks = []\<rparr>"


section \<open>Deleting a session that is recording\<close>

text \<open>A status update of a session without a record.\<close>

lemma update_status_absent_view:
  assumes api: "redis_ok api V" and none: "hashes v0 (session_key a) = Map.empty" and set: "index_set st = Some k"
  shows "gives V (\<lambda>v. v = v0) (update_status api cf a st)
    (\<lambda>_ v. \<exists>t. hashes v (session_key a) = [''status'' \<mapsto> status_str st, ''updated_at'' \<mapsto> to_rfc3339 cf t] \<and> a \<in> sets v k)"
proof -
  note laws = redis_laws [OF api]
  let ?k = "session_key a"
  let ?v2 = "\<lambda>t. v_hset ?k [(''status'', status_str st), (''updated_at'', t)] v0"
  have s1: "gives V (\<lambda>v. v = v0) (context_io c (rd_hget api ?k ''status'')) (\<lambda>cur v. v = v0 \<and> cur = None)" for c
    by (rule gives_context, rule gives_reads [OF laws(3)]) (simp add: none)
  have s2: "gives V (\<lambda>v. v = v0 \<and> cur = None) (case cur of None \<Rightarrow> ok () | Some s \<Rightarrow> m s) (\<lambda>_ v. v = v0)"
    for cur :: "string option" and m
    by (cases cur) (auto simp: gives_def)
  have s3: "gives V (\<lambda>v. v = v0) (\<lambda>s. context_io c
        (rd_hset api ?k [(''status'', status_str st), (''updated_at'', now_str api cf s)]) s)
      (\<lambda>_ v. \<exists>t. v = ?v2 (to_rfc3339 cf t))" for c
    by (rule gives_state, rule gives_context, rule gives_does [OF laws(7)]) (auto simp: now_str_def)
  have s4: "gives V (\<lambda>v. \<exists>t. v = ?v2 (to_rfc3339 cf t)) (case index_set st of None \<Rightarrow> ok ()
       | Some k \<Rightarrow> context_io c (rd_sadd api k a)) (\<lambda>_ v. \<exists>t. v = v_sadd k a (?v2 (to_rfc3339 cf t)))" for c
  proof -
    have "gives V (\<lambda>v. \<exists>t. v = ?v2 (to_rfc3339 cf t)) (context_io c (rd_sadd api k a))
        (\<lambda>_ v. \<exists>t. v = v_sadd k a (?v2 (to_rfc3339 cf t)))"
      by (rule gives_context, rule gives_does [OF laws(9)]) auto
    with set show ?thesis by simp
  qed
  have field: "hashes (v_sadd k a (?v2 t)) ?k = [''status'' \<mapsto> status_str st, ''updated_at'' \<mapsto> t]" for t
    using none by (auto simp: v_sadd_def v_hset_def fun_eq_iff)
  have s5: "gives V (\<lambda>v. \<exists>t. v = v_sadd k a (?v2 (to_rfc3339 cf t))) (clear_ttl api a)
      (\<lambda>_ v. \<exists>t. hashes v ?k = [''status'' \<mapsto> status_str st, ''updated_at'' \<mapsto> to_rfc3339 cf t] \<and> a \<in> sets v k)"
    unfolding clear_ttl_def
    by (rule gives_bind [where R = "\<lambda>_ v. \<exists>t. v = v_ttl ?k None (v_sadd k a (?v2 (to_rfc3339 cf t)))"],
        rule gives_context, rule gives_does [OF laws(11)], blast, rule gives_ok)
      (use field in \<open>auto simp: v_ttl_def v_sadd_def\<close>)
  show ?thesis
    unfolding update_status_def ttl_never option.case(1)
    by (rule gives_bind [OF s1], rule gives_bind [OF s2], rule gives_bind [OF s3], rule gives_bind [OF s4], rule s5)
qed

text \<open>The deletion itself: nothing is left of the record.\<close>

definition redis_of :: "('c, 'r) serving \<Rightarrow> 'r" where
  "redis_of g = w_redis (sg_world g)"

lemma deleted_hash:
  assumes "redis_ok api V" and "delete_session api U a known r = (Inr b, r')"
  shows "hashes (V r') (session_key a) = Map.empty"
proof -
  obtain v1 where "unlisted a (STATUS_SETS @ record_sets U known) (V r) v1" "V r' = v_del (claim_key a) v1"
    using givesD [OF delete_session_view [OF assms(1)] refl assms(2)] by (auto simp: v_deleted_def)
  then show ?thesis by (auto simp: unlisted_def v_del_def)
qed

lemma cloud_delete_all_redis:
  "cloud_backend C b \<Longrightarrow> sb_delete_all b sid w = Some (r, w') \<Longrightarrow> w_redis w' = w_redis w"
  by (auto simp: cloud_backend_def lift_backend_def zoom_loop_def)

text \<open>What follows the deletion in the request leaves the server alone.\<close>

lemma after_delete:
  assumes "cloud_backend C b"
  shows "on_loop (sb_delete_all b sid) (\<lambda>objects. on_result (on_disk m) (\<lambda>purged. reply (k objects purged))) w = Some (out, w')
      \<Longrightarrow> w_redis w' = w_redis w"
    and "on_loop (sb_delete_all b sid) (\<lambda>objects. reply (k' objects)) w = Some (out, w') \<Longrightarrow> w_redis w' = w_redis w"
  using cloud_delete_all_redis [OF assms]
  by (auto simp: on_loop_def on_result_def reply_def on_disk_def zoom_def split: option.splits prod.splits)

lemma purge_session_redis:
  assumes "redis_ok (sv_redis S) V" and "clouds C S" and "purge_session S sid known w = Some (SessionDeleted a b c d e, w')"
  shows "hashes (V (w_redis w')) (session_key sid) = Map.empty"
proof -
  let ?del = "delete_session (sv_redis S) (ce_upper (sv_capture S)) sid (Some known)"
  obtain r r1 where del: "?del (w_redis w) = (r, r1)" by fastforce
  have one: "on_redis ?del w = (r, w\<lparr>w_redis := r1\<rparr>)" using del by (simp add: on_redis_def zoom_def)
  obtain removed where r: "r = Inr removed"
    using assms(3) one by (cases r) (auto simp: purge_session_def on_result_def error_reply_def reply_def)
  obtain st where st: "resolve_for_session (sv_router S) known = Some st"
    using assms(3) one r by (auto simp: purge_session_def on_result_def with_backend_def never_def split: option.splits)
  have "w_redis w' = w_redis (w\<lparr>w_redis := r1\<rparr>)"
    using assms(3) one r st
    by (intro after_delete(1) [OF resolved_backend [OF assms(2) st]]) (simp add: purge_session_def on_result_def with_backend_def)
  with deleted_hash [OF assms(1) del [unfolded r]] show ?thesis by simp
qed

lemma sweep_orphan_redis:
  assumes "redis_ok (sv_redis S) V" and "clouds C S" and "sweep_orphan S sid w = Some (SessionDeleted a b c d e, w')"
  shows "hashes (V (w_redis w')) (session_key sid) = Map.empty"
proof -
  let ?del = "delete_session (sv_redis S) (ce_upper (sv_capture S)) sid None"
  obtain r r1 where del: "?del (w_redis w) = (r, r1)" by fastforce
  have one: "on_redis ?del w = (r, w\<lparr>w_redis := r1\<rparr>)" using del by (simp add: on_redis_def zoom_def)
  obtain removed where r: "r = Inr removed"
    using assms(3) one by (cases r) (auto simp: sweep_orphan_def on_result_def error_reply_def reply_def)
  obtain n st where st: "resolve (sv_router S) [] = Some (n, st)"
    using assms(3) one r by (auto simp: sweep_orphan_def on_result_def never_def split: option.splits)
  have "cloud_backend C st" using assms(2) resolve_rules_in [OF st [unfolded resolve_def]] unfolding clouds_def by blast
  then have "w_redis w' = w_redis (w\<lparr>w_redis := r1\<rparr>)"
    using assms(3) one r st by (intro after_delete(2)) (auto simp: sweep_orphan_def on_result_def)
  with deleted_hash [OF assms(1) del [unfolded r]] show ?thesis by simp
qed

lemma delete_request_redis:
  fixes S :: "('c, 'r) services"
  assumes "redis_ok (sv_redis S) V" and "clouds C S" and "delete_request S sid force g = Some (SessionDeleted a b c d e, g')"
  shows "hashes (V (redis_of g')) (session_key sid) = Map.empty \<and> sg_loops g' = sg_loops g"
proof -
  let ?get = "shared (on_redis (registry_get (sv_redis S) (sv_clock S) sid)) :: (('c, 'r) serving, session_record) io"
  obtain r g1 where one: "?get g = (r, g1)" by fastforce
  have g1: "sg_loops g1 = sg_loops g" using one by (auto simp: shared_def zoom_def split: prod.splits)
  have uuid: "sv_uuid_ok S sid" using assms(3) by (auto simp: delete_request_def error_reply_def reply_def split: if_splits)
  have shared: "\<exists>w'. h (sg_world g0) = Some (SessionDeleted a b c d e, w') \<and> g' = g0\<lparr>sg_world := w'\<rparr>"
    if "in_shared h g0 = Some (SessionDeleted a b c d e, g')" for h and g0 :: "('c, 'r) serving"
    using that by (auto simp: in_shared_def)
  show ?thesis
  proof (cases r)
    case (Inl e')
    then have "in_shared (sweep_orphan S sid) g1 = Some (SessionDeleted a b c d e, g')"
      using assms(3) one uuid by (simp add: delete_request_def on_result_def)
    from shared [OF this] obtain w' where "sweep_orphan S sid (sg_world g1) = Some (SessionDeleted a b c d e, w')" "g' = g1\<lparr>sg_world := w'\<rparr>"
      by blast
    with sweep_orphan_redis [OF assms(1,2)] g1 show ?thesis by (auto simp: redis_of_def)
  next
    case (Inr known)
    let ?g2 = "if rec_status known = Active then drop_push sid (drop_handle sid g1) else g1"
    have "in_shared (purge_session S sid known) ?g2 = Some (SessionDeleted a b c d e, g')"
      using assms(3) one uuid Inr
      by (auto simp: delete_request_def on_result_def changing_def error_reply_def reply_def split: if_splits)
    from shared [OF this] obtain w' where "purge_session S sid known (sg_world ?g2) = Some (SessionDeleted a b c d e, w')" "g' = ?g2\<lparr>sg_world := w'\<rparr>"
      by blast
    with purge_session_redis [OF assms(1,2)] g1 show ?thesis
      by (auto simp: redis_of_def drop_push_def drop_handle_def split: if_splits)
  qed
qed

text \<open>
  C35. A session deleted while it records comes back. When \<open>DeleteSession\<close> with \<open>force\<close> has answered
  that the session is deleted and its running loop has lost its handle, the record is gone from Redis;
  but losing the handle is a done signal to the loop, which ends cleanly, and if the server answers, its
  last command writes the session's key anew: a record of two fields, which no reader accepts, listed
  among the sessions that wait for annotation.
\<close>

theorem deleted_session_returns:
  fixes S :: "('c, 'r) services"
  assumes "redis_ok (sv_redis S) V" and "clouds C S"
    and "sg_loops g i = Some (True, wt)"
    and "cloud_backend C (wt_storage wt)" and "cloud_backend C (cs_storage (wt_state wt))"
    and "cloud_backend C (cw_storage (wt_writer wt))"
    and "delete_request S (wt_session_id wt) True g = Some (SessionDeleted a b c d e, g1)"
    and "sg_handles g1 (wt_session_id wt) \<noteq> Some i"
    and "\<forall>st s. \<not> isl (fst (update_status (sv_redis S) (sv_clock S) (wt_session_id wt) st s))"
  shows "hashes (V (redis_of g1)) (session_key (wt_session_id wt)) = Map.empty
    \<and> (let g2 = loop_turn S i DoneSignal g1; h = hashes (V (redis_of g2)) (session_key (wt_session_id wt)) in
        (\<exists>st t k. h = [''status'' \<mapsto> status_str st, ''updated_at'' \<mapsto> t] \<and> index_set st = Some k
           \<and> st \<in> {PendingAnnotation, PendingHumanAnnotation} \<and> wt_session_id wt \<in> sets (V (redis_of g2)) k)
        \<and> isl (from_redis_map (sv_clock S) h))"
proof -
  let ?sid = "wt_session_id wt"
  let ?api = "sv_redis S" and ?cf = "sv_clock S"
  have g1: "hashes (V (redis_of g1)) (session_key ?sid) = Map.empty" "sg_loops g1 = sg_loops g"
    using delete_request_redis [OF assms(1,2,7)] by blast+
  have loop: "sg_loops g1 i = Some (True, wt)" using assms(3) g1(2) by simp
  obtain r wt' w where e: "end_watch (sv_capture S) Clean (wt, sg_world g1) = (r, (wt', w))" by (metis prod_cases3)
  have keep: "redis_part.puts_keep r0 b" if "cloud_backend C b" for r0 and b :: "('c, 'r) world storage_backend"
    unfolding redis_part.puts_keep_def using keep_redis_put [OF that] by blast
  have "redis_part.steady (redis_of g1) ?sid (cw_step_counter (wt_writer wt)) (wt, sg_world g1)"
    using keep assms(4-6) by (simp add: redis_part.steady_def redis_of_def)
  from redis_part.clean_end [OF this e] obtain w0 :: "('c, 'r) world" and st where w0: "w_redis w0 = redis_of g1" and st: "r = Inr (cw_step_counter (wt_writer wt))"
      "wt_session_id wt' = ?sid" "st \<in> {PendingAnnotation, PendingHumanAnnotation}"
      "w_redis w = snd (update_status ?api ?cf ?sid st (w_redis w0))" by blast
  note st = st(1-3) st(4) [unfolded w0]
  have g2: "redis_of (loop_turn S i DoneSignal g1) = w_redis w"
    using loop assms(8) e st(1,2) by (simp add: loop_turn_def loop_accepts_def redis_of_def drop_handle_def)
  obtain u where up: "update_status ?api ?cf ?sid st (redis_of g1) = (Inr u, w_redis w)"
    using assms(9) st(4) by (cases "update_status ?api ?cf ?sid st (redis_of g1)") (metis fst_conv isl_def sum.exhaust snd_conv)
  obtain k where k: "index_set st = Some k" using st(3) by (auto simp: index_set_def index_names_def)
  obtain t where t: "hashes (V (w_redis w)) (session_key ?sid) = [''status'' \<mapsto> status_str st, ''updated_at'' \<mapsto> to_rfc3339 ?cf t]"
      "?sid \<in> sets (V (w_redis w)) k"
    using givesD [OF update_status_absent_view [OF assms(1) g1(1) k] refl up] by blast
  have "isl (from_redis_map ?cf [''status'' \<mapsto> status_str st, ''updated_at'' \<mapsto> to_rfc3339 ?cf t])"
    by (simp add: from_redis_map_def and_then_def redis_get_def)
  with g1(1) g2 t st(3) k show ?thesis by (auto simp: Let_def)
qed

definition demo_delete :: "demo_services \<Rightarrow> demo_services" where
  "demo_delete S = (let S' = demo_register S in
     S'\<lparr>sv_capture := (sv_capture S')\<lparr>ce_clock := decimal_clock\<rparr>, sv_uuid_ok := \<lambda>_. True\<rparr>)"

definition recording :: "(string \<times> string \<Rightarrow> string option, mem) watching \<Rightarrow> (string \<times> string \<Rightarrow> string option, mem) serving" where
  "recording wt =
     (let b = lift_backend w_cloud (\<lambda>c w. w\<lparr>w_cloud := c\<rparr>) memory_store in
      \<lparr>sg_world = demo_world\<lparr>w_redis := one_session\<rparr>, sg_push = {},
       sg_loops = [0 \<mapsto> (True, wt\<lparr>wt_session_id := ''s1'', wt_storage := b,
         wt_state := (wt_state wt)\<lparr>cs_storage := b\<rparr>, wt_writer := (wt_writer wt)\<lparr>cw_storage := b\<rparr>\<rparr>)],
       sg_handles = [''s1'' \<mapsto> 0], sg_results = Map.empty, sg_next = 1, sg_tasks = []\<rparr>)"

lemma total_update_status: "total (update_status mem_redis cf a st)"
  unfolding update_status_def clear_ttl_def ttl_never option.case
  by (intro total_rules) (auto simp: total_def mem_redis_def context_io_def ok_def split: option.splits sum.splits)

theorem deleted_session_returns_witness:
  "\<forall>S wt. \<exists>msg g1 st t. delete_request (demo_delete S) ''s1'' True (recording wt) = Some (msg, g1)
     \<and> hashes (mem_view (redis_of g1)) (session_key ''s1'') = Map.empty
     \<and> hashes (mem_view (redis_of (loop_turn (demo_delete S) 0 DoneSignal g1))) (session_key ''s1'')
         = [''status'' \<mapsto> status_str st, ''updated_at'' \<mapsto> t]"
proof (intro allI)
  fix S :: demo_services and wt
  let ?S = "demo_delete S" and ?g = "recording wt"
  let ?b = "lift_backend w_cloud (\<lambda>c w. w\<lparr>w_cloud := c\<rparr>) memory_store :: (string \<times> string \<Rightarrow> string option, mem) world storage_backend"
  let ?wt = "wt\<lparr>wt_session_id := ''s1'', wt_storage := ?b, wt_state := (wt_state wt)\<lparr>cs_storage := ?b\<rparr>,
    wt_writer := (wt_writer wt)\<lparr>cw_storage := ?b\<rparr>\<rparr>"
  have S: "sv_redis ?S = mem_redis" "sv_clock ?S = decimal_clock" "sv_uuid_ok ?S = (\<lambda>_. True)"
      "sv_router ?S = \<lparr>router_pool = [(''local'', ?b)], router_rules = []\<rparr>"
    by (simp_all add: demo_delete_def demo_register_def Let_def)
  have cb: "cloud_backend id ?b" unfolding cloud_backend_def
    by (rule exI [of _ memory_store]) (auto simp: object_store_def memory_store_def ends_def)
  then have clouds: "clouds id ?S" by (simp add: clouds_def S)
  have id: "''s1'' \<noteq> []" by simp
  obtain e r1 where del: "delete_session mem_redis (ce_upper (sv_capture ?S)) ''s1'' (Some sample_record) one_session = (Inr e, r1)"
    using total_run [OF total_delete_session [OF id]] by blast
  have resolve: "resolve_for_session (sv_router ?S) sample_record = Some ?b"
    by (simp add: resolve_for_session_def S sample_record_def)
  let ?g1 = "drop_push ''s1'' (drop_handle ''s1'' ?g)"
  obtain d' purged where purge: "purge_memory_dir (ce_json (sv_capture ?S)) (rec_memory_path sample_record) ''s1'' \<lparr>tree = [], faults = []\<rparr> = (purged, d')"
    by fastforce
  let ?w = "(sg_world ?g1)\<lparr>w_redis := r1, w_disk := d'\<rparr>"
  have run: "delete_request ?S ''s1'' True ?g = Some (SessionDeleted ''s1'' (rec_memory_name sample_record) e 0
      (case purged of Inr b \<Rightarrow> b | Inl e \<Rightarrow> False), ?g1\<lparr>sg_world := ?w\<rparr>)"
    using one_session_get del purge resolve
    by (simp add: delete_request_def S on_result_def shared_def on_redis_def zoom_def recording_def Let_def demo_world_def
        sample_record_def changing_def in_shared_def purge_session_def with_backend_def on_loop_def lift_backend_def
        memory_store_def ends_def zoom_loop_def drop_push_def drop_handle_def on_disk_def reply_def)
  have "sg_loops ?g 0 = Some (True, ?wt)" by (simp add: recording_def Let_def)
  moreover have "sg_handles (?g1\<lparr>sg_world := ?w\<rparr>) (wt_session_id ?wt) \<noteq> Some 0"
    by (simp add: drop_push_def drop_handle_def)
  moreover have "\<forall>st s. \<not> isl (fst (update_status (sv_redis ?S) (sv_clock ?S) (wt_session_id ?wt) st s))"
    using total_update_status unfolding S total_def by (metis isl_def sum.distinct(1))
  ultimately show "\<exists>msg g1 st t. delete_request ?S ''s1'' True ?g = Some (msg, g1)
     \<and> hashes (mem_view (redis_of g1)) (session_key ''s1'') = Map.empty
     \<and> hashes (mem_view (redis_of (loop_turn ?S 0 DoneSignal g1))) (session_key ''s1'')
         = [''status'' \<mapsto> status_str st, ''updated_at'' \<mapsto> t]"
    using deleted_session_returns [OF mem_redis_ok [folded S(1)] clouds, of ?g 0 ?wt "''s1''"] cb run by (auto simp: Let_def)
qed

end
