(* ===== verification/MA_Listing.thy ===== *)
theory MA_Listing
  imports MA_Ipc_Files
begin

text \<open>
  Listing and deleting the objects of a local session ends (\<open>storage/mod.rs\<close>): the stack of the walk
  over the directories cannot grow for ever, because each directory is worth as much as what is below it.
\<close>

section \<open>What is below a directory\<close>

text \<open>The entries of a real directory tree have names.\<close>

definition tree_ok :: "tree \<Rightarrow> bool" where
  "tree_ok t \<longleftrightarrow> (\<forall>k \<in> fst ` set t. well_comps k \<and> k \<noteq> [''/''])"

definition below :: "tree \<Rightarrow> string list \<Rightarrow> string list set" where
  "below t c = {k \<in> fst ` set t. strict_prefix c k}"

definition worth :: "tree \<Rightarrow> string list \<Rightarrow> nat" where
  "worth t c = Suc (card (below t c))"

definition stack_worth :: "tree \<Rightarrow> string list \<Rightarrow> nat" where
  "stack_worth t stack = sum_list (map (\<lambda>p. worth t (comps p)) stack)"

lemma finite_below [simp]: "finite (below t c)"
  by (simp add: below_def)

text \<open>The subdirectories named by distinct names are worth no more than the directory without itself.\<close>

lemma children_worth:
  assumes "distinct names" and "\<And>n. n \<in> set names \<Longrightarrow> c @ [n] \<in> fst ` set t"
  shows "sum_list (map (\<lambda>n. worth t (c @ [n])) names) \<le> card (below t c)"
proof -
  let ?at = "\<lambda>n. insert (c @ [n]) (below t (c @ [n]))"
  have one: "worth t (c @ [n]) = card (?at n)" for n by (simp add: worth_def below_def)
  have at: "k \<in> ?at n \<Longrightarrow> prefix (c @ [n]) k" for k n by (auto simp: below_def strict_prefix_def)
  have "sum_list (map (\<lambda>n. worth t (c @ [n])) names) = (\<Sum>n \<in> set names. card (?at n))"
    using assms(1) by (simp add: sum_list_distinct_conv_sum_set one)
  also have "\<dots> = card (\<Union>n \<in> set names. ?at n)"
  proof (rule card_UN_disjoint [symmetric])
    show "\<forall>i \<in> set names. \<forall>j \<in> set names. i \<noteq> j \<longrightarrow> ?at i \<inter> ?at j = {}"
    proof (intro ballI impI equals0I)
      fix i j k assume "i \<noteq> j" "k \<in> ?at i \<inter> ?at j"
      then have "prefix (c @ [i]) k" "prefix (c @ [j]) k" using at by auto
      with \<open>i \<noteq> j\<close> show False by (auto simp: prefix_def)
    qed
  qed simp_all
  also have "\<dots> \<le> card (below t c)"
  proof (rule card_mono)
    show "(\<Union>n \<in> set names. ?at n) \<subseteq> below t c"
      using assms(2) by (auto simp: below_def strict_prefix_def prefix_def)
  qed simp
  finally show ?thesis .
qed

section \<open>One directory\<close>

lemma name_comps: "name_ok n \<Longrightarrow> comps (path_join p n) = comps p @ [n]"
proof -
  assume n: "name_ok n"
  then have c: "comps n = [n]" by (auto simp: name_ok_def comps_name list_all_iff)
  have "\<not> prefix ''/'' n" using n by (cases n) (auto simp: name_ok_def)
  with c show ?thesis by (cases "p = []") (simp_all add: comps_join, simp add: path_join_def comps_def)
qed

text \<open>The names of a directory, all of entries.\<close>

lemma read_dir_names:
  assumes "fs_read_dir p d = (Inr names, d')" and "tree_ok (tree d)"
  shows "distinct names" and "\<And>n. n \<in> set names \<Longrightarrow> name_ok n"
proof -
  have names: "names = remdups (map last (filter (\<lambda>k. k \<noteq> [] \<and> butlast k = comps p) (map fst (tree d))))"
    using assms(1) unfolding fs_read_dir_def
    by (rule guarded_cases) (auto split: option.splits node.splits)
  then show "distinct names" by simp
  fix n assume "n \<in> set names"
  then obtain k where k: "k \<in> fst ` set (tree d)" "k \<noteq> []" "n = last k" by (auto simp: names)
  with assms(2) have "well_comps k" "k \<noteq> [''/'']" by (auto simp: tree_ok_def)
  with k(2,3) show "name_ok n" by (cases k) (auto simp: well_comps_def list_all_iff split: if_splits)
qed

text \<open>The subdirectories go on the stack.\<close>

lemma list_entries:
  "\<exists>rs. fold (list_entry d base dir) names (stack, results)
     = (stack @ map (path_join dir) (filter (\<lambda>n. node_at d (path_join dir n) = Some Dir) names), rs)"
proof (induction names arbitrary: stack results)
  case (Cons n names)
  obtain st rs where one: "list_entry d base dir n (stack, results) = (st, rs)" by fastforce
  then have "st = (if node_at d (path_join dir n) = Some Dir then stack @ [path_join dir n] else stack)"
    by (auto simp: list_entry_def Let_def split: option.splits if_splits)
  with Cons [of st rs] one show ?case by auto
qed simp

lemma one_directory:
  assumes "tree_ok (tree d)" and "stack \<noteq> []" and "fs_read_dir (last stack) d0 = (Inr names, d)" and "tree d0 = tree d"
  shows "\<exists>st rs. fold (list_entry d base (last stack)) names (butlast stack, results) = (st, rs)
    \<and> stack_worth (tree d) st < stack_worth (tree d) stack"
proof -
  let ?dir = "last stack"
  let ?subs = "filter (\<lambda>n. node_at d (path_join ?dir n) = Some Dir) names"
  have names: "distinct names" "\<And>n. n \<in> set names \<Longrightarrow> name_ok n"
    using read_dir_names [OF assms(3)] assms(1,4) by simp_all
  obtain rs where run: "fold (list_entry d base ?dir) names (butlast stack, results) = (butlast stack @ map (path_join ?dir) ?subs, rs)"
    using list_entries by blast
  have sub: "comps (path_join ?dir n) = comps ?dir @ [n]" if "n \<in> set ?subs" for n
    using that names(2) by (simp add: name_comps)
  have "comps ?dir @ [n] \<in> fst ` set (tree d)" if n: "n \<in> set ?subs" for n
  proof -
    have "name_ok n" using names(2) n by simp
    then have "comps ?dir @ [n] \<noteq> [''/'']" by (auto simp: name_ok_def)
    then have "map_of (tree d) (comps ?dir @ [n]) = Some Dir"
      using n sub [OF n] by (auto simp: node_at_def split: if_splits)
    then show ?thesis by (auto dest: map_of_SomeD intro: rev_image_eqI)
  qed
  with names(1) have "sum_list (map (\<lambda>n. worth (tree d) (comps ?dir @ [n])) ?subs) \<le> card (below (tree d) (comps ?dir))"
    by (intro children_worth) auto
  moreover have "stack_worth (tree d) (map (path_join ?dir) ?subs) = sum_list (map (\<lambda>n. worth (tree d) (comps ?dir @ [n])) ?subs)"
    unfolding stack_worth_def map_map comp_def by (intro arg_cong [where f = sum_list] map_cong refl) (simp only: sub)
  moreover have "stack_worth (tree d) stack = stack_worth (tree d) (butlast stack) + worth (tree d) (comps ?dir)"
    using assms(2) by (cases stack rule: rev_cases) (simp_all add: stack_worth_def)
  moreover have "stack_worth (tree d) (xs @ ys) = stack_worth (tree d) xs + stack_worth (tree d) ys" for xs ys
    by (simp add: stack_worth_def)
  ultimately have "stack_worth (tree d) (butlast stack @ map (path_join ?dir) ?subs) < stack_worth (tree d) stack"
    by (simp add: worth_def)
  with run show ?thesis by blast
qed

lemma loop_ends: "tree_ok (tree d) \<Longrightarrow> \<exists>x. local_list_loop base stack results d = Some x"
proof (induction "stack_worth (tree d) stack" arbitrary: stack results d rule: less_induct)
  case less
  show ?case
  proof (cases "stack = []")
    case True
    then show ?thesis by (subst local_list_loop.simps) simp
  next
    case False
    obtain q d1 where q: "fs_read_dir (last stack) d = (q, d1)" by fastforce
    have t: "tree d1 = tree d" by (rule read_dir_tree [OF q])
    show ?thesis
    proof (cases q)
      case (Inl e)
      with False q show ?thesis by (subst local_list_loop.simps) simp
    next
      case (Inr names)
      have "tree_ok (tree d1)" using less.prems t by simp
      from one_directory [OF this False q [unfolded Inr] t [symmetric], of base results] obtain st rs where
        one: "fold (list_entry d1 base (last stack)) names (butlast stack, results) = (st, rs)"
          "stack_worth (tree d1) st < stack_worth (tree d1) stack" by blast
      have "\<exists>x. local_list_loop base st rs d1 = Some x"
        using less.hyps [of d1 st rs] one(2) t less.prems by simp
      with False q Inr one(1) show ?thesis by (subst local_list_loop.simps) simp
    qed
  qed
qed



end
