(* ===== verification/MA_Kafka.thy ===== *)
theory MA_Kafka
  imports MA_Event MA_Doc "HOL-Library.Stream"
begin

text \<open>
  The Kafka side of a cloud session (\<open>kafka/consumer.rs\<close>, \<open>kafka/envelope.rs\<close>): the consumer that
  routes events to the channels of running sessions, and the replay of one session's events after a
  crash. The Kafka client is outside the repository: what it delivers is the input. The lag monitor
  only feeds a metric and an alert, and is modelled with them.
\<close>

section \<open>Messages\<close>

record kafka_event =
  ke_event :: command_event
  ke_partition :: "32 word"
  ke_offset :: "64 word"

record kafka_envelope =
  en_schema_version :: string
  en_session_id :: string
  en_event_type :: string
  en_timestamp :: string
  en_payload :: json

text \<open>A message of the topic, and the two parsers it goes through.\<close>

record kafka_message =
  km_payload :: "string option"
  km_partition :: "32 word"
  km_offset :: "64 word"

record envelope_codec =
  envelope_from_json :: "string \<Rightarrow> kafka_envelope result"
  event_from_json :: "json \<Rightarrow> command_event result"

definition message_event :: "envelope_codec \<Rightarrow> kafka_message \<Rightarrow> (string \<times> kafka_event) option" where
  "message_event kc m =
     (case km_payload m of
        None \<Rightarrow> None
      | Some payload \<Rightarrow>
          (case envelope_from_json kc payload of
             Inl e \<Rightarrow> None
           | Inr envelope \<Rightarrow>
               if en_event_type envelope \<noteq> ''command_event'' then None
               else
                 (case event_from_json kc (en_payload envelope) of
                    Inl e \<Rightarrow> None
                  | Inr event \<Rightarrow> Some (en_session_id envelope,
                      \<lparr>ke_event = event, ke_partition = km_partition m, ke_offset = km_offset m\<rparr>))))"

section \<open>The consumer\<close>

text \<open>
  A bounded channel: what is queued, what the session has taken from it, and whether the session has
  dropped its end. A channel outlives its entry in the routing map, \<open>kc_routed\<close>.
\<close>

record session_channel =
  ch_capacity :: nat
  ch_queue :: "kafka_event list"
  ch_taken :: "kafka_event list"
  ch_closed :: bool

record kafka_consumer =
  kc_errors :: u32
  kc_degraded :: bool
  kc_routed :: "string set"
  kc_channels :: "string \<rightharpoonup> session_channel"
  kc_stored :: "32 word \<rightharpoonup> 64 word"

definition MAX_CONSECUTIVE_ERRORS :: u32 where
  "MAX_CONSECUTIVE_ERRORS = 10"

definition receive_failed :: "kafka_consumer \<Rightarrow> kafka_consumer" where
  "receive_failed kc =
     (let kc = kc\<lparr>kc_errors := kc_errors kc + 1\<rparr> in
      if kc_errors kc \<ge> MAX_CONSECUTIVE_ERRORS then kc\<lparr>kc_degraded := True, kc_errors := 0\<rparr> else kc)"

definition received :: "kafka_consumer \<Rightarrow> kafka_consumer" where
  "received kc =
     (if kc_errors kc > 0 \<or> kc_degraded kc then kc\<lparr>kc_degraded := False\<rparr> else kc)\<lparr>kc_errors := 0\<rparr>"

text \<open>Handing an event over; \<open>stores\<close> tells whether the client could note the offset.\<close>

definition route_event :: "bool \<Rightarrow> string \<Rightarrow> kafka_event \<Rightarrow> kafka_consumer \<Rightarrow> kafka_consumer" where
  "route_event stores sid ke kc =
     (case (if sid \<in> kc_routed kc then kc_channels kc sid else None) of
        None \<Rightarrow> kc
      | Some ch \<Rightarrow>
          if ch_closed ch \<or> length (ch_queue ch) \<ge> ch_capacity ch
          then kc\<lparr>kc_routed := kc_routed kc - {sid}\<rparr>
          else
            kc\<lparr>kc_channels := (kc_channels kc)(sid \<mapsto> ch\<lparr>ch_queue := ch_queue ch @ [ke]\<rparr>),
               kc_stored := (if stores then (kc_stored kc)(ke_partition ke \<mapsto> ke_offset ke) else kc_stored kc)\<rparr>)"

definition consume_message :: "envelope_codec \<Rightarrow> bool \<Rightarrow> kafka_message \<Rightarrow> kafka_consumer \<Rightarrow> kafka_consumer" where
  "consume_message ec stores m kc =
     (let kc = received kc in
      case message_event ec m of
        None \<Rightarrow> kc
      | Some (sid, ke) \<Rightarrow> route_event stores sid ke kc)"

text \<open>
  The turns of the consumer, and between them what sessions do with their channels: a watch loop
  registers one, takes from it, leaves the routing map, and drops its end.
\<close>

datatype consumer_input =
    ReceiveFailed | Received bool kafka_message
  | ChannelOpened string nat | EventTaken string | SessionLeft string | ChannelDropped string

definition on_channel :: "string \<Rightarrow> (session_channel \<Rightarrow> session_channel) \<Rightarrow> kafka_consumer \<Rightarrow> kafka_consumer" where
  "on_channel sid f kc = kc\<lparr>kc_channels := (kc_channels kc)(sid := map_option f (kc_channels kc sid))\<rparr>"

fun consumer_turn :: "envelope_codec \<Rightarrow> consumer_input \<Rightarrow> kafka_consumer \<Rightarrow> kafka_consumer" where
  "consumer_turn ec ReceiveFailed kc = receive_failed kc"
| "consumer_turn ec (Received stores m) kc = consume_message ec stores m kc"
| "consumer_turn ec (ChannelOpened sid capacity) kc =
     kc\<lparr>kc_routed := insert sid (kc_routed kc),
        kc_channels := (kc_channels kc)(sid \<mapsto>
          \<lparr>ch_capacity = capacity, ch_queue = [], ch_taken = [], ch_closed = False\<rparr>)\<rparr>"
| "consumer_turn ec (EventTaken sid) kc =
     on_channel sid (\<lambda>ch. case ch_queue ch of [] \<Rightarrow> ch
       | ke # rest \<Rightarrow> ch\<lparr>ch_queue := rest, ch_taken := ch_taken ch @ [ke]\<rparr>) kc"
| "consumer_turn ec (SessionLeft sid) kc = kc\<lparr>kc_routed := kc_routed kc - {sid}\<rparr>"
| "consumer_turn ec (ChannelDropped sid) kc = on_channel sid (\<lambda>ch. ch\<lparr>ch_closed := True\<rparr>) kc"

definition run_kafka_consumer :: "envelope_codec \<Rightarrow> consumer_input list \<Rightarrow> kafka_consumer \<Rightarrow> kafka_consumer" where
  "run_kafka_consumer ec inputs kc = fold (consumer_turn ec) inputs kc"

section \<open>Replay\<close>

text \<open>What one poll of the replaying consumer gives.\<close>

datatype poll = TimedOut | PollFailed string | Polled kafka_message

definition event_for :: "envelope_codec \<Rightarrow> string \<Rightarrow> kafka_message \<Rightarrow> kafka_event option" where
  "event_for ec sid m =
     (case message_event ec m of Some (s, ke) \<Rightarrow> if s = sid then Some ke else None | None \<Rightarrow> None)"

text \<open>
  The loop of the blocking thread, with the events sent so far. It ends past the last offset before
  the high watermark, or on an error; \<^const>\<open>None\<close> is a loop that polls for ever. Offsets are signed.
\<close>

partial_function (option) replay_loop ::
  "envelope_codec \<Rightarrow> string \<Rightarrow> 64 word \<Rightarrow> 64 word \<Rightarrow> poll stream \<Rightarrow> kafka_event list \<Rightarrow> kafka_event list option" where
  "replay_loop ec sid high_watermark last_seen polls sent =
     (case shd polls of
        TimedOut \<Rightarrow>
          if high_watermark - 1 \<le>s last_seen then Some sent
          else replay_loop ec sid high_watermark last_seen (stl polls) sent
      | PollFailed e \<Rightarrow> Some sent
      | Polled m \<Rightarrow>
          (let sent = sent @ (case event_for ec sid m of Some ke \<Rightarrow> [ke] | None \<Rightarrow> []) in
           if high_watermark - 1 \<le>s km_offset m then Some sent
           else replay_loop ec sid high_watermark (km_offset m) (stl polls) sent))"

declare replay_loop.simps [code]

text \<open>
  The client of a replay: the high watermark of a partition, unless the consumer cannot be made,
  assigned or asked, and what its polls give from an offset on.
\<close>

record replay_client =
  rc_watermark :: "string \<Rightarrow> string \<Rightarrow> 32 word \<Rightarrow> 64 word \<Rightarrow> 64 word result"
  rc_polls :: "32 word \<Rightarrow> 64 word \<Rightarrow> poll stream"

definition replay_group :: "string \<Rightarrow> string" where
  "replay_group sid = ''memory-archive-recovery-'' @ sid"

text \<open>A bounded channel can be made with this many places; with others its constructor panics.\<close>

definition channel_capacity_ok :: "u64 \<Rightarrow> bool" where
  "channel_capacity_ok capacity \<longleftrightarrow> 0 < capacity \<and> capacity < 2 ^ 61"

definition replay_session_events ::
  "envelope_codec \<Rightarrow> replay_client \<Rightarrow> string \<Rightarrow> string \<Rightarrow> 32 word \<Rightarrow> 64 word \<Rightarrow> u64 \<Rightarrow> kafka_event list result option" where
  "replay_session_events ec client broker sid part start_offset capacity =
     (case rc_watermark client broker (replay_group sid) part start_offset of
        Inl e \<Rightarrow> Some (Inl e)
      | Inr high_watermark \<Rightarrow>
          if \<not> channel_capacity_ok capacity then None
          else if high_watermark \<le>s start_offset then Some (Inr [])
          else map_option Inr
            (replay_loop ec sid high_watermark (start_offset - 1) (rc_polls client part start_offset) []))"

end
