(* ===== verification/MA_Kafka_Facts.thy ===== *)
theory MA_Kafka_Facts
  imports MA_Kafka
begin

text \<open>
  What the Kafka side delivers: a session gets its events in order and without a gap for as long as it
  is routed, and a replay gives exactly the events of the session that the partition holds.
\<close>

section \<open>Routing\<close>

definition received_for :: "envelope_codec \<Rightarrow> string \<Rightarrow> consumer_input \<Rightarrow> kafka_event option" where
  "received_for ec sid i = (case i of Received stores m \<Rightarrow> event_for ec sid m | _ \<Rightarrow> None)"

definition handed_over :: "session_channel \<Rightarrow> kafka_event list" where
  "handed_over ch = ch_taken ch @ ch_queue ch"

text \<open>What holds of a session's channel after the events \<open>es\<close> have come in for it.\<close>

definition routed_well :: "string \<Rightarrow> nat \<Rightarrow> kafka_event list \<Rightarrow> kafka_consumer \<Rightarrow> bool" where
  "routed_well sid capacity es kc \<longleftrightarrow>
     (\<exists>ch. kc_channels kc sid = Some ch \<and> ch_capacity ch = capacity \<and> length (ch_queue ch) \<le> capacity
       \<and> prefix (handed_over ch) es \<and> (sid \<in> kc_routed kc \<longrightarrow> handed_over ch = es))"

lemma received_keeps [simp]:
  "kc_channels (received kc) = kc_channels kc" "kc_routed (received kc) = kc_routed kc"
  by (simp_all add: received_def)

lemma failed_keeps [simp]:
  "kc_channels (receive_failed kc) = kc_channels kc" "kc_routed (receive_failed kc) = kc_routed kc"
  by (simp_all add: receive_failed_def Let_def)

lemma route_other:
  "s \<noteq> sid \<Longrightarrow> kc_channels (route_event stores s ke kc) sid = kc_channels kc sid
     \<and> (sid \<in> kc_routed (route_event stores s ke kc) \<longleftrightarrow> sid \<in> kc_routed kc)"
  by (auto simp: route_event_def split: option.splits)

lemma route_well:
  "routed_well sid capacity es kc \<Longrightarrow> routed_well sid capacity (es @ [ke]) (route_event stores sid ke kc)"
  by (auto simp: routed_well_def route_event_def handed_over_def split: option.splits if_splits)

lemma consume_well:
  assumes "routed_well sid capacity es kc"
  shows "routed_well sid capacity (es @ (case event_for ec sid m of Some ke \<Rightarrow> [ke] | None \<Rightarrow> []))
    (consume_message ec stores m kc)"
proof (cases "message_event ec m")
  case None
  with assms show ?thesis by (simp add: consume_message_def event_for_def routed_well_def)
next
  case (Some p)
  obtain s ke where p: "p = (s, ke)" by fastforce
  have w: "routed_well sid capacity es (received kc)" using assms by (simp add: routed_well_def)
  show ?thesis
  proof (cases "s = sid")
    case True
    with Some p route_well [OF w] show ?thesis by (simp add: consume_message_def event_for_def)
  next
    case False
    with Some p w route_other [OF False, of stores ke "received kc"] show ?thesis
      by (simp add: consume_message_def event_for_def routed_well_def)
  qed
qed

lemma on_channel_well:
  assumes "routed_well sid capacity es kc"
    and "\<And>ch. handed_over (f ch) = handed_over ch \<and> ch_capacity (f ch) = ch_capacity ch \<and> length (ch_queue (f ch)) \<le> length (ch_queue ch)"
  shows "routed_well sid capacity es (on_channel s f kc)"
proof -
  obtain ch where ch: "kc_channels kc sid = Some ch" "ch_capacity ch = capacity" "length (ch_queue ch) \<le> capacity"
    "prefix (handed_over ch) es" "sid \<in> kc_routed kc \<longrightarrow> handed_over ch = es"
    using assms(1) unfolding routed_well_def by blast
  with assms(2) [of ch] show ?thesis by (auto simp: routed_well_def on_channel_def)
qed

lemma turn_well:
  assumes "routed_well sid capacity es kc" and "\<And>c. i \<noteq> ChannelOpened sid c"
  shows "routed_well sid capacity (es @ (case received_for ec sid i of Some ke \<Rightarrow> [ke] | None \<Rightarrow> []))
    (consumer_turn ec i kc)"
proof (cases i)
  case (Received stores m)
  with consume_well [OF assms(1)] show ?thesis by (simp add: received_for_def)
next
  case (EventTaken s)
  have "routed_well sid capacity es (consumer_turn ec i kc)"
    unfolding EventTaken consumer_turn.simps
    by (rule on_channel_well [OF assms(1)]) (simp add: handed_over_def split: list.split)
  with EventTaken show ?thesis by (simp add: received_for_def)
next
  case (ChannelDropped s)
  have "routed_well sid capacity es (consumer_turn ec i kc)"
    unfolding ChannelDropped consumer_turn.simps
    by (rule on_channel_well [OF assms(1)]) (simp add: handed_over_def)
  with ChannelDropped show ?thesis by (simp add: received_for_def)
qed (use assms in \<open>auto simp: routed_well_def received_for_def\<close>)

lemma run_well:
  assumes "routed_well sid capacity [] kc" and "\<And>c. ChannelOpened sid c \<notin> set inputs"
  shows "routed_well sid capacity (List.map_filter (received_for ec sid) inputs) (run_kafka_consumer ec inputs kc)"
  using assms(2)
proof (induction inputs rule: rev_induct)
  case Nil
  with assms(1) show ?case by (simp add: run_kafka_consumer_def List.map_filter_def)
next
  case (snoc i inputs)
  then have w: "routed_well sid capacity (List.map_filter (received_for ec sid) inputs) (run_kafka_consumer ec inputs kc)"
    and i: "\<And>c. i \<noteq> ChannelOpened sid c" by auto
  from turn_well [OF w i, of ec] show ?case
    by (simp add: run_kafka_consumer_def List.map_filter_def split: option.splits)
qed

text \<open>
  C16. A session gets its Kafka events without a gap. After its channel was opened, and whatever
  messages, errors and other sessions come, what the session has taken and has queued is a prefix of
  the events received for it, in order; it is all of them for as long as the session is routed, and the
  queue never grows past its capacity.
\<close>

theorem kafka_routes_without_gaps:
  assumes "\<forall>c. ChannelOpened sid c \<notin> set inputs"
  shows "let kc' = run_kafka_consumer ec inputs (consumer_turn ec (ChannelOpened sid capacity) kc);
             es = List.map_filter (received_for ec sid) inputs in
    \<exists>ch. kc_channels kc' sid = Some ch \<and> length (ch_queue ch) \<le> capacity
      \<and> prefix (ch_taken ch @ ch_queue ch) es
      \<and> (sid \<in> kc_routed kc' \<longrightarrow> ch_taken ch @ ch_queue ch = es)"
proof -
  have "routed_well sid capacity [] (consumer_turn ec (ChannelOpened sid capacity) kc)"
    by (simp add: routed_well_def handed_over_def)
  from run_well [OF this, of inputs ec] assms show ?thesis
    by (auto simp: routed_well_def handed_over_def Let_def)
qed

definition demo_envelopes :: envelope_codec where
  "demo_envelopes =
     \<lparr>envelope_from_json = \<lambda>s. Inr \<lparr>en_schema_version = ''1'', en_session_id = s, en_event_type = ''command_event'',
        en_timestamp = [], en_payload = Str s\<rparr>,
      event_from_json = \<lambda>v. Inr default_event\<rparr>"

definition demo_message :: "string \<Rightarrow> 64 word \<Rightarrow> kafka_message" where
  "demo_message sid offset = \<lparr>km_payload = Some sid, km_partition = 0, km_offset = offset\<rparr>"

definition idle_consumer :: kafka_consumer where
  "idle_consumer = \<lparr>kc_errors = 0, kc_degraded = False, kc_routed = {}, kc_channels = Map.empty, kc_stored = Map.empty\<rparr>"

theorem kafka_routes_without_gaps_witness:
  "let inputs = [Received True (demo_message ''a'' 4), Received True (demo_message ''b'' 5), Received True (demo_message ''a'' 6)];
       kc' = run_kafka_consumer demo_envelopes inputs (consumer_turn demo_envelopes (ChannelOpened ''a'' 8) idle_consumer) in
   \<exists>ch. kc_channels kc' ''a'' = Some ch
     \<and> prefix (ch_taken ch @ ch_queue ch) (List.map_filter (received_for demo_envelopes ''a'') inputs)"
  using kafka_routes_without_gaps [of "''a''" "[Received True (demo_message ''a'' 4), Received True (demo_message ''b'' 5),
    Received True (demo_message ''a'' 6)]" demo_envelopes 8 idle_consumer]
  by (auto simp: Let_def)

section \<open>Replay\<close>

lemma sless_pred:
  fixes a b :: "64 word"
  assumes "0 \<le>s a" and "a <s b"
  shows "a - 1 <s b - 1"
proof -
  have b: "sint b < 2 ^ 63" using sint_lt [of b] by simp
  have s: "signed_take_bit 63 (sint x - 1) = sint x - 1" if "0 \<le> sint x" "sint x < 2 ^ 63" for x :: "64 word"
    by (rule signed_take_bit_int_eq_self) (use that in auto)
  show ?thesis
    using assms b s [of a] s [of b] by (simp add: word_sless_alt word_sle_eq sint_word_ariths)
qed

definition polled_message :: "poll \<Rightarrow> kafka_message option" where
  "polled_message p = (case p of Polled m \<Rightarrow> Some m | _ \<Rightarrow> None)"

definition replayed :: "envelope_codec \<Rightarrow> string \<Rightarrow> poll list \<Rightarrow> kafka_event list" where
  "replayed ec sid ps = List.map_filter (event_for ec sid) (List.map_filter polled_message ps)"

text \<open>Polls that do not end a replay, and one that does.\<close>

definition goes_on :: "64 word \<Rightarrow> poll \<Rightarrow> bool" where
  "goes_on high_watermark p =
     (case p of TimedOut \<Rightarrow> True | PollFailed e \<Rightarrow> False | Polled m \<Rightarrow> km_offset m <s high_watermark - 1)"

definition settles :: "64 word \<Rightarrow> poll \<Rightarrow> bool" where
  "settles high_watermark p =
     (case p of TimedOut \<Rightarrow> False | PollFailed e \<Rightarrow> True | Polled m \<Rightarrow> high_watermark - 1 \<le>s km_offset m)"

lemma replayed_simps:
  "replayed ec sid [] = []" "replayed ec sid (TimedOut # ps) = replayed ec sid ps"
  "replayed ec sid (PollFailed e # ps) = replayed ec sid ps"
  "replayed ec sid (Polled m # ps) = (case event_for ec sid m of Some ke \<Rightarrow> [ke] | None \<Rightarrow> []) @ replayed ec sid ps"
  by (simp_all add: replayed_def polled_message_def List.map_filter_def split: option.split)

lemma replay_goes_on:
  assumes "list_all (goes_on hw) ps" and "last_seen <s hw - 1"
  shows "\<exists>seen. seen <s hw - 1 \<and> replay_loop ec sid hw last_seen (ps @- rest) sent
    = replay_loop ec sid hw seen rest (sent @ replayed ec sid ps)"
  using assms
proof (induction ps arbitrary: last_seen sent)
  case Nil
  then show ?case by (auto simp: replayed_simps)
next
  case (Cons p ps)
  show ?case
  proof (cases p)
    case TimedOut
    with Cons.prems have "\<not> hw - 1 \<le>s last_seen" by (simp add: word_sle_eq word_sless_alt)
    with Cons.IH [of last_seen sent] Cons.prems TimedOut show ?thesis
      by (subst replay_loop.simps) (simp add: replayed_simps)
  next
    case (PollFailed e)
    with Cons.prems show ?thesis by (simp add: goes_on_def)
  next
    case (Polled m)
    with Cons.prems have m: "km_offset m <s hw - 1" by (simp add: goes_on_def)
    then have "\<not> hw - 1 \<le>s km_offset m" by (simp add: word_sle_eq word_sless_alt)
    with Cons.IH [of "km_offset m" "sent @ (case event_for ec sid m of Some ke \<Rightarrow> [ke] | None \<Rightarrow> [])"] Cons.prems Polled m
    show ?thesis by (subst replay_loop.simps) (simp add: replayed_simps Let_def)
  qed
qed

lemma replay_settles:
  "settles hw p \<Longrightarrow> replay_loop ec sid hw seen (p ## rest) sent = Some (sent @ replayed ec sid [p])"
  by (cases p) (simp_all add: settles_def replay_loop.simps replayed_simps Let_def)

lemma replay_waits: "seen <s hw - 1 \<Longrightarrow> replay_loop ec sid hw seen (sconst TimedOut) sent = None"
proof -
  have "replay_loop ec' sid' hw' seen' polls sent' = Some r \<Longrightarrow> seen' <s hw' - 1 \<and> polls = sconst TimedOut \<longrightarrow> False"
    for ec' sid' hw' seen' polls sent' r
    by (rule replay_loop.raw_induct [where P = "\<lambda>ec sid hw seen polls sent r. seen <s hw - 1 \<and> polls = sconst TimedOut \<longrightarrow> False"])
      (fastforce simp: word_sle_eq word_sless_alt not_le split: poll.splits if_splits)
  from this [of ec sid hw seen "sconst TimedOut" sent] show "seen <s hw - 1 \<Longrightarrow> ?thesis"
    by (cases "replay_loop ec sid hw seen (sconst TimedOut) sent") auto
qed


definition demo_client :: "64 word \<Rightarrow> poll stream \<Rightarrow> replay_client" where
  "demo_client hw polls = \<lparr>rc_watermark = \<lambda>b g p o'. Inr hw, rc_polls = \<lambda>p o'. polls\<rparr>"


text \<open>
  A replay may never return. When no message arrives at the last offset before the high watermark,
  as for a compacted or transactional partition, where that offset holds no message to deliver, and
  nothing fails, the replay polls for ever, and with it the start of the server that waits for it.
\<close>

lemma replay_can_hang:
  assumes "rc_watermark client broker (replay_group sid) part start = Inr hw"
    and "channel_capacity_ok capacity" and "0 \<le>s start" and "start <s hw"
    and "rc_polls client part start = ps @- sconst TimedOut" and "list_all (goes_on hw) ps"
  shows "replay_session_events ec client broker sid part start capacity = None"
proof -
  obtain seen where "seen <s hw - 1" and "replay_loop ec sid hw (start - 1) (ps @- sconst TimedOut) []
      = replay_loop ec sid hw seen (sconst TimedOut) (replayed ec sid ps)"
    using replay_goes_on [OF assms(6) sless_pred [OF assms(3,4)], where sent = "[]" and rest = "sconst TimedOut"] by auto
  with replay_waits have "replay_loop ec sid hw (start - 1) (ps @- sconst TimedOut) [] = None" by simp
  moreover have "\<not> hw \<le>s start" using assms(4) by (simp add: word_sle_eq word_sless_alt)
  ultimately show ?thesis using assms(1,2,5) by (simp add: replay_session_events_def)
qed

lemma replay_can_hang_witness:
  "replay_session_events demo_envelopes (demo_client 7 ([Polled (demo_message ''a'' 4)] @- sconst TimedOut)) ''k'' ''a'' 0 4 10 = None"
  by (rule replay_can_hang [where hw = 7 and ps = "[Polled (demo_message ''a'' 4)]"])
    (simp_all add: demo_client_def goes_on_def demo_message_def channel_capacity_ok_def word_sless_alt word_sle_eq)

end
