(* ===== verification/MA_Startup.thy ===== *)
theory MA_Startup
  imports MA_Server MA_Kafka
begin

text \<open>
  What the server does with the sessions of an earlier run (\<open>main.rs\<close>): at its start the sweep of the
  sessions listed as active, with the Kafka replay of interrupted cloud sessions, the reconciliation of
  stale sessions and the retention sweep; at its end the flag on running sessions; and the process
  files. \<^const>\<open>None\<close> is a start that panics or never gets further. Signals, processes and the spawning
  of the servers are left to the operating system and \<open>tokio\<close>.
\<close>

section \<open>Decisions\<close>

definition reconcile_target :: "session_status \<Rightarrow> string \<Rightarrow> session_status option" where
  "reconcile_target redis_status metadata_status =
     (if metadata_status = ''complete''
      then (case redis_status of Annotating \<Rightarrow> Some PendingAnnotation | _ \<Rightarrow> None)
      else if status_str redis_status = metadata_status then None
      else if metadata_status = ''pending_annotation'' then Some PendingAnnotation
      else if metadata_status = ''pending_human_annotation'' then Some PendingHumanAnnotation
      else if metadata_status = ''pending_compilation'' then Some PendingCompilation
      else if metadata_status = ''reasoning_degraded'' then Some session_status.ReasoningDegraded
      else if metadata_status = ''incomplete'' then Some Incomplete
      else None)"

definition active_sweep_restore_target :: "string \<Rightarrow> session_status option" where
  "active_sweep_restore_target metadata_status =
     (if metadata_status = ''complete'' then Some PendingAnnotation else None)"

definition cloud_with_kafka :: "('c, 'r) services \<Rightarrow> bool" where
  "cloud_with_kafka S \<longleftrightarrow> cloud_primary S \<and> cfg_kafka_broker (sv_config S) \<noteq> []"

section \<open>Process files\<close>

text \<open>What \<open>ps\<close> printed of a process, if it ran.\<close>

definition process_is_ma_core :: "string result \<Rightarrow> bool" where
  "process_is_ma_core printed =
     (case printed of Inr comm \<Rightarrow> last (split_at (\<lambda>c. c = CHR ''/'') (trim comm)) = ''ma-core'' | Inl e \<Rightarrow> False)"

text \<open>The process a starting server ends, going by the PID file of an earlier one.\<close>

definition stale_process :: "(int \<Rightarrow> string result) \<Rightarrow> string result \<Rightarrow> int option" where
  "stale_process ps content =
     (case content of
        Inl e \<Rightarrow> None
      | Inr s \<Rightarrow>
          (case parse_i32 (trim s) of
             None \<Rightarrow> None
           | Some pid \<Rightarrow> if process_is_ma_core (ps pid) then Some pid else None))"

definition take_over :: "(int \<Rightarrow> string result) \<Rightarrow> string \<Rightarrow> u32 \<Rightarrow> (disk, int option) io" where
  "take_over ps pid_path own d =
     bind_io (if fs_exists d pid_path then attempt (fs_read_to_string pid_path) else ok (Inl [])) (\<lambda>content.
     bind_io (ignore (fs_write pid_path (show_u32 own))) (\<lambda>_.
     ok (stale_process ps content))) d"

definition owns_runtime_files :: "u32 \<Rightarrow> string result \<Rightarrow> bool" where
  "owns_runtime_files own content =
     (case content of Inr s \<Rightarrow> parse_u32 (trim s) = Some own | Inl e \<Rightarrow> False)"

definition remove_runtime_files :: "u32 \<Rightarrow> string \<Rightarrow> string \<Rightarrow> (disk, unit) io" where
  "remove_runtime_files own pid_path socket_path =
     bind_io (attempt (fs_read_to_string pid_path)) (\<lambda>content.
     if owns_runtime_files own content
     then bind_io (ignore (fs_remove_file pid_path)) (\<lambda>_. ignore (fs_remove_file socket_path))
     else ok ())"

section \<open>Recovery from Kafka\<close>

record kafka_access =
  ka_codec :: envelope_codec
  ka_client :: replay_client

definition recover_event ::
  "(string \<Rightarrow> string) \<Rightarrow> kafka_event \<Rightarrow> ('c, 'r) capture_state \<Rightarrow> ('c, 'r) capture_state option" where
  "recover_event upper ke cs =
     (if action_type (ke_event ke) = ''position'' then Some cs
      else map_option (\<lambda>converted.
        cs_update_kafka_position (ke_partition ke) (ke_offset ke)
          (cs_append_step (step_entry_of (md_total_steps (cs_metadata cs) + 1) (ke_event ke) converted) cs))
        (to_human_readable upper (ke_event ke)))"

fun recover_events ::
  "(string \<Rightarrow> string) \<Rightarrow> kafka_event list \<Rightarrow> ('c, 'r) capture_state \<Rightarrow> ('c, 'r) capture_state option" where
  "recover_events upper [] cs = Some cs"
| "recover_events upper (ke # kes) cs = Option.bind (recover_event upper ke cs) (recover_events upper kes)"

text \<open>A failing replay or flush is the error of the recovery, which its caller handles.\<close>

definition recover_session ::
  "('c, 'r) services \<Rightarrow> kafka_access \<Rightarrow> ('c, 'r) world storage_backend \<Rightarrow> session_record \<Rightarrow> string
   \<Rightarrow> session_metadata \<Rightarrow> 32 word \<Rightarrow> 64 word \<Rightarrow> (('c, 'r) world, unit result) loop" where
  "recover_session S K storage record sid meta part offset =
     (case replay_session_events (ka_codec K) (ka_client K) (cfg_kafka_broker (sv_config S)) sid part (offset + 1)
             (cfg_kafka_channel_capacity (sv_config S)) of
        None \<Rightarrow> (\<lambda>w. None)
      | Some (Inl e) \<Rightarrow> ends (ok (Inl e))
      | Some (Inr kes) \<Rightarrow>
          (case recover_events (ce_upper (sv_capture S)) kes
                  (capture_new meta sid (rec_memory_path record) storage (cfg_metadata_flush_interval (sv_config S)) True) of
             None \<Rightarrow> (\<lambda>w. None)
           | Some cs \<Rightarrow> (\<lambda>w.
               case flush_now (ce_metadata (sv_capture S)) (mark_recovered cs, w) of
                 (r, (_, w)) \<Rightarrow> Some (Inr r, w))))"

section \<open>The sweep of active sessions\<close>

definition sweep_document ::
  "('c, 'r) services \<Rightarrow> ('c, 'r) world storage_backend \<Rightarrow> session_record \<Rightarrow> string
   \<Rightarrow> (('c, 'r) world, session_metadata option) io" where
  "sweep_document S storage record sid =
     (let mc = ce_metadata (sv_capture S);
          readable = (\<lambda>r. case r of Inr m \<Rightarrow> Some m | Inl e \<Rightarrow> None);
          on_this_disk = bind_io (attempt (on_disk (metadata_read mc (rec_memory_path record)))) (\<lambda>r. ok (readable r)) in
      if cloud_with_kafka S then
        bind_io (attempt (sb_get storage sid (rec_memory_name record @ ''/metadata.json''))) (\<lambda>r.
        case r of Inr bytes \<Rightarrow> ok (readable (metadata_from_bytes mc bytes)) | Inl e \<Rightarrow> on_this_disk)
      else on_this_disk)"

definition set_status :: "('c, 'r) services \<Rightarrow> string \<Rightarrow> session_status \<Rightarrow> (('c, 'r) world, unit) io" where
  "set_status S sid status = ignore (on_redis (update_status (sv_redis S) (sv_clock S) sid status))"

definition give_up_session :: "('c, 'r) services \<Rightarrow> session_record \<Rightarrow> string \<Rightarrow> (('c, 'r) world, unit) io" where
  "give_up_session S record sid =
     bind_io
       (if cloud_with_kafka S then ok ()
        else
          bind_io (attempt (on_disk (mark_incomplete (rec_memory_path record)))) (\<lambda>r.
          case r of
            Inr new_dir \<Rightarrow> ignore (on_redis (update_memory_path (sv_redis S) (sv_clock S) sid new_dir))
          | Inl e \<Rightarrow> ok ())) (\<lambda>_.
     set_status S sid Incomplete)"

definition sweep_interrupted ::
  "('c, 'r) services \<Rightarrow> kafka_access \<Rightarrow> ('c, 'r) world storage_backend \<Rightarrow> session_record \<Rightarrow> string
   \<Rightarrow> session_metadata \<Rightarrow> (('c, 'r) world, unit) loop" where
  "sweep_interrupted S K storage record sid meta =
     (let given_up = ends (give_up_session S record sid) in
      if cloud_with_kafka S \<and> md_in_progress meta = Some ''interrupted'' then
        (case (md_kafka_partition meta, md_kafka_offset meta) of
           (Some part, Some offset) \<Rightarrow>
             bind_loop (recover_session S K storage record sid meta part offset) (\<lambda>r.
             case r of Inr _ \<Rightarrow> ends (set_status S sid PendingAnnotation) | Inl e \<Rightarrow> given_up)
         | _ \<Rightarrow> given_up)
      else given_up)"

definition sweep_record ::
  "('c, 'r) services \<Rightarrow> kafka_access \<Rightarrow> ('c, 'r) world storage_backend \<Rightarrow> session_record \<Rightarrow> string
   \<Rightarrow> (('c, 'r) world, unit) loop" where
  "sweep_record S K storage record sid =
     bind_loop (ends (sweep_document S storage record sid)) (\<lambda>doc.
     case doc of
       None \<Rightarrow> ends (give_up_session S record sid)
     | Some meta \<Rightarrow>
         (case active_sweep_restore_target (md_status meta) of
            Some restore \<Rightarrow> ends (set_status S sid restore)
          | None \<Rightarrow>
              (case md_in_progress meta of
                 None \<Rightarrow> ends (give_up_session S record sid)
               | Some p \<Rightarrow>
                   if p = ''capturing'' \<or> p = ''interrupted'' then sweep_interrupted S K storage record sid meta
                   else ends (ok ()))))"

text \<open>The record of a session, and the backend it is pinned to; a router without backends panics.\<close>

definition with_session ::
  "('c, 'r) services \<Rightarrow> string \<Rightarrow> (('c, 'r) world, unit) loop
   \<Rightarrow> (session_record \<Rightarrow> ('c, 'r) world storage_backend \<Rightarrow> (('c, 'r) world, unit) loop) \<Rightarrow> (('c, 'r) world, unit) loop" where
  "with_session S sid missing k =
     bind_loop (ends (attempt (on_redis (registry_get (sv_redis S) (sv_clock S) sid)))) (\<lambda>r.
     case r of
       Inl e \<Rightarrow> missing
     | Inr record \<Rightarrow>
         (case resolve_for_session (sv_router S) record of None \<Rightarrow> (\<lambda>w. None) | Some storage \<Rightarrow> k record storage))"

definition sweep_session :: "('c, 'r) services \<Rightarrow> kafka_access \<Rightarrow> string \<Rightarrow> (('c, 'r) world, unit) loop" where
  "sweep_session S K sid =
     with_session S sid (ends (ignore (on_redis (remove_from_active_set (sv_redis S) sid))))
       (\<lambda>record storage. sweep_record S K storage record sid)"

fun each_session :: "(string \<Rightarrow> ('s, unit) loop) \<Rightarrow> string list \<Rightarrow> ('s, unit) loop" where
  "each_session f [] = ends (ok ())"
| "each_session f (sid # sids) = bind_loop (f sid) (\<lambda>_. each_session f sids)"

definition active_sweep :: "('c, 'r) services \<Rightarrow> kafka_access \<Rightarrow> (('c, 'r) world, unit) loop" where
  "active_sweep S K =
     bind_loop (ends (attempt (on_redis (list_active (sv_redis S))))) (\<lambda>r.
     case r of Inl e \<Rightarrow> ends (ok ()) | Inr sids \<Rightarrow> each_session (sweep_session S K) sids)"

section \<open>The reconciliation\<close>

definition reconcile_document ::
  "('c, 'r) services \<Rightarrow> ('c, 'r) world storage_backend \<Rightarrow> session_record \<Rightarrow> string
   \<Rightarrow> (('c, 'r) world, session_metadata result) io" where
  "reconcile_document S storage record sid =
     (let mc = ce_metadata (sv_capture S) in
      if cloud_with_kafka S
      then attempt (bind_io (sb_get storage sid (rec_memory_name record @ ''/metadata.json''))
             (\<lambda>bytes. lift_result (metadata_from_bytes mc bytes)))
      else attempt (on_disk (metadata_read mc (rec_memory_path record))))"

definition reconcile_session :: "('c, 'r) services \<Rightarrow> string \<Rightarrow> (('c, 'r) world, unit) loop" where
  "reconcile_session S sid =
     with_session S sid (ends (ok ())) (\<lambda>record storage.
       ends (bind_io (reconcile_document S storage record sid) (\<lambda>r.
         case r of
           Inl e \<Rightarrow> ok ()
         | Inr meta \<Rightarrow>
             (case reconcile_target (rec_status record) (md_status meta) of
                None \<Rightarrow> ok ()
              | Some target \<Rightarrow> set_status S sid target))))"

definition stale_candidates :: "'r redis \<Rightarrow> ('r, string list) io" where
  "stale_candidates api =
     fold_io (\<lambda>list ids. bind_io (attempt list) (\<lambda>r. ok (case r of Inr v \<Rightarrow> ids @ v | Inl e \<Rightarrow> ids)))
       [list_annotating api, list_pending_compilation api, list_reasoning_degraded api] []"

definition reconcile_sweep :: "('c, 'r) services \<Rightarrow> (('c, 'r) world, unit) loop" where
  "reconcile_sweep S =
     bind_loop (ends (on_redis (stale_candidates (sv_redis S)))) (each_session (reconcile_session S))"

section \<open>The retention sweep\<close>

text \<open>What cannot be removed after the record is gone is left behind.\<close>

definition retention_session :: "('c, 'r) services \<Rightarrow> string \<Rightarrow> (('c, 'r) world, unit) loop" where
  "retention_session S sid =
     bind_loop (ends (attempt (on_redis (registry_get (sv_redis S) (sv_clock S) sid)))) (\<lambda>r.
     case r of
       Inl e \<Rightarrow> ends (ok ())
     | Inr record \<Rightarrow>
         bind_loop (ends (attempt (on_redis (delete_session (sv_redis S) (ce_upper (sv_capture S)) sid (Some record))))) (\<lambda>r.
         case r of
           Inl e \<Rightarrow> ends (ok ())
         | Inr _ \<Rightarrow>
             (case resolve_for_session (sv_router S) record of
                None \<Rightarrow> (\<lambda>w. None)
              | Some storage \<Rightarrow> (\<lambda>w.
                  map_option (\<lambda>(_, w). ignore (on_disk (purge_memory_dir (ce_json (sv_capture S)) (rec_memory_path record) sid)) w)
                    (sb_delete_all storage sid w)))))"

text \<open>\<open>now\<close> is the time of the clock when the sweep begins.\<close>

definition retention_cutoff :: "int \<Rightarrow> int" where
  "retention_cutoff now = now - INCOMPLETE_RETENTION_SECONDS * 1000000000"

definition retention_sweep :: "('c, 'r) services \<Rightarrow> int \<Rightarrow> (('c, 'r) world, unit) loop" where
  "retention_sweep S now = (\<lambda>w.
     case zoom_loop w_redis (\<lambda>r w. w\<lparr>w_redis := r\<rparr>)
            (list_incomplete_before (sv_redis S) (sv_clock S) (retention_cutoff now)) w of
       None \<Rightarrow> None
     | Some (Inl e, w) \<Rightarrow> Some (Inr (), w)
     | Some (Inr expired, w) \<Rightarrow> each_session (retention_session S) expired w)"

section \<open>The whole start\<close>

definition clean_indexes :: "('c, 'r) services \<Rightarrow> (('c, 'r) world, unit) io" where
  "clean_indexes S =
     fold_io (\<lambda>set_key _. ignore (on_redis (cleanup_stale_index_entries (sv_redis S) set_key))) STATUS_SETS ()"

definition startup :: "('c, 'r) services \<Rightarrow> kafka_access \<Rightarrow> int \<Rightarrow> (('c, 'r) world, unit) loop" where
  "startup S K now =
     bind_loop (ends (clean_indexes S)) (\<lambda>_.
     bind_loop (active_sweep S K) (\<lambda>_.
     bind_loop (reconcile_sweep S) (\<lambda>_.
     retention_sweep S now)))"

section \<open>The end of the process\<close>

definition interrupt_session :: "('c, 'r) services \<Rightarrow> string \<Rightarrow> (('c, 'r) world, unit) loop" where
  "interrupt_session S sid =
     with_session S sid (ends (ok ())) (\<lambda>record storage.
       let mc = ce_metadata (sv_capture S); path = rec_memory_name record @ ''/metadata.json'' in
       ends (if cloud_primary S
         then ignore (bind_io (sb_get storage sid path) (\<lambda>bytes.
                bind_io (lift_result (metadata_from_bytes mc bytes)) (\<lambda>meta.
                bind_io (lift_result (metadata_to_json mc (meta\<lparr>md_in_progress := Some ''interrupted''\<rparr>))) (\<lambda>bytes.
                sb_put storage sid path bytes ''application/json''))))
         else ignore (on_disk (set_in_progress mc (rec_memory_path record) ''interrupted''))))"

text \<open>\<open>sids\<close>: the keys of the map of done handles, in some order.\<close>

definition interrupt_sessions :: "('c, 'r) services \<Rightarrow> string list \<Rightarrow> (('c, 'r) world, unit) loop" where
  "interrupt_sessions S sids = each_session (interrupt_session S) sids"

end
