(* ===== verification/MA_Recovery_Facts.thy ===== *)
theory MA_Recovery_Facts
  imports MA_Startup MA_Watch_Facts
begin

text \<open>
  The replay of an interrupted session against the watch loop that would have gone on: both record the
  same steps.
\<close>

section \<open>The steps a replay adds\<close>

definition log_events :: "kafka_event list \<Rightarrow> command_event list" where
  "log_events kes = filter (\<lambda>ev. action_type ev \<noteq> ''position'') (map ke_event kes)"

lemma recover_event_view:
  assumes "recover_event U ke cs = Some cs'" and "action_type (ke_event ke) \<noteq> ''position''"
  shows "state_view cs' = (fst (state_view cs) @ numbered U (snd (state_view cs)) [ke_event ke], snd (state_view cs) + 1)"
proof -
  from assms obtain conv where conv: "to_human_readable U (ke_event ke) = Some conv"
    and cs': "cs' = cs_update_kafka_position (ke_partition ke) (ke_offset ke)
      (cs_append_step (step_entry_of (md_total_steps (cs_metadata cs) + 1) (ke_event ke) conv) cs)"
    by (auto simp: recover_event_def)
  show "state_view cs' = (fst (state_view cs) @ numbered U (snd (state_view cs)) [ke_event ke], snd (state_view cs) + 1)"
    by (simp add: cs' conv state_view_def cs_update_kafka_position_def cs_append_step_def edit_def push_step_def)
qed

lemma recover_events_view:
  "recover_events U kes cs = Some cs' \<Longrightarrow>
   state_view cs' = (fst (state_view cs) @ numbered U (snd (state_view cs)) (log_events kes),
     snd (state_view cs) + of_nat (length (log_events kes)))"
proof (induction kes arbitrary: cs)
  case Nil
  then show ?case by (simp add: log_events_def)
next
  case (Cons ke kes)
  then obtain cs1 where one: "recover_event U ke cs = Some cs1" and rest: "recover_events U kes cs1 = Some cs'"
    by (auto simp: bind_eq_Some_conv)
  show ?case
  proof (cases "action_type (ke_event ke) = ''position''")
    case True
    with one have "cs1 = cs" by (simp add: recover_event_def)
    with Cons.IH [OF rest] True show ?thesis by (simp add: log_events_def)
  next
    case False
    with Cons.IH [OF rest] recover_event_view [OF one False] show ?thesis
      by (simp add: log_events_def algebra_simps)
  qed
qed

section \<open>The same steps as without the interruption\<close>

text \<open>
  C15. A replay completes an interrupted cloud session exactly. Let the server stop while the document is
  as the watch loop last published it, its total the loop's counter, and let the log hold what the loop
  would still have received. Then the document the next start rebuilds has, but for images, the very
  steps the loop would have recorded had it gone on, with the numbers, labels and verdicts it would
  have given them, and the same total.
\<close>

theorem recovery_is_the_uninterrupted_loop:
  assumes cloud: "cw_is_cloud_primary (wt_writer wt)" "serialises (ce_writer E)"
    and counter: "cw_step_counter (wt_writer wt) = md_total_steps (cs_metadata (wt_state wt))"
    and loop: "serves E (taken is)" "run_inputs E is (wt, w) = (r, (wt', w'))"
    and log: "filter (\<lambda>ev. action_type ev \<noteq> ''position'') (map ke_event kes) = taken is"
    and replay: "recover_events (ce_upper E) kes
      (capture_new (cs_metadata (wt_state wt)) sid path storage every True) = Some cs"
  shows "map step_key (md_steps (cs_metadata cs)) = map step_key (md_steps (cs_metadata (wt_state wt')))
    \<and> md_total_steps (cs_metadata cs) = md_total_steps (cs_metadata (wt_state wt'))"
proof -
  let ?new = "numbered (ce_upper E) (md_total_steps (cs_metadata (wt_state wt))) (taken is)"
  have same: "state_view (capture_new (cs_metadata (wt_state wt)) sid path storage every True) = state_view (wt_state wt)"
    by (simp add: state_view_def capture_new_def)
  have "length (numbered U n evs) = length evs" for U n evs by (induction evs arbitrary: n) simp_all
  with run_inputs_steps [OF loop] cloud counter
  have "state_view (wt_state wt') = (fst (state_view (wt_state wt)) @ ?new, snd (state_view (wt_state wt)) + of_nat (length (taken is)))"
    by (auto simp: step_keys_def state_view_def)
  moreover from recover_events_view [OF replay] log
  have "state_view cs = (fst (state_view (wt_state wt)) @ ?new, snd (state_view (wt_state wt)) + of_nat (length (taken is)))"
    by (simp add: log_events_def same) (simp add: state_view_def)
  ultimately show ?thesis by (simp add: state_view_def)
qed

text \<open>One event is missed, in a session that had recorded none.\<close>

theorem recovery_is_the_uninterrupted_loop_witness:
  "\<forall>(E :: unit capture_env) (wt :: (unit, unit) watching) (w :: (unit, unit) world) eyes. \<exists>wt0 cs.
     let ep = \<lparr>ep_event = default_event, ep_kafka_partition = None, ep_kafka_offset = None\<rparr>;
         ke = \<lparr>ke_event = default_event, ke_partition = 0, ke_offset = 7\<rparr> in
     recover_events (\<lambda>s. s) [ke] (capture_new (cs_metadata (wt_state wt0)) ''s'' ''/m'' (wt_storage wt) 1 True) = Some cs
     \<and> map step_key (md_steps (cs_metadata cs))
         = map step_key (md_steps (cs_metadata (wt_state (fst (snd (run_inputs (letter_env E) [Event ep eyes, DoneSignal] (wt0, w)))))))"
proof (intro allI, unfold Let_def)
  fix E :: "unit capture_env" and wt :: "(unit, unit) watching" and w :: "(unit, unit) world" and eyes
  let ?wt0 = "wt\<lparr>wt_writer := writer_new ''m'' True ''s'' (wt_storage wt),
      wt_state := edit (\<lambda>m. m\<lparr>md_total_steps := 0\<rparr>) (wt_state wt)\<rparr>"
  let ?ep = "\<lparr>ep_event = default_event, ep_kafka_partition = None, ep_kafka_offset = None\<rparr>"
  let ?ke = "\<lparr>ke_event = default_event, ke_partition = 0, ke_offset = 7\<rparr>"
  let ?is = "[Event ?ep eyes, DoneSignal] :: (unit, unit) input list"
  let ?start = "capture_new (cs_metadata (wt_state ?wt0)) ''s'' ''/m'' (wt_storage wt) 1 True"
  obtain r wt' w' where run: "run_inputs (letter_env E) ?is (?wt0, w) = (r, (wt', w'))" by (metis prod_cases3)
  obtain cs where replay: "recover_events (\<lambda>s. s) [?ke] ?start = Some cs"
    by (simp add: recover_event_def default_event_def to_human_readable_def)
  have taken: "taken ?is = [default_event]" by (simp add: default_event_def)
  have serves: "serves (letter_env E) (taken ?is)"
    unfolding taken by (simp add: serves_def letter_env_def draws_def upper_ok_def default_event_def)
  have cloud: "cw_is_cloud_primary (wt_writer ?wt0)" "serialises (ce_writer (letter_env E))"
    by (simp_all add: writer_new_def letter_env_def serialises_def letter_codec_def)
  have counter: "cw_step_counter (wt_writer ?wt0) = md_total_steps (cs_metadata (wt_state ?wt0))"
    by (simp add: writer_new_def edit_def)
  have log: "filter (\<lambda>ev. action_type ev \<noteq> ''position'') (map ke_event [?ke]) = taken ?is"
    unfolding taken by (simp add: default_event_def)
  have env: "ce_upper (letter_env E) = (\<lambda>s. s)" by (simp add: letter_env_def)
  note recovery_is_the_uninterrupted_loop [OF cloud counter serves run log, unfolded env, OF replay]
  then have "map step_key (md_steps (cs_metadata cs))
      = map step_key (md_steps (cs_metadata (wt_state (fst (snd (run_inputs (letter_env E) ?is (?wt0, w)))))))"
    by (simp only: run fst_conv snd_conv)
  with replay show "\<exists>wt0 cs. recover_events (\<lambda>s. s) [?ke]
        (capture_new (cs_metadata (wt_state wt0)) ''s'' ''/m'' (wt_storage wt) 1 True) = Some cs
     \<and> map step_key (md_steps (cs_metadata cs))
         = map step_key (md_steps (cs_metadata (wt_state (fst (snd (run_inputs (letter_env E) [Event ?ep eyes, DoneSignal] (wt0, w)))))))"
    by (intro exI [of _ ?wt0] exI [of _ cs] conjI)
qed

end
