(* ===== verification/MA_Startup_Facts.thy ===== *)
theory MA_Startup_Facts
  imports MA_Startup MA_Clean_End MA_Register_Facts
begin

text \<open>
  What a start does to the sessions of an earlier run: only stale sessions and old incomplete ones are
  touched, a finished recording keeps its directory, and a replay rebuilds the document.
\<close>

section \<open>Loops that keep an invariant\<close>

lemma loop_once: "maintains I m \<Longrightarrow> maintains_loop I (ends m)"
  unfolding maintains_def maintains_loop_def ends_def by (metis option.inject snd_conv)

lemma loop_gives:
  assumes "\<And>s r s'. I s \<Longrightarrow> m s = Some (r, s') \<Longrightarrow> I s' \<and> (\<forall>a. r = Inr a \<longrightarrow> P a)"
    and "\<And>a. P a \<Longrightarrow> maintains_loop I (f a)"
  shows "maintains_loop I (bind_loop m f)"
  unfolding maintains_loop_def bind_loop_Some_iff
proof (intro allI impI)
  fix s r s'
  assume s: "I s" and "(\<exists>e. m s = Some (Inl e, s') \<and> r = Inl e) \<or> (\<exists>a s1. m s = Some (Inr a, s1) \<and> f a s1 = Some (r, s'))"
  then show "I s'"
  proof (elim disjE exE conjE)
    fix e assume "m s = Some (Inl e, s')"
    with assms(1) [OF s] show ?thesis by blast
  next
    fix a s1 assume m: "m s = Some (Inr a, s1)" and f: "f a s1 = Some (r, s')"
    from assms(1) [OF s m] have "I s1" "P a" by auto
    with assms(2) [of a] f show ?thesis unfolding maintains_loop_def by blast
  qed
qed

lemma loop_bind:
  assumes "maintains_loop I m" and "\<And>a. maintains_loop I (f a)" shows "maintains_loop I (bind_loop m f)"
proof (rule loop_gives [where P = "\<lambda>_. True"])
  show "I s' \<and> (\<forall>a. r = Inr a \<longrightarrow> True)" if "I s" "m s = Some (r, s')" for s r s'
    using assms(1) that unfolding maintains_loop_def by blast
qed (rule assms(2))

lemma bind_loop_assoc: "bind_loop (bind_loop m f) g = bind_loop m (\<lambda>a. bind_loop (f a) g)"
  by (auto simp: bind_loop_def fun_eq_iff split: option.splits sum.splits)

lemma maintains_fold: "(\<And>x a. maintains I (f x a)) \<Longrightarrow> maintains I (fold_io f xs a)"
  by (induction xs arbitrary: a) (simp_all add: maintains_pure maintains_bind)

lemma loop_never: "maintains_loop I (\<lambda>s. None)"
  by (simp add: maintains_loop_def)

lemma loop_each: "(\<And>sid. sid \<in> set sids \<Longrightarrow> maintains_loop I (f sid)) \<Longrightarrow> maintains_loop I (each_session f sids)"
  by (induction sids) (simp_all add: loop_once maintains_pure loop_bind)

section \<open>The stale sessions\<close>

definition STALE_SETS :: "string set" where
  "STALE_SETS = {''sessions:active'', ''sessions:annotating'', ''sessions:pending_compilation'', ''sessions:reasoning_degraded''}"

definition stale_sessions :: "rview \<Rightarrow> string set" where
  "stale_sessions v = (\<Union>k \<in> STALE_SETS. sets v k)"

text \<open>A view reached from \<open>v0\<close> in which only the sessions of \<open>A\<close> were touched.\<close>

definition stale_view :: "string set \<Rightarrow> rview \<Rightarrow> rview \<Rightarrow> bool" where
  "stale_view A v0 v \<longleftrightarrow> stale_sessions v \<subseteq> A
     \<and> (\<forall>sid. sid \<notin> A \<longrightarrow> hashes v (session_key sid) = hashes v0 (session_key sid))
     \<and> (\<forall>k. hashes v k ''session_id'' = hashes v0 k ''session_id'') \<and> strings v = strings v0"

lemma stale_view_ops:
  "stale_view A v0 v \<Longrightarrow> stale_view A v0 (v_srem k m v)"
  "stale_view A v0 v \<Longrightarrow> stale_view A v0 (v_ttl k t v)"
  "stale_view A v0 v \<Longrightarrow> a \<in> A \<Longrightarrow> stale_view A v0 (v_sadd k a v)"
  "stale_view A v0 v \<Longrightarrow> a \<in> A \<Longrightarrow> ''session_id'' \<notin> fst ` set ps \<Longrightarrow> stale_view A v0 (v_hset (session_key a) ps v)"
  by (auto simp: stale_view_def stale_sessions_def hset_keeps_field)

definition backend_apart :: "('c, 'r) world storage_backend \<Rightarrow> bool" where
  "backend_apart b \<longleftrightarrow>
     (\<forall>sid p bytes ct w. w_redis (snd (sb_put b sid p bytes ct w)) = w_redis w)
     \<and> (\<forall>sid p w. w_redis (snd (sb_get b sid p w)) = w_redis w)
     \<and> (\<forall>sid w r w'. sb_delete_all b sid w = Some (r, w') \<longrightarrow> w_redis w' = w_redis w)"

lemma backends_lifted:
  "backend_apart (lift_backend w_disk (\<lambda>d w. w\<lparr>w_disk := d\<rparr>) b)"
  "backend_apart (lift_backend w_cloud (\<lambda>c w. w\<lparr>w_cloud := c\<rparr>) b')"
  by (auto simp: backend_apart_def lift_backend_def zoom_def zoom_loop_def split: prod.splits)

text \<open>The registry operations of the start, on a session of \<open>A\<close>.\<close>

lemma keeps_stale:
  assumes api: "redis_ok api V"
  shows "a \<in> A \<Longrightarrow> keeps V (stale_view A v0) (update_status api cf a st)"
    and "a \<in> A \<Longrightarrow> keeps V (stale_view A v0) (update_memory_path api cf a p)"
    and "keeps V (stale_view A v0) (remove_from_active_set api a)"
    and "keeps V (stale_view A v0) (cleanup_stale_index_entries api k)"
    and "keeps V (stale_view A v0) (registry_get api cf a)"
proof -
  show "a \<in> A \<Longrightarrow> keeps V (stale_view A v0) (update_status api cf a st)"
    by (intro keeps_update_status_by [OF api] stale_view_ops) simp_all
  show "a \<in> A \<Longrightarrow> keeps V (stale_view A v0) (update_memory_path api cf a p)"
    unfolding update_memory_path_def
    by (rule keeps_state, rule keeps_context, rule keeps_commands(7) [OF api], rule stale_view_ops(4)) simp_all
  show "keeps V (stale_view A v0) (remove_from_active_set api a)"
    unfolding remove_from_active_set_def by (intro keeps_rules(2) keeps_commands(10) [OF api] stale_view_ops)
  show "keeps V (stale_view A v0) (cleanup_stale_index_entries api k)"
    unfolding cleanup_stale_index_entries_def
    by (auto intro!: keeps_bind keeps_context keeps_commands(1,5,10) [OF api] keeps_fold keeps_pure stale_view_ops)
  show "keeps V (stale_view A v0) (registry_get api cf a)" by (rule keeps_get [OF api])
qed

text \<open>The lists the sweeps work through name stale sessions only.\<close>

lemma list_reads:
  assumes "redis_ok api V"
  shows "reads V (list_active api) (\<lambda>v ms. set ms = sets v ''sessions:active'')"
    and "reads V (list_annotating api) (\<lambda>v ms. set ms = sets v ''sessions:annotating'')"
    and "reads V (list_pending_compilation api) (\<lambda>v ms. set ms = sets v ''sessions:pending_compilation'')"
    and "reads V (list_reasoning_degraded api) (\<lambda>v ms. set ms = sets v ''sessions:reasoning_degraded'')"
  unfolding list_active_def list_annotating_def list_pending_compilation_def list_reasoning_degraded_def
  using redis_laws(5) [OF assms] by (auto simp: reads_def context_io_def split: prod.splits sum.splits)

section \<open>The frame of a start\<close>

definition stale_world :: "('r \<Rightarrow> rview) \<Rightarrow> string set \<Rightarrow> rview \<Rightarrow> ('c, 'r) world \<Rightarrow> bool" where
  "stale_world V A v0 w \<longleftrightarrow> stale_view A v0 (V (w_redis w))"

lemma stale_redis: "keeps V (stale_view A v0) m \<Longrightarrow> maintains (stale_world V A v0) (on_redis m)"
  by (auto simp: maintains_def stale_world_def keeps_def runs_def on_redis_def zoom_def split: prod.splits)

lemma stale_disk: "maintains (stale_world V A v0) (on_disk m)"
  by (auto simp: maintains_def stale_world_def on_disk_def zoom_def split: prod.splits)

lemma stale_storage: "backend_apart b \<Longrightarrow> maintains (stale_world V A v0) (sb_get b sid p)"
  by (simp add: maintains_def stale_world_def backend_apart_def)

lemma recover_event_storage: "recover_event U ke cs = Some cs' \<Longrightarrow> cs_storage cs' = cs_storage cs"
  by (auto simp: recover_event_def cs_update_kafka_position_def cs_append_step_def edit_def split: if_splits)

lemma recover_events_storage: "recover_events U kes cs = Some cs' \<Longrightarrow> cs_storage cs' = cs_storage cs"
  by (induction kes arbitrary: cs) (auto simp: bind_eq_Some_conv dest: recover_event_storage)

lemma recover_redis:
  assumes "backend_apart storage" and "recover_session S K storage record sid meta part offset w = Some (r, w')"
  shows "w_redis w' = w_redis w"
proof -
  from assms(2) show ?thesis
    unfolding recover_session_def
  proof (auto simp: ends_def ok_def split: option.splits sum.splits prod.splits)
    fix kes cs r1 cs1
    assume rec: "recover_events (ce_upper (sv_capture S)) kes (capture_new meta sid (rec_memory_path record) storage
        (cfg_metadata_flush_interval (sv_config S)) True) = Some cs"
      and run: "flush_now (ce_metadata (sv_capture S)) (mark_recovered cs, w) = (r1, cs1, w')"
    have "cs_storage (mark_recovered cs) = storage"
      using recover_events_storage [OF rec] by (simp add: mark_recovered_def edit_def capture_new_def)
    then have "redis_part.steady_state (w_redis w) (mark_recovered cs, w)"
      using assms(1) by (simp add: redis_part.steady_state_def redis_part.puts_keep_def backend_apart_def maintains_def)
    then have "redis_part.steady_state (w_redis w) (snd (flush_now (ce_metadata (sv_capture S)) (mark_recovered cs, w)))"
      by (rule redis_part.state_flush_now [unfolded maintains_def, rule_format])
    with run show "w_redis w' = w_redis w" by (simp add: redis_part.steady_state_def)
  qed
qed

lemma stale_recover:
  assumes "backend_apart storage"
  shows "maintains_loop (stale_world V A v0) (recover_session S K storage record sid meta part offset)"
  unfolding maintains_loop_def stale_world_def using recover_redis [OF assms] by metis

definition backends_apart :: "('c, 'r) services \<Rightarrow> bool" where
  "backends_apart S \<longleftrightarrow> (\<forall>(n, b) \<in> set (router_pool (sv_router S)). backend_apart b)"

lemma resolved_apart:
  assumes "backends_apart S" and "resolve_for_session (sv_router S) record = Some b" shows "backend_apart b"
  using resolved_in_pool [OF assms(2)] assms(1) unfolding backends_apart_def by blast

lemma stale_with_session:
  assumes "redis_ok (sv_redis S) V" and "backends_apart S"
    and "maintains_loop (stale_world V A v0) missing"
    and "\<And>record b. backend_apart b \<Longrightarrow> maintains_loop (stale_world V A v0) (k record b)"
  shows "maintains_loop (stale_world V A v0) (with_session S sid missing k)"
  unfolding with_session_def
proof (intro loop_bind loop_once maintains_attempt stale_redis keeps_stale(5) [OF assms(1)])
  fix r :: "session_record result"
  show "maintains_loop (stale_world V A v0) (case r of Inl e \<Rightarrow> missing
     | Inr record \<Rightarrow> (case resolve_for_session (sv_router S) record of None \<Rightarrow> (\<lambda>w. None) | Some storage \<Rightarrow> k record storage))"
    using assms(3) by (auto split: sum.split option.split intro: assms(4) loop_never resolved_apart [OF assms(2)])
qed

lemma stale_status:
  fixes S :: "('c, 'r) services"
  assumes "redis_ok (sv_redis S) V" and "sid \<in> A"
  shows "maintains (stale_world V A v0) (set_status S sid st)"
  unfolding set_status_def by (intro maintains_attempt stale_redis keeps_stale(1) [OF assms])

lemma stale_give_up:
  fixes S :: "('c, 'r) services"
  assumes "redis_ok (sv_redis S) V" and "sid \<in> A"
  shows "maintains (stale_world V A v0) (give_up_session S record sid)"
proof -
  have "maintains (stale_world V A v0) (if cloud_with_kafka S then ok ()
      else bind_io (attempt (on_disk (mark_incomplete (rec_memory_path record)))) (\<lambda>r. case r of
          Inr new_dir \<Rightarrow> ignore (on_redis (update_memory_path (sv_redis S) (sv_clock S) sid new_dir)) | Inl e \<Rightarrow> ok ()))"
    by (auto intro!: maintains_bind maintains_pure maintains_attempt stale_disk stale_redis keeps_stale(2) [OF assms] split: sum.split)
  then show ?thesis unfolding give_up_session_def by (rule maintains_bind) (rule stale_status [OF assms])
qed

lemma stale_document:
  assumes "backend_apart b"
  shows "maintains (stale_world V A v0) (sweep_document S b record sid)"
    and "maintains (stale_world V A v0) (reconcile_document S b record sid)"
proof -
  note get = stale_storage [OF assms]
  have lift: "maintains I (lift_result x)" for I :: "('c, 'r) world \<Rightarrow> bool" and x :: "session_metadata result"
    by (simp add: maintains_def lift_result_def)
  show "maintains (stale_world V A v0) (sweep_document S b record sid)"
    unfolding sweep_document_def Let_def
    by (auto intro!: maintains_bind maintains_pure maintains_attempt stale_disk get split: sum.split)
  show "maintains (stale_world V A v0) (reconcile_document S b record sid)"
    unfolding reconcile_document_def Let_def
    by (auto intro!: maintains_bind maintains_attempt stale_disk get lift)
qed

lemma stale_sweep_record:
  fixes S :: "('c, 'r) services"
  assumes "redis_ok (sv_redis S) V" and "sid \<in> A" and b: "backend_apart b"
  shows "maintains_loop (stale_world V A v0) (sweep_record S K b record sid)"
proof -
  note give = loop_once [OF stale_give_up [OF assms(1,2)]] and status = loop_once [OF stale_status [OF assms(1,2)]]
  have "maintains_loop (stale_world V A v0) (sweep_interrupted S K b record sid meta)" for meta
    unfolding sweep_interrupted_def Let_def
    by (auto intro!: loop_bind stale_recover [OF b] give status split: option.split sum.split)
  then show ?thesis
    unfolding sweep_record_def
    by (auto intro!: loop_bind loop_once [OF stale_document(1) [OF b]] give status loop_once [OF maintains_pure(1)]
      split: option.split)
qed

lemma stale_listed: "stale_world V A v0 w \<Longrightarrow> k \<in> STALE_SETS \<Longrightarrow> sets (V (w_redis w)) k \<subseteq> A"
  by (auto simp: stale_world_def stale_view_def stale_sessions_def)

lemma attempt_on_redis: "attempt (on_redis m) w = (Inr (fst (m (w_redis w))), w\<lparr>w_redis := snd (m (w_redis w))\<rparr>)"
  by (simp add: attempt_def on_redis_def zoom_def split: prod.splits)

lemma stale_active_sweep:
  fixes S :: "('c, 'r) services"
  assumes api: "redis_ok (sv_redis S) V" and "backends_apart S"
  shows "maintains_loop (stale_world V A v0) (active_sweep S K)"
  unfolding active_sweep_def
proof (rule loop_gives [where P = "\<lambda>r. case r of Inr sids \<Rightarrow> set sids \<subseteq> A | Inl e \<Rightarrow> True"])
  fix w :: "('c, 'r) world" and r w'
  assume w: "stale_world V A v0 w" and run: "ends (attempt (on_redis (list_active (sv_redis S)))) w = Some (r, w')"
  obtain q s where q: "list_active (sv_redis S) (w_redis w) = (q, s)" by fastforce
  have "V s = V (w_redis w)" "\<And>ms. q = Inr ms \<Longrightarrow> set ms = sets (V (w_redis w)) ''sessions:active''"
    using reads_apply [OF list_reads(1) [OF api] q] by auto
  moreover have "r = Inr q" "w' = w\<lparr>w_redis := s\<rparr>" using run q by (auto simp: ends_def attempt_on_redis)
  ultimately show "stale_world V A v0 w' \<and> (\<forall>a. r = Inr a \<longrightarrow> (case a of Inr sids \<Rightarrow> set sids \<subseteq> A | Inl e \<Rightarrow> True))"
    using w stale_listed [OF w, of "''sessions:active''"] by (auto simp: stale_world_def STALE_SETS_def split: sum.split)
next
  have one: "maintains_loop (stale_world V A v0) (sweep_session S K sid)" if "sid \<in> A" for sid
    unfolding sweep_session_def
    by (rule stale_with_session [OF assms])
      (auto intro: loop_once maintains_attempt stale_redis keeps_stale(3) [OF api] stale_sweep_record [OF api that])
  fix r assume "case r of Inr sids \<Rightarrow> set sids \<subseteq> A | Inl (e :: string) \<Rightarrow> True"
  then show "maintains_loop (stale_world V A v0) (case r of Inl e \<Rightarrow> ends (ok ()) | Inr sids \<Rightarrow> each_session (sweep_session S K) sids)"
    by (cases r) (auto intro: loop_once maintains_pure loop_each one)
qed

lemma candidates_fold:
  assumes "\<forall>l \<in> set ls. \<exists>k \<in> STALE_SETS. reads V l (\<lambda>v ms. set ms = sets v k)"
  shows "\<exists>ids' s'. fold_io (\<lambda>l ids. bind_io (attempt l) (\<lambda>r. ok (case r of Inr v \<Rightarrow> ids @ v | Inl e \<Rightarrow> ids))) ls ids s = (Inr ids', s')
    \<and> V s' = V s \<and> set ids' \<subseteq> set ids \<union> stale_sessions (V s)"
  using assms
proof (induction ls arbitrary: ids s)
  case Nil
  then show ?case by (simp add: ok_def)
next
  case (Cons l ls)
  then obtain k where k: "k \<in> STALE_SETS" "reads V l (\<lambda>v ms. set ms = sets v k)" by auto
  obtain q s1 where q: "l s = (q, s1)" by fastforce
  let ?ids = "case q of Inr v \<Rightarrow> ids @ v | Inl e \<Rightarrow> ids"
  have s1: "V s1 = V s" "set ?ids \<subseteq> set ids \<union> stale_sessions (V s)"
    using reads_apply [OF k(2) q] k(1) by (auto simp: stale_sessions_def split: sum.split)
  have "\<forall>l \<in> set ls. \<exists>k \<in> STALE_SETS. reads V l (\<lambda>v ms. set ms = sets v k)" using Cons.prems by simp
  from Cons.IH [OF this, of ?ids s1] obtain ids' s' where r:
      "fold_io (\<lambda>l ids. bind_io (attempt l) (\<lambda>r. ok (case r of Inr v \<Rightarrow> ids @ v | Inl e \<Rightarrow> ids))) ls ?ids s1 = (Inr ids', s')"
      "V s' = V s1" "set ids' \<subseteq> set ?ids \<union> stale_sessions (V s1)" by (elim exE conjE)
  have "bind_io (attempt l) (\<lambda>r. ok (case r of Inr v \<Rightarrow> ids @ v | Inl e \<Rightarrow> ids)) s = (Inr ?ids, s1)"
    by (simp add: bind_attempt q ok_def)
  with r(1) have "fold_io (\<lambda>l ids. bind_io (attempt l) (\<lambda>r. ok (case r of Inr v \<Rightarrow> ids @ v | Inl e \<Rightarrow> ids))) (l # ls) ids s = (Inr ids', s')"
    by (simp add: bind_io_go)
  moreover have "V s' = V s" "set ids' \<subseteq> set ids \<union> stale_sessions (V s)" using r(2,3) s1 by auto
  ultimately show ?case by blast
qed

lemma candidates_listed:
  assumes "redis_ok api V" and "stale_candidates api s = (r, s')"
  shows "V s' = V s \<and> (\<forall>ids. r = Inr ids \<longrightarrow> set ids \<subseteq> stale_sessions (V s))"
proof -
  have "\<forall>l \<in> set [list_annotating api, list_pending_compilation api, list_reasoning_degraded api].
      \<exists>k \<in> STALE_SETS. reads V l (\<lambda>v ms. set ms = sets v k)"
    using list_reads(2-4) [OF assms(1)] by (auto simp: STALE_SETS_def)
  from candidates_fold [OF this, of "[]" s] assms(2) show ?thesis by (auto simp: stale_candidates_def)
qed

lemma stale_reconcile_sweep:
  fixes S :: "('c, 'r) services"
  assumes api: "redis_ok (sv_redis S) V" and "backends_apart S"
  shows "maintains_loop (stale_world V A v0) (reconcile_sweep S)"
  unfolding reconcile_sweep_def
proof (rule loop_gives [where P = "\<lambda>ids. set ids \<subseteq> A"])
  fix w :: "('c, 'r) world" and r w'
  assume w: "stale_world V A v0 w" and run: "ends (on_redis (stale_candidates (sv_redis S))) w = Some (r, w')"
  obtain q s where q: "stale_candidates (sv_redis S) (w_redis w) = (q, s)" by fastforce
  note listed = candidates_listed [OF api q]
  have "r = q" "w' = w\<lparr>w_redis := s\<rparr>" using run q by (auto simp: ends_def on_redis_def zoom_def)
  moreover have "stale_sessions (V (w_redis w)) \<subseteq> A" using w by (simp add: stale_world_def stale_view_def)
  ultimately show "stale_world V A v0 w' \<and> (\<forall>ids. r = Inr ids \<longrightarrow> set ids \<subseteq> A)"
    using w listed by (auto simp: stale_world_def)
next
  have one: "maintains_loop (stale_world V A v0) (reconcile_session S sid)" if "sid \<in> A" for sid
  proof -
    have "maintains_loop (stale_world V A v0) (ends (bind_io (reconcile_document S b rc sid) (\<lambda>r. case r of
        Inl e \<Rightarrow> ok ()
      | Inr meta \<Rightarrow> (case reconcile_target (rec_status rc) (md_status meta) of None \<Rightarrow> ok () | Some target \<Rightarrow> set_status S sid target))))"
      if b: "backend_apart b" for rc b
      by (auto intro!: loop_once maintains_bind stale_document(2) [OF b] maintains_pure stale_status [OF api \<open>sid \<in> A\<close>]
        split: sum.split option.split)
    then show ?thesis unfolding reconcile_session_def
      by (intro stale_with_session [OF assms] loop_once [OF maintains_pure(1)])
  qed
  fix ids assume "set ids \<subseteq> A"
  then show "maintains_loop (stale_world V A v0) (each_session (reconcile_session S) ids)" by (intro loop_each one) auto
qed

section \<open>Retention\<close>

text \<open>Only the records and claims of \<open>B\<close> have changed since \<open>v0\<close>.\<close>

definition kept_outside :: "string set \<Rightarrow> rview \<Rightarrow> rview \<Rightarrow> bool" where
  "kept_outside B v0 v \<longleftrightarrow> (\<forall>sid. sid \<notin> B \<longrightarrow>
     hashes v (session_key sid) = hashes v0 (session_key sid) \<and> strings v (claim_key sid) = strings v0 (claim_key sid))"

definition kept_world :: "('r \<Rightarrow> rview) \<Rightarrow> string set \<Rightarrow> rview \<Rightarrow> ('c, 'r) world \<Rightarrow> bool" where
  "kept_world V B v0 w \<longleftrightarrow> kept_outside B v0 (V (w_redis w))"

lemma kept_redis: "keeps V (kept_outside B v0) m \<Longrightarrow> maintains (kept_world V B v0) (on_redis m)"
  by (auto simp: maintains_def kept_world_def keeps_def runs_def on_redis_def zoom_def split: prod.splits)

lemma kept_ops:
  "kept_outside B v0 v \<Longrightarrow> kept_outside B v0 (v_srem k m v)"
  "kept_outside B v0 v \<Longrightarrow> a \<in> B \<Longrightarrow> kept_outside B v0 (v_del (session_key a) v)"
  "kept_outside B v0 v \<Longrightarrow> a \<in> B \<Longrightarrow> kept_outside B v0 (v_del (claim_key a) v)"
  by (auto simp: kept_outside_def)

lemma keeps_delete:
  assumes "redis_ok api V" and "a \<in> B"
  shows "keeps V (kept_outside B v0) (delete_session api U a record)"
proof -
  have srem: "keeps V (kept_outside B v0) (srem_all api ks a)" for ks
    unfolding srem_all_def by (intro keeps_fold keeps_context keeps_commands(10) [OF assms(1)] kept_ops)
  have del: "keeps V (kept_outside B v0) (context_io c (rd_del api k))" if "k = session_key a \<or> k = claim_key a" for c k
    using that by (auto intro!: keeps_context keeps_commands(8) [OF assms(1)] kept_ops assms(2))
  show ?thesis unfolding delete_session_def
    by (auto intro!: keeps_bind srem del keeps_pure)
qed

lemma kept_retention:
  fixes S :: "('c, 'r) services"
  assumes api: "redis_ok (sv_redis S) V" and "backends_apart S" and "sid \<in> B"
  shows "maintains_loop (kept_world V B v0) (retention_session S sid)"
proof -
  have disk: "ignore (on_disk m) w = (r, w') \<Longrightarrow> w_redis w' = w_redis w" for m :: "(disk, bool) io" and w w' :: "('c, 'r) world" and r
    by (auto simp: ignore_def on_disk_def zoom_def split: prod.splits)
  have purge: "maintains_loop (kept_world V B v0) (\<lambda>w.
      map_option (\<lambda>(_, w). ignore (on_disk m) w) (sb_delete_all b sid w))" if b: "backend_apart b"
    for b :: "('c, 'r) world storage_backend" and m :: "(disk, bool) io"
    unfolding maintains_loop_def
  proof (intro allI impI)
    fix w r w'
    assume w: "kept_world V B v0 w" and "map_option (\<lambda>(_, w). ignore (on_disk m) w) (sb_delete_all b sid w) = Some (r, w')"
    then obtain q w1 where "sb_delete_all b sid w = Some (q, w1)" and p: "ignore (on_disk m) w1 = (r, w')" by auto
    then have "w_redis w1 = w_redis w" using b unfolding backend_apart_def by blast
    with disk [OF p] w show "kept_world V B v0 w'" by (simp add: kept_world_def)
  qed
  show ?thesis unfolding retention_session_def
    by (auto intro!: loop_bind loop_once maintains_attempt kept_redis keeps_get [OF api] keeps_delete [OF api assms(3)]
        maintains_pure loop_never purge resolved_apart [OF assms(2)] split: sum.split option.split)
qed

lemma expired_stale:
  assumes "stale_view A v0 v" and "\<And>sid a. hashes v0 (session_key sid) ''session_id'' = Some a \<Longrightarrow> a = sid"
    and "expired_in cf cutoff v a"
  shows "a \<in> A \<or> expired_in cf cutoff v0 a"
proof -
  obtain k u t where k: "a \<noteq> []" "prefix ''session:'' k" "hashes v k ''session_id'' = Some a"
      "hashes v k ''status'' = Some ''incomplete''" "hashes v k ''updated_at'' = Some u" "from_rfc3339 cf u = Inr t" "t < cutoff"
    using assms(3) unfolding expired_in_def by blast
  obtain sid where sid: "k = session_key sid" using k(2) by (auto simp: prefix_def session_key_def)
  have "hashes v0 k ''session_id'' = Some a" using assms(1) k(3) by (simp add: stale_view_def)
  with assms(2) sid have a: "a = sid" by blast
  show ?thesis
  proof (cases "sid \<in> A")
    case False
    then have "hashes v k = hashes v0 k" using assms(1) sid by (simp add: stale_view_def)
    with k have "expired_in cf cutoff v0 a" unfolding expired_in_def by metis
    then show ?thesis ..
  qed (simp add: a)
qed

lemma incomplete_listed:
  assumes "redis_ok api V" and "list_incomplete_before api cf cutoff s = Some (r, s')"
  shows "V s' = V s \<and> (\<forall>ids. r = Inr ids \<longrightarrow> (\<forall>a \<in> set ids. expired_in cf cutoff (V s) a))"
proof -
  have scan: "scan_loop api (''session:'' @ ''*'') 100 ''SCAN session keys failed'' (incomplete_step api cf cutoff) 0 [] s
      = Some (r, s')" using assms(2) by (simp add: list_incomplete_before_def)
  show ?thesis using scan_loop_inv [OF assms(1) incomplete_step_scans [OF assms(1), of "V s" cf cutoff] scan] by simp
qed

section \<open>The whole start\<close>

lemma stale_clean_indexes:
  fixes S :: "('c, 'r) services"
  assumes "redis_ok (sv_redis S) V"
  shows "maintains (stale_world V A v0) (clean_indexes S)"
  unfolding clean_indexes_def
  by (intro maintains_fold maintains_attempt stale_redis keeps_stale(4) [OF assms])

lemma kept_retention_sweep:
  fixes S :: "('c, 'r) services"
  assumes api: "redis_ok (sv_redis S) V" and "backends_apart S"
    and stale: "stale_world V A v0 w" and own: "\<And>sid a. hashes v0 (session_key sid) ''session_id'' = Some a \<Longrightarrow> a = sid"
    and run: "retention_sweep S now w = Some (r, w')"
  shows "kept_outside (A \<union> {a. expired_in (sv_clock S) (retention_cutoff now) v0 a}) v0 (V (w_redis w'))"
proof -
  let ?B = "A \<union> {a. expired_in (sv_clock S) (retention_cutoff now) v0 a}"
  let ?list = "list_incomplete_before (sv_redis S) (sv_clock S) (retention_cutoff now) (w_redis w)"
  have v: "stale_view A v0 (V (w_redis w))" using stale by (simp add: stale_world_def)
  then have kept: "kept_outside ?B v0 (V (w_redis w))" by (simp add: stale_view_def kept_outside_def)
  from run obtain q s where q: "?list = Some (q, s)" by (cases ?list) (auto simp: retention_sweep_def zoom_loop_def)
  note listed = incomplete_listed [OF api q]
  then have s: "kept_world V ?B v0 (w\<lparr>w_redis := s\<rparr>)" using kept by (simp add: kept_world_def)
  show ?thesis
  proof (cases q)
    case (Inl e)
    then show ?thesis using run q s by (auto simp: retention_sweep_def zoom_loop_def kept_world_def)
  next
    case (Inr expired)
    have "set expired \<subseteq> ?B" using listed Inr expired_stale [OF v own] by blast
    then have "maintains_loop (kept_world V ?B v0) (each_session (retention_session S) expired)"
      by (intro loop_each kept_retention [OF assms(1,2)]) blast
    moreover have "each_session (retention_session S) expired (w\<lparr>w_redis := s\<rparr>) = Some (r, w')"
      using run q Inr by (simp add: retention_sweep_def zoom_loop_def)
    ultimately show ?thesis using s unfolding maintains_loop_def kept_world_def by blast
  qed
qed

text \<open>
  C14. A start of the server leaves every live session alone. Whatever the Kafka log, the disk, the
  backends and a failing Redis do to the sweeps, a session that was in none of the index sets of active,
  annotating, pending compilation and degraded sessions, and is not an incomplete one older than the
  retention period, has after a start the record and the claim it had before: no restart changes the
  status or the path of a finished or queued recording, or drops its record.
\<close>

theorem startup_touches_only_stale:
  fixes S :: "('c, 'r) services"
  assumes api: "redis_ok (sv_redis S) V" and apart: "backends_apart S"
    and own: "\<And>sid a. hashes (V (w_redis w)) (session_key sid) ''session_id'' = Some a \<Longrightarrow> a = sid"
    and run: "startup S K now w = Some (r, w')"
    and fresh: "sid \<notin> stale_sessions (V (w_redis w))"
    and young: "\<not> expired_in (sv_clock S) (retention_cutoff now) (V (w_redis w)) sid"
  shows "hashes (V (w_redis w')) (session_key sid) = hashes (V (w_redis w)) (session_key sid)
    \<and> strings (V (w_redis w')) (claim_key sid) = strings (V (w_redis w)) (claim_key sid)"
proof -
  let ?v = "V (w_redis w)"
  let ?I = "stale_world V (stale_sessions ?v) ?v"
  let ?swept = "bind_loop (ends (clean_indexes S)) (\<lambda>_. bind_loop (active_sweep S K) (\<lambda>_. reconcile_sweep S))"
  have start: "?I w" by (simp add: stale_world_def stale_view_def)
  have keep: "maintains_loop ?I ?swept"
    by (intro loop_bind loop_once [OF stale_clean_indexes [OF api]] stale_active_sweep [OF api apart]
        stale_reconcile_sweep [OF api apart])
  have "startup S K now = bind_loop ?swept (\<lambda>_. retention_sweep S now)"
    by (simp add: startup_def bind_loop_assoc)
  with run consider (failed) e where "?swept w = Some (Inl e, w')"
    | (swept) u w1 where "?swept w = Some (Inr u, w1)" "retention_sweep S now w1 = Some (r, w')"
    by (auto simp: bind_loop_Some_iff)
  then show ?thesis
  proof cases
    case failed
    with keep start have "?I w'" unfolding maintains_loop_def by blast
    with fresh show ?thesis by (simp add: stale_world_def stale_view_def)
  next
    case swept
    with keep start have "?I w1" unfolding maintains_loop_def by blast
    from kept_retention_sweep [OF api apart this own swept(2)] fresh young
    show ?thesis by (simp add: kept_outside_def)
  qed
qed

lemma quiet_start:
  fixes S :: "('c, mem) services"
  assumes S: "sv_redis S = mem_redis" "sv_clock S = decimal_clock" and w: "w_redis w = stale_mem"
  shows "startup S K (INCOMPLETE_RETENTION_SECONDS * 1000000000) w = Some (Inr (), w)"
proof -
  have idle: "cleanup_stale_index_entries mem_redis k stale_mem = (Inr 0, stale_mem)" for k
    by (simp add: cleanup_stale_index_entries_def bind_io_def context_io_def ok_def mem_redis_def stale_mem_def empty_mem_def)
  have same: "w\<lparr>w_redis := stale_mem\<rparr> = w" using w by (cases w) simp
  have one: "ignore (on_redis (cleanup_stale_index_entries mem_redis k)) w = (Inr (), w)" for k
    using w same by (simp add: ignore_def on_redis_def zoom_def idle)
  have "clean_indexes S w = (Inr (), w)"
    unfolding clean_indexes_def S STATUS_SETS_def by (simp add: bind_io_go one ok_def)
  moreover have lists: "list_active mem_redis stale_mem = (Inr [], stale_mem)"
      "list_annotating mem_redis stale_mem = (Inr [], stale_mem)"
      "list_pending_compilation mem_redis stale_mem = (Inr [], stale_mem)"
      "list_reasoning_degraded mem_redis stale_mem = (Inr [], stale_mem)"
    by (simp_all add: list_active_def list_annotating_def list_pending_compilation_def list_reasoning_degraded_def
        context_io_def mem_redis_def stale_mem_def empty_mem_def)
  then have "active_sweep S K w = Some (Inr (), w)"
    using w same by (simp add: active_sweep_def S bind_loop_def ends_def attempt_on_redis ok_def)
  moreover have "stale_candidates mem_redis stale_mem = (Inr [], stale_mem)"
    unfolding stale_candidates_def by (simp add: bind_io_go bind_attempt lists ok_def)
  then have "reconcile_sweep S w = Some (Inr (), w)"
    using w same by (simp add: reconcile_sweep_def S bind_loop_def ends_def on_redis_def zoom_def ok_def)
  moreover have "list_incomplete_before mem_redis decimal_clock 0 stale_mem = Some (Inr [], stale_mem)"
  proof -
    have "incomplete_step mem_redis decimal_clock 0 ''session:s1'' [] stale_mem = (Inr [], stale_mem)"
    proof -
      have "from_rfc3339 decimal_clock ''5'' = Inr 5"
        by (simp add: decimal_clock_def parse_digits_def is_digit_def digits_val_def)
      then show ?thesis
        by (simp add: incomplete_step_def bind_io_def context_io_def ok_def mem_redis_def stale_mem_def empty_mem_def)
    qed
    moreover have "rd_scan mem_redis 0 ''session:*'' 100 stale_mem = (Inr (0, [''session:s1'']), stale_mem)"
      by (simp add: mem_redis_def stale_mem_def empty_mem_def mem_present_def)
    ultimately show ?thesis
      by (simp add: list_incomplete_before_def scan_loop.simps context_io_def bind_io_def ok_def)
  qed
  then have "retention_sweep S (INCOMPLETE_RETENTION_SECONDS * 1000000000) w = Some (Inr (), w)"
    using w same by (simp add: retention_sweep_def retention_cutoff_def zoom_loop_def S ends_def ok_def)
  ultimately show ?thesis by (simp add: startup_def bind_loop_def ends_def)
qed

theorem startup_touches_only_stale_witness:
  "\<forall>(S :: demo_services) K. \<exists>S' :: demo_services. \<exists>w w'.
     startup S' K (INCOMPLETE_RETENTION_SECONDS * 1000000000) w = Some (Inr (), w')
     \<and> hashes (mem_view (w_redis w')) (session_key ''s1'') = hashes (mem_view stale_mem) (session_key ''s1'')"
proof (intro allI)
  fix S :: demo_services and K
  let ?b = "lift_backend w_cloud (\<lambda>c w. w\<lparr>w_cloud := c\<rparr>) memory_store :: (string \<times> string \<Rightarrow> string option, mem) world storage_backend"
  let ?S = "S\<lparr>sv_capture := (sv_capture S)\<lparr>ce_redis := mem_redis, ce_clock := decimal_clock\<rparr>,
      sv_router := \<lparr>router_pool = [(''local'', ?b)], router_rules = []\<rparr>\<rparr>"
  let ?w = "demo_world\<lparr>w_redis := stale_mem\<rparr>"
  let ?now = "INCOMPLETE_RETENTION_SECONDS * 1000000000"
  have S: "sv_redis ?S = mem_redis" "sv_clock ?S = decimal_clock" by simp_all
  have w: "w_redis ?w = stale_mem" by simp
  have api: "redis_ok (sv_redis ?S) mem_view" by (simp add: S mem_redis_ok)
  have apart: "backends_apart ?S" by (simp add: backends_apart_def backends_lifted)
  have own: "a = sid" if "hashes (mem_view (w_redis ?w)) (session_key sid) ''session_id'' = Some a" for sid a
    using that by (auto simp: mem_view_def stale_mem_def empty_mem_def session_key_def split: if_splits)
  have fresh: "''s1'' \<notin> stale_sessions (mem_view (w_redis ?w))"
    by (simp add: stale_sessions_def STALE_SETS_def mem_view_def stale_mem_def empty_mem_def)
  have "from_rfc3339 decimal_clock ''5'' = Inr 5"
    by (simp add: decimal_clock_def parse_digits_def is_digit_def digits_val_def)
  then have young: "\<not> expired_in (sv_clock ?S) (retention_cutoff ?now) (mem_view (w_redis ?w)) ''s1''"
    by (auto simp: expired_in_def retention_cutoff_def mem_view_def stale_mem_def empty_mem_def S split: if_splits)
  from startup_touches_only_stale [OF api apart own quiet_start [OF S w] fresh young] quiet_start [OF S w]
  show "\<exists>S' :: demo_services. \<exists>w w'. startup S' K ?now w = Some (Inr (), w')
     \<and> hashes (mem_view (w_redis w')) (session_key ''s1'') = hashes (mem_view stale_mem) (session_key ''s1'')"
    by (metis w)
qed

text \<open>
  C36. The retention sweep forgets a session before it removes its data. The record goes first: when the
  storage then fails, the sweep reports nothing, the objects are as the failed removal left them, and no
  later sweep can be offered the session again, whatever its cutoff. The comment in \<open>main.rs\<close> promises
  the opposite, that a failure part-way leaves the record behind for a retry at the next start.
\<close>

theorem retention_orphans_data:
  fixes S :: "('c, 'r) services"
  assumes api: "redis_ok (sv_redis S) V"
    and own: "\<And>k a. hashes (V (w_redis w)) k ''session_id'' = Some a \<Longrightarrow> k = session_key a"
    and get: "registry_get (sv_redis S) (sv_clock S) sid (w_redis w) = (Inr record, s1)"
    and del: "delete_session (sv_redis S) (ce_upper (sv_capture S)) sid (Some record) s1 = (Inr existed, s2)"
    and storage: "resolve_for_session (sv_router S) record = Some storage"
    and fails: "sb_delete_all storage sid (w\<lparr>w_redis := s2\<rparr>) = Some (Inl e, w2)" "w_redis w2 = s2"
  shows "\<exists>w'. retention_session S sid w = Some (Inr (), w') \<and> w_cloud w' = w_cloud w2
    \<and> hashes (V (w_redis w')) (session_key sid) = Map.empty
    \<and> (\<forall>cutoff. \<not> expired_in (sv_clock S) cutoff (V (w_redis w')) sid)"
proof -
  let ?purged = "ignore (on_disk (purge_memory_dir (ce_json (sv_capture S)) (rec_memory_path record) sid)) w2"
  obtain w' where purged: "?purged = (Inr (), w')" "w_redis w' = s2" "w_cloud w' = w_cloud w2"
    using fails(2) by (cases "purge_memory_dir (ce_json (sv_capture S)) (rec_memory_path record) sid (w_disk w2)")
      (simp add: ignore_def on_disk_def zoom_def)
  have "retention_session S sid w = Some (Inr (), w')"
    using purged(1) by (simp add: retention_session_def bind_loop_def ends_def attempt_on_redis get del storage fails(1))
  moreover have V: "V s1 = V (w_redis w)" using registry_get_reads [OF api get] by simp
  moreover obtain v1 where v1: "unlisted sid (STATUS_SETS @ record_sets (ce_upper (sv_capture S)) (Some record)) (V s1) v1"
      "V s2 = v_del (claim_key sid) v1"
    using givesD [OF delete_session_view [OF api] refl del] by (auto simp: v_deleted_def)
  then have gone: "hashes (V s2) (session_key sid) = Map.empty"
      "\<And>k f a. hashes (V s2) k f = Some a \<Longrightarrow> hashes (V s1) k f = Some a"
    by (auto simp: unlisted_def split: if_splits)
  have "\<not> expired_in (sv_clock S) cutoff (V s2) sid" for cutoff
  proof
    assume "expired_in (sv_clock S) cutoff (V s2) sid"
    then obtain k where k: "hashes (V s2) k ''session_id'' = Some sid" unfolding expired_in_def by blast
    then have "hashes (V s1) k ''session_id'' = Some sid" by (rule gone(2))
    with own V have "k = session_key sid" by simp
    with k gone(1) show False by simp
  qed
  ultimately show ?thesis using purged(2,3) gone(1) by (intro exI [of _ w'] conjI allI) simp_all
qed

theorem retention_orphans_data_witness:
  "\<forall>S :: demo_services. \<exists>(S' :: demo_services) w w'. retention_session S' ''s1'' w = Some (Inr (), w')
     \<and> hashes (mem_view (w_redis w)) (session_key ''s1'') \<noteq> Map.empty
     \<and> hashes (mem_view (w_redis w')) (session_key ''s1'') = Map.empty \<and> w_cloud w' = w_cloud w"
proof
  fix S :: demo_services
  let ?b = "lift_backend w_cloud (\<lambda>c w. w\<lparr>w_cloud := c\<rparr>) (memory_store\<lparr>sb_delete_all := \<lambda>sid s. Some (Inl ''down'', s)\<rparr>)
      :: (string \<times> string \<Rightarrow> string option, mem) world storage_backend"
  let ?S = "S\<lparr>sv_capture := (sv_capture S)\<lparr>ce_redis := mem_redis, ce_clock := decimal_clock\<rparr>,
      sv_router := \<lparr>router_pool = [(''local'', ?b)], router_rules = []\<rparr>\<rparr>"
  let ?w = "demo_world\<lparr>w_redis := one_session\<rparr>"
  have S: "sv_redis ?S = mem_redis" "sv_clock ?S = decimal_clock" by simp_all
  have own: "k = session_key a" if "hashes (mem_view (w_redis ?w)) k ''session_id'' = Some a" for k a
    using that by (auto simp: mem_view_def one_session_def empty_mem_def to_redis_pairs_def sample_record_def split: if_splits)
  have get: "registry_get (sv_redis ?S) (sv_clock ?S) ''s1'' (w_redis ?w) = (Inr sample_record, one_session)"
    using one_session_get by (simp add: S)
  have "(''s1'' :: string) \<noteq> []" by simp
  from total_run [OF total_delete_session [OF this]]
  obtain e s2 where del: "delete_session (sv_redis ?S) (ce_upper (sv_capture ?S)) ''s1'' (Some sample_record) one_session = (Inr e, s2)"
    unfolding S by blast
  have storage: "resolve_for_session (sv_router ?S) sample_record = Some ?b"
    by (simp add: resolve_for_session_def sample_record_def)
  have fails: "sb_delete_all ?b ''s1'' (?w\<lparr>w_redis := s2\<rparr>) = Some (Inl ''down'', ?w\<lparr>w_redis := s2\<rparr>)"
    by (simp add: lift_backend_def zoom_loop_def)
  have there: "hashes (mem_view one_session) (session_key ''s1'') \<noteq> Map.empty"
    by (simp add: mem_view_def one_session_def to_redis_pairs_def)
  have api: "redis_ok (sv_redis ?S) mem_view" by (simp add: S mem_redis_ok)
  obtain w' where run: "retention_session ?S ''s1'' ?w = Some (Inr (), w')"
      "w_cloud w' = w_cloud (?w\<lparr>w_redis := s2\<rparr>)" "hashes (mem_view (w_redis w')) (session_key ''s1'') = Map.empty"
    using retention_orphans_data [OF api own get del storage fails] by auto
  then have "w_cloud w' = w_cloud ?w" by simp
  moreover have "hashes (mem_view (w_redis ?w)) (session_key ''s1'') \<noteq> Map.empty" using there by simp
  ultimately show "\<exists>(S' :: demo_services) w w'. retention_session S' ''s1'' w = Some (Inr (), w')
     \<and> hashes (mem_view (w_redis w)) (session_key ''s1'') \<noteq> Map.empty
     \<and> hashes (mem_view (w_redis w')) (session_key ''s1'') = Map.empty \<and> w_cloud w' = w_cloud w"
    using run(1,3) by blast
qed

end
