(* ===== verification/MA_Management.thy ===== *)
theory MA_Management
  imports MA_Ipc_Files MA_Register
begin

text \<open>
  The annotator management API (\<open>annotator_management.rs\<close>): one HTTP request is read from a connection,
  authenticated by a bearer token, dispatched to the registry and answered. \<^const>\<open>None\<close> is a task that
  panics, whose client gets no answer, or one that never ends. Sockets and log lines are not modelled.
\<close>

section \<open>Text of a request\<close>

text \<open>
  \<open>String::from_utf8_lossy\<close>: the length of the character a byte string starts with, or of the part that
  is replaced when it starts with none. Bytes past the end read as zero.
\<close>

definition byte_at :: "string \<Rightarrow> nat \<Rightarrow> nat" where
  "byte_at s i = (if i < length s then of_char (s ! i) else 0)"

definition utf8_step :: "string \<Rightarrow> bool \<times> nat" where
  "utf8_step s =
     (let b = byte_at s 0; n = byte_at s 1;
          cont = (\<lambda>i. 0x80 \<le> byte_at s i \<and> byte_at s i \<le> 0xBF);
          between = (\<lambda>x lo hi. lo \<le> x \<and> x \<le> hi) in
      if b < 0x80 then (True, 1)
      else if between b 0xC2 0xDF then (if cont 1 then (True, 2) else (False, 1))
      else if between b 0xE0 0xEF then
        (if \<not> (b = 0xE0 \<and> between n 0xA0 0xBF \<or> between b 0xE1 0xEC \<and> between n 0x80 0xBF
              \<or> b = 0xED \<and> between n 0x80 0x9F \<or> between b 0xEE 0xEF \<and> between n 0x80 0xBF) then (False, 1)
         else if \<not> cont 2 then (False, 2) else (True, 3))
      else if between b 0xF0 0xF4 then
        (if \<not> (b = 0xF0 \<and> between n 0x90 0xBF \<or> between b 0xF1 0xF3 \<and> between n 0x80 0xBF
              \<or> b = 0xF4 \<and> between n 0x80 0x8F) then (False, 1)
         else if \<not> cont 2 then (False, 2) else if \<not> cont 3 then (False, 3) else (True, 4))
      else (False, 1))"

lemma utf8_step_moves: "0 < snd (utf8_step s)"
  by (simp add: utf8_step_def Let_def)

definition REPLACEMENT :: string where
  "REPLACEMENT = [CHR 0xEF, CHR 0xBF, CHR 0xBD]"

function from_utf8_lossy :: "string \<Rightarrow> string" where
  "from_utf8_lossy s =
     (if s = [] then []
      else (if fst (utf8_step s) then take (snd (utf8_step s)) s else REPLACEMENT)
           @ from_utf8_lossy (drop (snd (utf8_step s)) s))"
  by pat_completeness auto
termination
  by (relation "measure length") (auto simp: utf8_step_moves)

declare from_utf8_lossy.simps [simp del]

text \<open>\<open>splitn\<close> at a character, and \<open>trim_start_matches\<close> with a string.\<close>

fun splitn :: "nat \<Rightarrow> char \<Rightarrow> string \<Rightarrow> string list" where
  "splitn 0 c s = []"
| "splitn (Suc 0) c s = [s]"
| "splitn (Suc (Suc n)) c s =
     (case split_at (\<lambda>x. x = c) s of
        a # b # rest \<Rightarrow> a # splitn (Suc n) c (drop (Suc (length a)) s)
      | parts \<Rightarrow> parts)"

function trim_start_matches :: "string \<Rightarrow> string \<Rightarrow> string" where
  "trim_start_matches pat s =
     (if pat \<noteq> [] \<and> prefix pat s then trim_start_matches pat (drop (length pat) s) else s)"
  by pat_completeness auto
termination
  by (relation "measure (length \<circ> snd)") (auto simp: prefix_def)

declare trim_start_matches.simps [simp del]

definition lower_ascii :: "char \<Rightarrow> char" where
  "lower_ascii c = (let n = of_char c :: nat in if 65 \<le> n \<and> n \<le> 90 then char_of (n + 32) else c)"

section \<open>Responses\<close>

definition crlf :: string where
  "crlf = [carriage, newline]"

text \<open>What the API needs from outside; \<open>mg_parse\<close> and \<open>mg_compact\<close> are \<open>serde_json\<close>'s.\<close>

record 'r management =
  mg_redis :: "'r redis"
  mg_clock :: clock_format
  mg_annotators :: annotator_codec
  mg_display :: "string \<Rightarrow> string"
  mg_parse :: "string \<Rightarrow> json result"
  mg_compact :: "json \<Rightarrow> string"

definition http_json :: "string \<Rightarrow> string \<Rightarrow> string" where
  "http_json status body =
     ''HTTP/1.1 '' @ status @ crlf @ ''Content-Type: application/json'' @ crlf @ ''Content-Length: ''
       @ show_nat (length body) @ crlf @ ''Connection: close'' @ crlf @ crlf @ body"

definition json_ok :: "nat \<Rightarrow> string \<Rightarrow> string" where
  "json_ok status body = http_json (show_nat status @ '' OK'') body"

definition status_reason :: "nat \<Rightarrow> string" where
  "status_reason status =
     (if status = 400 then ''Bad Request'' else if status = 401 then ''Unauthorized''
      else if status = 404 then ''Not Found'' else if status = 409 then ''Conflict'' else ''Internal Server Error'')"

definition json_error :: "'r management \<Rightarrow> nat \<Rightarrow> string \<Rightarrow> string \<Rightarrow> string" where
  "json_error M status code message =
     http_json (show_nat status @ '' '' @ status_reason status)
       (''{'' @ [dquote] @ ''error'' @ [dquote] @ '':'' @ [dquote] @ code @ [dquote] @ '','' @ [dquote] @ ''message''
        @ [dquote] @ '':'' @ mg_compact M (Str message) @ ''}'')"

definition bad_request :: string where
  "bad_request =
     ''HTTP/1.1 400 Bad Request'' @ crlf @ ''Content-Length: 0'' @ crlf @ ''Connection: close'' @ crlf @ crlf"

definition unauthorized :: string where
  "unauthorized = http_json ''401 Unauthorized''
     (''{'' @ [dquote] @ ''error'' @ [dquote] @ '':'' @ [dquote] @ ''UNAUTHORIZED'' @ [dquote] @ '','' @ [dquote] @ ''message''
      @ [dquote] @ '':'' @ [dquote] @ ''Invalid or missing bearer token'' @ [dquote] @ ''}'')"

section \<open>Dispatch\<close>

text \<open>Accounts answered like the IPC server does, with the known refusal told from other errors.\<close>

definition account_response ::
  "'r management \<Rightarrow> string \<Rightarrow> nat \<Rightarrow> string \<Rightarrow> string \<Rightarrow> ('a \<Rightarrow> string) \<Rightarrow> ('r, 'a) io \<Rightarrow> 'r \<Rightarrow> (string \<times> 'r) option" where
  "account_response M known status known_msg other done m s =
     (case m s of
        (Inl e, s) \<Rightarrow>
          Some (if mg_display M e = known then json_error M status known known_msg
                else json_error M 500 other (mg_display M e), s)
      | (Inr a, s) \<Rightarrow> Some (done a, s))"

definition STORE_KEY :: string where
  "STORE_KEY = ''Store this key securely '' @ em_dash @ '' it will not be shown again.''"

definition str_items :: "json \<Rightarrow> string list" where
  "str_items v = (case v of Array a \<Rightarrow> List.map_filter as_str a | _ \<Rightarrow> [])"

text \<open>\<open>as u32\<close> keeps the low bits of the number.\<close>

definition post_annotator ::
  "'r management \<Rightarrow> string \<Rightarrow> string \<Rightarrow> 'r \<Rightarrow> (string \<times> 'r) option" where
  "post_annotator M raw body s =
     (case mg_parse M body of
        Inl e \<Rightarrow> Some (json_error M 400 ''INVALID_JSON'' e, s)
      | Inr input \<Rightarrow>
          (let annotator_id = trim (unwrap_or [] (Option.bind (json_get ''annotator_id'' input) as_str));
               allowed = unwrap_or [] (map_option str_items (json_get ''allowed_tenant_ids'' input));
               max_claims = (word_of_nat (unwrap_or 0 (Option.bind (json_get ''max_concurrent_claims'' input) as_u64)) :: u32) in
           if annotator_id = [] then Some (json_error M 400 ''MISSING_FIELD'' ''annotator_id is required'', s)
           else
             account_response M ''ANNOTATOR_EXISTS'' 409 (''Annotator '' @ quoted annotator_id @ '' already exists'')
               ''REGISTER_FAILED''
               (\<lambda>plaintext. json_ok 201 (mg_compact M (Object [(''annotator_id'', Str annotator_id),
                 (''plaintext_key'', Str plaintext), (''message'', Str STORE_KEY)])))
               (register_annotator (mg_redis M) (mg_clock M) (mg_annotators M) annotator_id allowed max_claims raw) s))"

definition ANNOTATORS :: string where
  "ANNOTATORS = ''/v1/annotators''"

definition not_found_msg :: "string \<Rightarrow> string" where
  "not_found_msg annotator_id = ''Annotator '' @ quoted annotator_id @ '' not found''"

definition delete_annotator :: "'r management \<Rightarrow> string \<Rightarrow> 'r \<Rightarrow> (string \<times> 'r) option" where
  "delete_annotator M path s =
     (let annotator_id = trim_start_matches (ANNOTATORS @ ''/'') path in
      if annotator_id = [] \<or> CHR ''/'' \<in> set annotator_id
      then Some (json_error M 400 ''INVALID_PATH'' (''annotator_id must not be empty or contain '' @ quoted ''/''), s)
      else
        account_response M ''ANNOTATOR_NOT_FOUND'' 404 (not_found_msg annotator_id) ''DEACTIVATE_FAILED''
          (\<lambda>_. json_ok 200 (mg_compact M (Object [(''annotator_id'', Str annotator_id), (''status'', Str ''deactivated'')])))
          (deactivate_annotator (mg_redis M) (mg_clock M) annotator_id) s)"

definition post_rotate :: "'r management \<Rightarrow> string \<Rightarrow> string \<Rightarrow> 'r \<Rightarrow> (string \<times> 'r) option" where
  "post_rotate M raw path s =
     (let annotator_id = trim_end_matches ''/rotate'' (trim_start_matches (ANNOTATORS @ ''/'') path) in
      if annotator_id = [] \<or> CHR ''/'' \<in> set annotator_id
      then Some (json_error M 400 ''INVALID_PATH'' ''annotator_id must not be empty'', s)
      else
        account_response M ''ANNOTATOR_NOT_FOUND'' 404 (not_found_msg annotator_id) ''ROTATE_FAILED''
          (\<lambda>new_key. json_ok 200 (mg_compact M (Object [(''annotator_id'', Str annotator_id),
            (''new_plaintext_key'', Str new_key), (''message'', Str STORE_KEY)])))
          (rotate_annotator_key (mg_redis M) (mg_annotators M) annotator_id raw) s)"

definition annotator_item :: "annotator_info \<Rightarrow> json" where
  "annotator_item a =
     Object [(''annotator_id'', Str (ai_annotator_id a)), (''status'', Str (ai_status a)),
       (''current_claims'', Number (PosInt (unat (ai_current_claims a)))), (''last_auth_at'', Str (ai_last_auth_at a)),
       (''allowed_tenant_ids'', Array (map Str (ai_allowed_tenant_ids a))),
       (''max_concurrent_claims'', Number (PosInt (unat (ai_max_concurrent_claims a))))]"

definition get_annotators :: "'r management \<Rightarrow> 'r \<Rightarrow> (string \<times> 'r) option" where
  "get_annotators M s =
     (case list_annotators (mg_redis M) (mg_annotators M) s of
        None \<Rightarrow> None
      | Some (Inl e, s) \<Rightarrow> Some (json_error M 500 ''REDIS_ERROR'' (mg_display M e), s)
      | Some (Inr annotators, s) \<Rightarrow>
          Some (json_ok 200 (mg_compact M (Object [(''annotators'', Array (map annotator_item annotators))])), s))"

definition dispatch_annotators ::
  "'r management \<Rightarrow> string \<Rightarrow> string \<Rightarrow> string \<Rightarrow> string \<Rightarrow> 'r \<Rightarrow> (string \<times> 'r) option" where
  "dispatch_annotators M raw verb path body s =
     (if verb = ''POST'' \<and> path = ANNOTATORS then post_annotator M raw body s
      else if verb = ''DELETE'' \<and> prefix (ANNOTATORS @ ''/'') path then delete_annotator M path s
      else if verb = ''POST'' \<and> prefix (ANNOTATORS @ ''/'') path \<and> suffix ''/rotate'' path then post_rotate M raw path s
      else if verb = ''GET'' \<and> path = ANNOTATORS then get_annotators M s
      else Some (json_error M 404 ''NOT_FOUND'' (''No route for '' @ verb @ '' '' @ path), s))"

section \<open>One connection\<close>

definition bearer_of :: "string \<Rightarrow> string" where
  "bearer_of request =
     trim (unwrap_or [] (Option.bind
       (find (\<lambda>l. prefix ''authorization: bearer '' (map lower_ascii l)) (str_lines request))
       (\<lambda>l. case splitn 3 (CHR '' '') l of [a, b, c] \<Rightarrow> Some c | _ \<Rightarrow> None)))"

definition body_start :: "string \<Rightarrow> nat \<Rightarrow> nat" where
  "body_start request n =
     (case str_find (crlf @ crlf) request of
        Some i \<Rightarrow> i + 4
      | None \<Rightarrow> unwrap_or n (map_option (\<lambda>i. i + 2) (str_find [newline, newline] request)))"

text \<open>\<open>buf\<close>: what the one read gave, at most 8192 bytes. The body is cut out of it, not of its text.\<close>

definition serve_annotators ::
  "'r management \<Rightarrow> string \<Rightarrow> string \<Rightarrow> string \<Rightarrow> 'r \<Rightarrow> (string \<times> 'r) option" where
  "serve_annotators M secret raw buf s =
     (let request = from_utf8_lossy buf in
      case str_lines request of
        [] \<Rightarrow> Some (bad_request, s)
      | first_line # _ \<Rightarrow>
          (case splitn 3 (CHR '' '') first_line of
             verb # path # _ \<Rightarrow>
               if \<not> constant_time_eq (bearer_of request) secret then Some (unauthorized, s)
               else
                 (let start = body_start request (length buf) in
                  if start > length buf then None
                  else dispatch_annotators M raw verb path (drop start buf) s)
           | _ \<Rightarrow> Some (bad_request, s)))"

text \<open>The server starts only with a token.\<close>

definition management_starts :: "string \<Rightarrow> bool" where
  "management_starts secret \<longleftrightarrow> secret \<noteq> []"

end
