(* ===== verification/MA_Management_Facts.thy ===== *)
theory MA_Management_Facts
  imports MA_Management MA_Annotator_Facts
begin

text \<open>
  The management API changes accounts and nothing else, and nothing without the token; its handlers see
  the body that was sent, unless the head of a request is not text.
\<close>

section \<open>What a request can change\<close>

definition accounts_only :: "rview \<Rightarrow> rview \<Rightarrow> bool" where
  "accounts_only v v' \<longleftrightarrow> (\<exists>a. \<forall>k. k \<noteq> annotator_key a \<longrightarrow> hashes v' k = hashes v k)
     \<and> sets v' = sets v \<and> strings v' = strings v \<and> ttls v' = ttls v"

lemma accounts_only_refl: "accounts_only v v"
  by (simp add: accounts_only_def)

text \<open>The view with the hash of one account changed.\<close>

definition account_view :: "string \<Rightarrow> rview \<Rightarrow> rview \<Rightarrow> bool" where
  "account_view a v v' \<longleftrightarrow> (\<forall>k. k \<noteq> annotator_key a \<longrightarrow> hashes v' k = hashes v k)
     \<and> sets v' = sets v \<and> strings v' = strings v \<and> ttls v' = ttls v"

lemma account_hset: "account_view a v0 v \<Longrightarrow> account_view a v0 (v_hset (annotator_key a) ps v)"
  by (simp add: account_view_def v_hset_def)

lemma keeps_account:
  assumes api: "redis_ok api V"
  shows "keeps V (account_view a v0) (register_annotator api cf ac a tenants max_c raw)"
    and "keeps V (account_view a v0) (deactivate_annotator api cf a)"
    and "keeps V (account_view a v0) (rotate_annotator_key api ac a raw)"
proof -
  note steps = keeps_bind keeps_context keeps_commands(1,7) [OF api] account_hset keeps_pure
  have put: "keeps V (account_view a v0) (\<lambda>s. context_io c (rd_hset api (annotator_key a) (ps s)) s)" for c ps
    by (rule keeps_state) (intro keeps_context keeps_commands(7) [OF api] account_hset)
  show "keeps V (account_view a v0) (register_annotator api cf ac a tenants max_c raw)"
    unfolding register_annotator_def Let_def by (auto intro!: steps put)
  show "keeps V (account_view a v0) (deactivate_annotator api cf a)"
    unfolding deactivate_annotator_def by (auto intro!: steps put)
  show "keeps V (account_view a v0) (rotate_annotator_key api ac a raw)"
    unfolding rotate_annotator_key_def by (auto intro!: steps)
qed

lemma account_response_view:
  assumes "keeps V (account_view a (V s)) m" and "account_response M known st msg other done m s = Some (resp, s')"
  shows "accounts_only (V s) (V s')"
proof -
  obtain r s1 where m: "m s = (r, s1)" by fastforce
  with assms(2) have "s' = s1" by (cases r) (simp_all add: account_response_def)
  moreover have "account_view a (V s) (V s1)"
    by (rule runsD [OF assms(1) [unfolded keeps_def] _ m]) (simp add: account_view_def)
  ultimately show ?thesis by (auto simp: account_view_def accounts_only_def)
qed

section \<open>The list\<close>

lemma claim_counts: "redis_ok api V \<Longrightarrow> count_annotator_claims api a s = Some (r, s') \<Longrightarrow> V s' = V s"
proof -
  assume api: "redis_ok api V" and run: "count_annotator_claims api a s = Some (r, s')"
  have "scan_step V (\<lambda>_ v. v = V s) ''claim:'' (claim_step api a)"
    unfolding scan_step_def
  proof (intro allI impI)
    fix x n t q t'
    assume "V t = V s" "claim_step api a x n t = (q, t')"
    moreover obtain g t1 where get: "rd_get api x t = (g, t1)" by fastforce
    ultimately show "V t' = V t \<and> (\<forall>b. q = Inr b \<longrightarrow> V t' = V s)"
      using reads_apply [OF redis_laws(6) [OF api] get] by (auto simp: claim_step_def)
  qed
  moreover have "scan_loop api (''claim:'' @ ''*'') 200 ''SCAN claim keys failed'' (claim_step api a) 0 0 s = Some (r, s')"
    using run by (simp add: count_annotator_claims_def)
  ultimately show "V s' = V s" using scan_loop_inv [OF api] by fastforce
qed

lemma entries_read:
  "redis_ok api V \<Longrightarrow> annotator_entries api ac keys result s = Some (r, s') \<Longrightarrow> V s' = V s"
proof (induction keys arbitrary: result s)
  case (Cons key keys)
  obtain g s1 where get: "rd_hgetall api key s = (g, s1)" by fastforce
  note s1 = conjunct1 [OF reads_apply [OF redis_laws(2) [OF Cons.prems(1)] get]]
  show ?case
  proof (cases g)
    case (Inl e)
    with Cons.prems(2) get s1 show ?thesis by (simp add: context_io_def)
  next
    case (Inr pairs)
    let ?a = "unwrap_or [] (map_of pairs ''annotator_id'')"
    have c: "context_io ''HGETALL annotator list failed'' (rd_hgetall api key) s = (Inr pairs, s1)"
      using get Inr by (simp add: context_io_def)
    show ?thesis
    proof (cases "pairs = [] \<or> ?a = []")
      case True
      with Cons.IH [OF Cons.prems(1)] Cons.prems(2) c s1 show ?thesis by (auto simp: Let_def)
    next
      case False
      with Cons.prems(2) c obtain n s2 where n: "count_annotator_claims api ?a s1 = Some (n, s2)"
          and rest: "annotator_entries api ac keys
              (result @ [annotator_entry ac (map_of pairs) ?a (case n of Inr n \<Rightarrow> n | Inl _ \<Rightarrow> 0)]) s2 = Some (r, s')"
        by (auto simp: Let_def split: option.splits if_splits)
      with Cons.IH [OF Cons.prems(1) rest] claim_counts [OF Cons.prems(1) n] s1 show ?thesis by simp
    qed
  qed
qed simp

lemma list_read:
  assumes "redis_ok api V" and "list_annotators api ac s = Some (r, s')" shows "V s' = V s"
proof -
  have "scan_step V (\<lambda>_ v. v = V s) ''annotator:'' collect_annotator_key"
    by (auto simp: scan_step_def collect_annotator_key_def ok_def)
  note scan = scan_loop_inv [OF assms(1) this]
  let ?scan = "scan_loop api (''annotator:'' @ ''*'') 100 ''SCAN annotator keys failed'' collect_annotator_key 0 [] s"
  from assms(2) obtain q s1 where q: "?scan = Some (q, s1)"
    by (cases ?scan) (auto simp: list_annotators_def)
  with scan have s1: "V s1 = V s" by fastforce
  show ?thesis
  proof (cases q)
    case (Inl e)
    with assms(2) q s1 show ?thesis by (simp add: list_annotators_def)
  next
    case (Inr keys)
    then obtain x where "annotator_entries api ac keys [] s1 = Some (x, s')"
      using assms(2) q by (auto simp: list_annotators_def split: option.splits sum.splits)
    with entries_read [OF assms(1)] s1 show ?thesis by metis
  qed
qed

section \<open>Requests\<close>

lemma dispatch_accounts:
  assumes api: "redis_ok (mg_redis M) V" and run: "dispatch_annotators M raw verb path body s = Some (resp, s')"
  shows "accounts_only (V s) (V s')"
proof -
  note keep = keeps_account [OF api]
  have "accounts_only (V s) (V s')" if "post_annotator M raw body s = Some (resp, s')"
    using that account_response_view [OF keep(1)] accounts_only_refl
    by (auto simp: post_annotator_def Let_def split: sum.splits if_splits)
  moreover have "accounts_only (V s) (V s')" if "delete_annotator M path s = Some (resp, s')"
    using that account_response_view [OF keep(2)] accounts_only_refl
    by (auto simp: delete_annotator_def Let_def split: if_splits)
  moreover have "accounts_only (V s) (V s')" if "post_rotate M raw path s = Some (resp, s')"
    using that account_response_view [OF keep(3)] accounts_only_refl
    by (auto simp: post_rotate_def Let_def split: if_splits)
  moreover have "accounts_only (V s) (V s')" if "get_annotators M s = Some (resp, s')"
    using that list_read [OF api] by (auto simp: get_annotators_def accounts_only_def split: option.splits sum.splits)
  ultimately show ?thesis
    using run accounts_only_refl by (auto simp: dispatch_annotators_def split: if_splits)
qed

text \<open>
  C28. The management API is guarded and confined. Whatever bytes a client sends and whatever Redis does,
  a request without the bearer token leaves the registry untouched and is answered with one of two
  fixed refusals; a request with it changes at most the record of one annotator account: no session
  record, index set, claim, failure count or expiry.
\<close>

theorem management_guarded:
  assumes "redis_ok (mg_redis M) V" and "serve_annotators M secret raw buf s = Some (resp, s')"
  shows "(bearer_of (from_utf8_lossy buf) \<noteq> secret \<longrightarrow> s' = s \<and> resp \<in> {bad_request, unauthorized})
    \<and> (\<exists>a. \<forall>k. k \<noteq> annotator_key a \<longrightarrow> hashes (V s') k = hashes (V s) k)
    \<and> sets (V s') = sets (V s) \<and> strings (V s') = strings (V s) \<and> ttls (V s') = ttls (V s)"
proof -
  let ?request = "from_utf8_lossy buf"
  have "(bearer_of ?request \<noteq> secret \<longrightarrow> s' = s \<and> resp \<in> {bad_request, unauthorized}) \<and> accounts_only (V s) (V s')"
    using assms(2) dispatch_accounts [OF assms(1)] accounts_only_refl
    by (auto simp: serve_annotators_def Let_def constant_time_eq_iff split: list.splits if_splits)
  then show ?thesis unfolding accounts_only_def .
qed

definition demo_management :: "mem management" where
  "demo_management = \<lparr>mg_redis = mem_redis, mg_clock = decimal_clock,
     mg_annotators = \<lparr>sha256_hex = \<lambda>s. s, tenants_to_json = \<lambda>ts. Inr [], tenants_from_json = \<lambda>s. Inr []\<rparr>,
     mg_display = \<lambda>e. e, mg_parse = \<lambda>s. Inr Null, mg_compact = \<lambda>v. []\<rparr>"

theorem management_guarded_witness:
  "\<exists>resp. serve_annotators demo_management ''t'' [] ''GET /v1/annotators HTTP/1.1'' empty_mem = Some (resp, empty_mem)
     \<and> resp \<in> {bad_request, unauthorized}"
proof -
  let ?run = "serve_annotators demo_management ''t'' [] ''GET /v1/annotators HTTP/1.1'' empty_mem"
  have bearer: "bearer_of (from_utf8_lossy ''GET /v1/annotators HTTP/1.1'') \<noteq> ''t''" by code_simp
  have "map_option fst ?run = Some unauthorized" by code_simp
  then obtain s' where run: "?run = Some (unauthorized, s')" by auto
  have "redis_ok (mg_redis demo_management) mem_view" by (simp add: demo_management_def mem_redis_ok)
  note conjunct1 [OF management_guarded [OF this run]]
  with bearer have "s' = empty_mem \<and> unauthorized \<in> {bad_request, unauthorized}" by blast
  with run show ?thesis by blast
qed

lemma ascii_step: "is_ascii c \<Longrightarrow> utf8_step (c # s) = (True, 1)"
  by (simp add: utf8_step_def byte_at_def is_ascii_def)

lemma lossy_ascii: "\<forall>c \<in> set a. is_ascii c \<Longrightarrow> from_utf8_lossy (a @ b) = a @ from_utf8_lossy b"
  by (induction a) (simp_all add: from_utf8_lossy.simps [of "_ # _"] ascii_step)

lemma lossy_Nil [simp]: "from_utf8_lossy [] = []"
  by (simp add: from_utf8_lossy.simps)

section \<open>The body that was sent\<close>

lemma str_find_length: "str_find p s = Some i \<Longrightarrow> i + length p \<le> length s"
  by (induction s arbitrary: i) (auto split: if_splits dest: prefix_length_le)

lemma str_find_longer: "str_find p s = Some i \<Longrightarrow> str_find p (s @ t) = Some i"
proof (induction s arbitrary: i)
  case Nil
  then show ?case by (cases t) (auto split: if_splits)
next
  case (Cons c s)
  show ?case
  proof (cases "prefix p (c # s)")
    case True
    then have "prefix p (c # s @ t)" by (metis append_Cons prefix_append)
    with True Cons.prems show ?thesis by simp
  next
    case False
    with Cons.prems obtain j where j: "str_find p s = Some j" "i = Suc j" by auto
    from str_find_length [OF j(1)] have "length p \<le> length (c # s)" by simp
    with False have "\<not> prefix p (c # s @ t)" by (metis append_Cons prefix_def prefix_length_prefix)
    with False j Cons.IH show ?thesis by simp
  qed
qed

lemma first_line_read:
  assumes "\<forall>c \<in> set l. c \<noteq> newline \<and> c \<noteq> carriage" shows "\<exists>ls. str_lines (l @ crlf @ rest) = l # ls"
proof -
  have "split_at (\<lambda>c. c = newline) (l @ [carriage] @ newline # rest) = (l @ [carriage]) # split_at (\<lambda>c. c = newline) rest"
    using assms split_at_append [of "\<lambda>c. c = newline" "l @ [carriage]" newline rest] by (auto simp: list_all_iff)
  moreover have "split_at (\<lambda>c. c = newline) rest \<noteq> []" by (cases rest) (auto split: list.splits)
  moreover have "strip_cr (l @ [carriage]) = l"
    by (simp add: strip_cr_def strip_suffix_def unwrap_or_def suffix_def)
  ultimately show ?thesis by (auto simp: str_lines_def crlf_def Let_def)
qed

lemma request_line_read:
  assumes "CHR '' '' \<notin> set verb" and "CHR '' '' \<notin> set path"
  shows "splitn 3 (CHR '' '') (verb @ '' '' @ path @ '' HTTP/1.1'') = [verb, path, ''HTTP/1.1'']"
proof -
  have "split_at (\<lambda>x. x = CHR '' '') (w @ CHR '' '' # rest) = w # split_at (\<lambda>x. x = CHR '' '') rest" if "CHR '' '' \<notin> set w" for w rest
    using that split_at_append [of "\<lambda>x. x = CHR '' ''" w "CHR '' ''" rest] by (auto simp: list_all_iff)
  moreover have "\<exists>b bs. split_at (\<lambda>x. x = CHR '' '') r = b # bs" for r by (cases r) (auto split: list.splits)
  ultimately show ?thesis using assms by (simp add: numeral_3_eq_3)
qed

text \<open>The head of a request in which the blank line is the first one.\<close>

definition request_head :: "string \<Rightarrow> string \<Rightarrow> string \<Rightarrow> string" where
  "request_head verb path hdrs = verb @ '' '' @ path @ '' HTTP/1.1'' @ crlf @ hdrs @ crlf @ crlf"

definition plain_head :: "string \<Rightarrow> string \<Rightarrow> string \<Rightarrow> bool" where
  "plain_head verb path hdrs \<longleftrightarrow> CHR '' '' \<notin> set verb \<and> CHR '' '' \<notin> set path
     \<and> (\<forall>c \<in> set (verb @ path). is_ascii c \<and> c \<noteq> newline \<and> c \<noteq> carriage)
     \<and> str_find (crlf @ crlf) (request_head verb path hdrs) = Some (length (request_head verb path hdrs) - 4)"

lemma head_served:
  assumes head: "plain_head verb path hdrs" and repaired: "from_utf8_lossy buf = request_head verb path hdrs @ rest"
    and bearer: "bearer_of (from_utf8_lossy buf) = secret"
  shows "serve_annotators M secret raw buf s =
    (if length (request_head verb path hdrs) > length buf then None
     else dispatch_annotators M raw verb path (drop (length (request_head verb path hdrs)) buf) s)"
proof -
  let ?line = "verb @ '' '' @ path @ '' HTTP/1.1''"
  have line: "\<forall>c \<in> set ?line. c \<noteq> newline \<and> c \<noteq> carriage" using head by (auto simp: plain_head_def)
  have shape: "from_utf8_lossy buf = ?line @ crlf @ hdrs @ crlf @ crlf @ rest" by (simp add: repaired request_head_def)
  obtain ls where "str_lines (from_utf8_lossy buf) = ?line # ls"
    unfolding shape using first_line_read [OF line] by blast
  moreover have "splitn 3 (CHR '' '') ?line = [verb, path, ''HTTP/1.1'']"
    using request_line_read head by (simp add: plain_head_def)
  moreover have "body_start (from_utf8_lossy buf) (length buf) = length (request_head verb path hdrs)"
    using head str_find_longer [of "crlf @ crlf" "request_head verb path hdrs" _ rest]
    by (simp add: body_start_def repaired plain_head_def) (simp add: request_head_def crlf_def)
  ultimately show ?thesis using bearer by (simp add: serve_annotators_def constant_time_eq_iff Let_def)
qed

text \<open>
  A handler sees the body that was sent. For a request with an ASCII head, whatever bytes follow the
  blank line, text or not, a client with the token has its request dispatched under the method and path
  of its request line with exactly those bytes as the body, and the task does not panic on the way.
\<close>

lemma management_body_exact:
  assumes "plain_head verb path hdrs" and "\<forall>c \<in> set hdrs. is_ascii c"
    and "bearer_of (from_utf8_lossy (request_head verb path hdrs @ body)) = secret"
  shows "serve_annotators M secret raw (request_head verb path hdrs @ body) s = dispatch_annotators M raw verb path body s"
proof -
  have "\<forall>c \<in> set (request_head verb path hdrs). is_ascii c"
    using assms(1,2) by (auto simp: request_head_def plain_head_def crlf_def is_ascii_def)
  from head_served [OF assms(1) lossy_ascii [OF this] assms(3)] show ?thesis by simp
qed

lemma management_body_exact_witness:
  "\<forall>(M :: mem management) raw s.
     serve_annotators M ''t'' raw (request_head ''POST'' ''/v1/annotators'' ''Authorization: Bearer t'' @ ''{}'') s
     = dispatch_annotators M raw ''POST'' ''/v1/annotators'' ''{}'' s"
proof (intro allI management_body_exact)
  show "plain_head ''POST'' ''/v1/annotators'' ''Authorization: Bearer t''" by code_simp
  show "\<forall>c \<in> set ''Authorization: Bearer t''. is_ascii c" by code_simp
  show "bearer_of (from_utf8_lossy (request_head ''POST'' ''/v1/annotators'' ''Authorization: Bearer t'' @ ''{}'')) = ''t''"
    by code_simp
qed

text \<open>
  A head that is not text breaks the cut. The body is cut out of the bytes at an index found in their
  repaired text, where a broken byte has become three: one such byte in the head of a request without a
  body, as a deactivation is, makes the index lie past the end, and the task panics unanswered.
\<close>

lemma management_head_can_panic:
  assumes "plain_head verb path (a @ REPLACEMENT @ b)" and "\<forall>c \<in> set (a @ b). is_ascii c"
    and "bearer_of (request_head verb path (a @ REPLACEMENT @ b)) = secret"
  shows "serve_annotators M secret raw (request_head verb path (a @ [CHR 0xFF] @ b)) s = None"
proof -
  let ?front = "verb @ '' '' @ path @ '' HTTP/1.1'' @ crlf @ a"
  have ascii: "\<forall>c \<in> set ?front. is_ascii c" "\<forall>c \<in> set (b @ crlf @ crlf). is_ascii c"
    using assms(1,2) by (auto simp: plain_head_def crlf_def is_ascii_def)
  have "from_utf8_lossy (CHR 0xFF # r) = REPLACEMENT @ from_utf8_lossy r" for r
    by (simp add: from_utf8_lossy.simps [of "_ # _"] utf8_step_def byte_at_def)
  then have "from_utf8_lossy (?front @ CHR 0xFF # b @ crlf @ crlf) = ?front @ REPLACEMENT @ b @ crlf @ crlf"
    using lossy_ascii [OF ascii(1)] lossy_ascii [OF ascii(2), of "[]"] by simp
  then have repaired: "from_utf8_lossy (request_head verb path (a @ [CHR 0xFF] @ b)) = request_head verb path (a @ REPLACEMENT @ b) @ []"
    by (simp add: request_head_def)
  moreover have "length (request_head verb path (a @ REPLACEMENT @ b)) > length (request_head verb path (a @ [CHR 0xFF] @ b))"
    by (simp add: request_head_def REPLACEMENT_def)
  ultimately show ?thesis using head_served [OF assms(1) repaired, of secret M raw s] assms(3) by simp
qed

lemma management_head_can_panic_witness:
  "\<forall>(M :: mem management) raw s. serve_annotators M ''t'' raw (request_head ''DELETE'' ''/v1/annotators/x''
     ((''Authorization: Bearer t'' @ crlf @ ''X: '') @ [CHR 0xFF] @ [])) s = None"
proof (intro allI management_head_can_panic)
  let ?a = "''Authorization: Bearer t'' @ crlf @ ''X: ''"
  show "plain_head ''DELETE'' ''/v1/annotators/x'' (?a @ REPLACEMENT @ [])" by code_simp
  show "\<forall>c \<in> set (?a @ []). is_ascii c" by code_simp
  show "bearer_of (request_head ''DELETE'' ''/v1/annotators/x'' (?a @ REPLACEMENT @ [])) = ''t''" by code_simp
qed

end
