(* ===== verification/MA_Cloud.thy ===== *)
theory MA_Cloud
  imports MA_Storage
begin

text \<open>
  The object-store backends of \<open>storage/mod.rs\<close>: S3, Google Cloud Storage, and Azure Blob Storage with its
  tokens. The provider's client is a parameter: what a call returns and does to the store behind it. The
  listings page until the provider says there is no more, so they are loops whose \<^const>\<open>None\<close> is not
  returning. Log lines are not modelled.
\<close>

section \<open>Object keys\<close>

definition object_key :: "string \<Rightarrow> string \<Rightarrow> string" where
  "object_key sid relative_path = ''sessions/'' @ sid @ ''/'' @ relative_path"

text \<open>A listed key relative to what was asked for; one that is not below it is kept, an empty one dropped.\<close>

definition strip_listed :: "string \<Rightarrow> string list \<Rightarrow> string list" where
  "strip_listed full_prefix names =
     filter (\<lambda>s. s \<noteq> []) (map (\<lambda>name. unwrap_or name (strip_prefix full_prefix name)) names)"

section \<open>S3\<close>

record s3_page =
  s3_contents :: "string option list"
  s3_truncated :: "bool option"
  s3_next :: "string option"

text \<open>A read object is a body that still has to be collected.\<close>

record 's s3_client =
  s3_put_object :: "string \<Rightarrow> string \<Rightarrow> string \<Rightarrow> ('s, unit) io"
  s3_get_object :: "string \<Rightarrow> ('s, string result) io"
  s3_list_objects :: "string \<Rightarrow> string option \<Rightarrow> ('s, s3_page) io"
  s3_delete_object :: "string \<Rightarrow> ('s, unit) io"

definition s3_put :: "'s s3_client \<Rightarrow> string \<Rightarrow> string \<Rightarrow> string \<Rightarrow> string \<Rightarrow> ('s, unit) io" where
  "s3_put c sid relative_path bytes content_type =
     (let key = object_key sid relative_path in
      context_io (''S3 put failed for '' @ key) (s3_put_object c key content_type bytes))"

definition s3_get :: "'s s3_client \<Rightarrow> string \<Rightarrow> string \<Rightarrow> ('s, string) io" where
  "s3_get c sid relative_path =
     (let key = object_key sid relative_path in
      bind_io (context_io (''S3 get failed for '' @ key) (s3_get_object c key)) (\<lambda>body.
      case body of
        Inl e \<Rightarrow> fail (''Failed to collect S3 body for '' @ key @ '': '' @ e)
      | Inr bytes \<Rightarrow> ok bytes))"

partial_function (option) s3_list_loop ::
  "'s s3_client \<Rightarrow> string \<Rightarrow> string option \<Rightarrow> string list \<Rightarrow> 's \<Rightarrow> (string list result \<times> 's) option" where
  "s3_list_loop c full_prefix continuation results s =
     (case context_io (''S3 list failed for prefix '' @ full_prefix) (s3_list_objects c full_prefix continuation) s of
        (Inl e, s) \<Rightarrow> Some (Inl e, s)
      | (Inr page, s) \<Rightarrow>
          (let results = results @ strip_listed full_prefix (List.map_filter (\<lambda>k. k) (s3_contents page)) in
           if unwrap_or False (s3_truncated page) then s3_list_loop c full_prefix (s3_next page) results s
           else Some (Inr results, s)))"

declare s3_list_loop.simps [code]

definition s3_list :: "'s s3_client \<Rightarrow> string \<Rightarrow> string \<Rightarrow> ('s, string list) loop" where
  "s3_list c sid pre = s3_list_loop c (object_key sid pre) None []"

definition s3_delete :: "'s s3_client \<Rightarrow> string \<Rightarrow> string \<Rightarrow> ('s, unit) io" where
  "s3_delete c sid relative_path =
     (let key = object_key sid relative_path in
      context_io (''S3 delete failed for '' @ key) (s3_delete_object c key))"

definition s3_backend :: "(string \<Rightarrow> string) \<Rightarrow> 's s3_client \<Rightarrow> 's storage_backend" where
  "s3_backend dbg c =
     \<lparr>sb_put = s3_put c, sb_get = s3_get c, sb_list = s3_list c, sb_delete = s3_delete c,
      sb_delete_all = default_delete_all dbg (s3_list c) (s3_delete c)\<rparr>"

section \<open>Google Cloud Storage\<close>

record gcs_page =
  gcs_names :: "string list"
  gcs_next_token :: string

text \<open>A read object comes in chunks, any of which may fail.\<close>

record 's gcs_client =
  gcs_write_object :: "string \<Rightarrow> string \<Rightarrow> string \<Rightarrow> ('s, unit) io"
  gcs_read_object :: "string \<Rightarrow> ('s, string result list) io"
  gcs_list_objects :: "string \<Rightarrow> string option \<Rightarrow> ('s, gcs_page) io"
  gcs_delete_object :: "string \<Rightarrow> ('s, unit) io"

definition gcs_put :: "'s gcs_client \<Rightarrow> string \<Rightarrow> string \<Rightarrow> string \<Rightarrow> string \<Rightarrow> ('s, unit) io" where
  "gcs_put c sid relative_path bytes content_type =
     (let name = object_key sid relative_path in
      context_io (''GCS put failed for '' @ name) (gcs_write_object c name content_type bytes))"

fun collect_chunks :: "string \<Rightarrow> string result list \<Rightarrow> string \<Rightarrow> string result" where
  "collect_chunks name [] bytes = Inr bytes"
| "collect_chunks name (Inl e # rest) bytes = Inl (''GCS read error for '' @ name @ '': '' @ e)"
| "collect_chunks name (Inr chunk # rest) bytes = collect_chunks name rest (bytes @ chunk)"

definition gcs_get :: "'s gcs_client \<Rightarrow> string \<Rightarrow> string \<Rightarrow> ('s, string) io" where
  "gcs_get c sid relative_path =
     (let name = object_key sid relative_path in
      bind_io (context_io (''GCS get failed for '' @ name) (gcs_read_object c name)) (\<lambda>chunks.
      lift_result (collect_chunks name chunks [])))"

partial_function (option) gcs_list_loop ::
  "'s gcs_client \<Rightarrow> string \<Rightarrow> string option \<Rightarrow> string list \<Rightarrow> 's \<Rightarrow> (string list result \<times> 's) option" where
  "gcs_list_loop c full_prefix page_token results s =
     (case context_io (''GCS list failed for prefix '' @ full_prefix) (gcs_list_objects c full_prefix page_token) s of
        (Inl e, s) \<Rightarrow> Some (Inl e, s)
      | (Inr page, s) \<Rightarrow>
          (let results = results @ strip_listed full_prefix (gcs_names page) in
           if gcs_next_token page \<noteq> [] then gcs_list_loop c full_prefix (Some (gcs_next_token page)) results s
           else Some (Inr results, s)))"

declare gcs_list_loop.simps [code]

definition gcs_list :: "'s gcs_client \<Rightarrow> string \<Rightarrow> string \<Rightarrow> ('s, string list) loop" where
  "gcs_list c sid pre = gcs_list_loop c (object_key sid pre) None []"

definition gcs_delete :: "'s gcs_client \<Rightarrow> string \<Rightarrow> string \<Rightarrow> ('s, unit) io" where
  "gcs_delete c sid relative_path =
     (let name = object_key sid relative_path in
      context_io (''GCS delete failed for '' @ name) (gcs_delete_object c name))"

definition gcs_backend :: "(string \<Rightarrow> string) \<Rightarrow> 's gcs_client \<Rightarrow> 's storage_backend" where
  "gcs_backend dbg c =
     \<lparr>sb_put = gcs_put c, sb_get = gcs_get c, sb_list = gcs_list c, sb_delete = gcs_delete c,
      sb_delete_all = default_delete_all dbg (gcs_list c) (gcs_delete c)\<rparr>"

end
