(* ===== verification/MA_Azure.thy ===== *)
theory MA_Azure
  imports MA_Cloud MA_Registry
begin

text \<open>
  Azure Blob Storage (\<open>AzureBackend\<close> of \<open>storage/mod.rs\<close>): a token from one of three sources, cached
  until shortly before it expires, and REST calls that carry it. HTTP, the \<open>az\<close> command, the environment
  and the clock are the client's. Times are seconds since the process started and are not bounded, where
  an \<open>Instant\<close> would panic on a lifetime of billions of years.
\<close>

section \<open>Requests\<close>

datatype az_method = AzGet | AzPut | AzDelete | AzPost

record az_request =
  az_method :: az_method
  az_url :: string
  az_bearer :: "string option"
  az_headers :: "(string \<times> string) list"
  az_query :: "(string \<times> string) list"
  az_form :: "(string \<times> string) list"
  az_body :: string

text \<open>What can be read of a response: its body as text, as bytes and as JSON, each of which may fail.\<close>

record az_response =
  az_status :: nat
  az_text :: "string result"
  az_bytes :: "string result"
  az_json :: "json result"

text \<open>\<open>az_cli\<close>: the standard output of the \<open>az\<close> command, when it could be run and succeeded.\<close>

record 's azure_client =
  az_account :: string
  az_container :: string
  az_env :: "string \<Rightarrow> string option"
  az_now :: "'s \<Rightarrow> nat"
  az_status_text :: "nat \<Rightarrow> string"
  az_json_parse :: "string \<Rightarrow> json result"
  az_send :: "az_request \<Rightarrow> ('s, az_response) io"
  az_imds_client :: "('s, unit) io"
  az_imds_send :: "az_request \<Rightarrow> ('s, az_response) io"
  az_cli :: "string list \<Rightarrow> 's \<Rightarrow> string option \<times> 's"

record cached_token =
  ct_token :: string
  ct_expires_at :: nat

type_synonym 's azure = "cached_token option \<times> 's"

definition outside :: "('s, 'a) io \<Rightarrow> ('s azure, 'a) io" where
  "outside m = (\<lambda>(cache, s). case m s of (r, s) \<Rightarrow> (r, (cache, s)))"

definition AZURE_API_VERSION :: string where
  "AZURE_API_VERSION = ''2026-02-06''"

definition TOKEN_REFRESH_BUFFER :: nat where
  "TOKEN_REFRESH_BUFFER = 300"

definition is_success :: "nat \<Rightarrow> bool" where
  "is_success status \<longleftrightarrow> 200 \<le> status \<and> status < 300"

definition container_url :: "'s azure_client \<Rightarrow> string" where
  "container_url c = ''https://'' @ az_account c @ ''.blob.core.windows.net/'' @ az_container c"

definition blob_url :: "'s azure_client \<Rightarrow> string \<Rightarrow> string" where
  "blob_url c blob_name =
     ''https://'' @ az_account c @ ''.blob.core.windows.net/'' @ az_container c @ ''/'' @ blob_name"

text \<open>\<open>chars().take(n)\<close>.\<close>

fun take_chars :: "nat \<Rightarrow> string \<Rightarrow> string" where
  "take_chars n [] = []"
| "take_chars n (c # cs) =
     (if is_cont c then c # take_chars n cs else case n of 0 \<Rightarrow> [] | Suc m \<Rightarrow> c # take_chars m cs)"

text \<open>The text a failed call is reported with.\<close>

definition http_failure :: "'s azure_client \<Rightarrow> string \<Rightarrow> az_response \<Rightarrow> string" where
  "http_failure c what resp =
     what @ '' (HTTP '' @ az_status_text c (az_status resp) @ ''): ''
       @ take_chars 200 (case az_text resp of Inr t \<Rightarrow> t | Inl e \<Rightarrow> [])"

section \<open>Tokens\<close>

definition json_string :: "string \<Rightarrow> json \<Rightarrow> string option" where
  "json_string k v = Option.bind (json_get k v) as_str"

definition try_service_principal :: "'s azure_client \<Rightarrow> ('s, (string \<times> nat) option) io" where
  "try_service_principal c =
     (case (az_env c ''AZURE_TENANT_ID'', az_env c ''AZURE_CLIENT_ID'', az_env c ''AZURE_CLIENT_SECRET'') of
        (Some tenant_id, Some client_id, Some client_secret) \<Rightarrow>
          bind_io (context_io ''Service principal token request failed'' (az_send c
            \<lparr>az_method = AzPost, az_url = ''https://login.microsoftonline.com/'' @ tenant_id @ ''/oauth2/v2.0/token'',
             az_bearer = None, az_headers = [], az_query = [],
             az_form = [(''grant_type'', ''client_credentials''), (''client_id'', client_id),
               (''client_secret'', client_secret), (''scope'', ''https://storage.azure.com/.default'')],
             az_body = []\<rparr>)) (\<lambda>resp.
          if \<not> is_success (az_status resp)
          then fail (''Service principal token request returned HTTP '' @ az_status_text c (az_status resp) @ '': ''
                 @ take_chars 200 (case az_text resp of Inr t \<Rightarrow> t | Inl e \<Rightarrow> []))
          else
            bind_io (context_io ''Failed to parse service principal token response'' (lift_result (az_json resp))) (\<lambda>v.
            case json_string ''access_token'' v of
              None \<Rightarrow> fail ''Missing access_token in service principal response''
            | Some t \<Rightarrow> ok (Some (t, unwrap_or 3600 (Option.bind (json_get ''expires_in'' v) as_u64)))))
      | _ \<Rightarrow> ok None)"

definition imds_request :: az_request where
  "imds_request =
     \<lparr>az_method = AzGet, az_url = ''http://169.254.169.254/metadata/identity/oauth2/token'', az_bearer = None,
      az_headers = [(''Metadata'', ''true'')],
      az_query = [(''api-version'', ''2018-02-01''), (''resource'', ''https://storage.azure.com/'')],
      az_form = [], az_body = []\<rparr>"

definition try_managed_identity :: "'s azure_client \<Rightarrow> ('s, (string \<times> nat) option) io" where
  "try_managed_identity c =
     bind_io (context_io ''Failed to build IMDS HTTP client'' (az_imds_client c)) (\<lambda>_ s.
     case az_imds_send c imds_request s of
       (Inl e, s) \<Rightarrow> (Inr None, s)
     | (Inr resp, s) \<Rightarrow>
         (if \<not> is_success (az_status resp) then (Inr None, s)
          else
            (case az_json resp of
               Inl e \<Rightarrow> (Inr None, s)
             | Inr v \<Rightarrow>
                 (Inr (map_option (\<lambda>t. (t, unwrap_or 3600 (Option.bind (json_string ''expires_in'' v) (parse_unsigned (2 ^ 64)))))
                    (json_string ''access_token'' v)), s))))"

definition try_azure_cli :: "'s azure_client \<Rightarrow> ('s, (string \<times> nat) option) io" where
  "try_azure_cli c =
     (\<lambda>s.
       case az_cli c [''account'', ''get-access-token'', ''--resource'', ''https://storage.azure.com/'', ''--output'', ''json''] s of
         (stdout, s) \<Rightarrow>
           (Inr (Option.bind stdout (\<lambda>bytes.
              case az_json_parse c bytes of
                Inl e \<Rightarrow> None
              | Inr v \<Rightarrow> map_option (\<lambda>t. (t, 3600)) (json_string ''accessToken'' v))), s))"

text \<open>All three sources are asked before the first that answered is taken: \<open>or\<close> has its argument evaluated.\<close>

definition first_credential :: "'s azure_client \<Rightarrow> ('s, (string \<times> nat) option) io" where
  "first_credential c =
     bind_io (try_service_principal c) (\<lambda>sp.
     bind_io (try_managed_identity c) (\<lambda>mi.
     bind_io (try_azure_cli c) (\<lambda>cli.
     ok (case sp of Some t \<Rightarrow> Some t | None \<Rightarrow> (case mi of Some t \<Rightarrow> Some t | None \<Rightarrow> cli)))))"

definition NO_CREDENTIALS :: string where
  "NO_CREDENTIALS = ''No Azure credentials found. Set AZURE_TENANT_ID + AZURE_CLIENT_ID + AZURE_CLIENT_SECRET, use a Managed Identity, or run '' @ quoted ''az login'' @ ''.''"

definition renew_token :: "'s azure_client \<Rightarrow> ('s azure, string) io" where
  "renew_token c =
     (\<lambda>(cache, s).
       case first_credential c s of
         (Inl e, s) \<Rightarrow> (Inl e, (cache, s))
       | (Inr None, s) \<Rightarrow> (Inl NO_CREDENTIALS, (cache, s))
       | (Inr (Some (t, expires_in)), s) \<Rightarrow> (Inr t, (Some \<lparr>ct_token = t, ct_expires_at = az_now c s + expires_in\<rparr>, s)))"

definition acquire_token :: "'s azure_client \<Rightarrow> ('s azure, string) io" where
  "acquire_token c =
     (\<lambda>(cache, s).
       case cache of
         Some cached \<Rightarrow>
           if ct_expires_at cached > az_now c s + TOKEN_REFRESH_BUFFER then (Inr (ct_token cached), (cache, s))
           else renew_token c (cache, s)
       | None \<Rightarrow> renew_token c (cache, s))"

section \<open>Blobs\<close>

definition blob_request :: "az_method \<Rightarrow> string \<Rightarrow> string \<Rightarrow> az_request" where
  "blob_request verb url t =
     \<lparr>az_method = verb, az_url = url, az_bearer = Some t, az_headers = [(''x-ms-version'', AZURE_API_VERSION)],
      az_query = [], az_form = [], az_body = []\<rparr>"

definition azure_put :: "'s azure_client \<Rightarrow> string \<Rightarrow> string \<Rightarrow> string \<Rightarrow> string \<Rightarrow> ('s azure, unit) io" where
  "azure_put c sid relative_path bytes content_type =
     (let blob_name = object_key sid relative_path in
      bind_io (acquire_token c) (\<lambda>t.
      bind_io (context_io (''Azure put request failed for '' @ blob_name)
        (outside (az_send c ((blob_request AzPut (blob_url c blob_name) t)
           \<lparr>az_headers := [(''x-ms-version'', AZURE_API_VERSION), (''x-ms-blob-type'', ''BlockBlob''),
              (''Content-Type'', content_type), (''Content-Length'', show_nat (length bytes))], az_body := bytes\<rparr>)))) (\<lambda>resp.
      if \<not> is_success (az_status resp) then fail (http_failure c (''Azure put failed for '' @ blob_name) resp)
      else ok ())))"

definition azure_get :: "'s azure_client \<Rightarrow> string \<Rightarrow> string \<Rightarrow> ('s azure, string) io" where
  "azure_get c sid relative_path =
     (let blob_name = object_key sid relative_path in
      bind_io (acquire_token c) (\<lambda>t.
      bind_io (context_io (''Azure get request failed for '' @ blob_name)
        (outside (az_send c (blob_request AzGet (blob_url c blob_name) t)))) (\<lambda>resp.
      if \<not> is_success (az_status resp) then fail (http_failure c (''Azure get failed for '' @ blob_name) resp)
      else context_io (''Failed to read Azure response body for '' @ blob_name) (lift_result (az_bytes resp)))))"

definition azure_delete :: "'s azure_client \<Rightarrow> string \<Rightarrow> string \<Rightarrow> ('s azure, unit) io" where
  "azure_delete c sid relative_path =
     (let blob_name = object_key sid relative_path in
      bind_io (acquire_token c) (\<lambda>t.
      bind_io (context_io (''Azure delete request failed for '' @ blob_name)
        (outside (az_send c (blob_request AzDelete (blob_url c blob_name) t)))) (\<lambda>resp.
      if \<not> is_success (az_status resp) \<and> az_status resp \<noteq> 404
      then fail (http_failure c (''Azure delete failed for '' @ blob_name) resp)
      else ok ())))"

section \<open>Listing\<close>

text \<open>The texts between the tags, as they stand: entities are not resolved.\<close>

definition xml_open :: "string \<Rightarrow> string" where
  "xml_open tag = ''<'' @ tag @ ''>''"

definition xml_close :: "string \<Rightarrow> string" where
  "xml_close tag = ''</'' @ tag @ ''>''"

function extract_xml_tag_values :: "string \<Rightarrow> string \<Rightarrow> string list" where
  "extract_xml_tag_values xml tag =
     (case str_find (xml_open tag) xml of
        None \<Rightarrow> []
      | Some start \<Rightarrow>
          (let rest = drop (start + length (xml_open tag)) xml in
           case str_find (xml_close tag) rest of
             None \<Rightarrow> []
           | Some stop \<Rightarrow> take stop rest # extract_xml_tag_values (drop (stop + length (xml_close tag)) rest) tag))"
  by pat_completeness auto
termination
proof (relation "measure (length \<circ> fst)", simp)
  fix xml tag start rest stop
  assume "str_find (xml_open tag) xml = Some start"
  then have "xml \<noteq> []" by (cases xml) (auto simp: xml_open_def split: if_splits)
  moreover assume "rest = drop (start + length (xml_open tag)) xml"
  ultimately show "((drop (stop + length (xml_close tag)) rest, tag), (xml, tag)) \<in> measure (length \<circ> fst)"
    by (auto simp: xml_open_def)
qed

declare extract_xml_tag_values.simps [simp del]

definition list_request :: "'s azure_client \<Rightarrow> string \<Rightarrow> string option \<Rightarrow> string \<Rightarrow> az_request" where
  "list_request c full_prefix marker t =
     (blob_request AzGet (container_url c) t)
       \<lparr>az_query := [(''restype'', ''container''), (''comp'', ''list''), (''prefix'', full_prefix)]
          @ (case marker of None \<Rightarrow> [] | Some m \<Rightarrow> [(''marker'', m)])\<rparr>"

partial_function (option) azure_list_loop ::
  "'s azure_client \<Rightarrow> string \<Rightarrow> string \<Rightarrow> string option \<Rightarrow> string list \<Rightarrow> 's azure
   \<Rightarrow> (string list result \<times> 's azure) option" where
  "azure_list_loop c full_prefix t marker results s =
     (case context_io (''Azure list request failed for prefix '' @ full_prefix)
             (outside (az_send c (list_request c full_prefix marker t))) s of
        (Inl e, s) \<Rightarrow> Some (Inl e, s)
      | (Inr resp, s) \<Rightarrow>
          if \<not> is_success (az_status resp)
          then Some (Inl (http_failure c (''Azure list failed for prefix '' @ full_prefix) resp), s)
          else
            (case az_text resp of
               Inl e \<Rightarrow> Some (Inl (''Failed to read Azure list response body: '' @ e), s)
             | Inr xml \<Rightarrow>
                 (let results = results @ strip_listed full_prefix (extract_xml_tag_values xml ''Name'');
                      next_marker = (case extract_xml_tag_values xml ''NextMarker'' of m # _ \<Rightarrow> m | [] \<Rightarrow> []) in
                  if next_marker = [] then Some (Inr results, s)
                  else azure_list_loop c full_prefix t (Some next_marker) results s)))"

declare azure_list_loop.simps [code]

definition azure_list :: "'s azure_client \<Rightarrow> string \<Rightarrow> string \<Rightarrow> ('s azure, string list) loop" where
  "azure_list c sid pre =
     bind_loop (ends (acquire_token c)) (\<lambda>t. azure_list_loop c (object_key sid pre) t None [])"

definition azure_backend :: "(string \<Rightarrow> string) \<Rightarrow> 's azure_client \<Rightarrow> 's azure storage_backend" where
  "azure_backend dbg c =
     \<lparr>sb_put = azure_put c, sb_get = azure_get c, sb_list = azure_list c, sb_delete = azure_delete c,
      sb_delete_all = default_delete_all dbg (azure_list c) (azure_delete c)\<rparr>"

end
