(* ===== verification/MA_Cloud_Facts.thy ===== *)
theory MA_Cloud_Facts
  imports MA_Azure "HOL-Library.AList"
begin

text \<open>
  What the object-store backends make of a provider that keeps its documented promises: a store of files
  under session ids, from which a session can be removed exactly.
\<close>

section \<open>Keys\<close>

lemma object_key_inj:
  assumes "object_key sid rel = object_key sid' rel'" and "CHR ''/'' \<notin> set sid" and "CHR ''/'' \<notin> set sid'"
  shows "sid = sid' \<and> rel = rel'"
proof -
  have e: "sid @ CHR ''/'' # rel = sid' @ CHR ''/'' # rel'" using assms(1) by (simp add: object_key_def)
  have "takeWhile (\<lambda>c. c \<noteq> CHR ''/'') (w @ CHR ''/'' # r) = w" if "CHR ''/'' \<notin> set w" for w r :: string
    using that by (subst takeWhile_append2) auto
  with assms(2,3) e have "sid = sid'" by metis
  with e show ?thesis by simp
qed

lemma below_session: "prefix (object_key sid []) k \<longleftrightarrow> (\<exists>rel. k = object_key sid rel)"
  by (auto simp: prefix_def object_key_def)

lemma valid_id: "validate_session_id dbg sid = Inr u \<Longrightarrow> CHR ''/'' \<notin> set sid"
proof -
  have "str_contains [c] s \<longleftrightarrow> c \<in> set s" for c s
    by (induction s) (auto simp: str_contains_def)
  then show "validate_session_id dbg sid = Inr u \<Longrightarrow> ?thesis" by (auto simp: validate_session_id_def split: if_splits)
qed

section \<open>Removing a session from any store of keys\<close>

text \<open>A listing that names every object of a session, and a deletion that touches its own key only.\<close>

definition lists_objects ::
  "('s \<Rightarrow> string \<rightharpoonup> string) \<Rightarrow> (string \<Rightarrow> string \<Rightarrow> ('s, string list) loop) \<Rightarrow> bool" where
  "lists_objects objs list \<longleftrightarrow> (\<forall>sid s r s'. list sid [] s = Some (r, s') \<longrightarrow> objs s' = objs s
     \<and> (\<forall>paths. r = Inr paths \<longrightarrow> set paths = {rel. rel \<noteq> [] \<and> objs s (object_key sid rel) \<noteq> None}))"

definition deletes_object ::
  "('s \<Rightarrow> string \<rightharpoonup> string) \<Rightarrow> (string \<Rightarrow> string \<Rightarrow> ('s, unit) io) \<Rightarrow> bool" where
  "deletes_object objs delete \<longleftrightarrow> (\<forall>sid rel s r s'. delete sid rel s = (r, s') \<longrightarrow>
     (\<forall>k. k \<noteq> object_key sid rel \<longrightarrow> objs s' k = objs s k)
     \<and> (objs s' (object_key sid rel) = None \<or> isl r \<and> objs s' (object_key sid rel) = objs s (object_key sid rel)))"

lemma delete_each:
  assumes del: "deletes_object objs delete"
    and "fold_io (\<lambda>rel removed. bind_io (delete sid rel) (\<lambda>_. ok (removed + 1))) paths n s = (r, s')"
  shows "(\<forall>k. objs s' k = objs s k \<or> objs s' k = None \<and> k \<in> object_key sid ` set paths)
    \<and> (\<forall>m. r = Inr m \<longrightarrow> m = n + length paths \<and> (\<forall>rel \<in> set paths. objs s' (object_key sid rel) = None))"
  using assms(2)
proof (induction paths arbitrary: n s)
  case Nil
  then show ?case by (auto simp: ok_def)
next
  case (Cons rel paths)
  obtain q s1 where q: "delete sid rel s = (q, s1)" by fastforce
  with del have one: "\<forall>k. k \<noteq> object_key sid rel \<longrightarrow> objs s1 k = objs s k"
      "objs s1 (object_key sid rel) = None \<or> isl q \<and> objs s1 (object_key sid rel) = objs s (object_key sid rel)"
    unfolding deletes_object_def by metis+
  show ?case
  proof (cases q)
    case (Inl e)
    with Cons.prems q have "r = Inl e" "s' = s1" by (auto simp: bind_io_def)
    have "objs s1 k = objs s k \<or> objs s1 k = None \<and> k = object_key sid rel" for k
      using one by (cases "k = object_key sid rel") auto
    with \<open>r = Inl e\<close> \<open>s' = s1\<close> show ?thesis by auto
  next
    case (Inr u)
    with Cons.prems q have rest: "fold_io (\<lambda>rel removed. bind_io (delete sid rel) (\<lambda>_. ok (removed + 1))) paths (n + 1) s1 = (r, s')"
      by (simp add: bind_io_def ok_def)
    from one Inr have gone: "objs s1 (object_key sid rel) = None" by simp
    note IH = Cons.IH [OF rest]
    have "objs s' k = objs s k \<or> objs s' k = None \<and> k \<in> object_key sid ` set (rel # paths)" for k
    proof -
      from IH have k: "objs s' k = objs s1 k \<or> objs s' k = None \<and> k \<in> object_key sid ` set paths" by simp
      show ?thesis
      proof (cases "k = object_key sid rel")
        case True
        with k gone show ?thesis by auto
      next
        case False
        with one(1) have "objs s1 k = objs s k" by simp
        with k show ?thesis by auto
      qed
    qed
    moreover have "objs s' (object_key sid rel) = None"
      using spec [OF conjunct1 [OF IH], of "object_key sid rel"] gone by auto
    ultimately show ?thesis using IH by simp
  qed
qed

lemma default_delete_all_exact:
  assumes "lists_objects objs list" and "deletes_object objs delete"
    and "default_delete_all dbg list delete sid s = Some (r, s')"
  shows "(\<forall>k. \<not> prefix (object_key sid []) k \<longrightarrow> objs s' k = objs s k)
    \<and> (\<forall>n. r = Inr n \<longrightarrow> (\<forall>rel. rel \<noteq> [] \<longrightarrow> objs s' (object_key sid rel) = None))"
proof (cases "validate_session_id dbg sid")
  case (Inl e)
  with assms(3) show ?thesis by (auto simp: default_delete_all_def bind_loop_def ends_def lift_result_def)
next
  case (Inr u)
  with assms(3) obtain q s1 where q: "list sid [] s = Some (q, s1)"
    by (cases "list sid [] s") (auto simp: default_delete_all_def bind_loop_def ends_def lift_result_def)
  with assms(1) have listed: "objs s1 = objs s"
      "\<And>paths. q = Inr paths \<Longrightarrow> set paths = {rel. rel \<noteq> [] \<and> objs s (object_key sid rel) \<noteq> None}"
    unfolding lists_objects_def by blast+
  show ?thesis
  proof (cases q)
    case Inl
    with assms(3) Inr q listed show ?thesis by (auto simp: default_delete_all_def bind_loop_def ends_def lift_result_def)
  next
    case (Inr paths)
    with assms(3) \<open>validate_session_id dbg sid = Inr u\<close> q
    have fold: "fold_io (\<lambda>rel removed. bind_io (delete sid rel) (\<lambda>_. ok (removed + 1))) paths 0 s1 = (r, s')"
      by (simp add: default_delete_all_def bind_loop_def ends_def lift_result_def)
    note each = delete_each [OF assms(2) fold]
    have "objs s' k = objs s k" if "\<not> prefix (object_key sid []) k" for k
      using each that listed(1) unfolding below_session by (metis image_iff)
    moreover have "objs s' (object_key sid rel) = None" if "r = Inr n" "rel \<noteq> []" for n rel
      using each listed(1) listed(2) [OF Inr] that by (cases "rel \<in> set paths") (auto, metis)
    ultimately show ?thesis by blast
  qed
qed

section \<open>What a provider promises\<close>

text \<open>
  \<open>objs\<close> are the objects of the bucket, and \<open>left s pre tok\<close> the keys under a prefix that a listing still
  has to give from a continuation token on: a page gives some of them and, if it is truncated, a token for
  the rest. A failing call changes at most its own object.
\<close>

definition puts_object :: "('s \<Rightarrow> string \<rightharpoonup> string) \<Rightarrow> (string \<Rightarrow> string \<Rightarrow> string \<Rightarrow> ('s, unit) io) \<Rightarrow> bool" where
  "puts_object objs p \<longleftrightarrow> (\<forall>k ct bytes s r s'. p k ct bytes s = (r, s') \<longrightarrow>
     (\<forall>k'. k' \<noteq> k \<longrightarrow> objs s' k' = objs s k')
     \<and> (objs s' k = Some bytes \<or> isl r \<and> objs s' k = objs s k))"

definition drops_object :: "('s \<Rightarrow> string \<rightharpoonup> string) \<Rightarrow> (string \<Rightarrow> ('s, unit) io) \<Rightarrow> bool" where
  "drops_object objs d \<longleftrightarrow> (\<forall>k s r s'. d k s = (r, s') \<longrightarrow>
     (\<forall>k'. k' \<noteq> k \<longrightarrow> objs s' k' = objs s k')
     \<and> (objs s' k = None \<or> isl r \<and> objs s' k = objs s k))"

definition left_all :: "('s \<Rightarrow> string \<rightharpoonup> string) \<Rightarrow> ('s \<Rightarrow> string \<Rightarrow> string option \<Rightarrow> string set) \<Rightarrow> bool" where
  "left_all objs left \<longleftrightarrow> (\<forall>s pre. left s pre None = {k. prefix pre k \<and> objs s k \<noteq> None})"

definition s3_ok ::
  "('s \<Rightarrow> string \<rightharpoonup> string) \<Rightarrow> ('s \<Rightarrow> string \<Rightarrow> string option \<Rightarrow> string set) \<Rightarrow> 's s3_client \<Rightarrow> bool" where
  "s3_ok objs left c \<longleftrightarrow> puts_object objs (s3_put_object c) \<and> drops_object objs (s3_delete_object c) \<and> left_all objs left
     \<and> (\<forall>k s r s'. s3_get_object c k s = (r, s') \<longrightarrow> objs s' = objs s
          \<and> (\<forall>bytes. r = Inr (Inr bytes) \<longrightarrow> objs s k = Some bytes))
     \<and> (\<forall>pre tok s r s'. s3_list_objects c pre tok s = (r, s') \<longrightarrow> objs s' = objs s \<and> left s' = left s
          \<and> (\<forall>page. r = Inr page \<longrightarrow> left s pre tok = set (List.map_filter (\<lambda>k. k) (s3_contents page))
               \<union> (if unwrap_or False (s3_truncated page) then left s pre (s3_next page) else {})))"

definition gcs_ok ::
  "('s \<Rightarrow> string \<rightharpoonup> string) \<Rightarrow> ('s \<Rightarrow> string \<Rightarrow> string option \<Rightarrow> string set) \<Rightarrow> 's gcs_client \<Rightarrow> bool" where
  "gcs_ok objs left c \<longleftrightarrow> puts_object objs (gcs_write_object c) \<and> drops_object objs (gcs_delete_object c) \<and> left_all objs left
     \<and> (\<forall>k s r s'. gcs_read_object c k s = (r, s') \<longrightarrow> objs s' = objs s
          \<and> (\<forall>chunks. r = Inr chunks \<and> list_all (\<lambda>x. \<not> isl x) chunks \<longrightarrow> objs s k = Some (concat (map projr chunks))))
     \<and> (\<forall>pre tok s r s'. gcs_list_objects c pre tok s = (r, s') \<longrightarrow> objs s' = objs s \<and> left s' = left s
          \<and> (\<forall>page. r = Inr page \<longrightarrow> left s pre tok = set (gcs_names page)
               \<union> (if gcs_next_token page \<noteq> [] then left s pre (Some (gcs_next_token page)) else {})))"

section \<open>Listings\<close>

definition stripped :: "string \<Rightarrow> string set \<Rightarrow> string set" where
  "stripped pre ks = {s. s \<noteq> [] \<and> (\<exists>k \<in> ks. s = unwrap_or k (strip_prefix pre k))}"

lemma set_strip_listed: "set (strip_listed pre ks) = stripped pre (set ks)"
  by (auto simp: strip_listed_def stripped_def)

lemma stripped_Un: "stripped pre (A \<union> B) = stripped pre A \<union> stripped pre B" "stripped pre {} = {}"
  by (auto simp: stripped_def)

lemma stripped_below:
  "stripped (object_key sid []) {k. prefix (object_key sid []) k \<and> m k \<noteq> None} = {rel. rel \<noteq> [] \<and> m (object_key sid rel) \<noteq> None}"
proof (intro set_eqI iffI)
  have strip: "unwrap_or (object_key sid r) (strip_prefix (object_key sid []) (object_key sid r)) = r" for r
    by (simp add: object_key_def strip_prefix_def unwrap_or_def)
  fix rel
  assume "rel \<in> {rel. rel \<noteq> [] \<and> m (object_key sid rel) \<noteq> None}"
  moreover have "prefix (object_key sid []) (object_key sid rel)" unfolding below_session by blast
  ultimately show "rel \<in> stripped (object_key sid []) {k. prefix (object_key sid []) k \<and> m k \<noteq> None}"
    unfolding stripped_def mem_Collect_eq using strip [of rel] by (intro conjI bexI [of _ "object_key sid rel"]) simp_all
next
  have strip: "unwrap_or (object_key sid r) (strip_prefix (object_key sid []) (object_key sid r)) = r" for r
    by (simp add: object_key_def strip_prefix_def unwrap_or_def)
  fix rel
  assume "rel \<in> stripped (object_key sid []) {k. prefix (object_key sid []) k \<and> m k \<noteq> None}"
  then obtain k where k: "rel \<noteq> []" "prefix (object_key sid []) k" "m k \<noteq> None"
      "rel = unwrap_or k (strip_prefix (object_key sid []) k)" unfolding stripped_def by blast
  from k(2) obtain r where "k = object_key sid r" unfolding below_session by blast
  with k strip show "rel \<in> {rel. rel \<noteq> [] \<and> m (object_key sid rel) \<noteq> None}" by simp
qed

lemma s3_page:
  assumes "s3_ok objs left c" and "s3_list_objects c pre tok s = (q, s1)"
  shows "objs s1 = objs s" and "left s1 = left s"
    and "q = Inr p \<Longrightarrow> left s pre tok = set (List.map_filter (\<lambda>k. k) (s3_contents p))
      \<union> (if unwrap_or False (s3_truncated p) then left s pre (s3_next p) else {})"
  using assms(1) [unfolded s3_ok_def, THEN conjunct2, THEN conjunct2, THEN conjunct2, THEN conjunct2,
    rule_format, OF assms(2)] by simp_all

lemma s3_list_loop_lists:
  assumes ok: "s3_ok objs left c"
    and "s3_list_loop c pre tok results s = Some (r, s')"
  shows "objs s' = objs s \<and> (\<forall>out. r = Inr out \<longrightarrow> set out = set results \<union> stripped pre (left s pre tok))"
proof -
  let ?P = "\<lambda>c' pre tok results s res. c' = c \<longrightarrow> objs (snd res) = objs s
    \<and> (\<forall>out. fst res = Inr out \<longrightarrow> set out = set results \<union> stripped pre (left s pre tok))"
  have "?P c pre tok results s (r, s')"
  proof (rule s3_list_loop.raw_induct [where P = ?P, OF _ assms(2)], intro impI)
    fix rec c' pre tok results s res
    assume IH: "\<And>c' pre tok results s res. rec c' pre tok results s = Some res \<Longrightarrow> ?P c' pre tok results s res"
      and c': "c' = c"
      and body: "(case context_io (''S3 list failed for prefix '' @ pre) (s3_list_objects c' pre tok) s of
          (Inl e, s) \<Rightarrow> Some (Inl e, s)
        | (Inr page, s) \<Rightarrow>
            (let results = results @ strip_listed pre (List.map_filter (\<lambda>k. k) (s3_contents page)) in
             if unwrap_or False (s3_truncated page) then rec c' pre (s3_next page) results s
             else Some (Inr results, s))) = Some res"
    obtain q s1 where q: "s3_list_objects c pre tok s = (q, s1)" by fastforce
    note page = s3_page [OF ok q]
    show "objs (snd res) = objs s \<and> (\<forall>out. fst res = Inr out \<longrightarrow> set out = set results \<union> stripped pre (left s pre tok))"
    proof (cases q)
      case (Inl e)
      with body c' q page show ?thesis by (auto simp: context_io_def)
    next
      case (Inr p)
      let ?more = "results @ strip_listed pre (List.map_filter (\<lambda>k. k) (s3_contents p))"
      show ?thesis
      proof (cases "unwrap_or False (s3_truncated p)")
        case True
        with body c' q Inr have "rec c pre (s3_next p) ?more s1 = Some res" by (simp add: context_io_def Let_def)
        from IH [OF this] page(1,2) page(3) [OF Inr] True show ?thesis
          by (auto simp: set_strip_listed stripped_Un)
      next
        case False
        with body c' q Inr page(1) page(3) [OF Inr] show ?thesis
          by (auto simp: context_io_def Let_def set_strip_listed)
      qed
    qed
  qed
  then show ?thesis by simp
qed

lemma s3_lists:
  assumes "s3_ok objs left c" shows "lists_objects objs (s3_list c)"
proof -
  have "left s pre None = {k. prefix pre k \<and> objs s k \<noteq> None}" for s pre
    using assms by (simp add: s3_ok_def left_all_def)
  then show ?thesis
    unfolding lists_objects_def s3_list_def
    using s3_list_loop_lists [OF assms, where results = "[]"] by (simp add: stripped_below del: not_None_eq)
qed

section \<open>S3 keeps sessions apart\<close>

lemma context_drops:
  assumes "drops_object objs d"
  shows "deletes_object objs (\<lambda>sid rel. let key = object_key sid rel in context_io (msg @ key) (d key))"
  unfolding deletes_object_def Let_def
proof (intro allI impI)
  fix sid rel s r s' assume run: "context_io (msg @ object_key sid rel) (d (object_key sid rel)) s = (r, s')"
  obtain q s1 where q: "d (object_key sid rel) s = (q, s1)" by fastforce
  then have "s' = s1 \<and> isl r = isl q" using run by (cases q) (auto simp: context_io_def)
  then show "(\<forall>k. k \<noteq> object_key sid rel \<longrightarrow> objs s' k = objs s k)
     \<and> (objs s' (object_key sid rel) = None \<or> isl r \<and> objs s' (object_key sid rel) = objs s (object_key sid rel))"
    using assms [unfolded drops_object_def, rule_format, OF q] by simp
qed

lemma s3_deletes: "s3_ok objs left c \<Longrightarrow> deletes_object objs (s3_delete c)"
  unfolding s3_delete_def by (rule context_drops) (simp add: s3_ok_def)


text \<open>A bucket in memory that gives one key a page.\<close>

type_synonym bucket = "(string \<times> string) list"

definition keys_below :: "bucket \<Rightarrow> string \<Rightarrow> string list" where
  "keys_below b pre = filter (prefix pre) (remdups (map fst b))"

definition from_token :: "string option \<Rightarrow> nat" where
  "from_token tok = (case tok of None \<Rightarrow> 0 | Some t \<Rightarrow> length t)"

definition bucket_client :: "bucket s3_client" where
  "bucket_client =
     \<lparr>s3_put_object = \<lambda>k ct bytes b. (Inr (), AList.update k bytes b),
      s3_get_object = \<lambda>k b. (case map_of b k of Some bytes \<Rightarrow> Inr (Inr bytes) | None \<Rightarrow> Inl ''NoSuchKey'', b),
      s3_list_objects = \<lambda>pre tok b.
        (let rest = drop (from_token tok) (keys_below b pre) in
         (Inr \<lparr>s3_contents = map Some (take 1 rest), s3_truncated = Some (length rest > 1),
            s3_next = Some (replicate (Suc (from_token tok)) CHR ''x'')\<rparr>, b)),
      s3_delete_object = \<lambda>k b. (Inr (), AList.delete k b)\<rparr>"

definition bucket_left :: "bucket \<Rightarrow> string \<Rightarrow> string option \<Rightarrow> string set" where
  "bucket_left b pre tok = set (drop (from_token tok) (keys_below b pre))"

lemma bucket_ok: "s3_ok map_of bucket_left bucket_client"
proof -
  have "List.map_filter (\<lambda>k. k) (map Some xs) = xs" for xs :: "string list" by (induction xs) (simp_all add: List.map_filter_def)
  then have filled: "List.map_filter (\<lambda>k. k) (map Some (take 1 xs)) = take 1 xs" for xs :: "string list" .
  have page: "set (drop n xs) = set (take 1 (drop n xs)) \<union> (if length (drop n xs) > 1 then set (drop (Suc n) xs) else {})"
    for n and xs :: "string list"
  proof -
    have "drop (Suc n) xs = tl (drop n xs)" by (simp add: drop_Suc tl_drop)
    then show ?thesis by (cases "drop n xs") auto
  qed
  have "puts_object map_of (s3_put_object bucket_client)" "drops_object map_of (s3_delete_object bucket_client)"
    by (simp_all add: puts_object_def drops_object_def bucket_client_def update_conv' delete_conv')
  moreover have "left_all map_of bucket_left"
    by (auto simp: left_all_def bucket_left_def from_token_def keys_below_def map_of_eq_None_iff)
  moreover have "\<forall>k s r s'. s3_get_object bucket_client k s = (r, s') \<longrightarrow> map_of s' = map_of s
      \<and> (\<forall>bytes. r = Inr (Inr bytes) \<longrightarrow> map_of s k = Some bytes)"
    by (auto simp: bucket_client_def split: option.splits)
  moreover have "\<forall>pre tok s r s'. s3_list_objects bucket_client pre tok s = (r, s') \<longrightarrow>
      map_of s' = map_of s \<and> bucket_left s' = bucket_left s
      \<and> (\<forall>page. r = Inr page \<longrightarrow> bucket_left s pre tok = set (List.map_filter (\<lambda>k. k) (s3_contents page))
           \<union> (if unwrap_or False (s3_truncated page) then bucket_left s pre (s3_next page) else {}))"
  proof (intro allI impI)
    fix pre tok s r s'
    let ?n = "from_token tok" and ?keys = "keys_below s pre"
    let ?rest = "drop ?n ?keys" and ?next = "Some (replicate (Suc ?n) CHR ''x'')"
    assume "s3_list_objects bucket_client pre tok s = (r, s')"
    then have run: "s' = s" "r = Inr \<lparr>s3_contents = map Some (take 1 ?rest), s3_truncated = Some (length ?rest > 1), s3_next = ?next\<rparr>"
      by (auto simp: bucket_client_def Let_def)
    have "bucket_left s pre tok = set (take 1 ?rest) \<union> (if length ?rest > 1 then set (drop (Suc ?n) ?keys) else {})"
      unfolding bucket_left_def by (rule page)
    moreover have "bucket_left s pre ?next = set (drop (Suc ?n) ?keys)" by (simp add: bucket_left_def from_token_def)
    moreover have "List.map_filter (\<lambda>k. k) (map Some (take 1 ?rest)) = take 1 ?rest" by (rule filled)
    ultimately show "map_of s' = map_of s \<and> bucket_left s' = bucket_left s
      \<and> (\<forall>page. r = Inr page \<longrightarrow> bucket_left s pre tok = set (List.map_filter (\<lambda>k. k) (s3_contents page))
           \<union> (if unwrap_or False (s3_truncated page) then bucket_left s pre (s3_next page) else {}))"
      unfolding run by (simp add: unwrap_or_def)
  qed
  ultimately show ?thesis unfolding s3_ok_def by (intro conjI)
qed

definition demo_bucket :: bucket where
  "demo_bucket = [(''sessions/a/x'', ''1''), (''sessions/a/y'', ''2''), (''sessions/b/x'', ''3'')]"


section \<open>S3 as a store of files by session\<close>

definition session_files :: "('s \<Rightarrow> string \<rightharpoonup> string) \<Rightarrow> 's \<Rightarrow> string \<times> string \<rightharpoonup> string" where
  "session_files objs s = (\<lambda>(sid, rel). if CHR ''/'' \<in> set sid then None else objs s (object_key sid rel))"

lemma session_files_update:
  assumes "CHR ''/'' \<notin> set sid" and "\<forall>k. k \<noteq> object_key sid rel \<longrightarrow> objs s' k = objs s k"
  shows "session_files objs s' = (session_files objs s)((sid, rel) := objs s' (object_key sid rel))"
proof (rule ext, clarify)
  fix sid' rel'
  show "session_files objs s' (sid', rel') = ((session_files objs s)((sid, rel) := objs s' (object_key sid rel))) (sid', rel')"
  proof (cases "(sid', rel') = (sid, rel) \<or> CHR ''/'' \<in> set sid'")
    case True
    with assms(1) show ?thesis by (auto simp: session_files_def)
  next
    case False
    with object_key_inj [of sid' rel' sid rel] assms(1) have "object_key sid' rel' \<noteq> object_key sid rel" by auto
    with assms(2) False show ?thesis by (auto simp: session_files_def)
  qed
qed

lemma session_files_same: "objs s' = objs s \<Longrightarrow> session_files objs s' = session_files objs s"
  by (simp add: session_files_def cong del: if_weak_cong)

text \<open>
  C29. The S3 backend implements a store of files by session. For ids without a slash, seen as the map
  from session and path to contents: a put that succeeds sets the file, a delete that succeeds removes
  it, a get that succeeds returns what is there and changes nothing, and a call that fails has either
  done its whole work or none of it, on no other file.
\<close>

theorem s3_refines_store:
  assumes ok: "s3_ok objs left c" and valid: "CHR ''/'' \<notin> set sid"
  shows "(s3_put c sid rel bytes ct s = (r, s') \<longrightarrow>
      session_files objs s' = (session_files objs s)((sid, rel) \<mapsto> bytes) \<or> isl r \<and> session_files objs s' = session_files objs s)
    \<and> (s3_delete c sid rel s = (r, s') \<longrightarrow>
      session_files objs s' = (session_files objs s)((sid, rel) := None) \<or> isl r \<and> session_files objs s' = session_files objs s)
    \<and> (s3_get c sid rel s = (q, s') \<longrightarrow>
      session_files objs s' = session_files objs s \<and> (\<forall>got. q = Inr got \<longrightarrow> session_files objs s (sid, rel) = Some got))"
proof (intro conjI impI)
  let ?k = "object_key sid rel"
  note update = session_files_update [OF valid, of rel objs s' s]
  have same: "session_files objs s (sid, rel) = objs s ?k" using valid by (simp add: session_files_def)
  have put: "puts_object objs (s3_put_object c)" using ok by (simp add: s3_ok_def)
  show "session_files objs s' = (session_files objs s)((sid, rel) \<mapsto> bytes) \<or> isl r \<and> session_files objs s' = session_files objs s"
    if "s3_put c sid rel bytes ct s = (r, s')"
  proof -
    obtain x s1 where x: "s3_put_object c ?k ct bytes s = (x, s1)" by fastforce
    then have "s' = s1 \<and> isl r = isl x" using that by (cases x) (auto simp: s3_put_def Let_def context_io_def)
    with put [unfolded puts_object_def, rule_format, OF x] update same show ?thesis by auto
  qed
  show "session_files objs s' = (session_files objs s)((sid, rel) := None) \<or> isl r \<and> session_files objs s' = session_files objs s"
    if "s3_delete c sid rel s = (r, s')"
    using s3_deletes [OF ok, unfolded deletes_object_def, rule_format, OF that] update same by auto
  assume get: "s3_get c sid rel s = (q, s')"
  obtain x s1 where x: "s3_get_object c ?k s = (x, s1)" by fastforce
  have read: "objs s1 = objs s" "\<And>b. x = Inr (Inr b) \<Longrightarrow> objs s ?k = Some b"
    using ok [unfolded s3_ok_def, THEN conjunct2, THEN conjunct2, THEN conjunct2, THEN conjunct1, rule_format, OF x] by auto
  have "s' = s1 \<and> (\<forall>got. q = Inr got \<longrightarrow> x = Inr (Inr got))"
    using get x by (auto simp: s3_get_def Let_def bind_io_def context_io_def ok_def fail_def split: sum.splits)
  with read same show "session_files objs s' = session_files objs s"
    and "\<forall>got. q = Inr got \<longrightarrow> session_files objs s (sid, rel) = Some got"
    by (auto intro: session_files_same)
qed

theorem s3_refines_store_witness:
  "session_files map_of (snd (s3_put bucket_client ''a'' ''x'' ''4'' [] demo_bucket))
   = (session_files map_of demo_bucket)((''a'', ''x'') \<mapsto> ''4'')"
proof -
  obtain r b where run: "s3_put bucket_client ''a'' ''x'' ''4'' [] demo_bucket = (r, b)" by fastforce
  then have "\<not> isl r" by (auto simp: s3_put_def Let_def context_io_def bucket_client_def)
  moreover have "CHR ''/'' \<notin> set ''a''" by simp
  ultimately show ?thesis using s3_refines_store [OF bucket_ok, of "''a''" "''x''" "''4''" "[]" demo_bucket r b] run by simp
qed

section \<open>Google Cloud Storage\<close>

lemma gcs_page:
  assumes "gcs_ok objs left c" and "gcs_list_objects c pre tok s = (q, s1)"
  shows "objs s1 = objs s" and "left s1 = left s"
    and "q = Inr p \<Longrightarrow> left s pre tok = set (gcs_names p)
      \<union> (if gcs_next_token p \<noteq> [] then left s pre (Some (gcs_next_token p)) else {})"
  using assms(1) [unfolded gcs_ok_def, THEN conjunct2, THEN conjunct2, THEN conjunct2, THEN conjunct2,
    rule_format, OF assms(2)] by simp_all

lemma gcs_list_loop_lists:
  assumes ok: "gcs_ok objs left c"
    and "gcs_list_loop c pre tok results s = Some (r, s')"
  shows "objs s' = objs s \<and> (\<forall>out. r = Inr out \<longrightarrow> set out = set results \<union> stripped pre (left s pre tok))"
proof -
  let ?P = "\<lambda>c' pre tok results s res. c' = c \<longrightarrow> objs (snd res) = objs s
    \<and> (\<forall>out. fst res = Inr out \<longrightarrow> set out = set results \<union> stripped pre (left s pre tok))"
  have "?P c pre tok results s (r, s')"
  proof (rule gcs_list_loop.raw_induct [where P = ?P, OF _ assms(2)], intro impI)
    fix rec c' pre tok results s res
    assume IH: "\<And>c' pre tok results s res. rec c' pre tok results s = Some res \<Longrightarrow> ?P c' pre tok results s res"
      and c': "c' = c"
      and body: "(case context_io (''GCS list failed for prefix '' @ pre) (gcs_list_objects c' pre tok) s of
          (Inl e, s) \<Rightarrow> Some (Inl e, s)
        | (Inr page, s) \<Rightarrow>
            (let results = results @ strip_listed pre (gcs_names page) in
             if gcs_next_token page \<noteq> [] then rec c' pre (Some (gcs_next_token page)) results s
             else Some (Inr results, s))) = Some res"
    obtain q s1 where q: "gcs_list_objects c pre tok s = (q, s1)" by fastforce
    note page = gcs_page [OF ok q]
    show "objs (snd res) = objs s \<and> (\<forall>out. fst res = Inr out \<longrightarrow> set out = set results \<union> stripped pre (left s pre tok))"
    proof (cases q)
      case (Inl e)
      with body c' q page show ?thesis by (auto simp: context_io_def)
    next
      case (Inr p)
      show ?thesis
      proof (cases "gcs_next_token p = []")
        case False
        with body c' q Inr have "rec c pre (Some (gcs_next_token p)) (results @ strip_listed pre (gcs_names p)) s1 = Some res"
          by (simp add: context_io_def Let_def)
        from IH [OF this] page(1,2) page(3) [OF Inr] False show ?thesis
          by (auto simp: set_strip_listed stripped_Un)
      next
        case True
        with body c' q Inr page(1) page(3) [OF Inr] show ?thesis
          by (auto simp: context_io_def Let_def set_strip_listed)
      qed
    qed
  qed
  then show ?thesis by simp
qed

lemma gcs_delete_all_exact:
  assumes ok: "gcs_ok objs left c" and run: "sb_delete_all (gcs_backend dbg c) sid s = Some (r, s')"
  shows "(\<forall>k. \<not> prefix (object_key sid []) k \<longrightarrow> objs s' k = objs s k)
    \<and> (\<forall>n. r = Inr n \<longrightarrow> (\<forall>rel. rel \<noteq> [] \<longrightarrow> objs s' (object_key sid rel) = None))"
proof (rule default_delete_all_exact)
  have "left s pre None = {k. prefix pre k \<and> objs s k \<noteq> None}" for s pre
    using ok by (simp add: gcs_ok_def left_all_def)
  then show "lists_objects objs (gcs_list c)"
    unfolding lists_objects_def gcs_list_def
    using gcs_list_loop_lists [OF ok, where results = "[]"] by (simp add: stripped_below del: not_None_eq)
  show "deletes_object objs (gcs_delete c)"
    unfolding gcs_delete_def by (rule context_drops) (use ok in \<open>simp add: gcs_ok_def\<close>)
  show "default_delete_all dbg (gcs_list c) (gcs_delete c) sid s = Some (r, s')"
    using run by (simp add: gcs_backend_def)
qed

section \<open>Azure\<close>

text \<open>The XML escape of a text, and the entry the service lists a blob with.\<close>

definition xml_char :: "char \<Rightarrow> string" where
  "xml_char c = (if c = CHR ''&'' then ''&amp;'' else if c = CHR ''<'' then ''&lt;'' else if c = CHR ''>'' then ''&gt;'' else [c])"

definition xml_escape :: "string \<Rightarrow> string" where
  "xml_escape s = concat (map xml_char s)"

definition blob_entry :: "string \<Rightarrow> string" where
  "blob_entry name = ''<Blob><Name>'' @ xml_escape name @ ''</Name><Properties></Properties></Blob>''"

lemma escaped_plain: "CHR ''<'' \<notin> set (xml_escape s)"
  by (auto simp: xml_escape_def xml_char_def split: if_splits)

lemma find_after: "CHR ''<'' \<notin> set s \<Longrightarrow> str_find (CHR ''<'' # p) (s @ CHR ''<'' # p @ rest) = Some (length s)"
  by (induction s) auto

lemma extract_skip:
  assumes "str_find (xml_open tag) (p @ y) = map_option (\<lambda>i. i + length p) (str_find (xml_open tag) y)"
  shows "extract_xml_tag_values (p @ y) tag = extract_xml_tag_values y tag"
  by (subst (1 2) extract_xml_tag_values.simps) (simp add: assms option.case_eq_if option.map_sel ac_simps split: option.split)

lemma extract_blob: "extract_xml_tag_values (blob_entry name @ rest) ''Name'' = xml_escape name # extract_xml_tag_values rest ''Name''"
proof -
  let ?tail = "''<Properties></Properties></Blob>'' @ rest"
  have "str_find ''<Name>'' (blob_entry name @ rest) = Some 6"
    by (simp add: blob_entry_def)
  moreover have "drop 12 (blob_entry name @ rest) = xml_escape name @ ''</Name>'' @ ?tail"
    by (simp add: blob_entry_def)
  moreover have "str_find ''</Name>'' (xml_escape name @ ''</Name>'' @ ?tail) = Some (length (xml_escape name))"
    using find_after [OF escaped_plain, of "''/Name>''" name ?tail] by simp
  ultimately have "extract_xml_tag_values (blob_entry name @ rest) ''Name''
      = xml_escape name # extract_xml_tag_values ?tail ''Name''"
    by (simp add: extract_xml_tag_values.simps [of "blob_entry name @ rest"] xml_open_def xml_close_def)
  moreover have "str_find (xml_open ''Name'') ?tail
      = map_option (\<lambda>i. i + length ''<Properties></Properties></Blob>'') (str_find (xml_open ''Name'') rest)"
    by (cases "str_find (xml_open ''Name'') rest") (simp_all add: xml_open_def)
  note extract_skip [OF this]
  ultimately show ?thesis by simp
qed

lemma escape_keeps: "xml_escape s = s \<longleftrightarrow> set s \<inter> {CHR ''&'', CHR ''<'', CHR ''>''} = {}"
proof (induction s)
  case (Cons c s)
  have longer: "length t \<le> length (xml_escape t)" for t by (induction t) (simp_all add: xml_escape_def xml_char_def)
  show ?case
  proof (cases "c \<in> {CHR ''&'', CHR ''<'', CHR ''>''}")
    case True
    then have "Suc (length (xml_escape s)) < length (xml_escape (c # s))" by (auto simp: xml_escape_def xml_char_def)
    with longer [of s] have "xml_escape (c # s) \<noteq> c # s" by (metis length_Cons not_less Suc_le_mono)
    with True show ?thesis by auto
  next
    case False
    then have "xml_escape (c # s) = c # xml_escape s" by (simp add: xml_escape_def xml_char_def)
    with False Cons.IH show ?thesis by simp
  qed
qed (simp add: xml_escape_def)

text \<open>
  The Azure listing reads names as they are escaped. From a listing of any blobs it takes exactly one
  name each, in order, but the name's XML escape in place of the name: the names are right only when none
  of them holds an ampersand or an angle bracket. The deletion that follows asks for the escaped name,
  and takes the 404 it gets for success.
\<close>

lemma azure_names_stay_escaped:
  "extract_xml_tag_values (concat (map blob_entry names)) ''Name'' = map xml_escape names
   \<and> (map xml_escape names = names \<longleftrightarrow> (\<forall>name \<in> set names. set name \<inter> {CHR ''&'', CHR ''<'', CHR ''>''} = {}))"
proof
  have "extract_xml_tag_values [] ''Name'' = []" by (simp add: extract_xml_tag_values.simps [of "[]"] xml_open_def)
  then show "extract_xml_tag_values (concat (map blob_entry names)) ''Name'' = map xml_escape names"
    by (induction names) (simp_all add: extract_blob)
  show "map xml_escape names = names \<longleftrightarrow> (\<forall>name \<in> set names. set name \<inter> {CHR ''&'', CHR ''<'', CHR ''>''} = {})"
    using escape_keeps by (induction names) simp_all
qed

lemma azure_names_stay_escaped_witness:
  "extract_xml_tag_values (concat (map blob_entry [''sessions/a/R&D.png''])) ''Name'' = [''sessions/a/R&amp;D.png'']"
  using azure_names_stay_escaped [of "[''sessions/a/R&D.png'']"] by (simp add: xml_escape_def xml_char_def)

end
