(* ===== verification/MA_Connection.thy ===== *)
theory MA_Connection
  imports MA_Serving
begin

text \<open>
  One connection of the local client or of an admin (\<open>handle_connection_inner\<close> of \<open>ipc/mod.rs\<close>): it reads
  requests line by line, answers each before it reads the next, and between them passes on what the
  watch loops push. Which of a line and a push comes first is open, and so is what everything else in
  the server does meanwhile. The JSON parser of a line is a parameter.
\<close>

section \<open>One line\<close>

datatype ('c, 'r) taken = HangsUp | Skips | Unanswered | Takes outcome "('c, 'r) serving"

definition parse_refusal :: "string \<Rightarrow> outbound" where
  "parse_refusal e = Error ''PARSE_ERROR'' (''Could not parse message: '' @ e)"

definition serve_line ::
  "('c, 'r) services \<Rightarrow> (string \<Rightarrow> inbound result) \<Rightarrow> network \<Rightarrow> string \<Rightarrow> string \<Rightarrow> string \<Rightarrow> ('c, 'r) serving
   \<Rightarrow> ('c, 'r) taken" where
  "serve_line S parse nw uuid key raw g =
     (if length raw > 4 * 1024 * 1024 then HangsUp
      else
        (let line = trim raw in
         if line = [] then Skips
         else
           (case parse line of
              Inl e \<Rightarrow> Takes (Answer (parse_refusal e)) g
            | Inr msg \<Rightarrow>
                (case handle_message S nw uuid key msg g of
                   None \<Rightarrow> Unanswered
                 | Some (out, g) \<Rightarrow> Takes out g))))"

section \<open>The connection\<close>

text \<open>
  What was sent, an answer with the request it answers, and the request that waits for a loop to end.
  A write that fails closes the connection.
\<close>

datatype sent = Response string outbound | PushOut outbound

record connection =
  cn_lines :: "string list"
  cn_waits :: "(string \<times> string \<times> nat option) option"
  cn_sent :: "sent list"
  cn_open :: bool

definition opened :: "string list \<Rightarrow> connection" where
  "opened lines = \<lparr>cn_lines = lines, cn_waits = None, cn_sent = [], cn_open = True\<rparr>"

definition send :: "bool \<Rightarrow> sent \<Rightarrow> connection \<Rightarrow> connection" where
  "send written msg c = (if written then c\<lparr>cn_sent := cn_sent c @ [msg]\<rparr> else c\<lparr>cn_open := False\<rparr>)"

definition read_line ::
  "('c, 'r) services \<Rightarrow> (string \<Rightarrow> inbound result) \<Rightarrow> network \<Rightarrow> string \<Rightarrow> string \<Rightarrow> bool \<Rightarrow> connection
   \<Rightarrow> ('c, 'r) serving \<Rightarrow> connection \<times> ('c, 'r) serving" where
  "read_line S parse nw uuid key written c g =
     (case cn_lines c of
        [] \<Rightarrow> (c\<lparr>cn_open := False\<rparr>, g)
      | raw # rest \<Rightarrow>
          (let c = c\<lparr>cn_lines := rest\<rparr> in
           case serve_line S parse nw uuid key raw g of
             HangsUp \<Rightarrow> (c\<lparr>cn_open := False\<rparr>, g)
           | Unanswered \<Rightarrow> (c\<lparr>cn_open := False\<rparr>, g)
           | Skips \<Rightarrow> (c, g)
           | Takes out g' \<Rightarrow>
               (case out of
                  Answer msg \<Rightarrow> (send written (Response (trim raw) msg) c, g')
                | Awaits sid i \<Rightarrow> (c\<lparr>cn_waits := Some (trim raw, sid, i)\<rparr>, g'))))"

definition loop_reported :: "bool \<Rightarrow> connection \<Rightarrow> ('c, 'r) serving \<Rightarrow> connection \<times> ('c, 'r) serving" where
  "loop_reported written c g =
     (case cn_waits c of
        None \<Rightarrow> (c, g)
      | Some (line, sid, i) \<Rightarrow>
          (case done_answer sid i g of
             None \<Rightarrow> (c, g)
           | Some (msg, g') \<Rightarrow> (send written (Response line msg) (c\<lparr>cn_waits := None\<rparr>), g')))"

text \<open>While a request waits the connection takes nothing else.\<close>

inductive connection_step ::
  "('c, 'r) services \<Rightarrow> (string \<Rightarrow> inbound result) \<Rightarrow> connection \<times> ('c, 'r) serving \<Rightarrow> connection \<times> ('c, 'r) serving \<Rightarrow> bool"
  for S parse where
  reads: "cn_open c \<Longrightarrow> cn_waits c = None \<Longrightarrow> connection_step S parse (c, g) (read_line S parse nw uuid key written c g)"
| reports: "cn_open c \<Longrightarrow> connection_step S parse (c, g) (loop_reported written c g)"
| pushes: "cn_open c \<Longrightarrow> cn_waits c = None \<Longrightarrow> connection_step S parse (c, g) (send written (PushOut msg) c, g)"
| breaks: "cn_open c \<Longrightarrow> cn_waits c = None \<Longrightarrow> connection_step S parse (c, g) (c\<lparr>cn_open := False\<rparr>, g)"
| elsewhere: "server_step S g g' \<Longrightarrow> connection_step S parse (c, g) (c, g')"

section \<open>Every request once\<close>

text \<open>The requests of some lines, and those a connection has answered or is answering.\<close>

definition requests :: "string list \<Rightarrow> string list" where
  "requests lines = filter (\<lambda>l. l \<noteq> []) (map trim (takeWhile (\<lambda>l. length l \<le> 4 * 1024 * 1024) lines))"

fun answered :: "sent list \<Rightarrow> string list" where
  "answered [] = []"
| "answered (Response line msg # rest) = line # answered rest"
| "answered (PushOut msg # rest) = answered rest"

definition asked :: "connection \<Rightarrow> string list" where
  "asked c = answered (cn_sent c) @ (case cn_waits c of None \<Rightarrow> [] | Some (line, _) \<Rightarrow> [line])"

lemma answered_append [simp]: "answered (xs @ ys) = answered xs @ answered ys"
  by (induction xs rule: answered.induct) auto

lemma send_fields [simp]:
  "cn_lines (send w m c) = cn_lines c" "cn_waits (send w m c) = cn_waits c"
  "cn_open (send w m c) \<longleftrightarrow> cn_open c \<and> w" "cn_sent (send w m c) = (if w then cn_sent c @ [m] else cn_sent c)"
  by (simp_all add: send_def)

definition refuses :: "(string \<Rightarrow> inbound result) \<Rightarrow> connection \<Rightarrow> bool" where
  "refuses parse c \<longleftrightarrow> (\<forall>line e msg. Response line msg \<in> set (cn_sent c) \<longrightarrow> parse line = Inl e \<longrightarrow> msg = parse_refusal e)
     \<and> (\<forall>line sid i. cn_waits c = Some (line, sid, i) \<longrightarrow> (\<exists>msg. parse line = Inr msg))"

definition served :: "string list \<Rightarrow> connection \<Rightarrow> bool" where
  "served taken c \<longleftrightarrow> prefix (asked c) (requests taken)
     \<and> (cn_open c \<longrightarrow> asked c = requests taken \<and> (\<forall>l\<in>set taken. length l \<le> 4 * 1024 * 1024))"

lemma requests_snoc:
  "requests (taken @ [l]) = requests taken @ (if (\<forall>k\<in>set (taken @ [l]). length k \<le> 4 * 1024 * 1024) \<and> trim l \<noteq> [] then [trim l] else [])"
  by (induction taken) (auto simp: requests_def)

lemma served_step:
  assumes "connection_step S parse (c, g) (c', g')" and "ls = taken @ cn_lines c" and "served taken c" and "refuses parse c"
  shows "refuses parse c' \<and> (\<exists>taken'. ls = taken' @ cn_lines c' \<and> served taken' c')"
  using assms(1)
proof (cases rule: connection_step.cases)
  case (reads nw uuid key w)
  show ?thesis
  proof (cases "cn_lines c")
    case Nil
    then have "c' = c\<lparr>cn_open := False\<rparr>" using reads by (simp add: read_line_def)
    with assms show ?thesis by (auto simp: served_def refuses_def asked_def)
  next
    case (Cons raw rest)
    have lines: "ls = (taken @ [raw]) @ cn_lines c'"
      using assms(2) reads Cons
      by (auto simp: read_line_def Let_def split: taken.splits outcome.splits)
    have "served (taken @ [raw]) c'"
      using assms(3) reads Cons
      by (auto simp: served_def asked_def requests_snoc read_line_def serve_line_def Let_def
          split: taken.splits outcome.splits if_splits sum.splits option.splits prod.splits)
    moreover have "refuses parse c'"
      using assms(4) reads Cons
      by (auto simp: refuses_def read_line_def serve_line_def Let_def
          split: taken.splits outcome.splits if_splits sum.splits option.splits prod.splits)
    ultimately show ?thesis using lines by blast
  qed
next
  case (reports w)
  then show ?thesis using assms(2-4)
    by (cases "cn_waits c")
      (auto simp: loop_reported_def served_def refuses_def asked_def split: option.splits prod.splits intro: prefixI [OF sym])
next
  case pushes
  then show ?thesis using assms(2-4) by (auto simp: served_def refuses_def asked_def)
next
  case breaks
  then show ?thesis using assms(2-4) by (auto simp: served_def refuses_def asked_def)
next
  case elsewhere
  then show ?thesis using assms(2-4) by auto
qed

lemma done_answer_step: "loop_reported w c g = (c', g') \<Longrightarrow> server_run S g0 g \<Longrightarrow> server_run S g0 g'"
  by (auto simp: loop_reported_def split: option.splits prod.splits intro: server_run.more server_step.answer)

lemma read_line_step: "read_line S parse nw uuid key w c g = (c', g') \<Longrightarrow> server_run S g0 g \<Longrightarrow> server_run S g0 g'"
  by (auto simp: read_line_def serve_line_def Let_def intro: server_run.more server_step.admin
      split: list.splits taken.splits outcome.splits if_splits sum.splits option.splits prod.splits)

lemma run_step: "connection_step S parse (c, g) (c', g') \<Longrightarrow> server_run S g0 g \<Longrightarrow> server_run S g0 g'"
  by (erule connection_step.cases) (auto dest: done_answer_step [OF sym] read_line_step [OF sym] intro: server_run.more)

text \<open>
  C7. A connection is a client of the server and nothing else. Whatever lines it gets, however pushes,
  failing writes and all other work of the server fall between them, the state it leaves is one that
  steps of the server lead to. It answers the requests it has read in their order, each once; while it
  is open no request it has read is missing, and what does not parse gets exactly the parse error and
  does not end the connection.
\<close>

theorem connection_serves_in_order:
  assumes "(connection_step S parse)\<^sup>*\<^sup>* (opened ls, g) (c, g')"
  shows "server_run S g g'
    \<and> (\<exists>taken. ls = taken @ cn_lines c \<and> prefix (asked c) (requests taken)
        \<and> (cn_open c \<longrightarrow> asked c = requests taken))
    \<and> (\<forall>line e msg. Response line msg \<in> set (cn_sent c) \<longrightarrow> parse line = Inl e \<longrightarrow> msg = parse_refusal e)"
proof -
  have "server_run S g g' \<and> refuses parse c \<and> (\<exists>taken. ls = taken @ cn_lines c \<and> served taken c)"
    using assms
  proof (induction rule: rtranclp_induct2)
    case refl
    have "served [] (opened ls)" "refuses parse (opened ls)" "ls = [] @ cn_lines (opened ls)"
      by (simp_all add: served_def refuses_def opened_def asked_def requests_def)
    then show ?case using server_run.here by blast
  next
    case (step c1 g1 c2 g2)
    then obtain taken where "ls = taken @ cn_lines c1" "served taken c1" "refuses parse c1" "server_run S g g1" by blast
    with served_step [OF step.hyps(2)] run_step [OF step.hyps(2)] show ?case by blast
  qed
  then show ?thesis by (auto simp: served_def refuses_def)
qed

text \<open>A blank line is passed over, a request is answered, and a push goes out between.\<close>

theorem connection_serves_in_order_witness:
  "\<forall>(S :: ('c, 'r) services) g. \<exists>c. (connection_step S (\<lambda>_. Inr Ping))\<^sup>*\<^sup>* (opened [[], ''x''], g) (c, g)
     \<and> server_run S g g \<and> asked c = [''x''] \<and> cn_open c \<and> length (cn_sent c) = 2"
proof (intro allI)
  fix S :: "('c, 'r) services" and g
  let ?P = "\<lambda>_. Inr Ping :: inbound result" and ?nw = "undefined :: network"
  let ?c1 = "(opened [''x''])" and ?c2 = "(opened [''x''])\<lparr>cn_sent := [PushOut (Pong [])]\<rparr>"
  let ?c3 = "(opened [])\<lparr>cn_sent := [PushOut (Pong []), Response ''x'' (Pong (sv_version S))]\<rparr>"
  have blank: "trim [] = []" and x: "trim ''x'' = ''x''" by code_simp+
  have "connection_step S ?P (opened [[], ''x''], g) (?c1, g)"
    using connection_step.reads [of "opened [[], ''x'']" S ?P g ?nw "[]" "[]" True]
    by (simp add: opened_def read_line_def serve_line_def blank)
  moreover have "connection_step S ?P (?c1, g) (?c2, g)"
    using connection_step.pushes [of ?c1 S ?P g True "Pong []"] by (simp add: opened_def send_def)
  moreover have "connection_step S ?P (?c2, g) (?c3, g)"
    using connection_step.reads [of ?c2 S ?P g ?nw "[]" "[]" True]
    by (simp add: opened_def read_line_def serve_line_def send_def x answers_def in_shared_def reply_def)
  ultimately have run: "(connection_step S ?P)\<^sup>*\<^sup>* (opened [[], ''x''], g) (?c3, g)"
    by (meson converse_rtranclp_into_rtranclp rtranclp.rtrancl_refl)
  moreover have "asked ?c3 = [''x'']" "cn_open ?c3" "length (cn_sent ?c3) = 2"
    by (simp_all add: asked_def opened_def)
  ultimately show "\<exists>c. (connection_step S ?P)\<^sup>*\<^sup>* (opened [[], ''x''], g) (c, g)
     \<and> server_run S g g \<and> asked c = [''x''] \<and> cn_open c \<and> length (cn_sent c) = 2"
    using connection_serves_in_order [OF run] by blast
qed

end
