(* ===== verification/MA_Access.thy ===== *)
theory MA_Access
  imports MA_World MA_Config
begin

text \<open>
  What guards the way in: the socket of the local client (\<open>serve\<close> of \<open>ipc/mod.rs\<close>), the keys and
  certificates of the TCP server (\<open>tls.rs\<close>), and the token without which it does not start (\<open>main.rs\<close>).
  A host is a disk with the permission bits that were set on its paths. Certificates, their
  serialisation and the TLS library are parameters.
\<close>

section \<open>A host\<close>

text \<open>A path without set bits has those the umask leaves.\<close>

record host =
  ho_disk :: disk
  ho_modes :: "string list \<rightharpoonup> nat"

definition on_host :: "(disk, 'a) io \<Rightarrow> (host, 'a) io" where
  "on_host = zoom ho_disk (\<lambda>d h. h\<lparr>ho_disk := d\<rparr>)"

definition unset_mode :: "string \<Rightarrow> host \<Rightarrow> host" where
  "unset_mode p h = h\<lparr>ho_modes := (ho_modes h)(comps p := None)\<rparr>"

text \<open>A file that a write creates is new; one that it overwrites keeps its bits.\<close>

definition host_put :: "string \<Rightarrow> string \<Rightarrow> (host, unit) io" where
  "host_put p bytes h =
     (case on_host (fs_write p bytes) h of
        (r, h') \<Rightarrow> (r, if fs_exists (ho_disk h) p then h' else unset_mode p h'))"

definition set_permissions :: "string \<Rightarrow> nat \<Rightarrow> (host, unit) io" where
  "set_permissions p bits h =
     (case on_host (guarded (\<lambda>k d. d)
        (\<lambda>d. if p = [] \<or> node_at d p = None then (Inl not_found, d) else (Inr (), d))) h of
        (Inl e, h) \<Rightarrow> (Inl e, h)
      | (Inr _, h) \<Rightarrow> (Inr (), h\<lparr>ho_modes := (ho_modes h)(comps p \<mapsto> bits)\<rparr>))"

text \<open>Binding creates the socket, and clients can connect from then on.\<close>

definition bind_listener :: "string \<Rightarrow> (host, unit) io" where
  "bind_listener p h =
     (case on_host (guarded (\<lambda>k d. d)
        (\<lambda>d. if node_at d p \<noteq> None then (Inl ''Address already in use (os error 98)'', d)
             else put_file p [] d)) h of
        (r, h') \<Rightarrow> (r, case r of Inl e \<Rightarrow> h' | Inr _ \<Rightarrow> unset_mode p h'))"

section \<open>The socket of the local client\<close>

definition prepare_socket :: "string \<Rightarrow> (host, unit) io" where
  "prepare_socket path h =
     bind_io (if fs_exists (ho_disk h) path
              then context_io (''Failed to remove stale socket: '' @ path) (on_host (fs_remove_file path)) else ok ()) (\<lambda>_.
     case parent path of
       None \<Rightarrow> ok ()
     | Some up \<Rightarrow>
         bind_io (context_io (''Failed to create socket directory: '' @ up) (on_host (fs_create_dir_all up))) (\<lambda>_.
         context_io (''Failed to restrict socket directory permissions: '' @ up) (set_permissions up 448))) h"

definition open_socket :: "string \<Rightarrow> (host, unit) io" where
  "open_socket path =
     bind_io (prepare_socket path) (\<lambda>_.
     bind_io (context_io (''Failed to bind socket: '' @ path) (bind_listener path)) (\<lambda>_.
     context_io (''Failed to restrict socket permissions: '' @ path) (set_permissions path 384)))"

section \<open>Keys and certificates\<close>

record ('k, 'certs, 'key, 'a) pki =
  pk_ca :: "'k result"
  pk_server :: "string list \<Rightarrow> 'k result"
  pk_pem :: "'k \<Rightarrow> string result"
  pk_signed :: "'k \<Rightarrow> 'k \<Rightarrow> string result"
  pk_key :: "'k \<Rightarrow> string"
  pk_is_ip :: "string \<Rightarrow> bool"
  pk_read_certs :: "string \<Rightarrow> 'certs result"
  pk_read_key :: "string \<Rightarrow> 'key option result"
  pk_config :: "'certs \<Rightarrow> 'key \<Rightarrow> 'a result"

definition write_secret :: "string \<Rightarrow> string \<Rightarrow> (host, unit) io" where
  "write_secret path contents =
     bind_io (context_io (''Failed to write '' @ path) (host_put path contents)) (\<lambda>_.
     context_io (''Failed to restrict permissions on '' @ path) (set_permissions path 384))"

definition server_names :: "(string \<Rightarrow> bool) \<Rightarrow> string \<Rightarrow> string list" where
  "server_names is_ip bind_addr =
     [''127.0.0.1'', ''::1'']
     @ (if bind_addr \<noteq> ''0.0.0.0'' \<and> bind_addr \<noteq> ''::'' \<and> is_ip bind_addr then [bind_addr] else [])"

definition generate_all ::
  "('k, 'certs, 'key, 'a) pki \<Rightarrow> string \<Rightarrow> string \<Rightarrow> string \<Rightarrow> string \<Rightarrow> string \<Rightarrow> string \<Rightarrow> (host, unit) io" where
  "generate_all P ca_dir ca_cert_path ca_key_path server_cert_path server_key_path bind_addr =
     bind_io (context_io ''Failed to create CA directory'' (on_host (fs_create_dir_all ca_dir))) (\<lambda>_.
     bind_io (context_io ''Failed to generate CA certificate'' (lift_result (pk_ca P))) (\<lambda>ca.
     bind_io (context_io ''Failed to generate server certificate''
       (lift_result (pk_server P (server_names (pk_is_ip P) bind_addr)))) (\<lambda>server.
     bind_io (context_io ''Failed to serialize CA certificate'' (lift_result (pk_pem P ca))) (\<lambda>ca_pem.
     bind_io (context_io ''Failed to sign server certificate with CA'' (lift_result (pk_signed P server ca))) (\<lambda>server_pem.
     bind_io (context_io ''Failed to write CA certificate'' (host_put ca_cert_path ca_pem)) (\<lambda>_.
     bind_io (write_secret ca_key_path (pk_key P ca)) (\<lambda>_.
     bind_io (context_io ''Failed to write server certificate'' (host_put server_cert_path server_pem)) (\<lambda>_.
     write_secret server_key_path (pk_key P server)))))))))"

definition build_tls_acceptor :: "('k, 'certs, 'key, 'a) pki \<Rightarrow> string \<Rightarrow> string \<Rightarrow> (host, 'a) io" where
  "build_tls_acceptor P cert_path key_path =
     bind_io (context_io (''Failed to read server cert: '' @ cert_path) (on_host (fs_read cert_path))) (\<lambda>cert_pem.
     bind_io (context_io (''Failed to read server key: '' @ key_path) (on_host (fs_read key_path))) (\<lambda>key_pem.
     bind_io (context_io ''Failed to parse server certificate PEM'' (lift_result (pk_read_certs P cert_pem))) (\<lambda>certs.
     bind_io (context_io ''Failed to read private key PEM'' (lift_result (pk_read_key P key_pem))) (\<lambda>key.
     case key of
       None \<Rightarrow> fail ''No private key found in key file''
     | Some key \<Rightarrow> context_io ''Failed to build TLS server config'' (lift_result (pk_config P certs key))))))"

text \<open>The four files, under the directory of the socket.\<close>

definition ca_cert_at :: "string \<Rightarrow> string" where
  "ca_cert_at base = path_join (path_join base ''ca'') ''ca-cert.pem''"

definition ca_key_at :: "string \<Rightarrow> string" where
  "ca_key_at base = path_join (path_join base ''ca'') ''ca-key.pem''"

definition server_cert_at :: "string \<Rightarrow> string" where
  "server_cert_at base = path_join base ''ipc-cert.pem''"

definition server_key_at :: "string \<Rightarrow> string" where
  "server_key_at base = path_join base ''ipc-key.pem''"

definition assets_there :: "string \<Rightarrow> host \<Rightarrow> bool" where
  "assets_there base h \<longleftrightarrow> fs_exists (ho_disk h) (ca_cert_at base) \<and> fs_exists (ho_disk h) (ca_key_at base)
     \<and> fs_exists (ho_disk h) (server_cert_at base) \<and> fs_exists (ho_disk h) (server_key_at base)"

definition ensure_tls_assets :: "('k, 'certs, 'key, 'a) pki \<Rightarrow> config \<Rightarrow> (host, 'a) io" where
  "ensure_tls_assets P cfg h =
     (case parent (cfg_ipc_socket_path cfg) of
        None \<Rightarrow> fail ''ipc_socket_path has no parent directory'' h
      | Some base \<Rightarrow>
          bind_io (if \<not> assets_there base h
                   then generate_all P (path_join base ''ca'') (ca_cert_at base) (ca_key_at base) (server_cert_at base)
                          (server_key_at base) (cfg_ipc_bind_addr cfg)
                   else ok ()) (\<lambda>_.
          build_tls_acceptor P (server_cert_at base) (server_key_at base)) h)"

section \<open>The start of the TCP server\<close>

text \<open>
  \<open>MA_IPC_TOKEN\<close> must hold a token, and the certificates must be there, or the process exits; the result
  is the address, the port, the token and the acceptor it then serves with.
\<close>

definition open_tcp ::
  "('k, 'certs, 'key, 'a) pki \<Rightarrow> string \<Rightarrow> config \<Rightarrow> (host, (string \<times> 16 word \<times> string \<times> 'a) option) io" where
  "open_tcp P admin_token cfg =
     (case cfg_ipc_port cfg of
        None \<Rightarrow> ok None
      | Some port \<Rightarrow>
          if admin_token = [] then fail ''MA_IPC_TOKEN must be set when TCP IPC is enabled.''
          else
            bind_io (context_io ''Failed to initialize TLS assets'' (ensure_tls_assets P cfg)) (\<lambda>acceptor.
            ok (Some (cfg_ipc_bind_addr cfg, port, admin_token, acceptor))))"

end
