(* ===== verification/MA_Access_Facts.thy ===== *)
theory MA_Access_Facts
  imports MA_Access MA_Annotator_Facts
begin

text \<open>
  The local socket is its owner's alone from the moment it can be connected to; keys and certificates
  that a start generates belong together and the keys are the owner's; and a start that fails half way
  leaves a certificate authority that the next start does not use.
\<close>

section \<open>Single operations\<close>

text \<open>What is seen of a path: what it holds and the bits set on it.\<close>

definition seen :: "host \<Rightarrow> string \<Rightarrow> node option \<times> nat option" where
  "seen h p = (node_at (ho_disk h) p, ho_modes h (comps p))"

lemma seen_eq: "seen h p = (n, m) \<longleftrightarrow> node_at (ho_disk h) p = n \<and> ho_modes h (comps p) = m"
  by (simp add: seen_def)

lemma on_host_result:
  "on_host m h = (r, h') \<longleftrightarrow> m (ho_disk h) = (r, ho_disk h') \<and> ho_modes h' = ho_modes h"
  by (cases h, cases h') (auto simp: on_host_def zoom_def split: prod.splits)

lemma host_put_seen:
  assumes "host_put p bytes h = (r, h')"
  shows "comps q \<noteq> comps p \<Longrightarrow> seen h' q = seen h q"
    and "r = Inr () \<Longrightarrow> node_at (ho_disk h') p = Some (File bytes)"
proof -
  obtain h1 where w: "on_host (fs_write p bytes) h = (r, h1)"
    and h': "h' = (if fs_exists (ho_disk h) p then h1 else unset_mode p h1)"
    using assms by (auto simp: host_put_def split: prod.splits)
  note run = w [unfolded on_host_result, THEN conjunct1] and modes = w [unfolded on_host_result, THEN conjunct2]
  show "comps q \<noteq> comps p \<Longrightarrow> seen h' q = seen h q"
    using fs_write_result(1) [OF run] modes h' by (simp add: seen_def unset_mode_def)
  show "r = Inr () \<Longrightarrow> node_at (ho_disk h') p = Some (File bytes)"
    using fs_write_result(2) [OF run] h' by (simp add: unset_mode_def)
qed

lemma set_permissions_seen:
  assumes "set_permissions p bits h = (r, h')"
  shows "tree (ho_disk h') = tree (ho_disk h)"
    and "comps q \<noteq> comps p \<Longrightarrow> seen h' q = seen h q"
    and "r = Inr () \<Longrightarrow> ho_modes h' (comps p) = Some bits"
    and "r = Inl e \<Longrightarrow> ho_modes h' = ho_modes h"
proof -
  have "tree (ho_disk h') = tree (ho_disk h)
      \<and> (case r of Inl _ \<Rightarrow> ho_modes h' = ho_modes h | Inr _ \<Rightarrow> ho_modes h' = (ho_modes h)(comps p \<mapsto> bits))"
    using assms
    by (auto simp: set_permissions_def on_host_def zoom_def guarded_def dest: next_fault_tree
        split: prod.splits sum.splits option.splits if_splits)
  then show "tree (ho_disk h') = tree (ho_disk h)"
    and "comps q \<noteq> comps p \<Longrightarrow> seen h' q = seen h q"
    and "r = Inr () \<Longrightarrow> ho_modes h' (comps p) = Some bits"
    and "r = Inl e \<Longrightarrow> ho_modes h' = ho_modes h"
    using node_at_same [of "ho_disk h'" "ho_disk h" q] by (auto simp: seen_def split: sum.splits)
qed

lemma write_secret_seen:
  assumes "write_secret p bytes h = (r, h')"
  shows "comps q \<noteq> comps p \<Longrightarrow> seen h' q = seen h q"
    and "r = Inr () \<Longrightarrow> seen h' p = (Some (File bytes), Some 384)"
proof -
  obtain r1 h1 where w: "host_put p bytes h = (r1, h1)" by fastforce
  have "(comps q \<noteq> comps p \<longrightarrow> seen h' q = seen h q) \<and> (r = Inr () \<longrightarrow> seen h' p = (Some (File bytes), Some 384))"
  proof (cases r1)
    case (Inl e)
    with assms w host_put_seen(1) [OF w] show ?thesis
      by (auto simp: write_secret_def bind_io_def context_io_def)
  next
    case (Inr u)
    obtain r2 h2 where p: "set_permissions p 384 h1 = (r2, h2)" by fastforce
    have "h' = h2" "r = Inr () \<longleftrightarrow> r2 = Inr ()"
      using assms w Inr p by (auto simp: write_secret_def bind_io_def context_io_def split: sum.splits)
    with set_permissions_seen [OF p] host_put_seen [OF w] Inr node_at_same [of "ho_disk h2" "ho_disk h1" p]
    show ?thesis by (auto simp: seen_def)
  qed
  then show "comps q \<noteq> comps p \<Longrightarrow> seen h' q = seen h q"
    and "r = Inr () \<Longrightarrow> seen h' p = (Some (File bytes), Some 384)" by auto
qed

section \<open>The socket\<close>

lemma comps_apart_parent:
  assumes "parent p = Some up" shows "comps up \<noteq> comps p"
proof -
  have up: "comps p \<noteq> []" "up = path_of (butlast (comps p))"
    using assms by (auto simp: parent_def Let_def split: if_splits)
  have "well_comps (butlast (comps p))"
    using well_comps_comps [of p] by (auto simp: well_comps_def list_all_iff dest: in_set_butlastD split: list.splits)
  then have "comps up = butlast (comps p)" using up(2) by (simp add: comps_path_of)
  then show ?thesis using up(1) by (metis append_butlast_last_id append_self_conv list.distinct(1))
qed

text \<open>
  When the server listens, the directory of the socket was already the owner's alone before clients could
  connect, and in the end the socket is as well.
\<close>

lemma socket_owner_only:
  assumes "open_socket path h = (Inr (), h')" and "parent path = Some up"
  obtains h1 h2 where "bind_listener path h1 = (Inr (), h2)" "ho_modes h1 (comps up) = Some 448"
    "ho_modes h' (comps up) = Some 448" "ho_modes h' (comps path) = Some 384"
proof -
  obtain h1 where pre: "prepare_socket path h = (Inr (), h1)"
    and rest: "bind_io (context_io (''Failed to bind socket: '' @ path) (bind_listener path)) (\<lambda>_.
      context_io (''Failed to restrict socket permissions: '' @ path) (set_permissions path 384)) h1 = (Inr (), h')"
    using assms(1) by (auto simp: open_socket_def bind_io_Inr_iff)
  obtain h2 where bnd: "bind_listener path h1 = (Inr (), h2)" and chm: "set_permissions path 384 h2 = (Inr (), h')"
    using rest by (auto simp: bind_io_Inr_iff)
  have up: "ho_modes h1 (comps up) = Some 448"
    using pre assms(2) by (auto simp: prepare_socket_def bind_io_Inr_iff dest!: set_permissions_seen(3))
  have apart: "comps up \<noteq> comps path" by (rule comps_apart_parent [OF assms(2)])
  have "ho_modes h2 (comps up) = ho_modes h1 (comps up)"
    using bnd apart by (auto simp: bind_listener_def unset_mode_def on_host_result split: prod.splits sum.splits)
  moreover have "ho_modes h' (comps up) = ho_modes h2 (comps up)"
    using set_permissions_seen(2) [OF chm apart] by (simp add: seen_def)
  ultimately show thesis using that [OF bnd up] up set_permissions_seen(3) [OF chm] by simp
qed

section \<open>Keys and certificates\<close>

lemma comps_below: "\<not> prefix ''/'' s \<Longrightarrow> comps (path_join p s) = comps p @ comps s"
  by (cases "p = []") (simp_all add: comps_join, simp add: path_join_def comps_def)

lemma asset_comps [simp]:
  "comps (ca_cert_at base) = comps base @ [''ca'', ''ca-cert.pem'']"
  "comps (ca_key_at base) = comps base @ [''ca'', ''ca-key.pem'']"
  "comps (server_cert_at base) = comps base @ [''ipc-cert.pem'']"
  "comps (server_key_at base) = comps base @ [''ipc-key.pem'']"
  by (simp_all add: ca_cert_at_def ca_key_at_def server_cert_at_def server_key_at_def comps_below comps_name)

interpretation same_seen: kept "\<lambda>h h'. \<forall>q. seen h' q = seen h q"
  by unfold_locales simp_all

lemma read_seen: "stays (\<lambda>h h'. \<forall>q. seen h' q = seen h q) (on_host (fs_read p))"
  using node_at_same [OF read_tree [of p]] by (auto simp: stays_def on_host_def zoom_def seen_def split: prod.splits)
    (metis snd_conv)

lemma acceptor_only_reads: "stays (\<lambda>h h'. \<forall>q. seen h' q = seen h q) (build_tls_acceptor P c k)"
  unfolding build_tls_acceptor_def
  by (intro same_seen.keep_bind same_seen.keep_context read_seen same_seen.keep_pure)
    (simp split: option.splits add: same_seen.keep_pure same_seen.keep_context)

text \<open>Assets that are all there are only read.\<close>

lemma assets_kept:
  assumes "parent (cfg_ipc_socket_path cfg) = Some base" and "assets_there base h"
    and "ensure_tls_assets P cfg h = (r, h')"
  shows "seen h' q = seen h q"
  using assms staysD [OF acceptor_only_reads] by (fastforce simp: ensure_tls_assets_def)

text \<open>Otherwise an acceptor is had only with four new files: two certificates, one signed by the other's key.\<close>

lemma assets_generated:
  assumes "parent (cfg_ipc_socket_path cfg) = Some base" and "\<not> assets_there base h"
    and "ensure_tls_assets P cfg h = (Inr a, h')"
  obtains ca server ca_pem server_pem where
    "pk_ca P = Inr ca" "pk_server P (server_names (pk_is_ip P) (cfg_ipc_bind_addr cfg)) = Inr server"
    "pk_pem P ca = Inr ca_pem" "pk_signed P server ca = Inr server_pem"
    "node_at (ho_disk h') (ca_cert_at base) = Some (File ca_pem)"
    "seen h' (ca_key_at base) = (Some (File (pk_key P ca)), Some 384)"
    "node_at (ho_disk h') (server_cert_at base) = Some (File server_pem)"
    "seen h' (server_key_at base) = (Some (File (pk_key P server)), Some 384)"
proof -
  let ?gen = "generate_all P (path_join base ''ca'') (ca_cert_at base) (ca_key_at base) (server_cert_at base)
    (server_key_at base) (cfg_ipc_bind_addr cfg)"
  obtain h5 where gen: "?gen h = (Inr (), h5)"
    and acc: "build_tls_acceptor P (server_cert_at base) (server_key_at base) h5 = (Inr a, h')"
    using assms by (auto simp: ensure_tls_assets_def bind_io_Inr_iff)
  obtain ca server ca_pem server_pem h1 h2 h3 h4 where pki: "pk_ca P = Inr ca"
      "pk_server P (server_names (pk_is_ip P) (cfg_ipc_bind_addr cfg)) = Inr server"
      "pk_pem P ca = Inr ca_pem" "pk_signed P server ca = Inr server_pem"
    and steps: "host_put (ca_cert_at base) ca_pem h1 = (Inr (), h2)"
      "write_secret (ca_key_at base) (pk_key P ca) h2 = (Inr (), h3)"
      "host_put (server_cert_at base) server_pem h3 = (Inr (), h4)"
      "write_secret (server_key_at base) (pk_key P server) h4 = (Inr (), h5)"
    using gen unfolding generate_all_def by (auto simp: bind_io_Inr_iff lift_result_def)
  have same: "seen h' q = seen h5 q" for q using staysD [OF acceptor_only_reads acc] by blast
  have "fst (seen h' (ca_cert_at base)) = Some (File ca_pem)"
    using host_put_seen(2) [OF steps(1)]
    by (simp add: same write_secret_seen(1) [OF steps(4)] host_put_seen(1) [OF steps(3)] write_secret_seen(1) [OF steps(2)])
      (simp add: seen_def)
  moreover have "seen h' (ca_key_at base) = (Some (File (pk_key P ca)), Some 384)"
    using write_secret_seen(2) [OF steps(2)]
    by (simp add: same write_secret_seen(1) [OF steps(4)] host_put_seen(1) [OF steps(3)])
  moreover have "fst (seen h' (server_cert_at base)) = Some (File server_pem)"
    using host_put_seen(2) [OF steps(3)] by (simp add: same write_secret_seen(1) [OF steps(4)]) (simp add: seen_def)
  moreover have "seen h' (server_key_at base) = (Some (File (pk_key P server)), Some 384)"
    using write_secret_seen(2) [OF steps(4)] by (simp add: same)
  ultimately show thesis using that [OF pki] by (simp add: seen_def)
qed

section \<open>A start that fails half way\<close>

text \<open>
  A start finds the key of the authority gone, writes a new authority over the old certificate, and
  fails to restrict the new key. The next start finds four files and is content: it serves the old
  certificate, which the new authority never signed, and the new key of the authority stays readable.
\<close>

definition demo_pki :: "string \<Rightarrow> (string, string, string, string \<times> string) pki" where
  "demo_pki fresh =
     \<lparr>pk_ca = Inr (''ca-'' @ fresh), pk_server = (\<lambda>_. Inr (''server-'' @ fresh)), pk_pem = Inr,
      pk_signed = (\<lambda>k ca. Inr (k @ '' by '' @ ca)), pk_key = (\<lambda>k. ''key of '' @ k), pk_is_ip = (\<lambda>_. False),
      pk_read_certs = Inr, pk_read_key = (\<lambda>k. Inr (Some k)), pk_config = (\<lambda>c k. Inr (c, k))\<rparr>"

definition old_host :: host where
  "old_host =
     \<lparr>ho_disk = \<lparr>tree =
        [([''/'', ''m''], Dir), ([''/'', ''m'', ''ca''], Dir), ([''/'', ''m'', ''ca'', ''ca-cert.pem''], File ''ca-old''),
         ([''/'', ''m'', ''ipc-cert.pem''], File ''server-old by ca-old''),
         ([''/'', ''m'', ''ipc-key.pem''], File ''key of server-old'')],
        faults = [None, None, None, Some (''denied'', 0)]\<rparr>, ho_modes = Map.empty\<rparr>"

definition ensured :: "string \<Rightarrow> host \<Rightarrow> (string \<times> string) result \<times> host" where
  "ensured fresh h =
     bind_io (if \<not> assets_there ''/m'' h
              then generate_all (demo_pki fresh) (path_join ''/m'' ''ca'') (ca_cert_at ''/m'') (ca_key_at ''/m'')
                     (server_cert_at ''/m'') (server_key_at ''/m'') [] else ok ())
       (\<lambda>_. build_tls_acceptor (demo_pki fresh) (server_cert_at ''/m'') (server_key_at ''/m'')) h"

lemma ensured:
  assumes "cfg_ipc_socket_path cfg = ''/m/ma.sock''"
  shows "ensure_tls_assets (demo_pki fresh) cfg h = ensured fresh h"
proof -
  have "parent ''/m/ma.sock'' = Some ''/m''" by code_simp
  then show ?thesis using assms by (simp add: ensure_tls_assets_def ensured_def generate_all_def demo_pki_def)
qed

lemma half_start_mixes_assets:
  assumes "cfg_ipc_socket_path cfg = ''/m/ma.sock''"
  obtains e h1 h2 where "ensure_tls_assets (demo_pki ''new'') cfg old_host = (Inl e, h1)"
    "ensure_tls_assets (demo_pki ''next'') cfg h1 = (Inr (''server-old by ca-old'', ''key of server-old''), h2)"
    "seen h2 (ca_cert_at ''/m'') = (Some (File ''ca-new''), None)"
    "seen h2 (ca_key_at ''/m'') = (Some (File ''key of ca-new''), None)"
proof -
  let ?h1 = "snd (ensured ''new'' old_host)"
  let ?h2 = "snd (ensured ''next'' ?h1)"
  have "ensured ''new'' old_host = (Inl ''Failed to restrict permissions on /m/ca/ca-key.pem: denied'', ?h1)
      \<and> ensured ''next'' ?h1 = (Inr (''server-old by ca-old'', ''key of server-old''), ?h2)"
    by (rule conjI; rule prod_eqI; (rule refl | simp only: fst_conv snd_conv); code_simp)
  moreover have "seen ?h2 (ca_cert_at ''/m'') = (Some (File ''ca-new''), None)" by code_simp
  moreover have "seen ?h2 (ca_key_at ''/m'') = (Some (File ''key of ca-new''), None)" by code_simp
  ultimately show thesis using that [unfolded ensured [OF assms]] by blast
qed

section \<open>The token\<close>

text \<open>Over TCP a connection becomes an admin's only by the token the server was started with.\<close>

lemma admin_shows_token:
  assumes "open_tcp P admin_token cfg h = (Inr (Some (bind_addr, port, secret, acceptor)), h')"
    and "tcp_opening parse secret line = AdminConnection"
  shows "secret \<noteq> [] \<and> secret = admin_token \<and> trim line = secret"
proof -
  have "secret = admin_token \<and> admin_token \<noteq> []"
    using assms(1) by (auto simp: open_tcp_def bind_io_Inr_iff split: option.splits if_splits)
  then show ?thesis using assms(2)
    by (auto simp: tcp_opening_def Let_def constant_time_eq_iff split: if_splits sum.splits inbound.splits)
qed

end
