(* ===== verification/MA_Observability.thy ===== *)
theory MA_Observability
  imports MA_Management MA_Config
begin

text \<open>
  The decisions of \<open>observability/mod.rs\<close>: where the metrics endpoint listens and whom it answers, where
  logs go, and what an alert sends. The counters themselves are only written; what they encode to is a
  parameter.
\<close>

section \<open>The metrics endpoint\<close>

definition LOOPBACK :: "string set" where
  "LOOPBACK = {''127.0.0.1'', ''::1'', ''localhost''}"

definition resolve_metrics_bind :: "string \<Rightarrow> bool \<Rightarrow> string \<times> bool" where
  "resolve_metrics_bind bind_addr token_empty =
     (let is_loopback = bind_addr \<in> LOOPBACK in
      if \<not> is_loopback \<and> token_empty then (''127.0.0.1'', True) else (bind_addr, False))"

definition metrics_unauthorized :: string where
  "metrics_unauthorized =
     ''HTTP/1.1 401 Unauthorized'' @ crlf @ ''Content-Length: 0'' @ crlf @ ''WWW-Authenticate: Bearer'' @ crlf @ crlf"

definition metrics_response :: "string \<Rightarrow> string" where
  "metrics_response body =
     ''HTTP/1.1 200 OK'' @ crlf @ ''Content-Type: text/plain; version=0.0.4'' @ crlf @ ''Content-Length: ''
       @ show_nat (length body) @ crlf @ crlf @ body"

text \<open>
  The answer to what one read gave, nothing when the read failed; \<open>encoded\<close> is the text of the registry,
  unless there is none or it cannot be encoded, when the connection is closed without an answer.
\<close>

definition answer_metrics :: "string \<Rightarrow> string result option \<Rightarrow> string \<Rightarrow> string option" where
  "answer_metrics secret encoded buf =
     (if secret \<noteq> [] \<and> \<not> constant_time_eq (bearer_of (from_utf8_lossy buf)) secret then Some metrics_unauthorized
      else
        (case encoded of
           Some (Inr body) \<Rightarrow> Some (metrics_response body)
         | _ \<Rightarrow> None))"

text \<open>The host the endpoint listens on, and its answer to a request.\<close>

definition serve_metrics :: "observability_config \<Rightarrow> string result option \<Rightarrow> string \<Rightarrow> string \<times> string option" where
  "serve_metrics cfg encoded buf =
     (fst (resolve_metrics_bind (ob_metrics_bind_addr cfg) (ob_metrics_token cfg = [])),
      answer_metrics (ob_metrics_token cfg) encoded buf)"

section \<open>Logs and alerts\<close>

datatype log_target = Stdout | LogFile string string

definition tracing_target :: "observability_config \<Rightarrow> log_target" where
  "tracing_target cfg =
     (if ob_log_output cfg = ''file'' \<and> ob_log_file_path cfg \<noteq> []
      then LogFile (unwrap_or ''.'' (parent (ob_log_file_path cfg)))
             (unwrap_or ''ma-core.log'' (Option.bind (file_name (ob_log_file_path cfg)) (\<lambda>n. if utf8 n then Some n else None)))
      else Stdout)"

text \<open>The request an alert makes, at a printed time; a failing one is only reported on the standard error.\<close>

definition send_alert :: "string \<Rightarrow> string \<Rightarrow> string \<Rightarrow> (string \<times> json) option" where
  "send_alert webhook_url message now =
     (if webhook_url = [] then None
      else Some (webhook_url, Object [(''source'', Str ''ma-core''), (''message'', Str message), (''timestamp'', Str now)]))"

text \<open>
  The two queue monitors, at what a gauge reads as an integer: an alert when the queue is deeper than
  configured.
\<close>

definition queue_alert :: "string \<Rightarrow> observability_config \<Rightarrow> u64 \<Rightarrow> u64 \<Rightarrow> string \<Rightarrow> (string \<times> json) option" where
  "queue_alert what cfg warn depth now =
     (if depth > warn
      then send_alert (ob_alert_webhook_url cfg)
        (what @ '' queue depth '' @ show_nat (unat depth) @ '' exceeds threshold '' @ show_nat (unat warn)) now
      else None)"

definition upload_queue_monitor :: "observability_config \<Rightarrow> u64 \<Rightarrow> string \<Rightarrow> (string \<times> json) option" where
  "upload_queue_monitor cfg = queue_alert ''Cloud upload'' cfg (ob_upload_queue_warn cfg)"

definition push_queue_monitor :: "observability_config \<Rightarrow> u64 \<Rightarrow> string \<Rightarrow> (string \<times> json) option" where
  "push_queue_monitor cfg = queue_alert ''IPC push'' cfg (ob_ipc_push_queue_warn cfg)"

text \<open>
  What a report on the pricing registry does (\<open>ipc/mod.rs\<close>): the age the gauge is set to, and the alert on
  a manifest that failed its signature.
\<close>

definition pricing_report ::
  "observability_config \<Rightarrow> string \<Rightarrow> int option \<Rightarrow> string \<Rightarrow> int option \<times> (string \<times> json) option" where
  "pricing_report cfg status manifest_age_seconds now =
     ((case manifest_age_seconds of Some age \<Rightarrow> if age \<ge> 0 then Some age else None | None \<Rightarrow> None),
      if status = ''signature_failure''
      then send_alert (ob_alert_webhook_url cfg)
        (''CRITICAL: Pricing registry signature verification failed '' @ em_dash
         @ '' manifest discarded, falling back to cache or baseline'') now
      else None)"

section \<open>The lag of the Kafka consumer\<close>

text \<open>
  One round of the lag monitor (\<open>kafka/consumer.rs\<close>), over what its own consumer is assigned and the
  watermarks of a partition: what the gauge is set to, when it is, and the alert. Both ways of asking for
  the committed offset end in the low watermark.
\<close>

record lag_client =
  lc_assignment :: "(string \<times> 32 word) list result"
  lc_watermarks :: "string \<Rightarrow> 32 word \<Rightarrow> (64 word \<times> 64 word) result"

definition partition_lag :: "lag_client \<Rightarrow> string \<times> 32 word \<Rightarrow> 64 word \<Rightarrow> 64 word" where
  "partition_lag lc elem total_lag =
     (case lc_watermarks lc (fst elem) (snd elem) of
        Inl e \<Rightarrow> total_lag
      | Inr (low, high) \<Rightarrow> if 0 <s high - low then total_lag + (high - low) else total_lag)"

definition lag_round ::
  "lag_client \<Rightarrow> observability_config \<Rightarrow> string \<Rightarrow> 64 word option \<times> (string \<times> json) option" where
  "lag_round lc cfg now =
     (case lc_assignment lc of
        Inl e \<Rightarrow> (None, None)
      | Inr [] \<Rightarrow> (None, None)
      | Inr elems \<Rightarrow>
          (let total_lag = fold (partition_lag lc) elems 0 in
           (Some total_lag,
            if ob_kafka_lag_warn cfg <s total_lag
            then send_alert (ob_alert_webhook_url cfg)
              (''Kafka consumer lag '' @ show_int (sint total_lag) @ '' exceeds threshold ''
               @ show_int (sint (ob_kafka_lag_warn cfg))) now
            else None)))"

section \<open>Nothing in the open\<close>

text \<open>
  Metrics never leave the host without the token. Whatever is configured and requested, when the
  endpoint answers with the metrics, either it listens on a loopback address, or a token is configured and
  the request carries it.
\<close>

lemma metrics_guarded:
  assumes "serve_metrics cfg encoded buf = (host, Some resp)" and "resp \<noteq> metrics_unauthorized"
  shows "host \<in> LOOPBACK \<or> ob_metrics_token cfg \<noteq> [] \<and> bearer_of (from_utf8_lossy buf) = ob_metrics_token cfg"
  using assms
  by (auto simp: serve_metrics_def resolve_metrics_bind_def answer_metrics_def LOOPBACK_def constant_time_eq_iff
      split: if_splits)

end
