(* ===== verification/MA_Producer.thy ===== *)
theory MA_Producer
  imports MA_Kafka_Facts
begin

text \<open>
  The Kafka producer (\<open>ma-kafka-producer/src/main.rs\<close>), a program of its own: it watches one
  Control-Center and publishes every event to the topic the consumers read, under the id of one session.
  The Kafka client, the gRPC client and the JSON texts are parameters.
\<close>

section \<open>Events to records\<close>

definition TOPIC :: string where
  "TOPIC = ''control-center-events''"

record producer_codec =
  event_to_json :: "command_event \<Rightarrow> json result"
  envelope_to_json :: "kafka_envelope \<Rightarrow> string result"

definition envelope_of :: "string \<Rightarrow> command_event \<Rightarrow> json \<Rightarrow> kafka_envelope" where
  "envelope_of sid event payload =
     \<lparr>en_schema_version = ''1.0'', en_session_id = sid, en_event_type = ''command_event'',
      en_timestamp = timestamp event, en_payload = payload\<rparr>"

text \<open>The text an event is published as, unless it is a heartbeat or cannot be written.\<close>

definition published_text :: "producer_codec \<Rightarrow> string \<Rightarrow> command_event \<Rightarrow> string option" where
  "published_text pc sid event =
     (if is_heartbeat event then None
      else
        (case event_to_json pc event of
           Inl e \<Rightarrow> None
         | Inr payload \<Rightarrow>
             (case envelope_to_json pc (envelope_of sid event payload) of Inl e \<Rightarrow> None | Inr json \<Rightarrow> Some json)))"

section \<open>The loop\<close>

text \<open>
  What a send comes to: a place in the log that is confirmed, none at all, or one whose confirmation got
  lost. The last two are failures to the producer.
\<close>

datatype delivery = Confirmed "32 word" "64 word" | Unsent | Unconfirmed "32 word" "64 word"

fun landed_at :: "delivery \<Rightarrow> (32 word \<times> 64 word) option" where
  "landed_at (Confirmed p off) = Some (p, off)"
| "landed_at Unsent = None"
| "landed_at (Unconfirmed p off) = Some (p, off)"

datatype stream_turn = StreamEnded | StreamBroke string | StreamEvent command_event delivery

text \<open>The number the producer believes to have published, and the keyed records of the topic.\<close>

record produced =
  pr_published :: u64
  pr_topic :: "(string \<times> kafka_message) list"

definition publish_event :: "producer_codec \<Rightarrow> string \<Rightarrow> command_event \<Rightarrow> delivery \<Rightarrow> produced \<Rightarrow> produced" where
  "publish_event pc sid event d pr =
     (case published_text pc sid event of
        None \<Rightarrow> pr
      | Some json \<Rightarrow>
          (let pr = (case d of Confirmed p off \<Rightarrow> pr\<lparr>pr_published := pr_published pr + 1\<rparr> | _ \<Rightarrow> pr) in
           case landed_at d of
             None \<Rightarrow> pr
           | Some (p, off) \<Rightarrow>
               pr\<lparr>pr_topic := pr_topic pr
                 @ [(sid, \<lparr>km_payload = Some json, km_partition = p, km_offset = off\<rparr>)]\<rparr>))"

fun publish_stream :: "producer_codec \<Rightarrow> string \<Rightarrow> stream_turn list \<Rightarrow> produced \<Rightarrow> produced" where
  "publish_stream pc sid [] pr = pr"
| "publish_stream pc sid (StreamEnded # rest) pr = pr"
| "publish_stream pc sid (StreamBroke e # rest) pr = pr"
| "publish_stream pc sid (StreamEvent event d # rest) pr = publish_stream pc sid rest (publish_event pc sid event d pr)"

section \<open>The program\<close>

fun get_arg :: "string list \<Rightarrow> string \<Rightarrow> string option" where
  "get_arg (a # b # rest) flag = (if a = flag then Some b else get_arg (b # rest) flag)"
| "get_arg _ flag = None"

record producer_env =
  pe_codec :: producer_codec
  pe_producer :: "string \<Rightarrow> unit result"
  pe_connect :: "string \<Rightarrow> unit result"
  pe_watch :: "stream_turn list result"

definition needed :: "string \<Rightarrow> 'a option \<Rightarrow> 'a result" where
  "needed what v = (case v of None \<Rightarrow> Inl what | Some a \<Rightarrow> Inr a)"

definition in_context :: "string \<Rightarrow> 'a result \<Rightarrow> 'a result" where
  "in_context c r = (case r of Inl e \<Rightarrow> Inl (c @ '': '' @ e) | Inr a \<Rightarrow> Inr a)"

definition producer_main :: "producer_env \<Rightarrow> string list \<Rightarrow> produced result" where
  "producer_main E args =
     and_then (needed ''--cc-addr <gRPC address> is required e.g. http://127.0.0.1:50051'' (get_arg args ''--cc-addr'')) (\<lambda>cc_addr.
     and_then (needed ''--kafka-broker <host:port> is required e.g. localhost:9092'' (get_arg args ''--kafka-broker'')) (\<lambda>broker.
     and_then (needed ''--session-id <uuid> is required (use the id from memory-archive session register)''
       (get_arg args ''--session-id'')) (\<lambda>sid.
     and_then (in_context ''Failed to create Kafka producer'' (pe_producer E broker)) (\<lambda>_.
     and_then (in_context (''Failed to connect to Control-Center at '' @ cc_addr) (pe_connect E cc_addr)) (\<lambda>_.
     and_then (in_context ''Failed to initiate WatchCommands stream'' (pe_watch E)) (\<lambda>turns.
     Inr (publish_stream (pe_codec E) sid turns \<lparr>pr_published = 0, pr_topic = []\<rparr>)))))))"

section \<open>From the agent to the archive\<close>

text \<open>The events of a stream that reach the topic, with their places.\<close>

fun arriving :: "producer_codec \<Rightarrow> string \<Rightarrow> stream_turn list \<Rightarrow> kafka_event list" where
  "arriving pc sid (StreamEvent event d # rest) =
     (case landed_at d of
        Some (p, off) \<Rightarrow>
          if published_text pc sid event \<noteq> None
          then [\<lparr>ke_event = event, ke_partition = p, ke_offset = off\<rparr>] else []
      | None \<Rightarrow> []) @ arriving pc sid rest"
| "arriving pc sid _ = []"

definition codecs_agree :: "producer_codec \<Rightarrow> envelope_codec \<Rightarrow> bool" where
  "codecs_agree pc ec \<longleftrightarrow>
     (\<forall>event j. event_to_json pc event = Inr j \<longrightarrow> event_from_json ec j = Inr event)
     \<and> (\<forall>v s. envelope_to_json pc v = Inr s \<longrightarrow> envelope_from_json ec s = Inr v)"

lemma published_parses:
  assumes "codecs_agree pc ec" and "published_text pc sid event = Some json"
  shows "message_event ec \<lparr>km_payload = Some json, km_partition = p, km_offset = off\<rparr>
    = Some (sid, \<lparr>ke_event = event, ke_partition = p, ke_offset = off\<rparr>)"
  using assms
  by (auto simp: codecs_agree_def published_text_def message_event_def envelope_of_def split: if_splits sum.splits)

lemma publish_event_arrives:
  assumes "codecs_agree pc ec"
  shows "map (\<lambda>(k, m). (k, message_event ec m)) (pr_topic (publish_event pc sid event d pr))
    = map (\<lambda>(k, m). (k, message_event ec m)) (pr_topic pr)
      @ map (\<lambda>ke. (sid, Some (sid, ke))) (arriving pc sid [StreamEvent event d])"
  by (cases "published_text pc sid event"; cases d)
    (simp_all add: publish_event_def Let_def published_parses [OF assms])

lemma publish_stream_arrives:
  assumes "codecs_agree pc ec"
  shows "map (\<lambda>(k, m). (k, message_event ec m)) (pr_topic (publish_stream pc sid turns pr))
    = map (\<lambda>(k, m). (k, message_event ec m)) (pr_topic pr) @ map (\<lambda>ke. (sid, Some (sid, ke))) (arriving pc sid turns)"
  using assms
proof (induction pc sid turns pr rule: publish_stream.induct)
  case (4 pc sid event d rest pr)
  then show ?case using publish_event_arrives [OF 4(2), of sid event d pr] by simp
qed simp_all

lemma replayed_topic:
  assumes "map (\<lambda>(k, m). (k, message_event ec m)) topic = map (\<lambda>ke. (sid, Some (sid, ke))) kes"
  shows "replayed ec sid' (map (\<lambda>(k, m). Polled m) topic) = (if sid' = sid then kes else [])"
  using assms
proof (induction kes arbitrary: topic)
  case Nil
  then show ?case by (simp add: replayed_simps)
next
  case (Cons ke kes)
  then obtain k m topic' where t: "topic = (k, m) # topic'" "message_event ec m = Some (sid, ke)"
    and rest: "map (\<lambda>(k, m). (k, message_event ec m)) topic' = map (\<lambda>ke. (sid, Some (sid, ke))) kes"
    by (cases topic) auto
  show ?case using Cons.IH [OF rest] t by (auto simp: event_for_def replayed_simps)
qed


text \<open>Codecs that can write the raw command of an otherwise default event.\<close>

definition plain_event :: "string \<Rightarrow> command_event" where
  "plain_event raw = default_event\<lparr>raw_command := raw\<rparr>"

definition demo_producer :: "stream_turn list \<Rightarrow> producer_env" where
  "demo_producer turns =
     \<lparr>pe_codec =
        \<lparr>event_to_json = (\<lambda>e. if e = plain_event (raw_command e) then Inr (Str (raw_command e)) else Inl ''other''),
         envelope_to_json = (\<lambda>v. case en_payload v of
            Str s \<Rightarrow> if v = envelope_of ''s'' (plain_event s) (Str s) then Inr s else Inl ''other''
          | _ \<Rightarrow> Inl ''other'')\<rparr>,
      pe_producer = (\<lambda>_. Inr ()), pe_connect = (\<lambda>_. Inr ()), pe_watch = Inr turns\<rparr>"

definition demo_envelopes :: envelope_codec where
  "demo_envelopes =
     \<lparr>envelope_from_json = (\<lambda>s. Inr (envelope_of ''s'' (plain_event s) (Str s))),
      event_from_json = (\<lambda>j. case j of Str s \<Rightarrow> Inr (plain_event s) | _ \<Rightarrow> Inl ''other'')\<rparr>"

definition demo_turns :: "stream_turn list" where
  "demo_turns =
     [StreamEvent (plain_event ''a'') (Confirmed 0 7), StreamEvent ((plain_event ''h'')\<lparr>is_heartbeat := True\<rparr>) (Confirmed 0 8),
      StreamEvent (plain_event ''b'') Unsent, StreamEvent (plain_event ''c'') (Unconfirmed 0 9), StreamEnded]"

definition demo_args :: "string list" where
  "demo_args = [''p'', ''--cc-addr'', ''http://c'', ''--kafka-broker'', ''k:9092'', ''--session-id'', ''s'']"


end
