(* ===== verification/MA_Cloud_Open.thy ===== *)
theory MA_Cloud_Open
  imports MA_Azure
begin

text \<open>
  How the cloud backends come to be (\<open>storage/mod.rs\<close>): each is had only after its bucket or container has
  answered. What the providers' libraries build and answer is a parameter.
\<close>

section \<open>The region of a bucket\<close>

text \<open>
  A region code is looked for in what is configured, which may be the name a console displays:
  \<open>[a-z]{2,}-[a-z]+-\d+\<close>, the leftmost match. \<open>\d\<close> takes decimal digits of every script; the length of one
  that is not ASCII is a parameter.
\<close>

definition lower_letter :: "char \<Rightarrow> bool" where
  "lower_letter c \<longleftrightarrow> 97 \<le> (of_char c :: nat) \<and> (of_char c :: nat) \<le> 122"

definition digit_len :: "(string \<Rightarrow> nat) \<Rightarrow> string \<Rightarrow> nat" where
  "digit_len other_digit s =
     (case s of [] \<Rightarrow> 0 | c # _ \<Rightarrow> if is_digit c then 1 else min (other_digit s) (length s))"

function digits_run :: "(string \<Rightarrow> nat) \<Rightarrow> string \<Rightarrow> string" where
  "digits_run other_digit s =
     (if digit_len other_digit s = 0 then []
      else take (digit_len other_digit s) s @ digits_run other_digit (drop (digit_len other_digit s) s))"
  by pat_completeness auto
termination
  by (relation "measure (\<lambda>(_, s). length s)") (auto simp: digit_len_def split: list.splits)

declare digits_run.simps [simp del]

text \<open>The match that starts with the string. No letter is a dash, so taking each run whole loses nothing.\<close>

definition region_at :: "(string \<Rightarrow> nat) \<Rightarrow> string \<Rightarrow> string option" where
  "region_at other_digit s =
     (let a = takeWhile lower_letter s; s1 = dropWhile lower_letter s in
      if length a < 2 \<or> \<not> prefix ''-'' s1 then None
      else
        (let b = takeWhile lower_letter (tl s1); s2 = dropWhile lower_letter (tl s1) in
         if b = [] \<or> \<not> prefix ''-'' s2 then None
         else
           (let d = digits_run other_digit (tl s2) in
            if d = [] then None else Some (a @ ''-'' @ b @ ''-'' @ d))))"

fun find_region :: "(string \<Rightarrow> nat) \<Rightarrow> string \<Rightarrow> string option" where
  "find_region other_digit [] = None"
| "find_region other_digit (c # s) =
     (case region_at other_digit (c # s) of Some m \<Rightarrow> Some m | None \<Rightarrow> find_region other_digit s)"

definition normalize_aws_region :: "(string \<Rightarrow> nat) \<Rightarrow> string \<Rightarrow> string" where
  "normalize_aws_region other_digit region =
     (let region = trim region in
      if region = [] then region
      else (case find_region other_digit region of Some m \<Rightarrow> m | None \<Rightarrow> region))"

section \<open>Opening\<close>

text \<open>A client of a region, and the call that asks for the head of a bucket.\<close>

definition s3_new ::
  "(string \<Rightarrow> nat) \<Rightarrow> (string \<Rightarrow> string \<Rightarrow> 's s3_client) \<Rightarrow> (string \<Rightarrow> string \<Rightarrow> ('s, unit) io)
   \<Rightarrow> string \<Rightarrow> string \<Rightarrow> ('s, 's s3_client) io" where
  "s3_new other_digit client head_bucket bucket region =
     (let region_code = normalize_aws_region other_digit region in
      bind_io (context_io (''S3 bucket '' @ [squote] @ bucket @ [squote] @ '' is not accessible '' @ em_dash
          @ '' check bucket name, region, and IAM permissions'') (head_bucket region_code bucket)) (\<lambda>_.
      ok (client region_code bucket)))"

definition gcs_new ::
  "unit result \<Rightarrow> unit result \<Rightarrow> (string \<Rightarrow> ('s, unit) io) \<Rightarrow> (string \<Rightarrow> 's gcs_client) \<Rightarrow> string \<Rightarrow> ('s, 's gcs_client) io" where
  "gcs_new storage control get_bucket client bucket =
     bind_io (context_io (''Failed to build GCP Storage client '' @ em_dash @ '' check Application Default Credentials'')
       (lift_result storage)) (\<lambda>_.
     bind_io (context_io ''Failed to build GCP StorageControl client'' (lift_result control)) (\<lambda>_.
     bind_io (context_io (''GCS bucket '' @ [squote] @ bucket @ [squote] @ '' is not accessible '' @ em_dash
         @ '' check bucket name and IAM permissions (roles/storage.objectAdmin or roles/storage.objectUser)'')
       (get_bucket (''projects/_/buckets/'' @ bucket))) (\<lambda>_.
     ok (client bucket))))"

definition container_probe :: "'s azure_client \<Rightarrow> string \<Rightarrow> az_request" where
  "container_probe c = blob_request AzGet (container_url c @ ''?restype=container'')"

definition azure_new :: "unit result \<Rightarrow> 's azure_client \<Rightarrow> 's \<Rightarrow> 's azure_client result \<times> 's azure" where
  "azure_new http c s =
     bind_io (context_io ''Failed to build HTTP client for AzureBackend'' (lift_result http)) (\<lambda>_.
     bind_io (context_io (''Azure credential resolution failed for account '' @ [squote] @ az_account c @ [squote]
         @ ''. Set AZURE_TENANT_ID + AZURE_CLIENT_ID + AZURE_CLIENT_SECRET, assign a Managed Identity, or run ''
         @ [squote] @ ''az login'' @ [squote] @ ''.'') (acquire_token c)) (\<lambda>t.
     bind_io (context_io (''Azure container probe failed for '' @ [squote] @ az_container c @ [squote]
         @ '' in account '' @ [squote] @ az_account c @ [squote]) (outside (az_send c (container_probe c t)))) (\<lambda>resp.
     if \<not> is_success (az_status resp)
     then fail (''Azure container is not accessible (HTTP '' @ az_status_text c (az_status resp)
       @ ''). Check account name, container name, and RBAC permissions ''
       @ ''(Storage Blob Data Contributor or Storage Blob Data Owner).'')
     else ok c))) (None, s)"

section \<open>Facts\<close>

text \<open>A region code is left as it is, and found in what a console displays.\<close>

lemma takeWhile_run: "list_all P a \<Longrightarrow> \<not> P c \<Longrightarrow> takeWhile P (a @ c # s) = a \<and> dropWhile P (a @ c # s) = c # s"
  by (induction a) auto

lemma region_at_code:
  assumes "list_all lower_letter a" "2 \<le> length a" "list_all lower_letter b" "b \<noteq> []"
    and "digits_run other_digit d = d" "d \<noteq> []"
  shows "region_at other_digit (a @ ''-'' @ b @ ''-'' @ d) = Some (a @ ''-'' @ b @ ''-'' @ d)"
proof -
  have dash: "\<not> lower_letter (CHR ''-'')" by (simp add: lower_letter_def)
  let ?r = "a @ ''-'' @ b @ ''-'' @ d"
  have one: "takeWhile lower_letter ?r = a" "dropWhile lower_letter ?r = ''-'' @ b @ ''-'' @ d"
    using takeWhile_run [OF assms(1) dash, of "b @ ''-'' @ d"] by simp_all
  have two: "takeWhile lower_letter (b @ ''-'' @ d) = b" "dropWhile lower_letter (b @ ''-'' @ d) = ''-'' @ d"
    using takeWhile_run [OF assms(3) dash, of d] by simp_all
  have heads: "prefix ''-'' (''-'' @ x)" "tl (''-'' @ x) = x" for x by simp_all
  have long: "\<not> length a < 2" using assms(2) by simp
  show ?thesis unfolding region_at_def Let_def one heads two assms(5) using long assms(4,6) by simp
qed

lemma region_code_kept:
  assumes "list_all lower_letter a" "2 \<le> length a" "list_all lower_letter b" "b \<noteq> []"
    and "digits_run other_digit d = d" "d \<noteq> []" and "trim (a @ ''-'' @ b @ ''-'' @ d) = a @ ''-'' @ b @ ''-'' @ d"
  shows "normalize_aws_region other_digit (a @ ''-'' @ b @ ''-'' @ d) = a @ ''-'' @ b @ ''-'' @ d"
proof -
  have "find_region other_digit (a @ ''-'' @ b @ ''-'' @ d) = Some (a @ ''-'' @ b @ ''-'' @ d)"
    using region_at_code [OF assms(1-6)] assms(2) by (cases a) simp_all
  moreover have "a @ ''-'' @ b @ ''-'' @ d \<noteq> []" by simp
  ultimately show ?thesis unfolding normalize_aws_region_def Let_def assms(7) by (simp only: if_False option.case)
qed

lemma displayed_region: "normalize_aws_region (\<lambda>_. 0) ''US East (N. Virginia) us-east-1'' = ''us-east-1''"
  by code_simp

text \<open>An Azure backend has a token in its cache, and the container answered with it.\<close>

lemma azure_new_probed:
  assumes "azure_new http c s = (Inr b, (cache, s'))"
  obtains t s1 resp where "renew_token c (None, s) = (Inr t, (cache, s1))"
    "az_send c (container_probe c t) s1 = (Inr resp, s')" "is_success (az_status resp)" "b = c"
proof -
  have fresh: "acquire_token c (None, s) = renew_token c (None, s)" by (simp add: acquire_token_def)
  have apart: "outside m p = (Inr x, q) \<longleftrightarrow> m (snd p) = (Inr x, snd q) \<and> fst q = fst p"
    for m :: "('s, az_response) io" and p q x
    by (cases p; cases q) (auto simp: outside_def split: prod.splits)
  from assms obtain t p resp where "acquire_token c (None, s) = (Inr t, p)"
      "outside (az_send c (container_probe c t)) p = (Inr resp, (cache, s'))"
      "is_success (az_status resp)" "b = c"
    unfolding azure_new_def bind_io_Inr_iff context_io_Inr_iff lift_result_def
    by (auto simp only: prod.inject sum.inject fail_apply ok_apply split: if_split_asm)
  then show thesis using that by (cases p) (simp add: apart fresh)
qed

end
